(* ===== verification/Prelude.thy ===== *)
theory Prelude
  imports Main
begin

text \<open>
  Shared vocabulary of the development.  The server keeps its state in PostgreSQL tables
  (apps/server/src/session-database.ts, control-database.ts) and the client keeps a SQLite
  journal (apps/client/src/journal.ts); a table is a list of rows in insertion order, and
  the statements the code issues are the four list functions of the section on tables.
  Strings are lists of code units, instants are integers counting milliseconds (what
  \<open>Date.parse\<close> and \<open>Date.now\<close> return), and a thrown JavaScript exception is the left
  side of a sum.
\<close>

section \<open>Names and collections\<close>

type_synonym ident = string
type_synonym instant = int

named_theorems table_simps \<open>rewriting of the table operations\<close>
named_theorems row_simps \<open>projections of rows to the records the code returns\<close>
named_theorems frame_simps \<open>components of a state that an operation leaves alone\<close>

datatype exn = Exn string | SessionClientUnavailableError

section \<open>Tables\<close>

definition sql_first :: "('r \<Rightarrow> bool) \<Rightarrow> 'r list \<Rightarrow> 'r option" where
  "sql_first P t = find P t"

definition sql_where :: "('r \<Rightarrow> bool) \<Rightarrow> 'r list \<Rightarrow> 'r list" where
  "sql_where P t = filter P t"

definition sql_update :: "('r \<Rightarrow> bool) \<Rightarrow> ('r \<Rightarrow> 'r) \<Rightarrow> 'r list \<Rightarrow> 'r list" where
  "sql_update P f t = map (\<lambda>r. if P r then f r else r) t"

definition sql_delete :: "('r \<Rightarrow> bool) \<Rightarrow> 'r list \<Rightarrow> 'r list" where
  "sql_delete P t = filter (\<lambda>r. \<not> P r) t"

definition sql_count :: "('r \<Rightarrow> bool) \<Rightarrow> 'r list \<Rightarrow> nat" where
  "sql_count P t = length (filter P t)"

text \<open>
  \<open>update ... returning *\<close> with \<open>executeTakeFirst\<close>: the first row the statement updated, in
  its new form.
\<close>

definition sql_returning :: "('r \<Rightarrow> bool) \<Rightarrow> ('r \<Rightarrow> 'r) \<Rightarrow> 'r list \<Rightarrow> 'r option" where
  "sql_returning P f t = map_option f (sql_first P t)"

text \<open>\<open>order by k desc\<close>: the stable sort of the reversed key order.\<close>

definition sort_desc :: "('r \<Rightarrow> int) \<Rightarrow> 'r list \<Rightarrow> 'r list" where
  "sort_desc k t = sort_key (\<lambda>r. - k r) t"

text \<open>\<open>Math.min(Math.max(limit, 1), cap)\<close>, the bound every listing puts on its limit.\<close>

definition clamp_limit :: "int \<Rightarrow> int \<Rightarrow> nat" where
  "clamp_limit limit cap = nat (min (max limit 1) cap)"

lemma set_sql_where [simp]: "set (sql_where P t) = {r \<in> set t. P r}"
  by (simp add: sql_where_def)

lemma set_sql_delete [simp]: "set (sql_delete P t) = {r \<in> set t. \<not> P r}"
  by (simp add: sql_delete_def)

lemma set_sql_update [simp]:
  "set (sql_update P f t) = (\<lambda>r. if P r then f r else r) ` set t"
  by (simp add: sql_update_def)

lemma sql_update_Nil [simp]: "sql_update P f [] = []"
  by (simp add: sql_update_def)

lemma sql_update_Cons [simp]:
  "sql_update P f (r # t) = (if P r then f r else r) # sql_update P f t"
  by (simp add: sql_update_def)

lemma length_sql_update [simp]: "length (sql_update P f t) = length t"
  by (simp add: sql_update_def)

lemma map_sql_update [table_simps]:
  "(\<And>r. k (f r) = k r) \<Longrightarrow> map k (sql_update P f t) = map k t"
  by (auto simp: sql_update_def)

lemma sql_update_id [simp]: "(\<And>r. r \<in> set t \<Longrightarrow> \<not> P r) \<Longrightarrow> sql_update P f t = t"
  by (induction t) (auto simp: sql_update_def)

lemma sql_first_Nil [simp]: "sql_first P [] = None"
  by (simp add: sql_first_def)

lemma sql_first_Cons [simp]: "sql_first P (r # t) = (if P r then Some r else sql_first P t)"
  by (simp add: sql_first_def)

lemma sql_first_SomeD: "sql_first P t = Some r \<Longrightarrow> r \<in> set t \<and> P r"
  by (auto simp: sql_first_def find_Some_iff)

lemma sql_first_NoneD: "sql_first P t = None \<Longrightarrow> r \<in> set t \<Longrightarrow> \<not> P r"
  by (auto simp: sql_first_def find_None_iff)

lemma sql_first_None_iff: "sql_first P t = None \<longleftrightarrow> (\<forall>r \<in> set t. \<not> P r)"
  by (auto simp: sql_first_def find_None_iff)

lemma sql_first_append:
  "sql_first P (t @ u) = (case sql_first P t of None \<Rightarrow> sql_first P u | Some r \<Rightarrow> Some r)"
  by (induction t) auto

lemma sql_first_cong_ex: "\<exists>r \<in> set t. P r \<Longrightarrow> \<exists>r. sql_first P t = Some r"
  by (meson not_None_eq sql_first_NoneD)

lemma sql_count_append [simp]: "sql_count P (t @ u) = sql_count P t + sql_count P u"
  by (simp add: sql_count_def)

lemma sql_count_Nil [simp]: "sql_count P [] = 0"
  by (simp add: sql_count_def)

lemma sql_count_Cons [simp]: "sql_count P (r # t) = (if P r then 1 else 0) + sql_count P t"
  by (simp add: sql_count_def)

lemma sql_count_update_le:
  "(\<And>r. r \<in> set t \<Longrightarrow> P r \<Longrightarrow> Q (f r) \<Longrightarrow> Q r) \<Longrightarrow> sql_count Q (sql_update P f t) \<le> sql_count Q t"
proof (induction t)
  case (Cons r t)
  then have "sql_count Q (sql_update P f t) \<le> sql_count Q t" by simp
  with Cons.prems[of r] show ?case by auto
qed simp

text \<open>A table with a key: the key determines the row, whatever statement selected it.\<close>

lemma distinct_key_eq:
  "distinct (map k t) \<Longrightarrow> r \<in> set t \<Longrightarrow> r' \<in> set t \<Longrightarrow> k r = k r' \<Longrightarrow> r = r'"
  by (metis distinct_map inj_onD)

lemma sql_first_key:
  assumes "distinct (map k t)" "r \<in> set t" "P r" "\<And>r'. P r' \<Longrightarrow> k r' = k r"
  shows "sql_first P t = Some r"
proof -
  obtain r' where r': "sql_first P t = Some r'" using assms sql_first_cong_ex by metis
  then have "r' \<in> set t" "P r'" by (auto dest: sql_first_SomeD)
  with assms have "r' = r" by (blast intro: distinct_key_eq)
  with r' show ?thesis by simp
qed

lemma sql_first_update_key:
  assumes "distinct (map k t)" "\<And>r. k (f r) = k r" "sql_first P t = Some r"
    and "\<And>r'. Q r' \<Longrightarrow> k r' = k r" "Q (if U r then f r else r)"
  shows "sql_first Q (sql_update U f t) = Some (if U r then f r else r)"
proof (rule sql_first_key[where k = k])
  show "distinct (map k (sql_update U f t))" using assms by (simp add: map_sql_update)
  from assms(3) have "r \<in> set t" by (auto dest: sql_first_SomeD)
  then show "(if U r then f r else r) \<in> set (sql_update U f t)" by auto
qed (use assms in auto)

lemma ball_sql_update:
  "(\<And>r. r \<in> set t \<Longrightarrow> Q r) \<Longrightarrow> (\<And>r. r \<in> set t \<Longrightarrow> P r \<Longrightarrow> Q (f r)) \<Longrightarrow>
   r' \<in> set (sql_update P f t) \<Longrightarrow> Q r'"
  by (auto split: if_splits)

lemma clamp_limit_le: "1 \<le> cap \<Longrightarrow> clamp_limit n cap \<le> nat cap \<and> 1 \<le> clamp_limit n cap"
  by (auto simp: clamp_limit_def)

lemma set_sort_desc [simp]: "set (sort_desc k t) = set t"
  by (simp add: sort_desc_def)

section \<open>Numbers\<close>

text \<open>The integers \<open>Number.isSafeInteger\<close> accepts, and with it \<open>z.number().int()\<close>.\<close>

definition MAX_SAFE_INTEGER :: int where
  "MAX_SAFE_INTEGER = 2 ^ 53 - 1"

definition safe_integer :: "int \<Rightarrow> bool" where
  "safe_integer n \<longleftrightarrow> - MAX_SAFE_INTEGER \<le> n \<and> n \<le> MAX_SAFE_INTEGER"

section \<open>Strings\<close>

text \<open>The white space \<open>String.prototype.trim\<close> strips, in the range of a code unit below 256.\<close>

definition js_space :: "char \<Rightarrow> bool" where
  "js_space c \<longleftrightarrow> of_char c \<in> {9, 10, 11, 12, 13, 32, 160 :: nat}"

definition js_trim :: "string \<Rightarrow> string" where
  "js_trim s = rev (dropWhile js_space (rev (dropWhile js_space s)))"

text \<open>The lower case of an ASCII letter.\<close>

definition lower_unit :: "char \<Rightarrow> char" where
  "lower_unit c = (let n = of_char c :: nat in if 65 \<le> n \<and> n \<le> 90 then char_of (n + 32) else c)"

definition nul :: char where
  "nul = char_of (0 :: nat)"

definition length_between :: "nat \<Rightarrow> nat \<Rightarrow> string \<Rightarrow> bool" where
  "length_between lo hi s \<longleftrightarrow> lo \<le> length s \<and> length s \<le> hi"

lemma length_dropWhile_le': "length (dropWhile P xs) \<le> length xs"
  by (induction xs) auto

lemma js_trim_length: "length (js_trim s) \<le> length s"
  unfolding js_trim_def
  by (metis length_dropWhile_le' length_rev order_trans)

lemma dropWhile_rev_id:
  "dropWhile P xs = xs \<Longrightarrow> dropWhile P (rev (dropWhile P (rev xs))) = rev (dropWhile P (rev xs))"
proof (induction xs rule: rev_induct)
  case (snoc x xs)
  show ?case
  proof (cases "P x")
    case True
    then have "xs = [] \<or> dropWhile P xs = xs"
      using snoc.prems by (metis append_Cons dropWhile_append3 dropWhile_eq_Cons_conv dropWhile_eq_self_iff hd_append2 append_is_Nil_conv)
    with True snoc.IH show ?thesis by auto
  next
    case False
    with snoc.prems show ?thesis by simp
  qed
qed simp

lemma dropWhile_idem': "dropWhile P (dropWhile P xs) = dropWhile P xs"
  by (induction xs) auto

lemma js_trim_idem: "js_trim (js_trim s) = js_trim s"
proof -
  let ?d = "dropWhile js_space s"
  let ?t = "rev (dropWhile js_space (rev ?d))"
  have "dropWhile js_space ?t = ?t"
    by (rule dropWhile_rev_id) (rule dropWhile_idem')
  then show ?thesis by (simp add: js_trim_def dropWhile_idem')
qed

end
