(* ===== verification/Protocol.thy ===== *)
theory Protocol
  imports Prelude
begin

text \<open>
  The wire contract of packages/protocol/src (index.ts, session.ts): constants, statuses,
  the records the server and the client exchange, the zod schemas as parsers, and the two
  pure authority decisions.  A schema is a partial function on a message of the right
  shape: it returns the message with the trimmed fields zod returns, or \<open>None\<close> where zod
  reports an issue.  \<open>z.uuid\<close> belongs to the zod package, so it is the parameter \<open>uuid\<close>;
  an ISO timestamp is the instant it denotes.
\<close>

section \<open>Constants\<close>

definition PROTOCOL_VERSION :: int where "PROTOCOL_VERSION = 5"

definition MAX_CLIENT_CLOCK_SKEW_MILLISECONDS :: int where
  "MAX_CLIENT_CLOCK_SKEW_MILLISECONDS = 30000"

definition MAX_SESSION_DURATION_SECONDS :: int where
  "MAX_SESSION_DURATION_SECONDS = 24 * 60 * 60"

definition SESSION_DURATION_SECONDS :: "int list" where
  "SESSION_DURATION_SECONDS =
     [15 * 60, 60 * 60, 2 * 60 * 60, 6 * 60 * 60, 8 * 60 * 60, 24 * 60 * 60]"

definition DEFAULT_COMMAND_TIMEOUT_SECONDS :: int where
  "DEFAULT_COMMAND_TIMEOUT_SECONDS = 10 * 60"

definition MAX_COMMAND_TIMEOUT_SECONDS :: int where
  "MAX_COMMAND_TIMEOUT_SECONDS = MAX_SESSION_DURATION_SECONDS"

definition DEFAULT_COMMAND_OUTPUT_BYTES :: int where
  "DEFAULT_COMMAND_OUTPUT_BYTES = 1024 * 1024"

definition MAX_COMMAND_OUTPUT_BYTES :: int where
  "MAX_COMMAND_OUTPUT_BYTES = 16 * 1024 * 1024"

lemmas protocol_constants =
  PROTOCOL_VERSION_def MAX_CLIENT_CLOCK_SKEW_MILLISECONDS_def MAX_SESSION_DURATION_SECONDS_def
  SESSION_DURATION_SECONDS_def DEFAULT_COMMAND_TIMEOUT_SECONDS_def MAX_COMMAND_TIMEOUT_SECONDS_def
  DEFAULT_COMMAND_OUTPUT_BYTES_def MAX_COMMAND_OUTPUT_BYTES_def

section \<open>Sessions, Commands and Local Policy\<close>

datatype session_status =
    S_pending_approval | S_opening | S_active | S_completed | S_cancellation_requested
  | S_cancelled | S_revoked | S_expired | S_failed

datatype command_status =
    C_queued | C_delivered | C_running | C_cancellation_requested
  | C_succeeded | C_failed | C_cancelled | C_timed_out | C_execution_unknown

record session_request =
  sr_machineId :: ident
  sr_title :: string
  sr_purpose :: "string option"
  sr_durationSeconds :: int

record session =
  ses_id :: ident
  ses_organizationId :: ident
  ses_agentId :: ident
  ses_machineId :: ident
  ses_clientProfileId :: ident
  ses_operatingSystemUser :: string
  ses_title :: string
  ses_purpose :: "string option"
  ses_status :: session_status
  ses_maxConcurrentCommands :: int
  ses_createdAt :: instant
  ses_readyAt :: "instant option"
  ses_expiresAt :: instant
  ses_finishedAt :: "instant option"

record command_input =
  ci_command :: string
  ci_cwd :: "string option"
  ci_timeoutSeconds :: "int option"

record command_request =
  cr_command :: string
  cr_cwd :: "string option"
  cr_timeoutSeconds :: int

record command =
  cmd_id :: ident
  cmd_sessionId :: ident
  cmd_organizationId :: ident
  cmd_agentId :: ident
  cmd_machineId :: ident
  cmd_command :: string
  cmd_cwd :: "string option"
  cmd_timeoutSeconds :: int
  cmd_status :: command_status
  cmd_createdAt :: instant
  cmd_startedAt :: "instant option"
  cmd_finishedAt :: "instant option"
  cmd_exitCode :: "int option"
  cmd_outputTruncated :: bool
  cmd_stdoutBytes :: int
  cmd_stderrBytes :: int
  cmd_error :: "string option"

record local_policy =
  lp_organizationId :: ident
  lp_maxSessionDurationSeconds :: int
  lp_maxConcurrentSessions :: int
  lp_maxConcurrentCommands :: int
  lp_maxCommandTimeoutSeconds :: int
  lp_maxCommandOutputBytes :: int
  lp_allowRemoteApproval :: bool

record client_session_profile =
  csp_id :: ident
  csp_operatingSystemUser :: string
  csp_localPolicy :: local_policy

section \<open>Request and policy schemas\<close>

definition parse_trimmed :: "nat \<Rightarrow> nat \<Rightarrow> string \<Rightarrow> string option" where
  "parse_trimmed lo hi s =
     (let t = js_trim s in if length_between lo hi t then Some t else None)"

definition idSchema :: "string \<Rightarrow> string option" where
  "idSchema = parse_trimmed 1 256"

definition sessionRequestSchema :: "(string \<Rightarrow> bool) \<Rightarrow> session_request \<Rightarrow> session_request option" where
  "sessionRequestSchema uuid r =
     (let title = js_trim (sr_title r); purpose = map_option js_trim (sr_purpose r) in
      if uuid (sr_machineId r) \<and> length_between 1 96 title
         \<and> (case purpose of None \<Rightarrow> True | Some p \<Rightarrow> length_between 1 280 p)
         \<and> sr_durationSeconds r \<in> set SESSION_DURATION_SECONDS
      then Some (r\<lparr>sr_title := title, sr_purpose := purpose\<rparr>) else None)"

definition session_times_ok :: "session \<Rightarrow> bool" where
  "session_times_ok s =
     (let createdAt = ses_createdAt s;
          readyAt = (case ses_readyAt s of None \<Rightarrow> createdAt | Some t \<Rightarrow> t);
          expiresAt = ses_expiresAt s
      in \<not> (readyAt < createdAt \<or> expiresAt \<le> readyAt
            \<or> expiresAt - readyAt > MAX_SESSION_DURATION_SECONDS * 1000))"

definition ascii_letter :: "char \<Rightarrow> bool" where
  "ascii_letter c \<longleftrightarrow> (let n = of_char c :: nat in (65 \<le> n \<and> n \<le> 90) \<or> (97 \<le> n \<and> n \<le> 122))"

definition backslash :: char where
  "backslash = char_of (92 :: nat)"

text \<open>\<open>^[A-Za-z]:[\\/]\<close>\<close>

definition drive_path :: "string \<Rightarrow> bool" where
  "drive_path s = (case s of
       d # c # sep # _ \<Rightarrow> ascii_letter d \<and> c = CHR '':'' \<and> (sep = backslash \<or> sep = CHR ''/'')
     | _ \<Rightarrow> False)"

text \<open>Two backslashes, a server name, a backslash and the first unit of a share name.\<close>

definition unc_path :: "string \<Rightarrow> bool" where
  "unc_path s = (case s of
       a # b # rest \<Rightarrow> a = backslash \<and> b = backslash
         \<and> takeWhile (\<lambda>c. c \<noteq> backslash) rest \<noteq> []
         \<and> (case dropWhile (\<lambda>c. c \<noteq> backslash) rest of
              _ # c # _ \<Rightarrow> c \<noteq> backslash | _ \<Rightarrow> False)
     | _ \<Rightarrow> False)"

definition absoluteHostPathSchema :: "string \<Rightarrow> bool" where
  "absoluteHostPathSchema s \<longleftrightarrow>
     length_between 1 4096 s \<and> nul \<notin> set s
     \<and> (take 1 s = ''/'' \<or> drive_path s \<or> unc_path s)"

definition commandRequestSchema :: "command_input \<Rightarrow> command_request option" where
  "commandRequestSchema r =
     (let timeout = (case ci_timeoutSeconds r of None \<Rightarrow> DEFAULT_COMMAND_TIMEOUT_SECONDS | Some t \<Rightarrow> t) in
      if length_between 1 65536 (ci_command r) \<and> nul \<notin> set (ci_command r)
         \<and> (case ci_cwd r of None \<Rightarrow> True | Some d \<Rightarrow> absoluteHostPathSchema d)
         \<and> 1 \<le> timeout \<and> timeout \<le> MAX_COMMAND_TIMEOUT_SECONDS
      then Some \<lparr>cr_command = ci_command r, cr_cwd = ci_cwd r, cr_timeoutSeconds = timeout\<rparr>
      else None)"

text \<open>\<open>sessionSchema\<close> and \<open>commandSchema\<close>, as the predicates that a stored record parses.\<close>

definition sessionSchema :: "(string \<Rightarrow> bool) \<Rightarrow> session \<Rightarrow> session option" where
  "sessionSchema uuid s =
     (case (idSchema (ses_organizationId s), idSchema (ses_agentId s), idSchema (ses_clientProfileId s),
            parse_trimmed 1 256 (ses_operatingSystemUser s), parse_trimmed 1 96 (ses_title s)) of
        (Some org, Some agent, Some profile, Some user, Some title) \<Rightarrow>
          (let purpose = map_option js_trim (ses_purpose s) in
           if uuid (ses_id s) \<and> uuid (ses_machineId s)
              \<and> (case purpose of None \<Rightarrow> True | Some p \<Rightarrow> length_between 1 280 p)
              \<and> 1 \<le> ses_maxConcurrentCommands s \<and> ses_maxConcurrentCommands s \<le> 16
              \<and> session_times_ok s
           then Some (s\<lparr>ses_organizationId := org, ses_agentId := agent, ses_clientProfileId := profile,
                        ses_operatingSystemUser := user, ses_title := title, ses_purpose := purpose\<rparr>)
           else None)
      | _ \<Rightarrow> None)"

definition commandSchema :: "(string \<Rightarrow> bool) \<Rightarrow> command \<Rightarrow> command option" where
  "commandSchema uuid c =
     (case (idSchema (cmd_organizationId c), idSchema (cmd_agentId c)) of
        (Some org, Some agent) \<Rightarrow>
          (if uuid (cmd_id c) \<and> uuid (cmd_sessionId c) \<and> uuid (cmd_machineId c)
              \<and> length_between 1 65536 (cmd_command c)
              \<and> (case cmd_cwd c of None \<Rightarrow> True | Some d \<Rightarrow> absoluteHostPathSchema d)
              \<and> 1 \<le> cmd_timeoutSeconds c \<and> cmd_timeoutSeconds c \<le> MAX_COMMAND_TIMEOUT_SECONDS
              \<and> 0 \<le> cmd_stdoutBytes c \<and> 0 \<le> cmd_stderrBytes c
              \<and> (case cmd_error c of None \<Rightarrow> True | Some e \<Rightarrow> length e \<le> 2048)
           then Some (c\<lparr>cmd_organizationId := org, cmd_agentId := agent\<rparr>) else None)
      | _ \<Rightarrow> None)"

definition localPolicySchema :: "local_policy \<Rightarrow> local_policy option" where
  "localPolicySchema p =
     (case idSchema (lp_organizationId p) of
        None \<Rightarrow> None
      | Some org \<Rightarrow>
          if 60 \<le> lp_maxSessionDurationSeconds p \<and> lp_maxSessionDurationSeconds p \<le> MAX_SESSION_DURATION_SECONDS
             \<and> 1 \<le> lp_maxConcurrentSessions p \<and> lp_maxConcurrentSessions p \<le> 32
             \<and> 1 \<le> lp_maxConcurrentCommands p \<and> lp_maxConcurrentCommands p \<le> 16
             \<and> 1 \<le> lp_maxCommandTimeoutSeconds p \<and> lp_maxCommandTimeoutSeconds p \<le> MAX_COMMAND_TIMEOUT_SECONDS
             \<and> 1024 \<le> lp_maxCommandOutputBytes p \<and> lp_maxCommandOutputBytes p \<le> MAX_COMMAND_OUTPUT_BYTES
          then Some (p\<lparr>lp_organizationId := org\<rparr>) else None)"

definition clientSessionProfileSchema :: "client_session_profile \<Rightarrow> client_session_profile option" where
  "clientSessionProfileSchema p =
     (case (idSchema (csp_id p), parse_trimmed 1 256 (csp_operatingSystemUser p),
            localPolicySchema (csp_localPolicy p)) of
        (Some i, Some u, Some l) \<Rightarrow>
          Some (p\<lparr>csp_id := i, csp_operatingSystemUser := u, csp_localPolicy := l\<rparr>)
      | _ \<Rightarrow> None)"

section \<open>Authority decisions\<close>

datatype local_session_denial =
  organization_denied | duration_denied | session_concurrency_denied | command_concurrency_denied

definition localSessionDecision ::
    "local_policy \<Rightarrow> ident \<Rightarrow> int \<Rightarrow> int \<Rightarrow> int \<Rightarrow> local_session_denial option" where
  "localSessionDecision policy organizationId durationSeconds activeSessions maxConcurrentCommands =
     (if organizationId \<noteq> lp_organizationId policy then Some organization_denied
      else if durationSeconds > lp_maxSessionDurationSeconds policy then Some duration_denied
      else if activeSessions \<ge> lp_maxConcurrentSessions policy then Some session_concurrency_denied
      else if maxConcurrentCommands > lp_maxConcurrentCommands policy then Some command_concurrency_denied
      else None)"

datatype command_denial =
  session_not_active | session_expired | timeout_exceeds_session | timeout_exceeds_local_policy

text \<open>\<open>Inr\<close> carries the timeout of an allowed Command; \<open>Math.floor\<close> of the quotient is \<open>div\<close>.\<close>

definition commandDecision :: "session \<Rightarrow> int \<Rightarrow> int \<Rightarrow> instant \<Rightarrow> command_denial + int" where
  "commandDecision session timeoutSeconds maxCommandTimeoutSeconds now =
     (if ses_status session \<noteq> S_active then Inl session_not_active
      else
        let remainingSeconds = (ses_expiresAt session - now) div 1000 in
        if remainingSeconds \<le> 0 then Inl session_expired
        else if timeoutSeconds > maxCommandTimeoutSeconds then Inl timeout_exceeds_local_policy
        else if timeoutSeconds > remainingSeconds then Inl timeout_exceeds_session
        else Inr timeoutSeconds)"

section \<open>Messages\<close>

datatype stream = stdout | stderr

record session_open_msg =
  so_sessionId :: ident
  so_organizationId :: ident
  so_agentId :: ident
  so_clientProfileId :: ident
  so_expiresAt :: instant
  so_maxConcurrentCommands :: int
  so_serverTime :: instant

record command_start_msg =
  cs_commandId :: ident
  cs_sessionId :: ident
  cs_command :: string
  cs_cwd :: "string option"
  cs_timeoutSeconds :: int
  cs_maxOutputBytes :: int

datatype server_message =
    SM_challenge ident string
  | SM_authenticated ident
  | SM_error string
  | SM_ping ident
  | SM_session_open session_open_msg
  | SM_session_close ident string
  | SM_command_start command_start_msg
  | SM_command_cancel ident
  | SM_command_acknowledged ident

datatype host_platform = linux | macos | windows

datatype privilege_escalation = escalation_none | escalation_sudo

record runtime_info =
  ri_hostPlatform :: host_platform
  ri_architecture :: string
  ri_defaultShell :: string
  ri_privilegeEscalation :: "privilege_escalation option"
  ri_nodeVersion :: string
  ri_protocolVersion :: "int option"
  ri_clientVersion :: "string option"

record authenticate_msg =
  au_machineId :: ident
  au_protocolVersion :: int
  au_signature :: string
  au_runtime :: "runtime_info option"
  au_sessionProfile :: client_session_profile

record command_output_msg =
  co_commandId :: ident
  co_sequence :: int
  co_stream :: stream
  co_dataBase64 :: string

record command_completed_msg =
  cc_commandId :: ident
  cc_status :: command_status
  cc_exitCode :: "int option"
  cc_error :: "string option"
  cc_outputTruncated :: bool
  cc_at :: instant

datatype client_message =
    CM_authenticate authenticate_msg
  | CM_heartbeat ident instant
  | CM_pong ident ident
  | CM_session_opened ident ident string
  | CM_session_open_failed ident string
  | CM_session_closed ident string
  | CM_command_started ident instant
  | CM_command_output command_output_msg
  | CM_command_completed command_completed_msg

section \<open>Message schemas\<close>

definition base64url_unit :: "char \<Rightarrow> bool" where
  "base64url_unit c \<longleftrightarrow> ascii_letter c \<or> (48 \<le> (of_char c :: nat) \<and> (of_char c :: nat) \<le> 57)
     \<or> c = CHR ''_'' \<or> c = CHR ''-''"

text \<open>\<open>.optional()\<close>: an absent field stays absent.\<close>

definition parse_optional :: "('a \<Rightarrow> 'a option) \<Rightarrow> 'a option \<Rightarrow> 'a option option" where
  "parse_optional f x = (case x of None \<Rightarrow> Some None | Some y \<Rightarrow> map_option Some (f y))"

definition clientRuntimeInfoSchema :: "runtime_info \<Rightarrow> runtime_info option" where
  "clientRuntimeInfoSchema r =
     (case (parse_trimmed 1 64 (ri_architecture r), parse_trimmed 1 4096 (ri_defaultShell r),
            parse_trimmed 1 64 (ri_nodeVersion r),
            parse_optional (parse_trimmed 1 64) (ri_clientVersion r)) of
        (Some a, Some s, Some n, Some v) \<Rightarrow>
          (if (case ri_protocolVersion r of None \<Rightarrow> True | Some pv \<Rightarrow> 0 < pv \<and> safe_integer pv)
           then Some (r\<lparr>ri_architecture := a, ri_defaultShell := s, ri_nodeVersion := n,
                        ri_clientVersion := v\<rparr>)
           else None)
      | _ \<Rightarrow> None)"

definition serverControlMessageSchema :: "(string \<Rightarrow> bool) \<Rightarrow> server_message \<Rightarrow> server_message option" where
  "serverControlMessageSchema uuid m = (case m of
       SM_challenge c n \<Rightarrow>
         (if uuid c \<and> length_between 32 128 n \<and> list_all base64url_unit n then Some m else None)
     | SM_authenticated i \<Rightarrow> (if uuid i then Some m else None)
     | SM_error t \<Rightarrow> map_option SM_error (parse_trimmed 1 2048 t)
     | SM_ping i \<Rightarrow> (if uuid i then Some m else None)
     | _ \<Rightarrow> None)"

definition sessionServerToClientMessageSchema :: "(string \<Rightarrow> bool) \<Rightarrow> server_message \<Rightarrow> server_message option" where
  "sessionServerToClientMessageSchema uuid m = (case m of
       SM_session_open m0 \<Rightarrow>
         (case (idSchema (so_organizationId m0), idSchema (so_agentId m0), idSchema (so_clientProfileId m0)) of
            (Some org, Some agent, Some profile) \<Rightarrow>
              (if uuid (so_sessionId m0)
                  \<and> 1 \<le> so_maxConcurrentCommands m0 \<and> so_maxConcurrentCommands m0 \<le> 16
               then Some (SM_session_open
                      (m0\<lparr>so_organizationId := org, so_agentId := agent, so_clientProfileId := profile\<rparr>))
               else None)
          | _ \<Rightarrow> None)
     | SM_session_close i reason \<Rightarrow>
         (if uuid i then map_option (SM_session_close i) (parse_trimmed 1 256 reason) else None)
     | SM_command_start c \<Rightarrow>
         (if uuid (cs_commandId c) \<and> uuid (cs_sessionId c)
             \<and> length_between 1 65536 (cs_command c) \<and> nul \<notin> set (cs_command c)
             \<and> (case cs_cwd c of None \<Rightarrow> True | Some d \<Rightarrow> absoluteHostPathSchema d)
             \<and> 1 \<le> cs_timeoutSeconds c \<and> cs_timeoutSeconds c \<le> MAX_COMMAND_TIMEOUT_SECONDS
             \<and> 1024 \<le> cs_maxOutputBytes c \<and> cs_maxOutputBytes c \<le> MAX_COMMAND_OUTPUT_BYTES
          then Some m else None)
     | SM_command_cancel i \<Rightarrow> (if uuid i then Some m else None)
     | SM_command_acknowledged i \<Rightarrow> (if uuid i then Some m else None)
     | _ \<Rightarrow> None)"

text \<open>\<open>z.union\<close> takes the first member that parses.\<close>

definition serverMessageSchema :: "(string \<Rightarrow> bool) \<Rightarrow> server_message \<Rightarrow> server_message option" where
  "serverMessageSchema uuid m = (case serverControlMessageSchema uuid m of
       Some m' \<Rightarrow> Some m' | None \<Rightarrow> sessionServerToClientMessageSchema uuid m)"

text \<open>\<open>4 * Math.ceil((256 * 1024) / 3)\<close>\<close>

definition max_chunk_base64 :: nat where
  "max_chunk_base64 = 4 * ((256 * 1024 + 2) div 3)"

definition completion_status :: "command_status \<Rightarrow> bool" where
  "completion_status st \<longleftrightarrow> st \<notin> {C_queued, C_delivered, C_running, C_cancellation_requested}"

definition clientControlMessageSchema :: "(string \<Rightarrow> bool) \<Rightarrow> client_message \<Rightarrow> client_message option" where
  "clientControlMessageSchema uuid m = (case m of
       CM_authenticate a \<Rightarrow>
         (if uuid (au_machineId a) \<and> 0 < au_protocolVersion a \<and> safe_integer (au_protocolVersion a)
             \<and> length_between 1 1024 (au_signature a) \<and> list_all base64url_unit (au_signature a)
          then (case clientSessionProfileSchema (au_sessionProfile a) of
                  None \<Rightarrow> None
                | Some p \<Rightarrow>
                    (case au_runtime a of
                       None \<Rightarrow> Some (CM_authenticate (a\<lparr>au_sessionProfile := p\<rparr>))
                     | Some r \<Rightarrow> (case clientRuntimeInfoSchema r of
                           None \<Rightarrow> None
                         | Some r' \<Rightarrow> Some (CM_authenticate
                               (a\<lparr>au_runtime := Some r', au_sessionProfile := p\<rparr>)))))
          else None)
     | CM_heartbeat i _ \<Rightarrow> (if uuid i then Some m else None)
     | CM_pong i p \<Rightarrow> (if uuid i \<and> uuid p then Some m else None)
     | _ \<Rightarrow> None)"

definition sessionClientToServerMessageSchema :: "(string \<Rightarrow> bool) \<Rightarrow> client_message \<Rightarrow> client_message option" where
  "sessionClientToServerMessageSchema uuid m = (case m of
       CM_session_opened i profile user \<Rightarrow>
         (case (idSchema profile, parse_trimmed 1 256 user) of
            (Some p, Some u) \<Rightarrow> (if uuid i then Some (CM_session_opened i p u) else None)
          | _ \<Rightarrow> None)
     | CM_session_open_failed i err \<Rightarrow>
         (if uuid i \<and> length_between 1 2048 err then Some m else None)
     | CM_session_closed i reason \<Rightarrow>
         (if uuid i then map_option (CM_session_closed i) (parse_trimmed 1 256 reason) else None)
     | CM_command_started i _ \<Rightarrow> (if uuid i then Some m else None)
     | CM_command_output c \<Rightarrow>
         (if uuid (co_commandId c) \<and> 0 \<le> co_sequence c \<and> co_sequence c \<le> 1000000
             \<and> length (co_dataBase64 c) \<le> max_chunk_base64
          then Some m else None)
     | CM_command_completed c \<Rightarrow>
         (if uuid (cc_commandId c) \<and> completion_status (cc_status c)
             \<and> (case cc_exitCode c of None \<Rightarrow> True | Some e \<Rightarrow> safe_integer e)
             \<and> (case cc_error c of None \<Rightarrow> True | Some e \<Rightarrow> length e \<le> 2048)
          then Some m else None)
     | _ \<Rightarrow> None)"

definition clientMessageSchema :: "(string \<Rightarrow> bool) \<Rightarrow> client_message \<Rightarrow> client_message option" where
  "clientMessageSchema uuid m = (case clientControlMessageSchema uuid m of
       Some m' \<Rightarrow> Some m' | None \<Rightarrow> sessionClientToServerMessageSchema uuid m)"

lemmas message_schema_defs = serverMessageSchema_def serverControlMessageSchema_def
  sessionServerToClientMessageSchema_def clientMessageSchema_def clientControlMessageSchema_def
  sessionClientToServerMessageSchema_def

section \<open>Facts about the decisions and the schemas\<close>

lemma localSessionDecision_None_iff:
  "localSessionDecision p org d n c = None \<longleftrightarrow>
     org = lp_organizationId p \<and> d \<le> lp_maxSessionDurationSeconds p
     \<and> n < lp_maxConcurrentSessions p \<and> c \<le> lp_maxConcurrentCommands p"
  by (auto simp: localSessionDecision_def)

lemma commandDecision_InrD:
  assumes "commandDecision s t maxt now = Inr t'"
  shows "t' = t" "ses_status s = S_active" "now < ses_expiresAt s" "t \<le> maxt"
    "now + 1000 * t \<le> ses_expiresAt s"
proof -
  let ?r = "(ses_expiresAt s - now) div 1000"
  from assms have *: "t' = t" "ses_status s = S_active" "0 < ?r" "t \<le> maxt" "t \<le> ?r"
    by (auto simp: commandDecision_def Let_def split: if_splits)
  then show "t' = t" "ses_status s = S_active" "t \<le> maxt" by auto
  have "1000 * ?r \<le> ses_expiresAt s - now" by simp
  with * show "now < ses_expiresAt s" "now + 1000 * t \<le> ses_expiresAt s" by linarith+
qed

lemma commandDecision_Inr_iff:
  "0 < t \<Longrightarrow> commandDecision s t maxt now = Inr t' \<longleftrightarrow>
     t' = t \<and> ses_status s = S_active \<and> t \<le> maxt \<and> now + 1000 * t \<le> ses_expiresAt s"
proof
  assume "0 < t" "t' = t \<and> ses_status s = S_active \<and> t \<le> maxt \<and> now + 1000 * t \<le> ses_expiresAt s"
  moreover from this have "t \<le> (ses_expiresAt s - now) div 1000" by linarith
  ultimately show "commandDecision s t maxt now = Inr t'"
    by (auto simp: commandDecision_def Let_def)
qed (auto dest: commandDecision_InrD)

text \<open>A parsed message parses to itself: trimming is idempotent.\<close>

lemma parse_trimmed_SomeD:
  "parse_trimmed lo hi s = Some t \<Longrightarrow> t = js_trim s \<and> length_between lo hi t"
  by (auto simp: parse_trimmed_def Let_def split: if_splits)

lemma parse_trimmed_idem [simp]:
  "parse_trimmed lo hi s = Some t \<Longrightarrow> parse_trimmed lo hi t = Some t"
  by (auto simp: parse_trimmed_def Let_def js_trim_idem split: if_splits)

lemma idSchema_idem [simp]: "idSchema s = Some t \<Longrightarrow> idSchema t = Some t"
  by (simp add: idSchema_def)

lemma sessionRequestSchema_idem:
  "sessionRequestSchema uuid r = Some r' \<Longrightarrow> sessionRequestSchema uuid r' = Some r'"
  by (auto simp: sessionRequestSchema_def Let_def js_trim_idem option.map_comp comp_def
      split: if_splits option.splits)

lemma localPolicySchema_idem:
  "localPolicySchema p = Some p' \<Longrightarrow> localPolicySchema p' = Some p'"
  by (auto simp: localPolicySchema_def split: option.splits if_splits)

lemma clientSessionProfileSchema_idem:
  "clientSessionProfileSchema p = Some p' \<Longrightarrow> clientSessionProfileSchema p' = Some p'"
  by (auto simp: clientSessionProfileSchema_def localPolicySchema_idem split: option.splits)

lemma serverMessageSchema_idem:
  "serverMessageSchema uuid m = Some m' \<Longrightarrow> serverMessageSchema uuid m' = Some m'"
  by (cases m) (auto simp: message_schema_defs split: option.splits if_splits)

lemma parse_optional_idem:
  "parse_optional (parse_trimmed lo hi) x = Some y \<Longrightarrow> parse_optional (parse_trimmed lo hi) y = Some y"
  by (auto simp: parse_optional_def split: option.splits)

lemma clientRuntimeInfoSchema_idem:
  assumes "clientRuntimeInfoSchema r = Some r'"
  shows "clientRuntimeInfoSchema r' = Some r'"
proof -
  from assms obtain a s n v where
    "parse_trimmed 1 64 (ri_architecture r) = Some a" "parse_trimmed 1 4096 (ri_defaultShell r) = Some s"
    "parse_trimmed 1 64 (ri_nodeVersion r) = Some n"
    "parse_optional (parse_trimmed 1 64) (ri_clientVersion r) = Some v"
    "case ri_protocolVersion r of None \<Rightarrow> True | Some pv \<Rightarrow> 0 < pv \<and> safe_integer pv"
    "r' = r\<lparr>ri_architecture := a, ri_defaultShell := s, ri_nodeVersion := n, ri_clientVersion := v\<rparr>"
    by (simp add: clientRuntimeInfoSchema_def split: option.splits if_splits prod.splits)
  then show ?thesis
    by (simp add: clientRuntimeInfoSchema_def parse_optional_idem)
qed

lemma clientMessageSchema_idem:
  "clientMessageSchema uuid m = Some m' \<Longrightarrow> clientMessageSchema uuid m' = Some m'"
  by (cases m)
     (auto simp: message_schema_defs clientSessionProfileSchema_idem clientRuntimeInfoSchema_idem
       split: option.splits if_splits)

end
