(* ===== verification/Base64.thy ===== *)
theory Base64
  imports Prelude "HOL-Library.Word"
begin

text \<open>
  Command output travels as base64: the client encodes a chunk with
  \<open>Buffer.toString("base64")\<close> (apps/client/src/index.ts) and the server decodes it with
  \<open>decodeCommandOutput\<close> (apps/server/src/session-output.ts), which first checks the shape of
  the text and its length.  The codec of the standard library is written out on groups of
  three bytes and four units.
\<close>

type_synonym byte = "8 word"

definition b64_char :: "nat \<Rightarrow> char" where
  "b64_char n =
     (if n < 26 then char_of (65 + n) else if n < 52 then char_of (71 + n)
      else if n < 62 then char_of (n - 4) else if n = 62 then CHR ''+'' else CHR ''/'')"

definition b64_value :: "char \<Rightarrow> nat option" where
  "b64_value c =
     (let n = of_char c :: nat in
      if 65 \<le> n \<and> n \<le> 90 then Some (n - 65)
      else if 97 \<le> n \<and> n \<le> 122 then Some (n - 71)
      else if 48 \<le> n \<and> n \<le> 57 then Some (n + 4)
      else if c = CHR ''+'' then Some 62
      else if c = CHR ''/'' then Some 63
      else None)"

definition b64_unit :: "char \<Rightarrow> bool" where
  "b64_unit c \<longleftrightarrow> b64_value c \<noteq> None"

definition b64_val :: "char \<Rightarrow> nat" where
  "b64_val c = (case b64_value c of Some n \<Rightarrow> n | None \<Rightarrow> 0)"

fun base64_encode :: "byte list \<Rightarrow> string" where
  "base64_encode [] = []"
| "base64_encode [a] =
     (let n = unat a in [b64_char (n div 4), b64_char (n mod 4 * 16), CHR ''='', CHR ''=''])"
| "base64_encode [a, b] =
     (let n = unat a * 256 + unat b in
      [b64_char (n div 1024), b64_char (n div 16 mod 64), b64_char (n mod 16 * 4), CHR ''=''])"
| "base64_encode (a # b # c # r) =
     (let n = unat a * 65536 + unat b * 256 + unat c in
      b64_char (n div 262144) # b64_char (n div 4096 mod 64) # b64_char (n div 64 mod 64)
      # b64_char (n mod 64) # base64_encode r)"

definition byte_of :: "nat \<Rightarrow> byte" where
  "byte_of n = of_nat n"

text \<open>\<open>Buffer.from(value, "base64")\<close> on a text of the standard shape.\<close>

fun base64_decode :: "string \<Rightarrow> byte list" where
  "base64_decode (w # x # y # z # r) =
     (let v = b64_val w; u = b64_val x in
      if y = CHR ''='' then [byte_of ((v * 64 + u) div 16)]
      else if z = CHR ''='' then
        (let n = (v * 64 + u) * 64 + b64_val y in [byte_of (n div 1024), byte_of (n div 4 mod 256)])
      else
        (let n = ((v * 64 + u) * 64 + b64_val y) * 64 + b64_val z in
         byte_of (n div 65536) # byte_of (n div 256 mod 256) # byte_of (n mod 256) # base64_decode r))"
| "base64_decode _ = []"

fun standardBase64Pattern :: "string \<Rightarrow> bool" where
  "standardBase64Pattern [] = True"
| "standardBase64Pattern [w, x, y, z] =
     (b64_unit w \<and> b64_unit x
      \<and> ((b64_unit y \<and> b64_unit z) \<or> (y = CHR ''='' \<and> z = CHR ''='') \<or> (b64_unit y \<and> z = CHR ''='')))"
| "standardBase64Pattern (w # x # y # z # r) =
     (b64_unit w \<and> b64_unit x \<and> b64_unit y \<and> b64_unit z \<and> standardBase64Pattern r)"
| "standardBase64Pattern _ = False"

definition MAX_COMMAND_OUTPUT_CHUNK_BYTES :: nat where
  "MAX_COMMAND_OUTPUT_CHUNK_BYTES = 256 * 1024"

definition decodeCommandOutput :: "string \<Rightarrow> exn + byte list" where
  "decodeCommandOutput value =
     (if length value > 4 * ((MAX_COMMAND_OUTPUT_CHUNK_BYTES + 2) div 3)
         \<or> \<not> standardBase64Pattern value
      then Inl (Exn ''Command output must be standard base64 within 256 KiB'')
      else
        let output = base64_decode value in
        if length output > MAX_COMMAND_OUTPUT_CHUNK_BYTES
        then Inl (Exn ''Command output must be standard base64 within 256 KiB'')
        else Inr output)"

section \<open>The codec is a round trip\<close>

lemma b64_value_char: "n < 64 \<Longrightarrow> b64_value (b64_char n) = Some n"
proof -
  assume "n < 64"
  then consider "n < 26" | "26 \<le> n \<and> n < 52" | "52 \<le> n \<and> n < 62" | "n = 62" | "n = 63" by linarith
  then show ?thesis by cases (auto simp: b64_value_def b64_char_def Let_def)
qed

lemma b64_char_simps [simp]:
  "n < 64 \<Longrightarrow> b64_val (b64_char n) = n" "n < 64 \<Longrightarrow> b64_unit (b64_char n)"
  by (simp_all add: b64_val_def b64_unit_def b64_value_char)

lemma b64_unit_not_pad: "b64_unit c \<Longrightarrow> c \<noteq> CHR ''=''"
  by (auto simp: b64_unit_def b64_value_def)

lemma b64_char_not_pad [simp]: "n < 64 \<Longrightarrow> b64_char n \<noteq> CHR ''=''"
  using b64_unit_not_pad b64_char_simps(2) by blast

lemma unat_byte_less [simp]: "unat (a :: byte) < 256"
  using unsigned_less[of a] by simp

lemma byte_of_unat [simp]: "byte_of (unat a) = a"
  by (simp add: byte_of_def)

lemma digits64:
  "((n div 262144 * 64 + n div 4096 mod 64) * 64 + n div 64 mod 64) * 64 + n mod 64 = (n :: nat)"
proof -
  have "n div 4096 = n div 64 div 64" "n div 262144 = n div 64 div 64 div 64"
    by (simp_all add: div_mult2_eq[symmetric])
  then show ?thesis by (metis div_mult_mod_eq)
qed

lemma base64_triple:
  fixes a b c :: nat
  assumes "a < 256" "b < 256" "c < 256"
  shows "(a * 65536 + b * 256 + c) div 262144 < 64"
    and "(a * 65536 + b * 256 + c) div 65536 = a"
    and "(a * 65536 + b * 256 + c) div 256 mod 256 = b"
    and "(a * 65536 + b * 256 + c) mod 256 = c"
proof -
  have "(a * 65536 + (b * 256 + c)) div 65536 = a" using assms by simp
  then show "(a * 65536 + b * 256 + c) div 65536 = a" by (simp add: add.assoc)
  define m where "m = a * 256 + b"
  have *: "a * 65536 + b * 256 + c = m * 256 + c" by (simp add: m_def)
  have "m mod 256 = b" using assms(2) by (simp add: m_def)
  moreover have "(m * 256 + c) div 256 = m" "(m * 256 + c) mod 256 = c" using assms(3) by simp_all
  ultimately show "(a * 65536 + b * 256 + c) div 256 mod 256 = b" "(a * 65536 + b * 256 + c) mod 256 = c"
    unfolding * by simp_all
  show "(a * 65536 + b * 256 + c) div 262144 < 64" using assms by linarith
qed

lemma base64_pair:
  fixes a b :: nat
  assumes "a < 256" "b < 256"
  shows "(a * 256 + b) div 1024 < 64" and "(a * 256 + b) mod 16 * 4 < 64"
    and "(((a * 256 + b) div 1024 * 64 + (a * 256 + b) div 16 mod 64) * 64
           + (a * 256 + b) mod 16 * 4) div 1024 = a"
    and "(((a * 256 + b) div 1024 * 64 + (a * 256 + b) div 16 mod 64) * 64
           + (a * 256 + b) mod 16 * 4) div 4 mod 256 = b"
proof -
  define n where "n = a * 256 + b"
  have "n div 1024 = n div 16 div 64" by (simp add: div_mult2_eq[symmetric])
  then have "n div 1024 * 64 + n div 16 mod 64 = n div 16" by (metis div_mult_mod_eq)
  moreover have "q * 64 + r * 4 = 4 * n" if "q * 16 + r = n" for q r :: nat using that by linarith
  ultimately have eq: "(n div 1024 * 64 + n div 16 mod 64) * 64 + n mod 16 * 4 = 4 * n"
    by (simp only: div_mult_mod_eq)
  have "4 * n div (4 * 256) = 4 * n div 4 div 256" by (rule div_mult2_eq)
  then have "4 * n div 1024 = n div 256" by simp
  moreover have "n div 256 = a" "4 * n div 4 mod 256 = b" using assms by (simp_all add: n_def)
  ultimately show "(((a * 256 + b) div 1024 * 64 + (a * 256 + b) div 16 mod 64) * 64
           + (a * 256 + b) mod 16 * 4) div 1024 = a"
    "(((a * 256 + b) div 1024 * 64 + (a * 256 + b) div 16 mod 64) * 64
           + (a * 256 + b) mod 16 * 4) div 4 mod 256 = b"
    using eq unfolding n_def by simp_all
  show "(a * 256 + b) div 1024 < 64" "(a * 256 + b) mod 16 * 4 < 64" using assms by linarith+
qed

lemma base64_single:
  fixes a :: nat
  assumes "a < 256"
  shows "a div 4 < 64" and "a mod 4 * 16 < 64" and "(a div 4 * 64 + a mod 4 * 16) div 16 = a"
proof -
  have "a div 4 * 64 + a mod 4 * 16 = 16 * a" using div_mult_mod_eq[of a 4] by linarith
  then show "(a div 4 * 64 + a mod 4 * 16) div 16 = a" by simp
qed (use assms in linarith)+

text \<open>Decoding one group, by the number of bytes it stands for.\<close>

lemma decode_group1:
  "base64_decode [b64_char (n div 4), b64_char (n mod 4 * 16), CHR ''='', CHR ''=''] = [byte_of n]"
  if "n < 256"
  using base64_single[OF that] by (simp only: base64_decode.simps Let_def b64_char_simps simp_thms if_True)

lemma decode_group2:
  assumes "a < 256" "b < 256" "n = a * 256 + b"
  shows "base64_decode [b64_char (n div 1024), b64_char (n div 16 mod 64), b64_char (n mod 16 * 4), CHR ''='']
    = [byte_of a, byte_of b]"
  using base64_pair[OF assms(1,2)] unfolding assms(3)
  by (simp only: base64_decode.simps Let_def b64_char_simps b64_char_not_pad simp_thms if_True if_False
      mod_less_divisor zero_less_numeral)

lemma decode_group3:
  assumes "a < 256" "b < 256" "c < 256" "n = a * 65536 + b * 256 + c"
  shows "base64_decode (b64_char (n div 262144) # b64_char (n div 4096 mod 64)
      # b64_char (n div 64 mod 64) # b64_char (n mod 64) # r)
    = byte_of a # byte_of b # byte_of c # base64_decode r"
  using base64_triple[OF assms(1,2,3)] digits64[of n] unfolding assms(4)
  by (simp only: base64_decode.simps Let_def b64_char_simps b64_char_not_pad if_False
      mod_less_divisor zero_less_numeral)

lemma base64_decode_encode: "base64_decode (base64_encode bs) = bs"
proof (induction bs rule: base64_encode.induct)
  case (2 a)
  show ?case by (simp only: base64_encode.simps Let_def decode_group1 unat_byte_less byte_of_unat)
next
  case (3 a b)
  show ?case
    by (simp only: base64_encode.simps Let_def decode_group2[OF unat_byte_less unat_byte_less refl]
        byte_of_unat)
next
  case (4 a b c r)
  then show ?case
    by (simp only: base64_encode.simps Let_def byte_of_unat
        decode_group3[OF unat_byte_less unat_byte_less unat_byte_less refl])
qed simp

lemma pattern_group:
  "standardBase64Pattern r \<Longrightarrow> b64_unit w \<Longrightarrow> b64_unit x \<Longrightarrow> b64_unit y \<Longrightarrow> b64_unit z \<Longrightarrow>
   standardBase64Pattern (w # x # y # z # r)"
  by (cases r) auto

lemma base64_encode_pattern: "standardBase64Pattern (base64_encode bs)"
proof (induction bs rule: base64_encode.induct)
  case (2 a)
  show ?case using base64_single(1,2)[OF unat_byte_less[of a]] by (simp add: Let_def)
next
  case (3 a b)
  show ?case using base64_pair(1,2)[OF unat_byte_less[of a] unat_byte_less[of b]]
    by (simp add: Let_def)
next
  case (4 a b c r)
  then show ?case
    using base64_triple(1)[OF unat_byte_less[of a] unat_byte_less[of b] unat_byte_less[of c]]
    by (simp only: base64_encode.simps Let_def pattern_group b64_char_simps mod_less_divisor
        zero_less_numeral)
qed simp

lemma length_base64_encode: "length (base64_encode bs) = 4 * ((length bs + 2) div 3)"
proof (induction bs rule: base64_encode.induct)
  case (4 a b c r)
  have "(length (a # b # c # r) + 2) div 3 = Suc ((length r + 2) div 3)" by simp
  with 4 show ?case by (simp only: base64_encode.simps Let_def list.size) simp
qed (auto simp: Let_def)

lemma decodeCommandOutput_encode:
  "length bs \<le> MAX_COMMAND_OUTPUT_CHUNK_BYTES \<Longrightarrow> decodeCommandOutput (base64_encode bs) = Inr bs"
  by (simp add: decodeCommandOutput_def length_base64_encode base64_encode_pattern
      base64_decode_encode MAX_COMMAND_OUTPUT_CHUNK_BYTES_def not_less div_le_mono)

lemma decodeCommandOutput_bound:
  "decodeCommandOutput v = Inr bs \<Longrightarrow> length bs \<le> MAX_COMMAND_OUTPUT_CHUNK_BYTES"
  by (auto simp: decodeCommandOutput_def Let_def split: if_splits)

end
