(* ===== verification/Tables.thy ===== *)
theory Tables
  imports Prelude
begin

text \<open>
  Two contracts every table with a life cycle satisfies.  \<open>row_lifecycle\<close>: the statements of
  a component only append rows and rewrite rows along a preorder \<open>step\<close> that keeps the key
  and never touches a row in a final state.  \<open>idempotent_table\<close>: an insert under two unique
  indexes, the primary key and the idempotency key, that answers a repeated request with the
  row it created the first time.
\<close>

section \<open>Tables that only grow\<close>

definition evolves :: "('r \<Rightarrow> 'r \<Rightarrow> bool) \<Rightarrow> 'r list \<Rightarrow> 'r list \<Rightarrow> bool" where
  "evolves step t t' \<longleftrightarrow> (\<exists>u v. t' = u @ v \<and> list_all2 step t u)"

lemma evolves_mem:
  "evolves step t t' \<Longrightarrow> r \<in> set t \<Longrightarrow> \<exists>r' \<in> set t'. step r r'"
  by (auto simp: evolves_def list_all2_conv_all_nth in_set_conv_nth) (metis UnCI nth_mem)

locale row_lifecycle =
  fixes key :: "'r \<Rightarrow> 'k"
    and step :: "'r \<Rightarrow> 'r \<Rightarrow> bool"
    and final :: "'r \<Rightarrow> bool"
  assumes step_refl: "step r r"
    and step_trans: "step r r' \<Longrightarrow> step r' r'' \<Longrightarrow> step r r''"
    and step_key: "step r r' \<Longrightarrow> key r' = key r"
    and step_final: "step r r' \<Longrightarrow> final r \<Longrightarrow> r' = r"
begin

lemma evolves_refl: "evolves step t t"
  unfolding evolves_def by (rule exI[of _ t]) (simp add: list.rel_refl step_refl)

lemma evolves_append: "evolves step t (t @ v)"
  unfolding evolves_def by (rule exI[of _ t]) (simp add: list.rel_refl step_refl)

lemma evolves_update:
  assumes "\<And>r. r \<in> set t \<Longrightarrow> P r \<Longrightarrow> step r (f r)"
  shows "evolves step t (sql_update P f t)"
  unfolding evolves_def sql_update_def
  by (rule exI[of _ "map (\<lambda>r. if P r then f r else r) t"])
     (auto simp: list_all2_map2 list.rel_refl_strong assms step_refl intro!: list.rel_refl_strong)

lemma evolves_trans:
  assumes "evolves step t t'" "evolves step t' t''"
  shows "evolves step t t''"
proof -
  from assms(1) obtain u v where u: "t' = u @ v" "list_all2 step t u" by (auto simp: evolves_def)
  from assms(2) obtain u' v' where u': "t'' = u' @ v'" "list_all2 step (u @ v) u'"
    using u(1) by (auto simp: evolves_def)
  then obtain a b where ab: "u' = a @ b" "list_all2 step u a" by (auto simp: list_all2_append1)
  have "list_all2 step t a"
    by (rule list_all2_trans[OF _ u(2) ab(2)]) (rule step_trans)
  with u'(1) ab(1) have "t'' = a @ (b @ v') \<and> list_all2 step t a" by simp
  then show ?thesis unfolding evolves_def by blast
qed

lemma evolves_final: "evolves step t t' \<Longrightarrow> r \<in> set t \<Longrightarrow> final r \<Longrightarrow> r \<in> set t'"
  using evolves_mem step_final by metis

lemma evolves_keys: "evolves step t t' \<Longrightarrow> key ` set t \<subseteq> key ` set t'"
  using evolves_mem step_key by (metis image_eqI image_subsetI)

lemma update_keys: "(\<And>r. r \<in> set t \<Longrightarrow> P r \<Longrightarrow> step r (f r)) \<Longrightarrow> map key (sql_update P f t) = map key t"
  by (auto simp: sql_update_def step_key)

lemma evolves_first:
  assumes "evolves step t t'" "distinct (map key t')" "sql_first Q t = Some r"
    and "\<And>x. Q x \<longleftrightarrow> key x = k"
  shows "\<exists>r'. sql_first Q t' = Some r' \<and> step r r'"
proof -
  have r: "r \<in> set t" "key r = k" using assms by (auto dest: sql_first_SomeD)
  obtain r' where r': "r' \<in> set t'" "step r r'" using evolves_mem[OF assms(1) r(1)] by auto
  have "sql_first Q t' = Some r'"
    by (rule sql_first_key[OF assms(2) r'(1)]) (use assms(4) r r' step_key in auto)
  with r' show ?thesis by auto
qed

end

section \<open>Idempotent inserts\<close>

text \<open>The answer of an insert under a unique idempotency key.\<close>

datatype 'a create_result = Created 'a | Replayed 'a | Idempotency_conflict

locale idempotent_table =
  fixes create :: "'r \<Rightarrow> 'db \<Rightarrow> 'a create_result \<times> 'db"
    and table :: "'db \<Rightarrow> 'r list"
    and key :: "'r \<Rightarrow> 'k"
    and idem :: "'r \<Rightarrow> 'i"
    and print :: "'r \<Rightarrow> string"
    and view :: "'r \<Rightarrow> 'a"
  assumes create_new:
    "\<forall>r \<in> set (table db). key r \<noteq> key row \<and> idem r \<noteq> idem row \<Longrightarrow>
     fst (create row db) = Created (view row) \<and> table (snd (create row db)) = table db @ [row]"
    and create_dup:
    "\<exists>r \<in> set (table db). key r = key row \<or> idem r = idem row \<Longrightarrow>
     create row db =
       (case sql_first (\<lambda>r. idem r = idem row) (table db) of
          None \<Rightarrow> (Idempotency_conflict, db)
        | Some r \<Rightarrow> if print r \<noteq> print row then (Idempotency_conflict, db) else (Replayed (view r), db))"
begin

lemma table_create:
  "table (snd (create row db)) = table db
   \<or> (table (snd (create row db)) = table db @ [row] \<and> fst (create row db) = Created (view row)
      \<and> (\<forall>r \<in> set (table db). key r \<noteq> key row \<and> idem r \<noteq> idem row))"
proof (cases "\<exists>r \<in> set (table db). key r = key row \<or> idem r = idem row")
  case True
  then show ?thesis by (simp add: create_dup split: option.split)
next
  case False
  then show ?thesis using create_new[of db row] by auto
qed

lemma distinct_create:
  assumes "distinct (map key (table db))" "distinct (map idem (table db))"
  shows "distinct (map key (table (snd (create row db))))" "distinct (map idem (table (snd (create row db))))"
  using table_create[of row db] assms by (force simp: image_iff)+

lemma create_Created:
  assumes "fst (create row db) = Created a"
  shows "a = view row \<and> table (snd (create row db)) = table db @ [row]"
proof (cases "\<exists>r \<in> set (table db). key r = key row \<or> idem r = idem row")
  case True
  with assms show ?thesis by (simp add: create_dup split: option.splits if_splits)
next
  case False
  then show ?thesis using create_new[of db row] assms by auto
qed

text \<open>A retry of the same request gets the row the first attempt created, and changes nothing.\<close>

lemma create_replay:
  assumes "distinct (map idem (table db))" "row \<in> set (table db)" "idem row' = idem row"
  shows "create row' db = (if print row' = print row then Replayed (view row) else Idempotency_conflict, db)"
proof -
  have "sql_first (\<lambda>r. idem r = idem row') (table db) = Some row"
    by (rule sql_first_key[OF assms(1,2)]) (use assms(3) in auto)
  moreover have "\<exists>r \<in> set (table db). key r = key row' \<or> idem r = idem row'" using assms(2,3) by auto
  ultimately show ?thesis by (simp add: create_dup)
qed

end

end
