(* ===== verification/Session_Store.thy ===== *)
theory Session_Store
  imports Protocol Base64 Tables "HOL-Library.List_Lexorder" "HOL-Library.Char_ord"
    "HOL-Library.Product_Lexorder"
begin

text \<open>
  The session database, apps/server/src/session-database.ts: five tables and one operation
  per method of \<open>PostgresSessionDatabase\<close>.  Each operation is one transaction (or one
  statement, plus the audit insert the method awaits after it).  The clock the method reads is the
  argument \<open>now\<close>.  Columns no query reads (\<open>updated_at\<close>, \<open>created_at\<close> of chunks) are left out.
  A row type extends the record the code returns for it with the columns only the table has.
\<close>

section \<open>Tables\<close>

record machine_authority =
  ma_organizationId :: ident
  ma_machineId :: ident
  ma_clientProfileId :: ident
  ma_operatingSystemUser :: string
  ma_online :: bool
  ma_localPolicy :: local_policy

record session_row = session +
  srow_idempotencyKeyHash :: string
  srow_requestFingerprint :: string

record command_row = command +
  crow_idempotencyKeyHash :: string
  crow_requestFingerprint :: string

datatype agent_role = standard | operator

datatype human_role = role_owner | role_admin | role_supervisor

text \<open>The metadata objects the code attaches to a session audit event.\<close>

datatype audit_metadata =
    Meta_requested ident ident string int agent_role bool
  | Meta_decided ident human_role
  | Meta_opened ident ident string
  | Meta_open_failed string
  | Meta_closed string
  | Meta_command ident string "string option" int
  | Meta_completed command_status "int option" bool int int

datatype session_event_type =
    session_requested | session_opened | session_open_failed | session_approved
  | session_denied | session_closed | command_created | command_completed

record session_event =
  sev_organizationId :: ident
  sev_agentId :: ident
  sev_sessionId :: ident
  sev_commandId :: "ident option"
  sev_type :: session_event_type
  sev_metadata :: audit_metadata

record session_event_row = session_event +
  sev_id :: nat
  sev_createdAt :: instant

record output_chunk =
  chk_organizationId :: ident
  chk_commandId :: ident
  chk_sequence :: int
  chk_stream :: stream
  chk_data :: "byte list"
  chk_expiresAt :: instant

record session_db =
  db_machineAuthorities :: "machine_authority list"
  db_sessions :: "session_row list"
  db_commands :: "command_row list"
  db_auditEvents :: "session_event_row list"
  db_outputChunks :: "output_chunk list"

definition empty_session_db :: session_db where
  "empty_session_db = \<lparr>db_machineAuthorities = [], db_sessions = [], db_commands = [],
                       db_auditEvents = [], db_outputChunks = []\<rparr>"

definition ACTIVE_SESSION_STATUSES :: "session_status list" where
  "ACTIVE_SESSION_STATUSES = [S_pending_approval, S_opening, S_active]"

definition ACTIVE_COMMAND_STATUSES :: "command_status list" where
  "ACTIVE_COMMAND_STATUSES = [C_queued, C_delivered, C_running, C_cancellation_requested]"

definition session_active :: "'a session_scheme \<Rightarrow> bool" where
  "session_active r \<longleftrightarrow> ses_status r \<in> set ACTIVE_SESSION_STATUSES"

definition command_active :: "'a command_scheme \<Rightarrow> bool" where
  "command_active r \<longleftrightarrow> cmd_status r \<in> set ACTIVE_COMMAND_STATUSES"

text \<open>The list of \<open>finishSession\<close>: the statuses it leaves alone.\<close>

definition session_terminal :: "session_status \<Rightarrow> bool" where
  "session_terminal st \<longleftrightarrow> st \<in> {S_completed, S_cancelled, S_revoked, S_expired, S_failed}"

definition command_terminal :: "command_status \<Rightarrow> bool" where
  "command_terminal st \<longleftrightarrow> st \<notin> set ACTIVE_COMMAND_STATUSES"

section \<open>Rows and records\<close>

definition sessionRecord :: "session_row \<Rightarrow> session" where
  "sessionRecord row =
     \<lparr>ses_id = ses_id row, ses_organizationId = ses_organizationId row,
      ses_agentId = ses_agentId row, ses_machineId = ses_machineId row,
      ses_clientProfileId = ses_clientProfileId row,
      ses_operatingSystemUser = ses_operatingSystemUser row,
      ses_title = ses_title row, ses_purpose = ses_purpose row, ses_status = ses_status row,
      ses_maxConcurrentCommands = ses_maxConcurrentCommands row,
      ses_createdAt = ses_createdAt row, ses_readyAt = ses_readyAt row,
      ses_expiresAt = ses_expiresAt row, ses_finishedAt = ses_finishedAt row\<rparr>"

definition sessionInsert :: "session \<Rightarrow> string \<Rightarrow> string \<Rightarrow> session_row" where
  "sessionInsert s keyHash fingerprint =
     session.extend s (session_row.fields keyHash fingerprint)"

definition commandRecord :: "command_row \<Rightarrow> command" where
  "commandRecord row =
     \<lparr>cmd_id = cmd_id row, cmd_sessionId = cmd_sessionId row,
      cmd_organizationId = cmd_organizationId row, cmd_agentId = cmd_agentId row,
      cmd_machineId = cmd_machineId row, cmd_command = cmd_command row, cmd_cwd = cmd_cwd row,
      cmd_timeoutSeconds = cmd_timeoutSeconds row, cmd_status = cmd_status row,
      cmd_createdAt = cmd_createdAt row, cmd_startedAt = cmd_startedAt row,
      cmd_finishedAt = cmd_finishedAt row, cmd_exitCode = cmd_exitCode row,
      cmd_outputTruncated = cmd_outputTruncated row, cmd_stdoutBytes = cmd_stdoutBytes row,
      cmd_stderrBytes = cmd_stderrBytes row, cmd_error = cmd_error row\<rparr>"

definition commandInsert :: "command \<Rightarrow> string \<Rightarrow> string \<Rightarrow> command_row" where
  "commandInsert c keyHash fingerprint =
     command.extend c (command_row.fields keyHash fingerprint)"

lemma sessionRecord_sel [simp, row_simps]:
  "ses_id (sessionRecord r) = ses_id r" "ses_organizationId (sessionRecord r) = ses_organizationId r"
  "ses_agentId (sessionRecord r) = ses_agentId r" "ses_machineId (sessionRecord r) = ses_machineId r"
  "ses_clientProfileId (sessionRecord r) = ses_clientProfileId r"
  "ses_operatingSystemUser (sessionRecord r) = ses_operatingSystemUser r"
  "ses_title (sessionRecord r) = ses_title r" "ses_purpose (sessionRecord r) = ses_purpose r"
  "ses_status (sessionRecord r) = ses_status r"
  "ses_maxConcurrentCommands (sessionRecord r) = ses_maxConcurrentCommands r"
  "ses_createdAt (sessionRecord r) = ses_createdAt r" "ses_readyAt (sessionRecord r) = ses_readyAt r"
  "ses_expiresAt (sessionRecord r) = ses_expiresAt r" "ses_finishedAt (sessionRecord r) = ses_finishedAt r"
  by (simp_all add: sessionRecord_def)

lemma sessionInsert_sel [simp, row_simps]:
  "ses_id (sessionInsert s k f) = ses_id s" "ses_organizationId (sessionInsert s k f) = ses_organizationId s"
  "ses_agentId (sessionInsert s k f) = ses_agentId s" "ses_machineId (sessionInsert s k f) = ses_machineId s"
  "ses_clientProfileId (sessionInsert s k f) = ses_clientProfileId s"
  "ses_operatingSystemUser (sessionInsert s k f) = ses_operatingSystemUser s"
  "ses_status (sessionInsert s k f) = ses_status s"
  "ses_maxConcurrentCommands (sessionInsert s k f) = ses_maxConcurrentCommands s"
  "ses_createdAt (sessionInsert s k f) = ses_createdAt s" "ses_readyAt (sessionInsert s k f) = ses_readyAt s"
  "ses_expiresAt (sessionInsert s k f) = ses_expiresAt s" "ses_finishedAt (sessionInsert s k f) = ses_finishedAt s"
  "srow_idempotencyKeyHash (sessionInsert s k f) = k" "srow_requestFingerprint (sessionInsert s k f) = f"
  by (simp_all add: sessionInsert_def session.defs session_row.defs)

lemma sessionRecord_sessionInsert [simp, row_simps]: "sessionRecord (sessionInsert s k f) = s"
  by (simp add: sessionRecord_def sessionInsert_def session.defs session_row.defs)

lemma commandRecord_sel [simp, row_simps]:
  "cmd_id (commandRecord r) = cmd_id r" "cmd_sessionId (commandRecord r) = cmd_sessionId r"
  "cmd_organizationId (commandRecord r) = cmd_organizationId r" "cmd_agentId (commandRecord r) = cmd_agentId r"
  "cmd_machineId (commandRecord r) = cmd_machineId r" "cmd_command (commandRecord r) = cmd_command r"
  "cmd_cwd (commandRecord r) = cmd_cwd r" "cmd_timeoutSeconds (commandRecord r) = cmd_timeoutSeconds r"
  "cmd_status (commandRecord r) = cmd_status r" "cmd_createdAt (commandRecord r) = cmd_createdAt r"
  "cmd_exitCode (commandRecord r) = cmd_exitCode r" "cmd_outputTruncated (commandRecord r) = cmd_outputTruncated r"
  "cmd_stdoutBytes (commandRecord r) = cmd_stdoutBytes r" "cmd_stderrBytes (commandRecord r) = cmd_stderrBytes r"
  "cmd_finishedAt (commandRecord r) = cmd_finishedAt r" "cmd_startedAt (commandRecord r) = cmd_startedAt r"
  by (simp_all add: commandRecord_def)

lemma commandInsert_sel [simp, row_simps]:
  "cmd_id (commandInsert c k f) = cmd_id c" "cmd_sessionId (commandInsert c k f) = cmd_sessionId c"
  "cmd_organizationId (commandInsert c k f) = cmd_organizationId c" "cmd_agentId (commandInsert c k f) = cmd_agentId c"
  "cmd_machineId (commandInsert c k f) = cmd_machineId c" "cmd_status (commandInsert c k f) = cmd_status c"
  "cmd_startedAt (commandInsert c k f) = cmd_startedAt c" "cmd_finishedAt (commandInsert c k f) = cmd_finishedAt c"
  "cmd_timeoutSeconds (commandInsert c k f) = cmd_timeoutSeconds c" "cmd_createdAt (commandInsert c k f) = cmd_createdAt c"
  "cmd_stdoutBytes (commandInsert c k f) = cmd_stdoutBytes c" "cmd_stderrBytes (commandInsert c k f) = cmd_stderrBytes c"
  "crow_idempotencyKeyHash (commandInsert c k f) = k" "crow_requestFingerprint (commandInsert c k f) = f"
  by (simp_all add: commandInsert_def command.defs command_row.defs)

lemma commandRecord_commandInsert [simp, row_simps]: "commandRecord (commandInsert c k f) = c"
  by (simp add: commandRecord_def commandInsert_def command.defs command_row.defs)

section \<open>Machine authorities\<close>

definition machine_key :: "ident \<Rightarrow> ident \<Rightarrow> machine_authority \<Rightarrow> bool" where
  "machine_key organizationId machineId m \<longleftrightarrow>
     ma_organizationId m = organizationId \<and> ma_machineId m = machineId"

definition machineAuthority :: "ident \<Rightarrow> ident \<Rightarrow> session_db \<Rightarrow> machine_authority option" where
  "machineAuthority organizationId machineId db =
     sql_first (machine_key organizationId machineId) (db_machineAuthorities db)"

definition listMachineAuthorities :: "ident \<Rightarrow> session_db \<Rightarrow> machine_authority list" where
  "listMachineAuthorities organizationId db =
     sort_key ma_machineId
       (sql_where (\<lambda>m. ma_organizationId m = organizationId) (db_machineAuthorities db))"

definition putMachineAuthority :: "machine_authority \<Rightarrow> session_db \<Rightarrow> session_db" where
  "putMachineAuthority a db =
     (let key = machine_key (ma_organizationId a) (ma_machineId a) in
      if sql_first key (db_machineAuthorities db) = None
      then db\<lparr>db_machineAuthorities := db_machineAuthorities db @ [a]\<rparr>
      else db\<lparr>db_machineAuthorities := sql_update key
             (\<lambda>m. m\<lparr>ma_clientProfileId := ma_clientProfileId a,
                    ma_operatingSystemUser := ma_operatingSystemUser a,
                    ma_online := ma_online a, ma_localPolicy := ma_localPolicy a\<rparr>)
             (db_machineAuthorities db)\<rparr>)"

definition setMachineOnline :: "ident \<Rightarrow> ident \<Rightarrow> bool \<Rightarrow> session_db \<Rightarrow> bool \<times> session_db" where
  "setMachineOnline organizationId machineId online db =
     (let key = machine_key organizationId machineId in
      (sql_first key (db_machineAuthorities db) \<noteq> None,
       db\<lparr>db_machineAuthorities :=
            sql_update key (\<lambda>m. m\<lparr>ma_online := online\<rparr>) (db_machineAuthorities db)\<rparr>))"

section \<open>Sessions and Commands: queries\<close>

definition reconnectState :: "ident \<Rightarrow> ident \<Rightarrow> session_db \<Rightarrow> session list \<times> command list" where
  "reconnectState organizationId machineId db =
     (let sessions = sort_key (\<lambda>r. (ses_createdAt r, ses_id r))
            (sql_where (\<lambda>r. ses_organizationId r = organizationId \<and> ses_machineId r = machineId
               \<and> ses_status r \<in> {S_opening, S_active, S_cancellation_requested}) (db_sessions db))
      in if sessions = [] then ([], [])
         else (map sessionRecord sessions,
               map commandRecord (sort_key (\<lambda>r. (cmd_createdAt r, cmd_id r))
                 (sql_where (\<lambda>r. cmd_organizationId r = organizationId \<and> cmd_machineId r = machineId
                    \<and> cmd_sessionId r \<in> set (map ses_id sessions) \<and> command_active r)
                   (db_commands db)))))"

definition countActiveSessions :: "ident \<Rightarrow> ident \<Rightarrow> session_db \<Rightarrow> int" where
  "countActiveSessions organizationId machineId db =
     int (sql_count (\<lambda>r. ses_organizationId r = organizationId \<and> ses_machineId r = machineId
                       \<and> session_active r) (db_sessions db))"

definition session_idempotency :: "ident \<Rightarrow> ident \<Rightarrow> string \<Rightarrow> session_row \<Rightarrow> bool" where
  "session_idempotency organizationId agentId keyHash r \<longleftrightarrow>
     ses_organizationId r = organizationId \<and> ses_agentId r = agentId
     \<and> srow_idempotencyKeyHash r = keyHash"

definition sessionByIdempotency ::
    "ident \<Rightarrow> ident \<Rightarrow> string \<Rightarrow> session_db \<Rightarrow> (session \<times> string) option" where
  "sessionByIdempotency organizationId agentId keyHash db =
     map_option (\<lambda>row. (sessionRecord row, srow_requestFingerprint row))
       (sql_first (session_idempotency organizationId agentId keyHash) (db_sessions db))"

definition session_key :: "ident \<Rightarrow> ident \<Rightarrow> session_row \<Rightarrow> bool" where
  "session_key organizationId sessionId r \<longleftrightarrow>
     ses_organizationId r = organizationId \<and> ses_id r = sessionId"

definition session_lookup :: "ident \<Rightarrow> ident \<Rightarrow> session_db \<Rightarrow> session option" where
  "session_lookup organizationId sessionId db =
     map_option sessionRecord (sql_first (session_key organizationId sessionId) (db_sessions db))"

definition listSessions :: "ident \<Rightarrow> int \<Rightarrow> session_db \<Rightarrow> session list" where
  "listSessions organizationId limit db =
     map sessionRecord (take (clamp_limit limit 200) (sort_desc ses_createdAt
       (sql_where (\<lambda>r. ses_organizationId r = organizationId) (db_sessions db))))"

definition command_key :: "ident \<Rightarrow> ident \<Rightarrow> command_row \<Rightarrow> bool" where
  "command_key organizationId commandId r \<longleftrightarrow>
     cmd_organizationId r = organizationId \<and> cmd_id r = commandId"

definition command_lookup :: "ident \<Rightarrow> ident \<Rightarrow> session_db \<Rightarrow> command option" where
  "command_lookup organizationId commandId db =
     map_option commandRecord (sql_first (command_key organizationId commandId) (db_commands db))"

definition countActiveCommands :: "ident \<Rightarrow> ident \<Rightarrow> session_db \<Rightarrow> int" where
  "countActiveCommands organizationId sessionId db =
     int (sql_count (\<lambda>r. cmd_organizationId r = organizationId \<and> cmd_sessionId r = sessionId
                       \<and> command_active r) (db_commands db))"

definition command_idempotency :: "ident \<Rightarrow> ident \<Rightarrow> string \<Rightarrow> command_row \<Rightarrow> bool" where
  "command_idempotency organizationId sessionId keyHash r \<longleftrightarrow>
     cmd_organizationId r = organizationId \<and> cmd_sessionId r = sessionId
     \<and> crow_idempotencyKeyHash r = keyHash"

definition commandByIdempotency ::
    "ident \<Rightarrow> ident \<Rightarrow> string \<Rightarrow> session_db \<Rightarrow> (command \<times> string) option" where
  "commandByIdempotency organizationId sessionId keyHash db =
     map_option (\<lambda>row. (commandRecord row, crow_requestFingerprint row))
       (sql_first (command_idempotency organizationId sessionId keyHash) (db_commands db))"

section \<open>Sessions and Commands: creation\<close>

text \<open>
  The insert runs into a unique index when the id is taken or when the idempotency key is;
  the code then looks the key up and compares the fingerprints.
\<close>

definition createSession ::
    "session \<Rightarrow> string \<Rightarrow> string \<Rightarrow> session_db \<Rightarrow> session create_result \<times> session_db" where
  "createSession s keyHash fingerprint db =
     (if list_ex (\<lambda>r. ses_id r = ses_id s
           \<or> session_idempotency (ses_organizationId s) (ses_agentId s) keyHash r) (db_sessions db)
      then (case sessionByIdempotency (ses_organizationId s) (ses_agentId s) keyHash db of
              None \<Rightarrow> (Idempotency_conflict, db)
            | Some (existing, fp) \<Rightarrow>
                if fp \<noteq> fingerprint then (Idempotency_conflict, db) else (Replayed existing, db))
      else (let row = sessionInsert s keyHash fingerprint in
            (Created (sessionRecord row), db\<lparr>db_sessions := db_sessions db @ [row]\<rparr>)))"

definition createCommand ::
    "command \<Rightarrow> string \<Rightarrow> string \<Rightarrow> session_db \<Rightarrow> command create_result \<times> session_db" where
  "createCommand c keyHash fingerprint db =
     (if list_ex (\<lambda>r. cmd_id r = cmd_id c
           \<or> command_idempotency (cmd_organizationId c) (cmd_sessionId c) keyHash r) (db_commands db)
      then (case commandByIdempotency (cmd_organizationId c) (cmd_sessionId c) keyHash db of
              None \<Rightarrow> (Idempotency_conflict, db)
            | Some (existing, fp) \<Rightarrow>
                if fp \<noteq> fingerprint then (Idempotency_conflict, db) else (Replayed existing, db))
      else (let row = commandInsert c keyHash fingerprint in
            (Created (commandRecord row), db\<lparr>db_commands := db_commands db @ [row]\<rparr>)))"

section \<open>Lifecycle of a Session\<close>

datatype decision = approve | deny

datatype decide_result =
  Decide_not_found | Decide_conflict | Decide_approved session bool | Decide_denied session bool

definition decideSession ::
    "ident \<Rightarrow> ident \<Rightarrow> decision \<Rightarrow> instant \<Rightarrow> session_db \<Rightarrow> decide_result \<times> session_db" where
  "decideSession organizationId sessionId dec now db =
     (let key = session_key organizationId sessionId;
          pending = (\<lambda>r. key r \<and> ses_status r = S_pending_approval) in
      case sql_first key (db_sessions db) of
        None \<Rightarrow> (Decide_not_found, db)
      | Some current \<Rightarrow>
          if dec = approve \<and> (ses_status current = S_opening \<or> ses_status current = S_active)
          then (Decide_approved (sessionRecord current) False, db)
          else if ses_status current \<noteq> S_pending_approval then (Decide_conflict, db)
          else if ses_expiresAt current \<le> now then
            (Decide_conflict, db\<lparr>db_sessions := sql_update pending
               (\<lambda>r. r\<lparr>ses_status := S_expired, ses_finishedAt := Some now\<rparr>) (db_sessions db)\<rparr>)
          else
            let change = (\<lambda>r. if dec = approve
                  then r\<lparr>ses_status := S_opening,
                         ses_expiresAt := now + ses_expiresAt current - ses_createdAt current\<rparr>
                  else r\<lparr>ses_status := S_cancelled, ses_finishedAt := Some now\<rparr>);
                db' = db\<lparr>db_sessions := sql_update pending change (db_sessions db)\<rparr>
            in case sql_returning pending change (db_sessions db) of
                 None \<Rightarrow> (Decide_conflict, db')
               | Some row \<Rightarrow>
                   (if dec = approve then Decide_approved (sessionRecord row) True
                    else Decide_denied (sessionRecord row) True, db'))"

datatype outcome = complete | cancel

datatype finish_result = Finish_not_found | Finish_commands_active | Finished session "ident list"

definition finishSession ::
    "ident \<Rightarrow> ident \<Rightarrow> ident \<Rightarrow> outcome \<Rightarrow> instant \<Rightarrow> session_db \<Rightarrow> finish_result \<times> session_db" where
  "finishSession organizationId agentId sessionId out now db =
     (case sql_first (\<lambda>r. session_key organizationId sessionId r \<and> ses_agentId r = agentId)
             (db_sessions db) of
        None \<Rightarrow> (Finish_not_found, db)
      | Some current \<Rightarrow>
          if session_terminal (ses_status current) then (Finished (sessionRecord current) [], db)
          else
            let activeCommands = sql_where (\<lambda>r. cmd_organizationId r = organizationId
                  \<and> cmd_sessionId r = sessionId \<and> command_active r) (db_commands db);
                ids = map cmd_id activeCommands in
            if out = complete \<and> activeCommands \<noteq> [] then (Finish_commands_active, db)
            else
              let commands = (if out = cancel \<and> activeCommands \<noteq> []
                    then sql_update (\<lambda>r. cmd_organizationId r = organizationId \<and> cmd_id r \<in> set ids)
                           (\<lambda>r. r\<lparr>cmd_status := C_cancellation_requested\<rparr>) (db_commands db)
                    else db_commands db);
                  change = (\<lambda>r. if out = complete
                    then r\<lparr>ses_status := S_completed, ses_finishedAt := Some now\<rparr>
                    else r\<lparr>ses_status := S_cancellation_requested\<rparr>)
              in (Finished (sessionRecord (change current)) ids,
                  db\<lparr>db_sessions := sql_update (session_key organizationId sessionId) change (db_sessions db),
                     db_commands := commands\<rparr>))"

definition requestCommandCancellation ::
    "ident \<Rightarrow> ident \<Rightarrow> ident \<Rightarrow> session_db \<Rightarrow> command option \<times> session_db" where
  "requestCommandCancellation organizationId agentId commandId db =
     (case sql_first (\<lambda>r. command_key organizationId commandId r \<and> cmd_agentId r = agentId)
             (db_commands db) of
        None \<Rightarrow> (None, db)
      | Some current \<Rightarrow>
          if \<not> command_active current then (Some (commandRecord current), db)
          else
            let change = (\<lambda>r. r\<lparr>cmd_status := C_cancellation_requested\<rparr>) in
            (Some (commandRecord (change current)),
             db\<lparr>db_commands := sql_update (command_key organizationId commandId) change (db_commands db)\<rparr>))"

definition append_event :: "session_event \<Rightarrow> instant \<Rightarrow> session_db \<Rightarrow> session_db" where
  "append_event e now db =
     db\<lparr>db_auditEvents := db_auditEvents db @
          [session_event.extend e (session_event_row.fields (Suc (length (db_auditEvents db))) now)]\<rparr>"

definition listAuditEvents :: "ident \<Rightarrow> int \<Rightarrow> session_db \<Rightarrow> session_event_row list" where
  "listAuditEvents organizationId limit db =
     take (clamp_limit limit 200) (sort_desc sev_createdAt
       (sql_where (\<lambda>e. sev_organizationId e = organizationId) (db_auditEvents db)))"

definition markSessionOpened ::
    "ident \<Rightarrow> ident \<Rightarrow> ident \<Rightarrow> ident \<Rightarrow> string \<Rightarrow> instant \<Rightarrow> session_db \<Rightarrow> session option \<times> session_db" where
  "markSessionOpened organizationId machineId sessionId clientProfileId operatingSystemUser now db =
     (let P = (\<lambda>r. ses_organizationId r = organizationId \<and> ses_machineId r = machineId
                 \<and> ses_id r = sessionId \<and> ses_clientProfileId r = clientProfileId
                 \<and> ses_operatingSystemUser r = operatingSystemUser \<and> ses_status r = S_opening);
          change = (\<lambda>r. r\<lparr>ses_status := S_active, ses_readyAt := Some now\<rparr>);
          db' = db\<lparr>db_sessions := sql_update P change (db_sessions db)\<rparr>
      in case sql_returning P change (db_sessions db) of
           None \<Rightarrow> (None, db')
         | Some row \<Rightarrow>
             let s = sessionRecord row in
             (Some s, append_event
                \<lparr>sev_organizationId = ses_organizationId s, sev_agentId = ses_agentId s,
                 sev_sessionId = ses_id s, sev_commandId = None, sev_type = session_opened,
                 sev_metadata = Meta_opened (ses_machineId s) (ses_clientProfileId s)
                                  (ses_operatingSystemUser s)\<rparr> now db'))"

definition markSessionFailed ::
    "ident \<Rightarrow> ident \<Rightarrow> ident \<Rightarrow> string \<Rightarrow> instant \<Rightarrow> session_db \<Rightarrow> bool \<times> session_db" where
  "markSessionFailed organizationId machineId sessionId err now db =
     (let P = (\<lambda>r. ses_organizationId r = organizationId \<and> ses_machineId r = machineId
                 \<and> ses_id r = sessionId \<and> ses_status r = S_opening);
          change = (\<lambda>r. r\<lparr>ses_status := S_failed, ses_finishedAt := Some now\<rparr>);
          db' = db\<lparr>db_sessions := sql_update P change (db_sessions db)\<rparr>
      in case sql_returning P change (db_sessions db) of
           None \<Rightarrow> (False, db')
         | Some row \<Rightarrow>
             (True, append_event
                \<lparr>sev_organizationId = organizationId, sev_agentId = ses_agentId row,
                 sev_sessionId = sessionId, sev_commandId = None, sev_type = session_open_failed,
                 sev_metadata = Meta_open_failed (take 2048 err)\<rparr> now db'))"

definition markSessionClosed ::
    "ident \<Rightarrow> ident \<Rightarrow> ident \<Rightarrow> string \<Rightarrow> instant \<Rightarrow> session_db \<Rightarrow> bool \<times> session_db" where
  "markSessionClosed organizationId machineId sessionId reason now db =
     (let status = (if reason = ''expired'' then S_expired else S_cancelled);
          P = (\<lambda>r. ses_organizationId r = organizationId \<and> ses_machineId r = machineId
                 \<and> ses_id r = sessionId
                 \<and> ses_status r \<in> {S_opening, S_active, S_cancellation_requested});
          change = (\<lambda>r. r\<lparr>ses_status := status, ses_finishedAt := Some now\<rparr>);
          db' = db\<lparr>db_sessions := sql_update P change (db_sessions db)\<rparr>
      in case sql_returning P change (db_sessions db) of
           None \<Rightarrow> (False, db')
         | Some row \<Rightarrow>
             (True, append_event
                \<lparr>sev_organizationId = organizationId, sev_agentId = ses_agentId row,
                 sev_sessionId = sessionId, sev_commandId = None, sev_type = session_closed,
                 sev_metadata = Meta_closed reason\<rparr> now db'))"

section \<open>Lifecycle of a Command\<close>

definition machine_command :: "ident \<Rightarrow> ident \<Rightarrow> ident \<Rightarrow> command_row \<Rightarrow> bool" where
  "machine_command organizationId machineId commandId r \<longleftrightarrow>
     cmd_organizationId r = organizationId \<and> cmd_machineId r = machineId \<and> cmd_id r = commandId"

definition markCommandStarted ::
    "ident \<Rightarrow> ident \<Rightarrow> ident \<Rightarrow> instant \<Rightarrow> session_db \<Rightarrow> bool \<times> session_db" where
  "markCommandStarted organizationId machineId commandId startedAt db =
     (let P = (\<lambda>r. machine_command organizationId machineId commandId r
                 \<and> cmd_status r \<in> {C_queued, C_delivered})
      in (sql_first P (db_commands db) \<noteq> None,
          db\<lparr>db_commands := sql_update P
               (\<lambda>r. r\<lparr>cmd_status := C_running, cmd_startedAt := Some startedAt\<rparr>) (db_commands db)\<rparr>))"

definition chunk_key :: "ident \<Rightarrow> ident \<Rightarrow> int \<Rightarrow> output_chunk \<Rightarrow> bool" where
  "chunk_key organizationId commandId sequence k \<longleftrightarrow>
     chk_organizationId k = organizationId \<and> chk_commandId k = commandId \<and> chk_sequence k = sequence"

definition addCommandOutput ::
    "ident \<Rightarrow> ident \<Rightarrow> ident \<Rightarrow> stream \<Rightarrow> int \<Rightarrow> byte list \<Rightarrow> int \<Rightarrow> instant \<Rightarrow> session_db \<Rightarrow> bool \<times> session_db" where
  "addCommandOutput organizationId machineId commandId stream sequence data retention now db =
     (case sql_first (\<lambda>r. machine_command organizationId machineId commandId r \<and> command_active r)
             (db_commands db) of
        None \<Rightarrow> (False, db)
      | Some command \<Rightarrow>
          if cmd_stdoutBytes command + cmd_stderrBytes command + int (length data)
               > DEFAULT_COMMAND_OUTPUT_BYTES
          then (False, db)
          else if list_ex (chunk_key organizationId commandId sequence) (db_outputChunks db)
          then (True, db)
          else
            (True, db\<lparr>db_outputChunks := db_outputChunks db @
                    [\<lparr>chk_organizationId = organizationId, chk_commandId = commandId,
                      chk_sequence = sequence, chk_stream = stream, chk_data = data,
                      chk_expiresAt = now + retention\<rparr>],
                  db_commands := sql_update (command_key organizationId commandId)
                    (\<lambda>r. if stream = stdout
                         then r\<lparr>cmd_stdoutBytes := cmd_stdoutBytes r + int (length data)\<rparr>
                         else r\<lparr>cmd_stderrBytes := cmd_stderrBytes r + int (length data)\<rparr>)
                    (db_commands db)\<rparr>))"

record output_item =
  oi_sequence :: int
  oi_stream :: stream
  oi_dataBase64 :: string

definition output_page :: nat where
  "output_page = 256"

text \<open>The chunks a read may return: the inner join asks that the Command exists.\<close>

definition readable_chunk :: "ident \<Rightarrow> ident \<Rightarrow> int \<Rightarrow> instant \<Rightarrow> session_db \<Rightarrow> output_chunk \<Rightarrow> bool" where
  "readable_chunk organizationId commandId afterSequence now db k \<longleftrightarrow>
     chk_organizationId k = organizationId \<and> chk_commandId k = commandId
     \<and> chk_sequence k > afterSequence \<and> chk_expiresAt k > now
     \<and> list_ex (command_key organizationId commandId) (db_commands db)"

definition commandOutput ::
    "ident \<Rightarrow> ident \<Rightarrow> int \<Rightarrow> instant \<Rightarrow> session_db \<Rightarrow> output_item list" where
  "commandOutput organizationId commandId afterSequence now db =
     map (\<lambda>k. \<lparr>oi_sequence = chk_sequence k, oi_stream = chk_stream k,
               oi_dataBase64 = base64_encode (chk_data k)\<rparr>)
       (take output_page (sort_key chk_sequence
         (sql_where (readable_chunk organizationId commandId afterSequence now db) (db_outputChunks db))))"

definition markCommandCompleted ::
    "ident \<Rightarrow> ident \<Rightarrow> ident \<Rightarrow> command_status \<Rightarrow> int option \<Rightarrow> string option \<Rightarrow> bool \<Rightarrow> instant \<Rightarrow>
     instant \<Rightarrow> session_db \<Rightarrow> command option \<times> session_db" where
  "markCommandCompleted organizationId machineId commandId status exitCode err truncated finishedAt now db =
     (let P = (\<lambda>r. machine_command organizationId machineId commandId r \<and> command_active r);
          change = (\<lambda>r. r\<lparr>cmd_status := status, cmd_exitCode := exitCode,
                         cmd_error := map_option (take 2048) err, cmd_outputTruncated := truncated,
                         cmd_finishedAt := Some finishedAt\<rparr>);
          db' = db\<lparr>db_commands := sql_update P change (db_commands db)\<rparr>
      in case sql_returning P change (db_commands db) of
           None \<Rightarrow> (command_lookup organizationId commandId db', db')
         | Some row \<Rightarrow>
             let c = commandRecord row in
             (Some c, append_event
                \<lparr>sev_organizationId = cmd_organizationId c, sev_agentId = cmd_agentId c,
                 sev_sessionId = cmd_sessionId c, sev_commandId = Some (cmd_id c),
                 sev_type = command_completed,
                 sev_metadata = Meta_completed (cmd_status c) (cmd_exitCode c)
                    (cmd_outputTruncated c) (cmd_stdoutBytes c) (cmd_stderrBytes c)\<rparr> now db'))"

section \<open>Sweeps over many Sessions\<close>

text \<open>
  One step of the loops of \<open>expireSessions\<close> and \<open>revokeSessions\<close>: request the cancellation of
  the active Commands of a Session, and their ids.
\<close>

definition command_of :: "ident \<Rightarrow> ident \<Rightarrow> command_row \<Rightarrow> bool" where
  "command_of organizationId sessionId r \<longleftrightarrow>
     cmd_organizationId r = organizationId \<and> cmd_sessionId r = sessionId \<and> command_active r"

definition cancel_commands_of :: "ident \<Rightarrow> ident \<Rightarrow> command_row list \<Rightarrow> ident list \<times> command_row list" where
  "cancel_commands_of organizationId sessionId commands =
     (map cmd_id (sql_where (command_of organizationId sessionId) commands),
      sql_update (command_of organizationId sessionId)
        (\<lambda>r. r\<lparr>cmd_status := C_cancellation_requested\<rparr>) commands)"

fun expire_loop :: "session_row list \<Rightarrow> command_row list \<Rightarrow> (session \<times> ident list) list \<times> command_row list" where
  "expire_loop [] commands = ([], commands)"
| "expire_loop (s # rest) commands =
     (let (ids, commands') = cancel_commands_of (ses_organizationId s) (ses_id s) commands;
          (result, commands'') = expire_loop rest commands'
      in ((sessionRecord s, ids) # result, commands''))"

definition expireSessions :: "instant \<Rightarrow> session_db \<Rightarrow> (session \<times> ident list) list \<times> session_db" where
  "expireSessions now db =
     (let pending = (\<lambda>r. ses_status r = S_pending_approval \<and> ses_expiresAt r \<le> now);
          sessions1 = sql_update pending
            (\<lambda>r. r\<lparr>ses_status := S_expired, ses_finishedAt := Some now\<rparr>) (db_sessions db);
          due = (\<lambda>r. ses_status r \<in> {S_opening, S_active} \<and> ses_expiresAt r \<le> now);
          change = (\<lambda>r. r\<lparr>ses_status := S_cancellation_requested\<rparr>);
          (result, commands) = expire_loop (map change (sql_where due sessions1)) (db_commands db)
      in (result, db\<lparr>db_sessions := sql_update due change sessions1, db_commands := commands\<rparr>))"

text \<open>
  A row of \<open>sessions\<close> is looked up again by its id after its Commands were cancelled:
  \<open>update ... where id = ... returning *\<close>.
\<close>

fun revoke_loop ::
    "ident \<Rightarrow> instant \<Rightarrow> session_row list \<Rightarrow> session_row list \<Rightarrow> command_row list \<Rightarrow>
     (session \<times> ident list) list \<times> session_row list \<times> command_row list" where
  "revoke_loop organizationId now [] sessions commands = ([], sessions, commands)"
| "revoke_loop organizationId now (a # rest) sessions commands =
     (let (ids, commands') = cancel_commands_of organizationId (ses_id a) commands;
          change = (\<lambda>r. r\<lparr>ses_status := S_revoked, ses_finishedAt := Some now\<rparr>);
          sessions' = sql_update (session_key organizationId (ses_id a)) change sessions;
          (result, sessions'', commands'') = revoke_loop organizationId now rest sessions' commands'
      in ((sessionRecord (change a), ids) # result, sessions'', commands''))"

definition revocable :: "ident \<Rightarrow> ident option \<Rightarrow> ident option \<Rightarrow> session_row \<Rightarrow> bool" where
  "revocable organizationId agentId machineId r \<longleftrightarrow>
     ses_organizationId r = organizationId \<and> session_active r
     \<and> (case agentId of None \<Rightarrow> True | Some a \<Rightarrow> ses_agentId r = a)
     \<and> (case machineId of None \<Rightarrow> True | Some m \<Rightarrow> ses_machineId r = m)"

definition revokeSessions ::
    "ident \<Rightarrow> ident option \<Rightarrow> ident option \<Rightarrow> instant \<Rightarrow> session_db \<Rightarrow>
     (exn + (session \<times> ident list) list) \<times> session_db" where
  "revokeSessions organizationId agentId machineId now db =
     (if agentId = None \<and> machineId = None
      then (Inl (Exn ''Session revocation requires an Agent or Machine scope''), db)
      else
        let (result, sessions, commands) = revoke_loop organizationId now
              (sql_where (revocable organizationId agentId machineId) (db_sessions db))
              (db_sessions db) (db_commands db);
            authorities = (case machineId of
                None \<Rightarrow> db_machineAuthorities db
              | Some m \<Rightarrow> sql_delete (machine_key organizationId m) (db_machineAuthorities db))
        in (Inr result, db\<lparr>db_sessions := sessions, db_commands := commands,
                           db_machineAuthorities := authorities\<rparr>))"

definition purgeExpiredCommandOutput :: "instant \<Rightarrow> session_db \<Rightarrow> nat \<times> session_db" where
  "purgeExpiredCommandOutput now db =
     (sql_count (\<lambda>k. chk_expiresAt k \<le> now) (db_outputChunks db),
      db\<lparr>db_outputChunks := sql_delete (\<lambda>k. chk_expiresAt k \<le> now) (db_outputChunks db)\<rparr>)"

section \<open>Timeline of a Session\<close>

definition sessionTimeline ::
    "ident \<Rightarrow> ident \<Rightarrow> instant \<Rightarrow> session_db \<Rightarrow>
     (session \<times> (command \<times> output_item list) list \<times> session_event_row list) option" where
  "sessionTimeline organizationId sessionId now db =
     (case session_lookup organizationId sessionId db of
        None \<Rightarrow> None
      | Some s \<Rightarrow>
          Some (s,
            map (\<lambda>r. (commandRecord r, commandOutput organizationId (cmd_id r) (-1) now db))
              (sort_key cmd_createdAt (sql_where (\<lambda>r. cmd_organizationId r = organizationId
                 \<and> cmd_sessionId r = sessionId) (db_commands db))),
            sort_key sev_createdAt (sql_where (\<lambda>e. sev_organizationId e = organizationId
                 \<and> sev_sessionId e = sessionId) (db_auditEvents db))))"

section \<open>Configuration\<close>

text \<open>
  \<open>createSessionDatabase\<close>: the retention the environment asks for, in milliseconds.  The
  argument is what \<open>Number\<close> makes of the variable (absent, an integer, or not an integer).
\<close>

datatype number_setting = Unset | Not_integer | Integer int

definition session_retention :: "number_setting \<Rightarrow> exn + int" where
  "session_retention setting =
     (let days = (case setting of Unset \<Rightarrow> Integer 30 | s \<Rightarrow> s) in
      case days of
        Integer d \<Rightarrow>
          if d < 1 \<or> d > 365
          then Inl (Exn ''ODYSHELL_COMMAND_OUTPUT_RETENTION_DAYS must be an integer between 1 and 365'')
          else Inr (d * 24 * 60 * 60000)
      | _ \<Rightarrow> Inl (Exn ''ODYSHELL_COMMAND_OUTPUT_RETENTION_DAYS must be an integer between 1 and 365''))"

end
