(* ===== verification/Session_Lifecycle.thy ===== *)
theory Session_Lifecycle
  imports Session_Store
begin

text \<open>
  What the statements of the session database do to a row: a Session and a Command only move
  forward through their statuses, and a finished row never changes again.  The tables
  implement the contracts of theory Tables; every operation of the database is a step of
  \<open>db_step\<close> on a well-formed database.
\<close>

section \<open>Forward steps of a Session row\<close>

fun session_rank :: "session_status \<Rightarrow> nat" where
  "session_rank S_pending_approval = 0"
| "session_rank S_opening = 1"
| "session_rank S_active = 2"
| "session_rank S_cancellation_requested = 3"
| "session_rank _ = 4"

definition session_forward :: "session_status \<Rightarrow> session_status \<Rightarrow> bool" where
  "session_forward a b \<longleftrightarrow> a = b \<or> (session_rank a < session_rank b
     \<and> (b = S_failed \<longrightarrow> session_rank a \<le> 1) \<and> (b = S_revoked \<longrightarrow> session_rank a \<le> 2))"

text \<open>The columns no statement updates.\<close>

definition session_identity where
  "session_identity r = (ses_id r, ses_organizationId r, ses_agentId r, ses_machineId r,
     ses_clientProfileId r, ses_operatingSystemUser r, ses_title r, ses_purpose r,
     ses_maxConcurrentCommands r, ses_createdAt r, srow_idempotencyKeyHash r, srow_requestFingerprint r)"

definition session_step :: "session_row \<Rightarrow> session_row \<Rightarrow> bool" where
  "session_step r r' \<longleftrightarrow> session_identity r' = session_identity r
     \<and> session_forward (ses_status r) (ses_status r')
     \<and> (session_terminal (ses_status r) \<longrightarrow> r' = r)
     \<and> (ses_expiresAt r' \<noteq> ses_expiresAt r \<longrightarrow>
          ses_status r = S_pending_approval \<and> ses_status r' \<noteq> S_pending_approval)
     \<and> (ses_readyAt r' \<noteq> ses_readyAt r \<longrightarrow>
          session_rank (ses_status r) \<le> 1 \<and> 2 \<le> session_rank (ses_status r'))"

definition session_row_ok :: "session_row \<Rightarrow> bool" where
  "session_row_ok r \<longleftrightarrow> (ses_finishedAt r \<noteq> None \<longleftrightarrow> session_terminal (ses_status r))
     \<and> (ses_status r = S_active \<longrightarrow> ses_readyAt r \<noteq> None)
     \<and> (session_rank (ses_status r) \<le> 1 \<longrightarrow> ses_readyAt r = None)"

section \<open>Forward steps of a Command row\<close>

fun command_rank :: "command_status \<Rightarrow> nat" where
  "command_rank C_queued = 0"
| "command_rank C_delivered = 0"
| "command_rank C_running = 1"
| "command_rank C_cancellation_requested = 2"
| "command_rank _ = 3"

definition command_identity where
  "command_identity r = (cmd_id r, cmd_sessionId r, cmd_organizationId r, cmd_agentId r,
     cmd_machineId r, cmd_command r, cmd_cwd r, cmd_timeoutSeconds r, cmd_createdAt r,
     crow_idempotencyKeyHash r, crow_requestFingerprint r)"

definition command_step :: "command_row \<Rightarrow> command_row \<Rightarrow> bool" where
  "command_step r r' \<longleftrightarrow> command_identity r' = command_identity r
     \<and> (cmd_status r' = cmd_status r \<or> command_rank (cmd_status r) < command_rank (cmd_status r'))
     \<and> (command_terminal (cmd_status r) \<longrightarrow> r' = r)
     \<and> cmd_stdoutBytes r \<le> cmd_stdoutBytes r' \<and> cmd_stderrBytes r \<le> cmd_stderrBytes r'
     \<and> (cmd_startedAt r' \<noteq> cmd_startedAt r \<longrightarrow> command_rank (cmd_status r) = 0 \<and> cmd_startedAt r' \<noteq> None)"

definition command_row_ok :: "command_row \<Rightarrow> bool" where
  "command_row_ok r \<longleftrightarrow> (cmd_finishedAt r \<noteq> None \<longleftrightarrow> command_terminal (cmd_status r))
     \<and> (cmd_status r = C_running \<longrightarrow> cmd_startedAt r \<noteq> None)
     \<and> (command_active r \<longrightarrow> cmd_exitCode r = None \<and> cmd_error r = None)
     \<and> 0 \<le> cmd_stdoutBytes r \<and> 0 \<le> cmd_stderrBytes r
     \<and> cmd_stdoutBytes r + cmd_stderrBytes r \<le> DEFAULT_COMMAND_OUTPUT_BYTES"

lemmas active_defs = session_active_def command_active_def ACTIVE_SESSION_STATUSES_def
  ACTIVE_COMMAND_STATUSES_def session_terminal_def command_terminal_def

lemma command_terminal_iff: "command_terminal (cmd_status r) \<longleftrightarrow> \<not> command_active r"
  by (simp add: active_defs)

lemma session_terminal_rank: "session_terminal st \<longleftrightarrow> session_rank st = 4"
  by (cases st) (auto simp: active_defs)

lemma command_terminal_rank: "command_terminal st \<longleftrightarrow> command_rank st = 3"
  by (cases st) (auto simp: active_defs)

lemma session_rank_le: "session_rank st \<le> 4" by (cases st) auto
lemma command_rank_le: "command_rank st \<le> 3" by (cases st) auto

lemma completion_status_terminal: "completion_status st \<longleftrightarrow> command_terminal st"
  by (auto simp: completion_status_def active_defs)

lemma session_forward_trans: "session_forward a b \<Longrightarrow> session_forward b c \<Longrightarrow> session_forward a c"
  by (auto simp: session_forward_def)

lemma session_forward_rank: "session_forward a b \<Longrightarrow> session_rank a \<le> session_rank b"
  by (auto simp: session_forward_def)

lemma session_rank_pending: "session_rank st = 0 \<longleftrightarrow> st = S_pending_approval"
  by (cases st) auto

lemma session_step_trans:
  assumes "session_step r r'" "session_step r' r''"
  shows "session_step r r''"
proof -
  let ?s = "ses_status r" and ?s' = "ses_status r'" and ?s'' = "ses_status r''"
  have id: "session_identity r'' = session_identity r"
    and fwd: "session_forward ?s ?s'" "session_forward ?s' ?s''"
    and fin: "session_terminal ?s \<longrightarrow> r'' = r"
    using assms by (simp_all add: session_step_def)
  note rank = session_forward_rank[OF fwd(1)] session_forward_rank[OF fwd(2)]
  have "?s = S_pending_approval \<and> ?s'' \<noteq> S_pending_approval" if "ses_expiresAt r'' \<noteq> ses_expiresAt r"
  proof (cases "ses_expiresAt r' = ses_expiresAt r")
    case True
    then have "?s' = S_pending_approval \<and> ?s'' \<noteq> S_pending_approval"
      using assms(2) that by (simp add: session_step_def)
    then show ?thesis using rank by (simp add: session_rank_pending[symmetric])
  next
    case False
    then have "?s = S_pending_approval \<and> ?s' \<noteq> S_pending_approval"
      using assms(1) by (simp add: session_step_def)
    then show ?thesis using rank by (simp add: session_rank_pending[symmetric])
  qed
  moreover have "session_rank ?s \<le> 1 \<and> 2 \<le> session_rank ?s''" if "ses_readyAt r'' \<noteq> ses_readyAt r"
  proof (cases "ses_readyAt r' = ses_readyAt r")
    case True
    then have "session_rank ?s' \<le> 1 \<and> 2 \<le> session_rank ?s''"
      using assms(2) that by (simp add: session_step_def)
    then show ?thesis using rank by linarith
  next
    case False
    then have "session_rank ?s \<le> 1 \<and> 2 \<le> session_rank ?s'"
      using assms(1) by (simp add: session_step_def)
    then show ?thesis using rank by linarith
  qed
  ultimately show ?thesis
    using id fin session_forward_trans[OF fwd] by (simp add: session_step_def)
qed

interpretation sessions: row_lifecycle ses_id session_step "\<lambda>r. session_terminal (ses_status r)"
proof
  fix r r' r'' :: session_row
  show "session_step r r" by (simp add: session_step_def session_forward_def)
  show "session_step r r' \<Longrightarrow> ses_id r' = ses_id r" by (simp add: session_step_def session_identity_def)
  show "session_step r r' \<Longrightarrow> session_terminal (ses_status r) \<Longrightarrow> r' = r" by (simp add: session_step_def)
  show "session_step r r' \<Longrightarrow> session_step r' r'' \<Longrightarrow> session_step r r''" by (rule session_step_trans)
qed

interpretation commands: row_lifecycle cmd_id command_step "\<lambda>r. command_terminal (cmd_status r)"
proof
  fix r r' r'' :: command_row
  show "command_step r r" by (simp add: command_step_def)
  show "command_step r r' \<Longrightarrow> cmd_id r' = cmd_id r" by (simp add: command_step_def command_identity_def)
  show "command_step r r' \<Longrightarrow> command_terminal (cmd_status r) \<Longrightarrow> r' = r" by (simp add: command_step_def)
  assume "command_step r r'" "command_step r' r''"
  then show "command_step r r''" by (auto simp: command_step_def)
qed

text \<open>The inserts meet the idempotency contract.\<close>

definition create_session_row :: "session_row \<Rightarrow> session_db \<Rightarrow> session create_result \<times> session_db" where
  "create_session_row row = createSession (sessionRecord row) (srow_idempotencyKeyHash row) (srow_requestFingerprint row)"

definition create_command_row :: "command_row \<Rightarrow> session_db \<Rightarrow> command create_result \<times> session_db" where
  "create_command_row row = createCommand (commandRecord row) (crow_idempotencyKeyHash row) (crow_requestFingerprint row)"

definition session_idem :: "session_row \<Rightarrow> ident \<times> ident \<times> string" where
  "session_idem r = (ses_organizationId r, ses_agentId r, srow_idempotencyKeyHash r)"

definition command_idem :: "command_row \<Rightarrow> ident \<times> ident \<times> string" where
  "command_idem r = (cmd_organizationId r, cmd_sessionId r, crow_idempotencyKeyHash r)"

lemma sessionInsert_sessionRecord [row_simps]:
  "sessionInsert (sessionRecord r) (srow_idempotencyKeyHash r) (srow_requestFingerprint r) = r"
  by (cases r) (simp add: sessionInsert_def sessionRecord_def session.defs session_row.defs)

lemma commandInsert_commandRecord [row_simps]:
  "commandInsert (commandRecord r) (crow_idempotencyKeyHash r) (crow_requestFingerprint r) = r"
  by (cases r) (simp add: commandInsert_def commandRecord_def command.defs command_row.defs)

lemma session_idempotency_idem:
  "session_idempotency (ses_organizationId r) (ses_agentId r) (srow_idempotencyKeyHash r) = (\<lambda>r'. session_idem r' = session_idem r)"
  by (rule ext) (auto simp: session_idempotency_def session_idem_def)

lemma command_idempotency_idem:
  "command_idempotency (cmd_organizationId r) (cmd_sessionId r) (crow_idempotencyKeyHash r) = (\<lambda>r'. command_idem r' = command_idem r)"
  by (rule ext) (auto simp: command_idempotency_def command_idem_def)

interpretation session_inserts: idempotent_table create_session_row db_sessions ses_id session_idem
  srow_requestFingerprint sessionRecord
proof
  fix db :: session_db and row
  let ?hit = "\<lambda>r. ses_id r = ses_id row \<or> session_idem r = session_idem row"
  show "fst (create_session_row row db) = Created (sessionRecord row)
      \<and> db_sessions (snd (create_session_row row db)) = db_sessions db @ [row]"
    if "\<forall>r \<in> set (db_sessions db). ses_id r \<noteq> ses_id row \<and> session_idem r \<noteq> session_idem row"
    using that by (simp add: create_session_row_def createSession_def list_ex_iff session_idempotency_idem sessionInsert_sessionRecord Let_def)
  show "create_session_row row db = (case sql_first (\<lambda>r. session_idem r = session_idem row) (db_sessions db) of
          None \<Rightarrow> (Idempotency_conflict, db)
        | Some r \<Rightarrow> if srow_requestFingerprint r \<noteq> srow_requestFingerprint row
                   then (Idempotency_conflict, db) else (Replayed (sessionRecord r), db))"
    if "\<exists>r \<in> set (db_sessions db). ?hit r"
    using that by (simp add: create_session_row_def createSession_def list_ex_iff sessionByIdempotency_def
        session_idempotency_idem split: option.split)
qed

interpretation command_inserts: idempotent_table create_command_row db_commands cmd_id command_idem
  crow_requestFingerprint commandRecord
proof
  fix db :: session_db and row
  let ?hit = "\<lambda>r. cmd_id r = cmd_id row \<or> command_idem r = command_idem row"
  show "fst (create_command_row row db) = Created (commandRecord row)
      \<and> db_commands (snd (create_command_row row db)) = db_commands db @ [row]"
    if "\<forall>r \<in> set (db_commands db). cmd_id r \<noteq> cmd_id row \<and> command_idem r \<noteq> command_idem row"
    using that by (simp add: create_command_row_def createCommand_def list_ex_iff command_idempotency_idem commandInsert_commandRecord Let_def)
  show "create_command_row row db = (case sql_first (\<lambda>r. command_idem r = command_idem row) (db_commands db) of
          None \<Rightarrow> (Idempotency_conflict, db)
        | Some r \<Rightarrow> if crow_requestFingerprint r \<noteq> crow_requestFingerprint row
                   then (Idempotency_conflict, db) else (Replayed (commandRecord r), db))"
    if "\<exists>r \<in> set (db_commands db). ?hit r"
    using that by (simp add: create_command_row_def createCommand_def list_ex_iff commandByIdempotency_def
        command_idempotency_idem split: option.split)
qed

end
