(* ===== verification/Session_Invariants.thy ===== *)
theory Session_Invariants
  imports Session_Lifecycle
begin

text \<open>
  The invariant of the session database and its preservation by every operation.  The
  foreign keys of the migrations (\<open>commands.session_id\<close>, the references of the audit events and
  of the output chunks) are clauses of \<open>db_wf\<close>: the operations never run into them.
\<close>

section \<open>The invariant\<close>

definition command_in :: "command_row \<Rightarrow> session_row \<Rightarrow> bool" where
  "command_in c s \<longleftrightarrow> ses_id s = cmd_sessionId c \<and> ses_organizationId s = cmd_organizationId c
     \<and> ses_agentId s = cmd_agentId c \<and> ses_machineId s = cmd_machineId c"

definition chunk_id :: "output_chunk \<Rightarrow> ident \<times> ident \<times> int" where
  "chunk_id k = (chk_organizationId k, chk_commandId k, chk_sequence k)"

definition stored_bytes :: "command_row \<Rightarrow> stream \<Rightarrow> output_chunk list \<Rightarrow> int" where
  "stored_bytes c st chunks = sum_list (map (\<lambda>k. int (length (chk_data k)))
     (filter (\<lambda>k. chk_organizationId k = cmd_organizationId c \<and> chk_commandId k = cmd_id c
        \<and> chk_stream k = st) chunks))"

definition event_refers :: "session_db \<Rightarrow> session_event_row \<Rightarrow> bool" where
  "event_refers db e \<longleftrightarrow>
     (\<exists>s \<in> set (db_sessions db). ses_id s = sev_sessionId e \<and> ses_organizationId s = sev_organizationId e)
     \<and> (case sev_commandId e of None \<Rightarrow> True
        | Some i \<Rightarrow> \<exists>c \<in> set (db_commands db). cmd_id c = i \<and> cmd_sessionId c = sev_sessionId e)"

definition sessions_wf :: "session_row list \<Rightarrow> bool" where
  "sessions_wf t \<longleftrightarrow> distinct (map ses_id t) \<and> distinct (map session_idem t) \<and> (\<forall>r \<in> set t. session_row_ok r)"

definition commands_wf :: "command_row list \<Rightarrow> bool" where
  "commands_wf t \<longleftrightarrow> distinct (map cmd_id t) \<and> distinct (map command_idem t) \<and> (\<forall>r \<in> set t. command_row_ok r)"

definition chunks_wf :: "command_row list \<Rightarrow> output_chunk list \<Rightarrow> bool" where
  "chunks_wf commands chunks \<longleftrightarrow> distinct (map chunk_id chunks)
     \<and> (\<forall>k \<in> set chunks. \<exists>c \<in> set commands. cmd_organizationId c = chk_organizationId k \<and> cmd_id c = chk_commandId k)
     \<and> (\<forall>c \<in> set commands. stored_bytes c stdout chunks \<le> cmd_stdoutBytes c
                           \<and> stored_bytes c stderr chunks \<le> cmd_stderrBytes c)"

definition machine_id_of :: "machine_authority \<Rightarrow> ident \<times> ident" where
  "machine_id_of m = (ma_organizationId m, ma_machineId m)"

definition db_wf :: "session_db \<Rightarrow> bool" where
  "db_wf db \<longleftrightarrow> sessions_wf (db_sessions db) \<and> commands_wf (db_commands db)
     \<and> (\<forall>c \<in> set (db_commands db). \<exists>s \<in> set (db_sessions db). command_in c s)
     \<and> chunks_wf (db_commands db) (db_outputChunks db)
     \<and> distinct (map machine_id_of (db_machineAuthorities db))
     \<and> map sev_id (db_auditEvents db) = [1..<Suc (length (db_auditEvents db))]
     \<and> (\<forall>e \<in> set (db_auditEvents db). event_refers db e)"

text \<open>What every operation may do: rewrite rows forward, add rows, append events.\<close>

definition db_step :: "session_db \<Rightarrow> session_db \<Rightarrow> bool" where
  "db_step db db' \<longleftrightarrow> evolves session_step (db_sessions db) (db_sessions db')
     \<and> evolves command_step (db_commands db) (db_commands db')
     \<and> (\<exists>v. db_auditEvents db' = db_auditEvents db @ v)"

lemma db_step_refl [simp, intro]: "db_step db db"
  by (simp add: db_step_def sessions.evolves_refl commands.evolves_refl)

lemma db_step_trans: "db_step db db' \<Longrightarrow> db_step db' db'' \<Longrightarrow> db_step db db''"
  by (auto simp: db_step_def intro: sessions.evolves_trans commands.evolves_trans)

lemma db_wf_empty [simp]: "db_wf empty_session_db"
  by (simp add: db_wf_def empty_session_db_def sessions_wf_def commands_wf_def chunks_wf_def)

section \<open>Updates of rows\<close>

definition rows_forward :: "('r \<Rightarrow> 'r \<Rightarrow> bool) \<Rightarrow> ('r \<Rightarrow> bool) \<Rightarrow> 'r list \<Rightarrow> 'r list \<Rightarrow> bool" where
  "rows_forward step ok t t' \<longleftrightarrow> list_all2 step t t' \<and> (\<forall>r \<in> set t'. ok r)"

lemma rows_forward_evolves: "rows_forward step ok t t' \<Longrightarrow> evolves step t t'"
  unfolding rows_forward_def evolves_def by (rule exI[of _ t']) simp

lemma rows_forward_update:
  assumes "\<And>r. step r r" "\<And>r. r \<in> set t \<Longrightarrow> ok r"
    and "\<And>r. r \<in> set t \<Longrightarrow> P r \<Longrightarrow> step r (f r) \<and> ok (f r)"
  shows "rows_forward step ok t (sql_update P f t)"
  unfolding rows_forward_def sql_update_def
  using assms by (auto simp: list_all2_map2 intro!: list.rel_refl_strong)

lemma rows_forward_map:
  "rows_forward step ok t t' \<Longrightarrow> (\<And>r r'. step r r' \<Longrightarrow> k r' = k r) \<Longrightarrow> map k t' = map k t"
  unfolding rows_forward_def by (auto simp: list_all2_conv_all_nth intro: nth_equalityI)

lemma session_step_idem: "session_step r r' \<Longrightarrow> session_idem r' = session_idem r"
  by (simp add: session_step_def session_identity_def session_idem_def)

lemma command_step_idem: "command_step r r' \<Longrightarrow> command_idem r' = command_idem r"
  by (simp add: command_step_def command_identity_def command_idem_def)

lemma command_in_step: "command_in c s \<Longrightarrow> session_step s s' \<Longrightarrow> command_step c c' \<Longrightarrow> command_in c' s'"
  by (simp add: command_in_def session_step_def command_step_def session_identity_def command_identity_def)

lemma rows_forward_mem:
  "rows_forward step ok t t' \<Longrightarrow> r \<in> set t \<Longrightarrow> \<exists>r' \<in> set t'. step r r'"
  using rows_forward_evolves evolves_mem by metis

lemma rows_forward_mem':
  "rows_forward step ok t t' \<Longrightarrow> r' \<in> set t' \<Longrightarrow> \<exists>r \<in> set t. step r r'"
  by (auto simp: rows_forward_def list_all2_conv_all_nth in_set_conv_nth) (metis nth_mem)

lemma stored_bytes_cong:
  "cmd_id c' = cmd_id c \<Longrightarrow> cmd_organizationId c' = cmd_organizationId c \<Longrightarrow>
   stored_bytes c' st chunks = stored_bytes c st chunks"
  by (simp add: stored_bytes_def)

lemma sessions_wf_forward:
  "sessions_wf t \<Longrightarrow> rows_forward session_step session_row_ok t t' \<Longrightarrow> sessions_wf t'"
  unfolding sessions_wf_def
  using rows_forward_map[of session_step session_row_ok t t' ses_id]
    rows_forward_map[of session_step session_row_ok t t' session_idem]
  by (auto simp: sessions.step_key session_step_idem rows_forward_def)

lemma commands_wf_forward:
  "commands_wf t \<Longrightarrow> rows_forward command_step command_row_ok t t' \<Longrightarrow> commands_wf t'"
  unfolding commands_wf_def
  using rows_forward_map[of command_step command_row_ok t t' cmd_id]
    rows_forward_map[of command_step command_row_ok t t' command_idem]
  by (auto simp: commands.step_key command_step_idem rows_forward_def)

lemma command_step_sel:
  "command_step c c' \<Longrightarrow> cmd_id c' = cmd_id c \<and> cmd_organizationId c' = cmd_organizationId c
     \<and> cmd_sessionId c' = cmd_sessionId c \<and> cmd_agentId c' = cmd_agentId c \<and> cmd_machineId c' = cmd_machineId c
     \<and> cmd_stdoutBytes c \<le> cmd_stdoutBytes c' \<and> cmd_stderrBytes c \<le> cmd_stderrBytes c'"
  by (simp add: command_step_def command_identity_def)

lemma session_step_sel:
  "session_step s s' \<Longrightarrow> ses_id s' = ses_id s \<and> ses_organizationId s' = ses_organizationId s
     \<and> ses_agentId s' = ses_agentId s \<and> ses_machineId s' = ses_machineId s
     \<and> ses_clientProfileId s' = ses_clientProfileId s \<and> ses_operatingSystemUser s' = ses_operatingSystemUser s"
  by (simp add: session_step_def session_identity_def)

lemma chunks_wf_forward:
  assumes "chunks_wf t chunks" "rows_forward command_step command_row_ok t t'"
  shows "chunks_wf t' chunks"
  unfolding chunks_wf_def
proof (intro conjI ballI)
  show "distinct (map chunk_id chunks)" using assms(1) by (simp add: chunks_wf_def)
next
  fix k assume "k \<in> set chunks"
  then obtain c where "c \<in> set t" "cmd_organizationId c = chk_organizationId k" "cmd_id c = chk_commandId k"
    using assms(1) by (auto simp: chunks_wf_def)
  moreover then obtain c' where "c' \<in> set t'" "command_step c c'"
    using rows_forward_mem[OF assms(2)] by blast
  ultimately show "\<exists>c \<in> set t'. cmd_organizationId c = chk_organizationId k \<and> cmd_id c = chk_commandId k"
    using command_step_sel by metis
next
  fix c' assume "c' \<in> set t'"
  then obtain c where c: "c \<in> set t" "command_step c c'" using rows_forward_mem'[OF assms(2)] by blast
  note sel = command_step_sel[OF c(2)]
  have "stored_bytes c' st chunks = stored_bytes c st chunks" for st
    using sel by (intro stored_bytes_cong) auto
  moreover have "stored_bytes c stdout chunks \<le> cmd_stdoutBytes c" "stored_bytes c stderr chunks \<le> cmd_stderrBytes c"
    using assms(1) c(1) by (auto simp: chunks_wf_def)
  ultimately show "stored_bytes c' stdout chunks \<le> cmd_stdoutBytes c'"
    "stored_bytes c' stderr chunks \<le> cmd_stderrBytes c'"
    using sel by auto
qed

lemma event_refers_step:
  assumes "event_refers db e" "evolves session_step (db_sessions db) (db_sessions db')"
    and "evolves command_step (db_commands db) (db_commands db')"
  shows "event_refers db' e"
proof -
  have "\<exists>s' \<in> set (db_sessions db'). ses_id s' = ses_id s \<and> ses_organizationId s' = ses_organizationId s"
    if "s \<in> set (db_sessions db)" for s
    using evolves_mem[OF assms(2) that] session_step_sel by metis
  moreover have "\<exists>c' \<in> set (db_commands db'). cmd_id c' = cmd_id c \<and> cmd_sessionId c' = cmd_sessionId c"
    if "c \<in> set (db_commands db)" for c
    using evolves_mem[OF assms(3) that] command_step_sel by metis
  ultimately show ?thesis
    using assms(1) unfolding event_refers_def by (auto split: option.splits) metis+
qed

lemma db_wf_forward:
  assumes "db_wf db" "rows_forward session_step session_row_ok (db_sessions db) S"
    and "rows_forward command_step command_row_ok (db_commands db) C"
    and "distinct (map machine_id_of M)"
  defines "db' \<equiv> db\<lparr>db_sessions := S, db_commands := C, db_machineAuthorities := M\<rparr>"
  shows "db_wf db' \<and> db_step db db'"
proof -
  have ev: "evolves session_step (db_sessions db) (db_sessions db')"
    "evolves command_step (db_commands db) (db_commands db')"
    using assms(2,3) rows_forward_evolves by (auto simp: db'_def)
  have "\<exists>s' \<in> set S. command_in c' s'" if c': "c' \<in> set C" for c'
  proof -
    obtain c where c: "c \<in> set (db_commands db)" "command_step c c'"
      using rows_forward_mem'[OF assms(3) c'] by blast
    then obtain s where s: "s \<in> set (db_sessions db)" "command_in c s"
      using assms(1) by (auto simp: db_wf_def)
    then obtain s' where "s' \<in> set S" "session_step s s'" using rows_forward_mem[OF assms(2)] by blast
    then show ?thesis using command_in_step s(2) c(2) by blast
  qed
  moreover have "\<forall>e \<in> set (db_auditEvents db). event_refers db' e"
    using assms(1) event_refers_step[OF _ ev] by (auto simp: db_wf_def)
  ultimately show ?thesis
    using assms(1,4) ev sessions_wf_forward[OF _ assms(2)] commands_wf_forward[OF _ assms(3)]
      chunks_wf_forward[OF _ assms(3)]
    by (simp add: db_wf_def db_step_def db'_def)
qed

lemma rows_refl:
  "db_wf db \<Longrightarrow> rows_forward session_step session_row_ok (db_sessions db) (db_sessions db)"
  "db_wf db \<Longrightarrow> rows_forward command_step command_row_ok (db_commands db) (db_commands db)"
  by (auto simp: rows_forward_def db_wf_def sessions_wf_def commands_wf_def sessions.step_refl
      commands.step_refl intro!: list.rel_refl)

lemma db_wf_sessions:
  assumes "db_wf db"
    and "\<And>r. r \<in> set (db_sessions db) \<Longrightarrow> P r \<Longrightarrow> session_row_ok r \<Longrightarrow> session_step r (f r) \<and> session_row_ok (f r)"
  shows "db_wf (db\<lparr>db_sessions := sql_update P f (db_sessions db)\<rparr>)
       \<and> db_step db (db\<lparr>db_sessions := sql_update P f (db_sessions db)\<rparr>)"
proof -
  have "rows_forward session_step session_row_ok (db_sessions db) (sql_update P f (db_sessions db))"
    by (rule rows_forward_update)
      (use assms in \<open>auto simp: sessions.step_refl db_wf_def sessions_wf_def\<close>)
  from db_wf_forward[OF assms(1) this rows_refl(2)[OF assms(1)], of "db_machineAuthorities db"] assms(1)
  show ?thesis by (simp add: db_wf_def)
qed

lemma db_wf_commands:
  assumes "db_wf db"
    and "\<And>r. r \<in> set (db_commands db) \<Longrightarrow> P r \<Longrightarrow> command_row_ok r \<Longrightarrow> command_step r (f r) \<and> command_row_ok (f r)"
  shows "db_wf (db\<lparr>db_commands := sql_update P f (db_commands db)\<rparr>)
       \<and> db_step db (db\<lparr>db_commands := sql_update P f (db_commands db)\<rparr>)"
proof -
  have "rows_forward command_step command_row_ok (db_commands db) (sql_update P f (db_commands db))"
    by (rule rows_forward_update)
      (use assms in \<open>auto simp: commands.step_refl db_wf_def commands_wf_def\<close>)
  from db_wf_forward[OF assms(1) rows_refl(1)[OF assms(1)] this, of "db_machineAuthorities db"] assms(1)
  show ?thesis by (simp add: db_wf_def)
qed

section \<open>Every operation keeps the invariant\<close>

lemma session_rank_not_terminal: "session_rank st < 4 \<Longrightarrow> \<not> session_terminal st"
  by (simp add: session_terminal_rank)

lemma append_event_wf:
  assumes "db_wf db" "\<exists>s \<in> set (db_sessions db). ses_id s = sev_sessionId e \<and> ses_organizationId s = sev_organizationId e"
    and "case sev_commandId e of None \<Rightarrow> True
         | Some i \<Rightarrow> \<exists>c \<in> set (db_commands db). cmd_id c = i \<and> cmd_sessionId c = sev_sessionId e"
  shows "db_wf (append_event e now db) \<and> db_step db (append_event e now db)"
proof -
  let ?db = "append_event e now db"
  have step: "db_step db ?db"
    by (simp add: db_step_def append_event_def sessions.evolves_refl commands.evolves_refl)
  have "event_refers ?db x \<longleftrightarrow> event_refers db x" for x
    by (auto simp: event_refers_def append_event_def split: option.splits)
  with assms step show ?thesis
    by (auto simp: db_wf_def append_event_def event_refers_def session_event.defs session_event_row.defs
        split: option.splits)
qed

lemmas row_ok_defs = session_row_ok_def session_step_def session_identity_def session_forward_def
  session_terminal_rank

lemmas command_ok_defs = command_row_ok_def command_step_def command_identity_def

text \<open>The changes the statements make, as forward steps.\<close>

lemma session_finish_ok:
  assumes "session_row_ok r" "session_forward (ses_status r) st" "session_terminal st" "\<not> session_terminal (ses_status r)"
  shows "session_step r (r\<lparr>ses_status := st, ses_finishedAt := Some now\<rparr>)
       \<and> session_row_ok (r\<lparr>ses_status := st, ses_finishedAt := Some now\<rparr>)"
  using assms by (auto simp: session_row_ok_def session_step_def session_identity_def session_terminal_rank)

lemma session_cancel_ok:
  assumes "session_row_ok r" "\<not> session_terminal (ses_status r)"
  shows "session_step r (r\<lparr>ses_status := S_cancellation_requested\<rparr>)
       \<and> session_row_ok (r\<lparr>ses_status := S_cancellation_requested\<rparr>)"
  using assms by (cases "ses_status r") (simp_all add: row_ok_defs)

lemma session_open_ok:
  assumes "session_row_ok r" "ses_status r = S_opening"
  shows "session_step r (r\<lparr>ses_status := S_active, ses_readyAt := Some now\<rparr>)
       \<and> session_row_ok (r\<lparr>ses_status := S_active, ses_readyAt := Some now\<rparr>)"
  using assms by (simp add: row_ok_defs)

lemma session_approve_ok:
  assumes "session_row_ok r" "ses_status r = S_pending_approval"
  shows "session_step r (r\<lparr>ses_status := S_opening, ses_expiresAt := e\<rparr>)
       \<and> session_row_ok (r\<lparr>ses_status := S_opening, ses_expiresAt := e\<rparr>)"
  using assms by (simp add: row_ok_defs)

lemma command_cancel_ok:
  assumes "command_row_ok r" "command_active r"
  shows "command_step r (r\<lparr>cmd_status := C_cancellation_requested\<rparr>)
       \<and> command_row_ok (r\<lparr>cmd_status := C_cancellation_requested\<rparr>)"
  using assms by (cases "cmd_status r") (simp_all add: command_ok_defs active_defs)

lemma command_complete_ok:
  fixes r :: command_row and ec :: "int option" and err :: "string option" and tr :: bool and fin :: instant
  assumes "command_row_ok r" "command_active r" "completion_status st"
  defines "r' \<equiv> r\<lparr>cmd_status := st, cmd_exitCode := ec, cmd_error := err,
     cmd_outputTruncated := tr, cmd_finishedAt := Some fin\<rparr>"
  shows "command_step r r' \<and> command_row_ok r'"
proof -
  have st: "command_rank st = 3" "\<not> command_active r'"
    using assms(3) by (auto simp: completion_status_terminal command_terminal_rank r'_def
      command_terminal_iff[symmetric])
  moreover have "command_rank (cmd_status r) < 3" "\<not> command_terminal (cmd_status r)"
    using assms(2) command_rank_le[of "cmd_status r"] command_terminal_iff[of r]
    by (auto simp: command_terminal_rank order.strict_iff_order)
  moreover have "st \<noteq> C_running" using st(1) by auto
  ultimately show ?thesis
    using assms(1) by (simp add: command_ok_defs r'_def command_terminal_rank)
qed

lemma session_forward_final:
  "\<not> session_terminal a \<Longrightarrow> b \<in> {S_completed, S_cancelled, S_expired} \<Longrightarrow> session_forward a b"
  by (cases a; auto simp: session_forward_def session_terminal_def)

lemma distinct_machine_insert:
  "distinct (map machine_id_of M) \<Longrightarrow> sql_first (machine_key (ma_organizationId a) (ma_machineId a)) M = None
   \<Longrightarrow> distinct (map machine_id_of (M @ [a]))"
  by (auto simp: machine_id_of_def machine_key_def sql_first_None_iff)

lemma db_wf_machines:
  "db_wf db \<Longrightarrow> distinct (map machine_id_of M) \<Longrightarrow>
   db_wf (db\<lparr>db_machineAuthorities := M\<rparr>) \<and> db_step db (db\<lparr>db_machineAuthorities := M\<rparr>)"
  using db_wf_forward[OF _ rows_refl, of db M] by simp

lemma putMachineAuthority_wf:
  assumes "db_wf db"
  shows "db_wf (putMachineAuthority a db) \<and> db_step db (putMachineAuthority a db)"
proof -
  have "distinct (map machine_id_of (db_machineAuthorities db))" using assms by (simp add: db_wf_def)
  moreover from this have "distinct (map machine_id_of (db_machineAuthorities db @ [a]))"
    if "sql_first (machine_key (ma_organizationId a) (ma_machineId a)) (db_machineAuthorities db) = None"
    using distinct_machine_insert that by blast
  ultimately show ?thesis
    unfolding putMachineAuthority_def Let_def
    using db_wf_machines[OF assms] by (auto simp: map_sql_update machine_id_of_def comp_def)
qed

lemma setMachineOnline_wf:
  assumes "db_wf db"
  shows "db_wf (snd (setMachineOnline org mid online db)) \<and> db_step db (snd (setMachineOnline org mid online db))"
  using assms unfolding setMachineOnline_def Let_def snd_conv
  by (intro db_wf_machines) (auto simp: db_wf_def map_sql_update machine_id_of_def)

lemma sessions_wf_append:
  "sessions_wf t \<Longrightarrow> session_row_ok r \<Longrightarrow> \<forall>x \<in> set t. ses_id x \<noteq> ses_id r \<and> session_idem x \<noteq> session_idem r
   \<Longrightarrow> sessions_wf (t @ [r])"
  by (force simp: sessions_wf_def)

lemma commands_wf_append:
  "commands_wf t \<Longrightarrow> command_row_ok r \<Longrightarrow> \<forall>x \<in> set t. cmd_id x \<noteq> cmd_id r \<and> command_idem x \<noteq> command_idem r
   \<Longrightarrow> commands_wf (t @ [r])"
  by (force simp: commands_wf_def)

lemma db_wf_add_session:
  assumes "db_wf db" "sessions_wf (db_sessions db @ [r])"
  shows "db_wf (db\<lparr>db_sessions := db_sessions db @ [r]\<rparr>)
       \<and> db_step db (db\<lparr>db_sessions := db_sessions db @ [r]\<rparr>)"
proof -
  let ?db = "db\<lparr>db_sessions := db_sessions db @ [r]\<rparr>"
  have "db_step db ?db" by (simp add: db_step_def sessions.evolves_append commands.evolves_refl)
  moreover from this have "event_refers ?db e" if "e \<in> set (db_auditEvents db)" for e
    using event_refers_step assms(1) that by (auto simp: db_wf_def db_step_def)
  ultimately show ?thesis using assms by (fastforce simp: db_wf_def)
qed

lemma stored_bytes_no_chunk:
  "\<forall>k \<in> set chunks. \<not> (chk_organizationId k = cmd_organizationId c \<and> chk_commandId k = cmd_id c)
   \<Longrightarrow> stored_bytes c st chunks = 0"
  unfolding stored_bytes_def by (subst filter_False) auto

lemma db_wf_add_command:
  assumes "db_wf db" "commands_wf (db_commands db @ [r])" "\<exists>s \<in> set (db_sessions db). command_in r s"
  shows "db_wf (db\<lparr>db_commands := db_commands db @ [r]\<rparr>)
       \<and> db_step db (db\<lparr>db_commands := db_commands db @ [r]\<rparr>)"
proof -
  let ?db = "db\<lparr>db_commands := db_commands db @ [r]\<rparr>"
  have step: "db_step db ?db" by (simp add: db_step_def sessions.evolves_refl commands.evolves_append)
  then have "event_refers ?db e" if "e \<in> set (db_auditEvents db)" for e
    using event_refers_step assms(1) that by (auto simp: db_wf_def db_step_def)
  moreover have "chunks_wf (db_commands ?db) (db_outputChunks db)"
  proof -
    have old: "chunks_wf (db_commands db) (db_outputChunks db)" using assms(1) by (simp add: db_wf_def)
    have "cmd_id r \<notin> cmd_id ` set (db_commands db)" using assms(2) by (simp add: commands_wf_def)
    then have "\<forall>k \<in> set (db_outputChunks db).
        \<not> (chk_organizationId k = cmd_organizationId r \<and> chk_commandId k = cmd_id r)"
      using old unfolding chunks_wf_def by (metis image_eqI)
    then have "stored_bytes r st (db_outputChunks db) = 0" for st by (rule stored_bytes_no_chunk)
    moreover have "0 \<le> cmd_stdoutBytes r \<and> 0 \<le> cmd_stderrBytes r"
      using assms(2) by (simp add: commands_wf_def command_row_ok_def)
    ultimately show ?thesis using old by (fastforce simp: chunks_wf_def)
  qed
  ultimately show ?thesis using assms step by (auto simp: db_wf_def)
qed

lemma createSession_wf:
  assumes "db_wf db" "session_row_ok (sessionInsert s k f)"
  shows "db_wf (snd (createSession s k f db)) \<and> db_step db (snd (createSession s k f db))"
proof (cases "list_ex (\<lambda>r. ses_id r = ses_id s
    \<or> session_idempotency (ses_organizationId s) (ses_agentId s) k r) (db_sessions db)")
  case True
  then show ?thesis using assms(1) by (simp add: createSession_def split: option.split)
next
  case False
  then have "\<forall>x \<in> set (db_sessions db). ses_id x \<noteq> ses_id (sessionInsert s k f)
      \<and> session_idem x \<noteq> session_idem (sessionInsert s k f)"
    by (auto simp: list_ex_iff session_idempotency_def session_idem_def)
  then have "sessions_wf (db_sessions db @ [sessionInsert s k f])"
    using assms by (intro sessions_wf_append) (auto simp: db_wf_def)
  from db_wf_add_session[OF assms(1) this] False show ?thesis by (simp add: createSession_def Let_def)
qed

lemma createCommand_wf:
  assumes "db_wf db" "command_row_ok (commandInsert c k f)"
    and "\<exists>s \<in> set (db_sessions db). command_in (commandInsert c k f) s"
  shows "db_wf (snd (createCommand c k f db)) \<and> db_step db (snd (createCommand c k f db))"
proof (cases "list_ex (\<lambda>r. cmd_id r = cmd_id c
    \<or> command_idempotency (cmd_organizationId c) (cmd_sessionId c) k r) (db_commands db)")
  case True
  then show ?thesis using assms(1) by (simp add: createCommand_def split: option.split)
next
  case False
  then have "\<forall>x \<in> set (db_commands db). cmd_id x \<noteq> cmd_id (commandInsert c k f)
      \<and> command_idem x \<noteq> command_idem (commandInsert c k f)"
    by (auto simp: list_ex_iff command_idempotency_def command_idem_def)
  then have "commands_wf (db_commands db @ [commandInsert c k f])"
    using assms by (intro commands_wf_append) (auto simp: db_wf_def)
  from db_wf_add_command[OF assms(1) this assms(3)] False show ?thesis
    by (simp add: createCommand_def Let_def)
qed

lemma decideSession_wf:
  assumes "db_wf db"
  shows "db_wf (snd (decideSession org sid dec now db)) \<and> db_step db (snd (decideSession org sid dec now db))"
proof -
  let ?P = "\<lambda>r. session_key org sid r \<and> ses_status r = S_pending_approval"
  have upd: "db_wf (db\<lparr>db_sessions := sql_update ?P f (db_sessions db)\<rparr>)
      \<and> db_step db (db\<lparr>db_sessions := sql_update ?P f (db_sessions db)\<rparr>)"
    if "f = (\<lambda>r. r\<lparr>ses_status := S_expired, ses_finishedAt := Some now\<rparr>)
        \<or> f = (\<lambda>r. if dec = approve then r\<lparr>ses_status := S_opening, ses_expiresAt := e\<rparr>
                   else r\<lparr>ses_status := S_cancelled, ses_finishedAt := Some now\<rparr>)" for f e
  proof (rule db_wf_sessions[OF assms])
    fix r assume r: "session_key org sid r \<and> ses_status r = S_pending_approval" "session_row_ok r"
    have "\<not> session_terminal (ses_status r)" using r(1) by (simp add: session_terminal_def)
    then have "session_step r (r\<lparr>ses_status := st, ses_finishedAt := Some now\<rparr>)
        \<and> session_row_ok (r\<lparr>ses_status := st, ses_finishedAt := Some now\<rparr>)" if "st \<in> {S_expired, S_cancelled}" for st
      using session_finish_ok[OF r(2) session_forward_final] that by (auto simp: session_terminal_def)
    then show "session_step r (f r) \<and> session_row_ok (f r)"
      using that session_approve_ok[OF r(2)] r(1) by auto
  qed
  show ?thesis
    unfolding decideSession_def Let_def
    using assms upd by (auto split: option.split)
qed

lemma session_key_cases:
  "sql_first (\<lambda>r. session_key org sid r \<and> Q r) t = Some s \<Longrightarrow>
   s \<in> set t \<and> ses_organizationId s = org \<and> ses_id s = sid \<and> Q s"
  by (auto simp: session_key_def dest: sql_first_SomeD)

lemma finishSession_wf:
  assumes wf: "db_wf db"
  shows "db_wf (snd (finishSession org a sid out now db)) \<and> db_step db (snd (finishSession org a sid out now db))"
proof (cases "sql_first (\<lambda>r. session_key org sid r \<and> ses_agentId r = a) (db_sessions db)")
  case None
  then show ?thesis using wf by (simp add: finishSession_def)
next
  case (Some s)
  let ?ids = "map cmd_id (sql_where (\<lambda>r. cmd_organizationId r = org \<and> cmd_sessionId r = sid \<and> command_active r) (db_commands db))"
  let ?S = "sql_update (session_key org sid)
     (\<lambda>r. if out = complete then r\<lparr>ses_status := S_completed, ses_finishedAt := Some now\<rparr>
          else r\<lparr>ses_status := S_cancellation_requested\<rparr>) (db_sessions db)"
  let ?C = "if out = cancel \<and> ?ids \<noteq> [] then sql_update (\<lambda>r. cmd_organizationId r = org \<and> cmd_id r \<in> set ?ids)
     (\<lambda>r. r\<lparr>cmd_status := C_cancellation_requested\<rparr>) (db_commands db) else db_commands db"
  note s = session_key_cases[OF Some]
  have S: "rows_forward session_step session_row_ok (db_sessions db) ?S" if "\<not> session_terminal (ses_status s)"
  proof (rule rows_forward_update)
    fix r assume r: "r \<in> set (db_sessions db)"
    show ok: "session_row_ok r" using r wf by (simp add: db_wf_def sessions_wf_def)
    assume "session_key org sid r"
    then have "r = s" using r s wf by (auto simp: session_key_def db_wf_def sessions_wf_def intro: distinct_key_eq)
    then show "session_step r (if out = complete then r\<lparr>ses_status := S_completed, ses_finishedAt := Some now\<rparr>
          else r\<lparr>ses_status := S_cancellation_requested\<rparr>)
        \<and> session_row_ok (if out = complete then r\<lparr>ses_status := S_completed, ses_finishedAt := Some now\<rparr>
          else r\<lparr>ses_status := S_cancellation_requested\<rparr>)"
      using that ok session_cancel_ok[OF ok]
        session_finish_ok[OF ok session_forward_final, of S_completed now] by (simp add: session_terminal_def)
  qed (rule sessions.step_refl)
  have C: "rows_forward command_step command_row_ok (db_commands db) ?C"
  proof -
    have "rows_forward command_step command_row_ok (db_commands db)
       (sql_update (\<lambda>r. cmd_organizationId r = org \<and> cmd_id r \<in> set ?ids)
          (\<lambda>r. r\<lparr>cmd_status := C_cancellation_requested\<rparr>) (db_commands db))"
    proof (rule rows_forward_update)
      fix r assume r: "r \<in> set (db_commands db)"
      show ok: "command_row_ok r" using r wf by (simp add: db_wf_def commands_wf_def)
      assume "cmd_organizationId r = org \<and> cmd_id r \<in> set ?ids"
      then obtain c where "c \<in> set (db_commands db)" "command_active c" "cmd_id c = cmd_id r" by auto
      then have "command_active r"
        using r wf by (metis db_wf_def commands_wf_def distinct_key_eq)
      then show "command_step r (r\<lparr>cmd_status := C_cancellation_requested\<rparr>)
          \<and> command_row_ok (r\<lparr>cmd_status := C_cancellation_requested\<rparr>)"
        using command_cancel_ok[OF ok] by simp
    qed (rule commands.step_refl)
    then show ?thesis using rows_refl(2)[OF wf] by simp
  qed
  have both: "db_wf (db\<lparr>db_sessions := ?S, db_commands := ?C\<rparr>) \<and> db_step db (db\<lparr>db_sessions := ?S, db_commands := ?C\<rparr>)"
    if "\<not> session_terminal (ses_status s)"
    using db_wf_forward[OF wf S[OF that] C, of "db_machineAuthorities db"] wf by (simp add: db_wf_def)
  show ?thesis
    using wf both by (auto simp: finishSession_def Some Let_def)
qed

lemma command_by_id: "db_wf db \<Longrightarrow> r \<in> set (db_commands db) \<Longrightarrow> c \<in> set (db_commands db) \<Longrightarrow> cmd_id r = cmd_id c \<Longrightarrow> r = c"
  by (metis db_wf_def commands_wf_def distinct_key_eq)

lemma session_by_id: "db_wf db \<Longrightarrow> r \<in> set (db_sessions db) \<Longrightarrow> s \<in> set (db_sessions db) \<Longrightarrow> ses_id r = ses_id s \<Longrightarrow> r = s"
  by (metis db_wf_def sessions_wf_def distinct_key_eq)

lemma requestCommandCancellation_wf:
  assumes wf: "db_wf db"
  shows "db_wf (snd (requestCommandCancellation org a cid db)) \<and> db_step db (snd (requestCommandCancellation org a cid db))"
proof (cases "sql_first (\<lambda>r. command_key org cid r \<and> cmd_agentId r = a) (db_commands db)")
  case None
  then show ?thesis using wf by (simp add: requestCommandCancellation_def)
next
  case (Some c)
  then have c: "c \<in> set (db_commands db)" "cmd_id c = cid" by (auto dest: sql_first_SomeD simp: command_key_def)
  have "db_wf (db\<lparr>db_commands := sql_update (command_key org cid) (\<lambda>r. r\<lparr>cmd_status := C_cancellation_requested\<rparr>) (db_commands db)\<rparr>)
      \<and> db_step db (db\<lparr>db_commands := sql_update (command_key org cid) (\<lambda>r. r\<lparr>cmd_status := C_cancellation_requested\<rparr>) (db_commands db)\<rparr>)"
    if "command_active c"
  proof (rule db_wf_commands[OF wf])
    fix r assume r: "r \<in> set (db_commands db)" "command_key org cid r" "command_row_ok r"
    then have "r = c" using command_by_id[OF wf] c by (simp add: command_key_def)
    then show "command_step r (r\<lparr>cmd_status := C_cancellation_requested\<rparr>)
        \<and> command_row_ok (r\<lparr>cmd_status := C_cancellation_requested\<rparr>)"
      using command_cancel_ok r(3) that by blast
  qed
  then show ?thesis using wf by (simp add: requestCommandCancellation_def Some Let_def)
qed

text \<open>An update of Sessions followed by the audit insert for the first row it returned.\<close>

lemma update_append_wf:
  fixes now :: instant
  assumes wf: "db_wf db" and row: "sql_returning P f (db_sessions db) = Some r'"
    and upd: "\<And>r. r \<in> set (db_sessions db) \<Longrightarrow> P r \<Longrightarrow> session_row_ok r \<Longrightarrow> session_step r (f r) \<and> session_row_ok (f r)"
    and key: "\<And>r. P r \<Longrightarrow> ses_id r = sev_sessionId e \<and> ses_organizationId r = sev_organizationId e"
    and e: "sev_commandId e = None"
  defines "db' \<equiv> append_event e now (db\<lparr>db_sessions := sql_update P f (db_sessions db)\<rparr>)"
  shows "db_wf db' \<and> db_step db db'"
proof -
  let ?db = "db\<lparr>db_sessions := sql_update P f (db_sessions db)\<rparr>"
  have 1: "db_wf ?db \<and> db_step db ?db" by (rule db_wf_sessions[OF wf upd])
  obtain r where r: "r \<in> set (db_sessions db)" "P r"
    using row by (auto simp: sql_returning_def dest: sql_first_SomeD)
  moreover from this have "session_step r (f r)" using upd wf by (auto simp: db_wf_def sessions_wf_def)
  ultimately have "f r \<in> set (db_sessions ?db)" "ses_id (f r) = sev_sessionId e" "ses_organizationId (f r) = sev_organizationId e"
    using key session_step_sel by (auto simp: image_iff intro!: bexI[of _ r])
  then have "db_wf db' \<and> db_step ?db db'"
    unfolding db'_def using 1 e by (intro append_event_wf) (blast, blast, simp)
  then show ?thesis using 1 db_step_trans by blast
qed

lemma markSessionOpened_wf:
  assumes wf: "db_wf db"
  shows "db_wf (snd (markSessionOpened org mid sid cp osu now db)) \<and> db_step db (snd (markSessionOpened org mid sid cp osu now db))"
proof -
  let ?P = "\<lambda>r. ses_organizationId r = org \<and> ses_machineId r = mid \<and> ses_id r = sid
     \<and> ses_clientProfileId r = cp \<and> ses_operatingSystemUser r = osu \<and> ses_status r = S_opening"
  let ?f = "\<lambda>r. r\<lparr>ses_status := S_active, ses_readyAt := Some now\<rparr>"
  have upd: "session_step r (?f r) \<and> session_row_ok (?f r)" if "?P r" "session_row_ok r" for r
    using session_open_ok that by simp
  show ?thesis
  proof (cases "sql_returning ?P ?f (db_sessions db)")
    case None
    then show ?thesis using db_wf_sessions[OF wf, of ?P ?f] upd by (simp add: markSessionOpened_def Let_def)
  next
    case (Some r')
    then have "ses_id r' = sid" "ses_organizationId r' = org" by (auto simp: sql_returning_def dest: sql_first_SomeD)
    with Some show ?thesis using update_append_wf[OF wf Some upd]
      by (simp add: markSessionOpened_def Let_def)
  qed
qed

lemma markSessionFailed_wf:
  assumes wf: "db_wf db"
  shows "db_wf (snd (markSessionFailed org mid sid err now db)) \<and> db_step db (snd (markSessionFailed org mid sid err now db))"
proof -
  let ?P = "\<lambda>r. ses_organizationId r = org \<and> ses_machineId r = mid \<and> ses_id r = sid \<and> ses_status r = S_opening"
  let ?f = "\<lambda>r. r\<lparr>ses_status := S_failed, ses_finishedAt := Some now\<rparr>"
  have upd: "session_step r (?f r) \<and> session_row_ok (?f r)" if "?P r" "session_row_ok r" for r
    using session_finish_ok[OF that(2), of S_failed] that(1) by (simp add: session_forward_def session_terminal_def)
  show ?thesis
  proof (cases "sql_returning ?P ?f (db_sessions db)")
    case None
    then show ?thesis using db_wf_sessions[OF wf, of ?P ?f] upd by (simp add: markSessionFailed_def Let_def)
  next
    case (Some r')
    show ?thesis using update_append_wf[OF wf Some upd] Some by (simp add: markSessionFailed_def Let_def)
  qed
qed

lemma markSessionClosed_wf:
  assumes wf: "db_wf db"
  shows "db_wf (snd (markSessionClosed org mid sid reason now db)) \<and> db_step db (snd (markSessionClosed org mid sid reason now db))"
proof -
  let ?st = "if reason = ''expired'' then S_expired else S_cancelled"
  let ?P = "\<lambda>r. ses_organizationId r = org \<and> ses_machineId r = mid \<and> ses_id r = sid
     \<and> ses_status r \<in> {S_opening, S_active, S_cancellation_requested}"
  let ?f = "\<lambda>r. r\<lparr>ses_status := ?st, ses_finishedAt := Some now\<rparr>"
  have upd: "session_step r (?f r) \<and> session_row_ok (?f r)" if "?P r" "session_row_ok r" for r
  proof -
    have "\<not> session_terminal (ses_status r)" using that(1) by (auto simp: session_terminal_def)
    then show ?thesis using session_finish_ok[OF that(2) session_forward_final, of ?st now]
      by (auto simp: session_terminal_def)
  qed
  show ?thesis
  proof (cases "sql_returning ?P ?f (db_sessions db)")
    case None
    then show ?thesis using db_wf_sessions[OF wf, of ?P ?f, OF upd] by (simp add: markSessionClosed_def Let_def)
  next
    case (Some r')
    show ?thesis using update_append_wf[OF wf Some upd] Some by (simp add: markSessionClosed_def Let_def)
  qed
qed

lemma markCommandStarted_wf:
  assumes wf: "db_wf db"
  shows "db_wf (snd (markCommandStarted org mid cid t db)) \<and> db_step db (snd (markCommandStarted org mid cid t db))"
  unfolding markCommandStarted_def Let_def snd_conv
  by (rule db_wf_commands[OF wf]) (auto simp: command_ok_defs active_defs)

lemma markCommandCompleted_wf:
  assumes wf: "db_wf db" and st: "completion_status st"
  shows "db_wf (snd (markCommandCompleted org mid cid st ec err tr fin now db))
       \<and> db_step db (snd (markCommandCompleted org mid cid st ec err tr fin now db))"
proof -
  let ?P = "\<lambda>r. machine_command org mid cid r \<and> command_active r"
  let ?f = "\<lambda>r. r\<lparr>cmd_status := st, cmd_exitCode := ec, cmd_error := map_option (take 2048) err,
     cmd_outputTruncated := tr, cmd_finishedAt := Some fin\<rparr>"
  let ?db = "db\<lparr>db_commands := sql_update ?P ?f (db_commands db)\<rparr>"
  have upd: "command_step r (?f r) \<and> command_row_ok (?f r)" if "?P r" "command_row_ok r" for r
    using command_complete_ok that st by blast
  have 1: "db_wf ?db \<and> db_step db ?db" by (rule db_wf_commands[OF wf upd])
  show ?thesis
  proof (cases "sql_returning ?P ?f (db_commands db)")
    case None
    with 1 show ?thesis by (simp add: markCommandCompleted_def Let_def)
  next
    case (Some r')
    then obtain r where r: "r \<in> set (db_commands db)" "?P r" "r' = ?f r"
      by (auto simp: sql_returning_def dest: sql_first_SomeD)
    have r': "r' \<in> set (db_commands ?db)" using r by (auto simp: image_iff intro!: bexI[of _ r])
    then obtain s where "s \<in> set (db_sessions ?db)" "command_in r' s" using 1 by (auto simp: db_wf_def)
    then have "\<exists>s \<in> set (db_sessions ?db). ses_id s = cmd_sessionId r' \<and> ses_organizationId s = cmd_organizationId r'"
      by (auto simp: command_in_def)
    moreover obtain e where e: "snd (markCommandCompleted org mid cid st ec err tr fin now db) = append_event e now ?db"
      "sev_sessionId e = cmd_sessionId r'" "sev_organizationId e = cmd_organizationId r'" "sev_commandId e = Some (cmd_id r')"
      by (simp add: markCommandCompleted_def Let_def Some)
    moreover have "\<exists>c \<in> set (db_commands ?db). cmd_id c = cmd_id r' \<and> cmd_sessionId c = cmd_sessionId r'"
      using r' by blast
    ultimately have "db_wf (append_event e now ?db) \<and> db_step ?db (append_event e now ?db)"
      using 1 by (intro append_event_wf) simp_all
    then show ?thesis unfolding e(1) using 1 db_step_trans by blast
  qed
qed

lemma stored_bytes_filter: "stored_bytes c st (filter P chunks) \<le> stored_bytes c st chunks"
  unfolding stored_bytes_def by (induction chunks) auto

lemma purgeExpiredCommandOutput_wf:
  assumes wf: "db_wf db"
  shows "db_wf (snd (purgeExpiredCommandOutput now db)) \<and> db_step db (snd (purgeExpiredCommandOutput now db))"
proof -
  let ?K = "sql_delete (\<lambda>k. chk_expiresAt k \<le> now) (db_outputChunks db)"
  let ?db = "db\<lparr>db_outputChunks := ?K\<rparr>"
  have wfK: "chunks_wf (db_commands db) (db_outputChunks db)" using wf by (simp add: db_wf_def)
  have "chunks_wf (db_commands db) ?K"
    unfolding chunks_wf_def
  proof (intro conjI ballI)
    show "distinct (map chunk_id ?K)" using wfK by (simp add: chunks_wf_def sql_delete_def distinct_map_filter)
  next
    fix k assume "k \<in> set ?K"
    then show "\<exists>c \<in> set (db_commands db). cmd_organizationId c = chk_organizationId k \<and> cmd_id c = chk_commandId k"
      using wfK by (simp add: chunks_wf_def)
  next
    fix c assume "c \<in> set (db_commands db)"
    then show "stored_bytes c stdout ?K \<le> cmd_stdoutBytes c" "stored_bytes c stderr ?K \<le> cmd_stderrBytes c"
      using wfK stored_bytes_filter order_trans unfolding chunks_wf_def sql_delete_def by blast+
  qed
  moreover have "event_refers ?db e \<longleftrightarrow> event_refers db e" for e
    by (auto simp: event_refers_def split: option.splits)
  ultimately have "db_wf ?db" using wf by (simp add: db_wf_def)
  then show ?thesis
    by (simp add: purgeExpiredCommandOutput_def db_step_def sessions.evolves_refl commands.evolves_refl)
qed

text \<open>An accepted chunk: the byte counter of its stream grows by the bytes stored.\<close>

lemma stored_bytes_snoc:
  "stored_bytes c st (chunks @ [k]) = stored_bytes c st chunks
     + (if chk_organizationId k = cmd_organizationId c \<and> chk_commandId k = cmd_id c \<and> chk_stream k = st
        then int (length (chk_data k)) else 0)"
  by (simp add: stored_bytes_def)

definition count_output :: "stream \<Rightarrow> int \<Rightarrow> command_row \<Rightarrow> command_row" where
  "count_output st n r = (if st = stdout then r\<lparr>cmd_stdoutBytes := cmd_stdoutBytes r + n\<rparr>
                          else r\<lparr>cmd_stderrBytes := cmd_stderrBytes r + n\<rparr>)"

lemma count_output_ok:
  assumes "command_row_ok r" "command_active r" "0 \<le> n"
    and "cmd_stdoutBytes r + cmd_stderrBytes r + n \<le> DEFAULT_COMMAND_OUTPUT_BYTES"
  shows "command_step r (count_output st n r) \<and> command_row_ok (count_output st n r)"
  using assms by (cases st) (auto simp: count_output_def command_ok_defs active_defs)

lemma addCommandOutput_wf:
  assumes wf: "db_wf db"
  shows "db_wf (snd (addCommandOutput org mid cid st sq data ret now db))
       \<and> db_step db (snd (addCommandOutput org mid cid st sq data ret now db))"
proof (cases "sql_first (\<lambda>r. machine_command org mid cid r \<and> command_active r) (db_commands db)")
  case None
  then show ?thesis using wf by (simp add: addCommandOutput_def)
next
  case (Some c)
  then have c: "c \<in> set (db_commands db)" "command_active c" "cmd_id c = cid" "cmd_organizationId c = org"
    by (auto simp: machine_command_def dest: sql_first_SomeD)
  let ?n = "int (length data)"
  let ?k = "\<lparr>chk_organizationId = org, chk_commandId = cid, chk_sequence = sq, chk_stream = st,
     chk_data = data, chk_expiresAt = now + ret\<rparr>"
  let ?C = "sql_update (command_key org cid) (count_output st ?n) (db_commands db)"
  let ?db = "db\<lparr>db_commands := ?C\<rparr>"
  let ?db' = "db\<lparr>db_outputChunks := db_outputChunks db @ [?k], db_commands := ?C\<rparr>"
  have "db_wf ?db' \<and> db_step db ?db'"
    if fits: "cmd_stdoutBytes c + cmd_stderrBytes c + ?n \<le> DEFAULT_COMMAND_OUTPUT_BYTES"
      and new: "\<not> list_ex (chunk_key org cid sq) (db_outputChunks db)"
  proof -
    have mem: "r = c" if "r \<in> set (db_commands db)" "command_key org cid r" for r
      using command_by_id[OF wf that(1) c(1)] that(2) c(3) by (simp add: command_key_def)
    have 1: "db_wf ?db \<and> db_step db ?db"
      by (rule db_wf_commands[OF wf]) (use mem c fits count_output_ok in auto)
    have "chunk_id ?k \<notin> chunk_id ` set (db_outputChunks db)"
      using new by (auto simp: list_ex_iff chunk_key_def chunk_id_def)
    then have d: "distinct (map chunk_id (db_outputChunks db @ [?k]))"
      using wf by (simp add: db_wf_def chunks_wf_def)
    have bytes: "stored_bytes r' stdout (db_outputChunks db @ [?k]) \<le> cmd_stdoutBytes r'
        \<and> stored_bytes r' stderr (db_outputChunks db @ [?k]) \<le> cmd_stderrBytes r'" if r': "r' \<in> set ?C" for r'
    proof -
      obtain r where r: "r \<in> set (db_commands db)" "r' = (if command_key org cid r then count_output st ?n r else r)"
        using r' by auto
      have old: "stored_bytes r stdout (db_outputChunks db) \<le> cmd_stdoutBytes r"
        "stored_bytes r stderr (db_outputChunks db) \<le> cmd_stderrBytes r"
        using wf r(1) by (auto simp: db_wf_def chunks_wf_def)
      have "stored_bytes r' s (db_outputChunks db) = stored_bytes r s (db_outputChunks db)" for s
        using r(2) by (intro stored_bytes_cong) (auto simp: count_output_def)
      then show ?thesis
        using old r(2) by (cases st) (auto simp: stored_bytes_snoc count_output_def command_key_def)
    qed
    have "\<exists>x \<in> set ?C. cmd_organizationId x = chk_organizationId k \<and> cmd_id x = chk_commandId k"
      if "k \<in> set (db_outputChunks db @ [?k])" for k
    proof (cases "k = ?k")
      case True
      have "count_output st ?n c \<in> set ?C" using c by (auto simp: command_key_def image_iff)
      with True c show ?thesis by (intro bexI[of _ "count_output st ?n c"]) (auto simp: count_output_def)
    next
      case False
      then have "k \<in> set (db_outputChunks ?db)" using that by simp
      then show ?thesis using 1 unfolding db_wf_def chunks_wf_def by simp
    qed
    then have "chunks_wf ?C (db_outputChunks db @ [?k])" using d bytes by (simp add: chunks_wf_def)
    moreover have "event_refers ?db' e \<longleftrightarrow> event_refers ?db e" for e
      by (auto simp: event_refers_def split: option.splits)
    ultimately show ?thesis using 1 by (simp add: db_wf_def db_step_def)
  qed
  moreover have "(\<lambda>r. if st = stdout then r\<lparr>cmd_stdoutBytes := cmd_stdoutBytes r + ?n\<rparr>
       else r\<lparr>cmd_stderrBytes := cmd_stderrBytes r + ?n\<rparr>) = count_output st ?n"
    by (rule ext) (simp add: count_output_def)
  ultimately show ?thesis using wf by (simp add: addCommandOutput_def Some Let_def not_less)
qed

section \<open>The sweeps as bulk updates\<close>

text \<open>
  \<open>expireSessions\<close> and \<open>revokeSessions\<close> walk over Sessions and update the Commands of each; the
  net effect is one update per table.
\<close>

definition cancelled_command :: "command_row \<Rightarrow> command_row" where
  "cancelled_command r = r\<lparr>cmd_status := C_cancellation_requested\<rparr>"

definition owned_by :: "(ident \<times> ident) set \<Rightarrow> command_row \<Rightarrow> bool" where
  "owned_by K r \<longleftrightarrow> (cmd_organizationId r, cmd_sessionId r) \<in> K \<and> command_active r"

lemma cancelled_command_idem [simp]: "cancelled_command (cancelled_command r) = cancelled_command r"
  by (simp add: cancelled_command_def)

lemma owned_by_cancelled [simp]: "owned_by K (cancelled_command r) \<longleftrightarrow>
    (cmd_organizationId r, cmd_sessionId r) \<in> K"
  by (simp add: owned_by_def cancelled_command_def active_defs)

lemma owned_by_empty [simp]: "\<not> owned_by {} r" by (simp add: owned_by_def)

lemma cancel_commands_of_update:
  "snd (cancel_commands_of org sid C) = sql_update (owned_by {(org, sid)}) cancelled_command C"
  by (simp add: cancel_commands_of_def sql_update_def command_of_def owned_by_def cancelled_command_def
      conj_assoc cong: if_cong)

lemma update_owned_twice:
  "sql_update (owned_by K) cancelled_command (sql_update (owned_by J) cancelled_command C)
   = sql_update (owned_by (K \<union> J)) cancelled_command C"
  unfolding sql_update_def by (auto simp: owned_by_def cancelled_command_def active_defs)

lemma expire_loop_commands:
  "snd (expire_loop ss C) =
   sql_update (owned_by ((\<lambda>s. (ses_organizationId s, ses_id s)) ` set ss)) cancelled_command C"
proof (induction ss arbitrary: C)
  case (Cons s ss)
  obtain ids C' where C': "cancel_commands_of (ses_organizationId s) (ses_id s) C = (ids, C')" by fastforce
  then have "C' = sql_update (owned_by {(ses_organizationId s, ses_id s)}) cancelled_command C"
    using cancel_commands_of_update by (metis snd_conv)
  with Cons.IH[of C'] C' show ?case by (simp add: update_owned_twice case_prod_unfold)
qed simp

lemma expire_loop_sessions: "map fst (fst (expire_loop ss C)) = map sessionRecord ss"
  by (induction ss arbitrary: C) (auto simp: Let_def case_prod_unfold)

lemma revoke_loop_commands:
  "snd (snd (revoke_loop org now ss S C)) = sql_update (owned_by ((\<lambda>s. (org, ses_id s)) ` set ss)) cancelled_command C"
proof (induction ss arbitrary: S C)
  case (Cons s ss)
  obtain ids C' where C': "cancel_commands_of org (ses_id s) C = (ids, C')" by fastforce
  then have "C' = sql_update (owned_by {(org, ses_id s)}) cancelled_command C"
    using cancel_commands_of_update by (metis snd_conv)
  with Cons.IH[of _ C'] C' show ?case by (simp add: Let_def update_owned_twice case_prod_unfold)
qed simp

definition revoked_session :: "instant \<Rightarrow> session_row \<Rightarrow> session_row" where
  "revoked_session now r = r\<lparr>ses_status := S_revoked, ses_finishedAt := Some now\<rparr>"

lemma revoke_loop_sessions:
  "fst (snd (revoke_loop org now ss S C)) =
   sql_update (\<lambda>r. ses_organizationId r = org \<and> ses_id r \<in> ses_id ` set ss) (revoked_session now) S"
proof (induction ss arbitrary: S C)
  case (Cons s ss)
  obtain ids C' where C': "cancel_commands_of org (ses_id s) C = (ids, C')" by fastforce
  have "sql_update (\<lambda>r. ses_organizationId r = org \<and> ses_id r \<in> ses_id ` set ss) (revoked_session now)
          (sql_update (session_key org (ses_id s)) (revoked_session now) S)
      = sql_update (\<lambda>r. ses_organizationId r = org \<and> ses_id r \<in> ses_id ` set (s # ss)) (revoked_session now) S"
    by (auto simp: sql_update_def session_key_def revoked_session_def)
  with Cons.IH[of _ C'] C' show ?case
    by (simp add: Let_def revoked_session_def[abs_def] case_prod_unfold)
qed simp

lemma revoke_loop_result:
  "map fst (fst (revoke_loop org now ss S C)) = map (\<lambda>s. sessionRecord (revoked_session now s)) ss"
proof (induction ss arbitrary: S C)
  case (Cons s ss)
  obtain ids C' where C': "cancel_commands_of org (ses_id s) C = (ids, C')" by fastforce
  show ?case using Cons.IH[of _ C'] C'
    by (simp add: Let_def revoked_session_def[abs_def] case_prod_unfold)
qed simp

end
