(* ===== verification/Session_Properties.thy ===== *)
theory Session_Properties
  imports Session_Invariants
begin

text \<open>
  The properties of the session database: the invariant along every history of operations,
  finality of finished Sessions and Commands, isolation of Organizations, what the two sweeps
  reach, and what a reader of Command output sees.
\<close>

section \<open>The sweeps keep the invariant\<close>

definition expiry_pending :: "instant \<Rightarrow> session_row \<Rightarrow> bool" where
  "expiry_pending now r \<longleftrightarrow> ses_status r = S_pending_approval \<and> ses_expiresAt r \<le> now"

definition expiry_due :: "instant \<Rightarrow> session_row \<Rightarrow> bool" where
  "expiry_due now r \<longleftrightarrow> ses_status r \<in> {S_opening, S_active} \<and> ses_expiresAt r \<le> now"

definition expired_session :: "instant \<Rightarrow> session_row \<Rightarrow> session_row" where
  "expired_session now r =
     (if expiry_pending now r then r\<lparr>ses_status := S_expired, ses_finishedAt := Some now\<rparr>
      else if expiry_due now r then r\<lparr>ses_status := S_cancellation_requested\<rparr> else r)"

definition due_keys :: "instant \<Rightarrow> session_db \<Rightarrow> (ident \<times> ident) set" where
  "due_keys now db = (\<lambda>s. (ses_organizationId s, ses_id s)) ` {s \<in> set (db_sessions db). expiry_due now s}"

lemma not_due_expired: "\<not> expiry_due now (r\<lparr>ses_status := S_expired, ses_finishedAt := t\<rparr>)"
  by (simp add: expiry_due_def)

lemma sweep_two_updates:
  "sql_update (expiry_due now) (\<lambda>r. r\<lparr>ses_status := S_cancellation_requested\<rparr>)
     (sql_update (expiry_pending now) (\<lambda>r. r\<lparr>ses_status := S_expired, ses_finishedAt := Some now\<rparr>) t)
   = map (expired_session now) t"
  by (induction t) (simp_all add: expired_session_def not_due_expired)

lemma due_after_pending:
  "sql_where (\<lambda>r. ses_status r \<in> {S_opening, S_active} \<and> ses_expiresAt r \<le> now)
      (sql_update (\<lambda>r. ses_status r = S_pending_approval \<and> ses_expiresAt r \<le> now)
         (\<lambda>r. r\<lparr>ses_status := S_expired, ses_finishedAt := Some now\<rparr>) t)
    = sql_where (expiry_due now) (t :: session_row list)"
  by (induction t) (auto simp: sql_where_def expiry_due_def)

lemma expireSessions_db:
  "snd (expireSessions now db) =
     db\<lparr>db_sessions := map (expired_session now) (db_sessions db),
        db_commands := sql_update (owned_by (due_keys now db)) cancelled_command (db_commands db)\<rparr>"
proof -
  let ?pending = "\<lambda>r. ses_status r = S_pending_approval \<and> ses_expiresAt r \<le> now"
  let ?due = "\<lambda>r. ses_status r \<in> {S_opening, S_active} \<and> ses_expiresAt r \<le> now"
  let ?S1 = "sql_update ?pending (\<lambda>r. r\<lparr>ses_status := S_expired, ses_finishedAt := Some now\<rparr>) (db_sessions db)"
  let ?ss = "map (\<lambda>r. r\<lparr>ses_status := S_cancellation_requested\<rparr>) (sql_where ?due ?S1)"
  have keys: "(\<lambda>s. (ses_organizationId s, ses_id s)) ` set ?ss = due_keys now db"
    by (simp only: due_after_pending) (simp add: due_keys_def image_image)
  have S: "sql_update ?due (\<lambda>r. r\<lparr>ses_status := S_cancellation_requested\<rparr>) ?S1
      = map (expired_session now) (db_sessions db)"
    using sweep_two_updates by (simp only: expiry_due_def[abs_def] expiry_pending_def[abs_def])
  show ?thesis
    using expire_loop_commands[of ?ss "db_commands db"]
    by (simp only: expireSessions_def Let_def case_prod_unfold snd_conv keys S)
qed

lemma expireSessions_result:
  "map fst (fst (expireSessions now db)) =
     map (\<lambda>r. sessionRecord (r\<lparr>ses_status := S_cancellation_requested\<rparr>)) (sql_where (expiry_due now) (db_sessions db))"
  by (simp only: expireSessions_def Let_def case_prod_unfold expire_loop_sessions due_after_pending
      fst_conv map_map comp_def)

lemma owned_update_forward:
  assumes "db_wf db"
  shows "rows_forward command_step command_row_ok (db_commands db)
    (sql_update (owned_by K) cancelled_command (db_commands db))"
proof (rule rows_forward_update)
  fix r assume "r \<in> set (db_commands db)"
  then show "command_row_ok r" using assms by (simp add: db_wf_def commands_wf_def)
  moreover assume "owned_by K r"
  ultimately show "command_step r (cancelled_command r) \<and> command_row_ok (cancelled_command r)"
    using command_cancel_ok by (simp add: owned_by_def cancelled_command_def)
qed (rule commands.step_refl)

lemma map_as_update: "map f t = sql_update (\<lambda>_. True) f t"
  by (simp add: sql_update_def)

lemma expired_session_ok:
  assumes "session_row_ok r"
  shows "session_step r (expired_session now r) \<and> session_row_ok (expired_session now r)"
proof -
  have "session_step r (r\<lparr>ses_status := S_expired, ses_finishedAt := Some now\<rparr>)
      \<and> session_row_ok (r\<lparr>ses_status := S_expired, ses_finishedAt := Some now\<rparr>)" if "expiry_pending now r"
    using that session_finish_ok[OF assms session_forward_final, of S_expired now]
    by (auto simp: expiry_pending_def session_terminal_def)
  moreover have "\<not> session_terminal (ses_status r)" if "expiry_due now r"
    using that by (auto simp: expiry_due_def session_terminal_def)
  ultimately show ?thesis
    using assms session_cancel_ok[OF assms] by (auto simp: expired_session_def sessions.step_refl)
qed

lemma expireSessions_wf:
  assumes wf: "db_wf db"
  shows "db_wf (snd (expireSessions now db)) \<and> db_step db (snd (expireSessions now db))"
proof -
  have "rows_forward session_step session_row_ok (db_sessions db) (map (expired_session now) (db_sessions db))"
    unfolding map_as_update
    by (rule rows_forward_update)
      (use wf expired_session_ok in \<open>auto simp: sessions.step_refl db_wf_def sessions_wf_def\<close>)
  from db_wf_forward[OF wf this owned_update_forward[OF wf], of "db_machineAuthorities db"] wf
  show ?thesis by (simp add: expireSessions_db db_wf_def)
qed

definition revoked_keys :: "ident \<Rightarrow> ident option \<Rightarrow> ident option \<Rightarrow> session_db \<Rightarrow> (ident \<times> ident) set" where
  "revoked_keys org agent machine db =
     (\<lambda>s. (org, ses_id s)) ` {s \<in> set (db_sessions db). revocable org agent machine s}"

lemma revokeSessions_db:
  assumes wf: "db_wf db" and scope: "agent \<noteq> None \<or> machine \<noteq> None"
  shows "snd (revokeSessions org agent machine now db) =
     db\<lparr>db_sessions := sql_update (revocable org agent machine) (revoked_session now) (db_sessions db),
        db_commands := sql_update (owned_by (revoked_keys org agent machine db)) cancelled_command (db_commands db),
        db_machineAuthorities := (case machine of None \<Rightarrow> db_machineAuthorities db
          | Some m \<Rightarrow> sql_delete (machine_key org m) (db_machineAuthorities db))\<rparr>"
proof -
  let ?R = "revocable org agent machine"
  let ?ss = "sql_where ?R (db_sessions db)"
  have "(ses_organizationId r = org \<and> ses_id r \<in> ses_id ` set ?ss) = ?R r" if "r \<in> set (db_sessions db)" for r
    using session_by_id[OF wf that] that by (auto simp: revocable_def)
  then have "sql_update (\<lambda>r. ses_organizationId r = org \<and> ses_id r \<in> ses_id ` set ?ss) (revoked_session now) (db_sessions db)
    = sql_update ?R (revoked_session now) (db_sessions db)"
    unfolding sql_update_def by (intro map_cong if_cong) auto
  moreover have "(\<lambda>s. (org, ses_id s)) ` set ?ss = revoked_keys org agent machine db"
    by (simp add: revoked_keys_def)
  ultimately show ?thesis
    using scope revoke_loop_sessions[of org now ?ss "db_sessions db" "db_commands db"]
      revoke_loop_commands[of org now ?ss "db_sessions db" "db_commands db"]
    by (auto simp: revokeSessions_def Let_def case_prod_unfold)
qed

lemma revokeSessions_result:
  "agent \<noteq> None \<or> machine \<noteq> None \<Longrightarrow>
   \<exists>rs. fst (revokeSessions org agent machine now db) = Inr rs
     \<and> map fst rs = map (\<lambda>s. sessionRecord (revoked_session now s))
                        (sql_where (revocable org agent machine) (db_sessions db))"
  by (auto simp: revokeSessions_def Let_def case_prod_unfold revoke_loop_result)

lemma revokeSessions_wf:
  assumes wf: "db_wf db"
  shows "db_wf (snd (revokeSessions org agent machine now db)) \<and> db_step db (snd (revokeSessions org agent machine now db))"
proof (cases "agent = None \<and> machine = None")
  case True
  then show ?thesis using wf by (simp add: revokeSessions_def)
next
  case False
  have "rows_forward session_step session_row_ok (db_sessions db)
      (sql_update (revocable org agent machine) (revoked_session now) (db_sessions db))"
  proof (rule rows_forward_update)
    fix r assume "r \<in> set (db_sessions db)"
    then show ok: "session_row_ok r" using wf by (simp add: db_wf_def sessions_wf_def)
    assume "revocable org agent machine r"
    then have "session_forward (ses_status r) S_revoked" "\<not> session_terminal (ses_status r)"
      by (auto simp: revocable_def session_active_def ACTIVE_SESSION_STATUSES_def session_forward_def session_terminal_def)
    then show "session_step r (revoked_session now r) \<and> session_row_ok (revoked_session now r)"
      using session_finish_ok[OF ok] by (simp add: revoked_session_def session_terminal_def)
  qed (rule sessions.step_refl)
  moreover have "distinct (map machine_id_of (case machine of None \<Rightarrow> db_machineAuthorities db
      | Some m \<Rightarrow> sql_delete (machine_key org m) (db_machineAuthorities db)))"
    using wf by (auto simp: db_wf_def sql_delete_def distinct_map_filter split: option.split)
  ultimately show ?thesis
    using db_wf_forward[OF wf _ owned_update_forward[OF wf]] False
    by (simp add: revokeSessions_db[OF wf])
qed

section \<open>Histories\<close>

text \<open>The calls the server makes on the database, and the databases they reach.\<close>

datatype session_db_op =
    Op_putMachineAuthority machine_authority
  | Op_setMachineOnline ident ident bool
  | Op_createSession session string string
  | Op_createCommand command string string
  | Op_decideSession ident ident decision instant
  | Op_finishSession ident ident ident outcome instant
  | Op_requestCommandCancellation ident ident ident
  | Op_append session_event instant
  | Op_markSessionOpened ident ident ident ident string instant
  | Op_markSessionFailed ident ident ident string instant
  | Op_markSessionClosed ident ident ident string instant
  | Op_markCommandStarted ident ident ident instant
  | Op_addCommandOutput ident ident ident stream int "byte list" int instant
  | Op_markCommandCompleted ident ident ident command_status "int option" "string option" bool instant instant
  | Op_expireSessions instant
  | Op_revokeSessions ident "ident option" "ident option" instant
  | Op_purgeExpiredCommandOutput instant

fun apply_op :: "session_db_op \<Rightarrow> session_db \<Rightarrow> session_db" where
  "apply_op (Op_putMachineAuthority a) db = putMachineAuthority a db"
| "apply_op (Op_setMachineOnline org m b) db = snd (setMachineOnline org m b db)"
| "apply_op (Op_createSession s k f) db = snd (createSession s k f db)"
| "apply_op (Op_createCommand c k f) db = snd (createCommand c k f db)"
| "apply_op (Op_decideSession org s d t) db = snd (decideSession org s d t db)"
| "apply_op (Op_finishSession org a s w t) db = snd (finishSession org a s w t db)"
| "apply_op (Op_requestCommandCancellation org a c) db = snd (requestCommandCancellation org a c db)"
| "apply_op (Op_append e t) db = append_event e t db"
| "apply_op (Op_markSessionOpened org m s p u t) db = snd (markSessionOpened org m s p u t db)"
| "apply_op (Op_markSessionFailed org m s e t) db = snd (markSessionFailed org m s e t db)"
| "apply_op (Op_markSessionClosed org m s r t) db = snd (markSessionClosed org m s r t db)"
| "apply_op (Op_markCommandStarted org m c t) db = snd (markCommandStarted org m c t db)"
| "apply_op (Op_addCommandOutput org m c st n d ret t) db = snd (addCommandOutput org m c st n d ret t db)"
| "apply_op (Op_markCommandCompleted org m c st x e tr fin t) db = snd (markCommandCompleted org m c st x e tr fin t db)"
| "apply_op (Op_expireSessions t) db = snd (expireSessions t db)"
| "apply_op (Op_revokeSessions org a m t) db = snd (revokeSessions org a m t db)"
| "apply_op (Op_purgeExpiredCommandOutput t) db = snd (purgeExpiredCommandOutput t db)"

text \<open>
  What the callers guarantee: a new Session is neither ready nor finished, a new Command is queued
  in a stored Session of the same Agent and Machine and has no output yet, a completion carries a
  final status, and an event names stored rows.
\<close>

definition new_session_ok :: "session \<Rightarrow> bool" where
  "new_session_ok s \<longleftrightarrow> ses_status s \<in> {S_pending_approval, S_opening}
     \<and> ses_readyAt s = None \<and> ses_finishedAt s = None"

definition new_command_ok :: "command \<Rightarrow> session_db \<Rightarrow> bool" where
  "new_command_ok c db \<longleftrightarrow> cmd_status c = C_queued \<and> cmd_startedAt c = None \<and> cmd_finishedAt c = None
     \<and> cmd_exitCode c = None \<and> cmd_error c = None \<and> cmd_stdoutBytes c = 0 \<and> cmd_stderrBytes c = 0
     \<and> list_ex (\<lambda>s. ses_id s = cmd_sessionId c \<and> ses_organizationId s = cmd_organizationId c
         \<and> ses_agentId s = cmd_agentId c \<and> ses_machineId s = cmd_machineId c) (db_sessions db)"

definition new_event_ok :: "session_event \<Rightarrow> session_db \<Rightarrow> bool" where
  "new_event_ok e db \<longleftrightarrow>
     list_ex (\<lambda>s. ses_id s = sev_sessionId e \<and> ses_organizationId s = sev_organizationId e) (db_sessions db)
     \<and> (case sev_commandId e of None \<Rightarrow> True
        | Some i \<Rightarrow> list_ex (\<lambda>c. cmd_id c = i \<and> cmd_sessionId c = sev_sessionId e) (db_commands db))"

fun op_ok :: "session_db_op \<Rightarrow> session_db \<Rightarrow> bool" where
  "op_ok (Op_createSession s k f) db = new_session_ok s"
| "op_ok (Op_createCommand c k f) db = new_command_ok c db"
| "op_ok (Op_append e t) db = new_event_ok e db"
| "op_ok (Op_markCommandCompleted org m c st x e tr fin t) db = completion_status st"
| "op_ok _ db = True"

inductive db_history :: "session_db \<Rightarrow> session_db \<Rightarrow> bool" where
  history_refl: "db_history db db"
| history_step: "db_history db db' \<Longrightarrow> op_ok p db' \<Longrightarrow> db_history db (apply_op p db')"

inductive_cases db_historyE: "db_history db db'"

lemma commandInsert_sel' [row_simps]:
  "cmd_exitCode (commandInsert c k f) = cmd_exitCode c" "cmd_error (commandInsert c k f) = cmd_error c"
  by (simp_all add: commandInsert_def command.defs command_row.defs)

lemma new_session_row_ok: "new_session_ok s \<Longrightarrow> session_row_ok (sessionInsert s k f)"
  by (auto simp: new_session_ok_def session_row_ok_def session_terminal_def)

lemma new_command_row_ok: "new_command_ok c db \<Longrightarrow> command_row_ok (commandInsert c k f)"
  by (auto simp: new_command_ok_def command_row_ok_def active_defs row_simps DEFAULT_COMMAND_OUTPUT_BYTES_def)

lemma new_command_in: "new_command_ok c db \<Longrightarrow> \<exists>s \<in> set (db_sessions db). command_in (commandInsert c k f) s"
  by (auto simp: new_command_ok_def list_ex_iff command_in_def)

lemma apply_op_wf:
  assumes "db_wf db" "op_ok p db"
  shows "db_wf (apply_op p db) \<and> db_step db (apply_op p db)"
proof (cases p)
  case (Op_createSession s k f)
  then show ?thesis using assms createSession_wf new_session_row_ok by simp
next
  case (Op_createCommand c k f)
  then show ?thesis using assms createCommand_wf[OF assms(1) new_command_row_ok new_command_in] by simp
next
  case (Op_append e t)
  then show ?thesis using assms append_event_wf[OF assms(1), of e t]
    by (auto simp: new_event_ok_def list_ex_iff split: option.splits)
next
  case (Op_markCommandCompleted org m c st x e tr fin t)
  then show ?thesis using assms markCommandCompleted_wf by simp
qed (use assms in \<open>simp_all add: putMachineAuthority_wf setMachineOnline_wf decideSession_wf finishSession_wf
      requestCommandCancellation_wf markSessionOpened_wf markSessionFailed_wf markSessionClosed_wf
      markCommandStarted_wf addCommandOutput_wf expireSessions_wf revokeSessions_wf
      purgeExpiredCommandOutput_wf\<close>)

lemma history_wf: "db_history db db' \<Longrightarrow> db_wf db \<Longrightarrow> db_wf db' \<and> db_step db db'"
proof (induction rule: db_history.induct)
  case (history_step db db' p)
  then show ?case using apply_op_wf db_step_trans by blast
qed simp

lemma history_empty_wf: "db_history empty_session_db db \<Longrightarrow> db_wf db"
  using history_wf by simp

lemma history_trans:
  "db_history db' db'' \<Longrightarrow> db_history db db' \<Longrightarrow> db_history db db''"
  by (induction rule: db_history.induct) (auto intro: history_step)

section \<open>Lookups along a history\<close>

lemma session_lookup_forward:
  assumes "db_wf db'" "db_step db db'" "sql_first (session_key org sid) (db_sessions db) = Some r"
  shows "\<exists>r'. sql_first (session_key org sid) (db_sessions db') = Some r' \<and> session_step r r'"
proof -
  have r: "r \<in> set (db_sessions db)" "session_key org sid r" using assms(3) by (auto dest: sql_first_SomeD)
  then obtain r' where r': "r' \<in> set (db_sessions db')" "session_step r r'"
    using assms(2) evolves_mem unfolding db_step_def by metis
  have "sql_first (session_key org sid) (db_sessions db') = Some r'"
    by (rule sql_first_key[where k = ses_id])
      (use assms(1) r r' session_step_sel in \<open>auto simp: db_wf_def sessions_wf_def session_key_def\<close>)
  with r' show ?thesis by blast
qed

lemma command_lookup_forward:
  assumes "db_wf db'" "db_step db db'" "sql_first (command_key org cid) (db_commands db) = Some r"
  shows "\<exists>r'. sql_first (command_key org cid) (db_commands db') = Some r' \<and> command_step r r'"
proof -
  have r: "r \<in> set (db_commands db)" "command_key org cid r" using assms(3) by (auto dest: sql_first_SomeD)
  then obtain r' where r': "r' \<in> set (db_commands db')" "command_step r r'"
    using assms(2) evolves_mem unfolding db_step_def by metis
  have "sql_first (command_key org cid) (db_commands db') = Some r'"
    by (rule sql_first_key[where k = cmd_id])
      (use assms(1) r r' command_step_sel in \<open>auto simp: db_wf_def commands_wf_def command_key_def\<close>)
  with r' show ?thesis by blast
qed

lemma record_step:
  "session_step r r' \<Longrightarrow> session_terminal (ses_status r) \<Longrightarrow> sessionRecord r' = sessionRecord r"
  by (simp add: session_step_def)

fun ops_ok :: "session_db_op list \<Rightarrow> session_db \<Rightarrow> bool" where
  "ops_ok [] db = True"
| "ops_ok (p # ps) db = (op_ok p db \<and> ops_ok ps (apply_op p db))"

lemma ops_history_acc: "db_history db0 db \<Longrightarrow> ops_ok ps db \<Longrightarrow> db_history db0 (fold apply_op ps db)"
  by (induction ps arbitrary: db) (auto intro: history_step)

lemma ops_history: "ops_ok ps db \<Longrightarrow> db_history db (fold apply_op ps db)"
  using ops_history_acc history_refl by blast

section \<open>Properties\<close>

text \<open>A Session with one finished and one running Command, to exercise the properties on.\<close>

definition example_session :: "ident \<Rightarrow> session" where
  "example_session i = \<lparr>ses_id = i, ses_organizationId = ''org'', ses_agentId = ''agent'',
     ses_machineId = ''machine'', ses_clientProfileId = ''profile'', ses_operatingSystemUser = ''user'',
     ses_title = ''title'', ses_purpose = None, ses_status = S_pending_approval,
     ses_maxConcurrentCommands = 4, ses_createdAt = 1000, ses_readyAt = None,
     ses_expiresAt = 901000, ses_finishedAt = None\<rparr>"

definition example_command :: "ident \<Rightarrow> ident \<Rightarrow> command" where
  "example_command s i = \<lparr>cmd_id = i, cmd_sessionId = s, cmd_organizationId = ''org'',
     cmd_agentId = ''agent'', cmd_machineId = ''machine'', cmd_command = ''ls'', cmd_cwd = None,
     cmd_timeoutSeconds = 60, cmd_status = C_queued, cmd_createdAt = 3000, cmd_startedAt = None,
     cmd_finishedAt = None, cmd_exitCode = None, cmd_outputTruncated = False, cmd_stdoutBytes = 0,
     cmd_stderrBytes = 0, cmd_error = None\<rparr>"

definition example_ops :: "session_db_op list" where
  "example_ops =
     [Op_createSession (example_session ''s'') ''k'' ''f'',
      Op_decideSession ''org'' ''s'' approve 2000,
      Op_markSessionOpened ''org'' ''machine'' ''s'' ''profile'' ''user'' 2500,
      Op_createCommand (example_command ''s'' ''c1'') ''k1'' ''f1'',
      Op_createCommand (example_command ''s'' ''c2'') ''k2'' ''f2'',
      Op_markCommandStarted ''org'' ''machine'' ''c1'' 3100,
      Op_addCommandOutput ''org'' ''machine'' ''c1'' stdout 0 [104, 105] 100000 3200,
      Op_addCommandOutput ''org'' ''machine'' ''c1'' stderr 1 [33] 100000 3300,
      Op_markCommandCompleted ''org'' ''machine'' ''c1'' C_succeeded (Some 0) None False 3400 3500,
      Op_markCommandStarted ''org'' ''machine'' ''c2'' 3600]"

definition example_db :: session_db where
  "example_db = fold apply_op example_ops empty_session_db"

lemma example_history: "db_history empty_session_db example_db"
  unfolding example_db_def by (rule ops_history) code_simp

lemma example_wf: "db_wf example_db"
  by (rule history_empty_wf[OF example_history])

text \<open>
  C1: The well-formedness invariant of the session database holds in every database the
  operations reach from an empty one: ids and idempotency keys are unique, a Session or Command
  has a finish time exactly when its status is final, every Command belongs to a stored Session of
  the same Organization, Agent and Machine, every output chunk and audit event refers to stored
  rows, chunk sequence numbers are unique, and the byte counters bound the stored output.
\<close>

theorem session_store_invariant: "db_history empty_session_db db \<Longrightarrow> db_wf db"
  by (rule history_empty_wf)

theorem session_store_invariant_witness: "db_wf example_db \<and> length (db_commands example_db) = 2"
proof -
  have "db_wf example_db" by (rule session_store_invariant[OF example_history])
  moreover have "length (db_commands example_db) = 2" by code_simp
  ultimately show ?thesis by blast
qed

text \<open>
  C4: Whatever operations follow, a Session stays findable under its id, never changes its Agent,
  Machine, profile or creation time, only moves forward through its life cycle (it is never
  reopened), changes its expiry only when it leaves the pending state, and does not change at all
  once it is final; the same holds for a Command, whose byte counters also never shrink.
\<close>

theorem lifecycle_is_forward:
  assumes "db_wf db" "db_history db db'"
  shows "(\<forall>s. session_lookup org i db = Some s \<longrightarrow>
            (\<exists>s'. session_lookup org i db' = Some s' \<and> session_forward (ses_status s) (ses_status s')
               \<and> ses_agentId s' = ses_agentId s \<and> ses_machineId s' = ses_machineId s
               \<and> ses_clientProfileId s' = ses_clientProfileId s \<and> ses_createdAt s' = ses_createdAt s
               \<and> (ses_expiresAt s' \<noteq> ses_expiresAt s \<longrightarrow> ses_status s = S_pending_approval
                     \<and> ses_status s' \<noteq> S_pending_approval)
               \<and> (session_terminal (ses_status s) \<longrightarrow> s' = s)))
       \<and> (\<forall>c. command_lookup org j db = Some c \<longrightarrow>
            (\<exists>c'. command_lookup org j db' = Some c' \<and> cmd_sessionId c' = cmd_sessionId c
               \<and> cmd_agentId c' = cmd_agentId c \<and> cmd_machineId c' = cmd_machineId c
               \<and> cmd_command c' = cmd_command c \<and> cmd_timeoutSeconds c' = cmd_timeoutSeconds c
               \<and> command_rank (cmd_status c) \<le> command_rank (cmd_status c')
               \<and> cmd_stdoutBytes c \<le> cmd_stdoutBytes c' \<and> cmd_stderrBytes c \<le> cmd_stderrBytes c'
               \<and> (command_terminal (cmd_status c) \<longrightarrow> c' = c)))"
proof (intro conjI allI impI)
  have db': "db_wf db'" "db_step db db'" using history_wf assms by blast+
  fix s assume "session_lookup org i db = Some s"
  then obtain r where r: "sql_first (session_key org i) (db_sessions db) = Some r" "s = sessionRecord r"
    by (auto simp: session_lookup_def)
  then obtain r' where "sql_first (session_key org i) (db_sessions db') = Some r'" "session_step r r'"
    using session_lookup_forward[OF db'] by blast
  then show "\<exists>s'. session_lookup org i db' = Some s' \<and> session_forward (ses_status s) (ses_status s')
      \<and> ses_agentId s' = ses_agentId s \<and> ses_machineId s' = ses_machineId s
      \<and> ses_clientProfileId s' = ses_clientProfileId s \<and> ses_createdAt s' = ses_createdAt s
      \<and> (ses_expiresAt s' \<noteq> ses_expiresAt s \<longrightarrow> ses_status s = S_pending_approval
            \<and> ses_status s' \<noteq> S_pending_approval)
      \<and> (session_terminal (ses_status s) \<longrightarrow> s' = s)"
    using r(2) by (auto simp: session_lookup_def session_step_def session_identity_def)
next
  have db': "db_wf db'" "db_step db db'" using history_wf assms by blast+
  fix c assume "command_lookup org j db = Some c"
  then obtain r where r: "sql_first (command_key org j) (db_commands db) = Some r" "c = commandRecord r"
    by (auto simp: command_lookup_def)
  then obtain r' where "sql_first (command_key org j) (db_commands db') = Some r'" "command_step r r'"
    using command_lookup_forward[OF db'] by blast
  then show "\<exists>c'. command_lookup org j db' = Some c' \<and> cmd_sessionId c' = cmd_sessionId c
      \<and> cmd_agentId c' = cmd_agentId c \<and> cmd_machineId c' = cmd_machineId c
      \<and> cmd_command c' = cmd_command c \<and> cmd_timeoutSeconds c' = cmd_timeoutSeconds c
      \<and> command_rank (cmd_status c) \<le> command_rank (cmd_status c')
      \<and> cmd_stdoutBytes c \<le> cmd_stdoutBytes c' \<and> cmd_stderrBytes c \<le> cmd_stderrBytes c'
      \<and> (command_terminal (cmd_status c) \<longrightarrow> c' = c)"
    using r(2) by (auto simp: command_lookup_def command_step_def command_identity_def)
qed

theorem lifecycle_is_forward_witness:
  "command_lookup ''org'' ''c1'' (apply_op (Op_finishSession ''org'' ''agent'' ''s'' cancel 4000) example_db)
     = command_lookup ''org'' ''c1'' example_db
   \<and> (\<exists>c. command_lookup ''org'' ''c1'' example_db = Some c \<and> command_terminal (cmd_status c))"
proof -
  let ?db = "apply_op (Op_finishSession ''org'' ''agent'' ''s'' cancel 4000) example_db"
  have "db_history example_db ?db" by (intro history_step history_refl) simp
  note fwd = conjunct2[OF lifecycle_is_forward[OF example_wf this, of "''org''" "''s''" "''c1''"], rule_format]
  have "(case command_lookup ''org'' ''c1'' example_db of None \<Rightarrow> False | Some c \<Rightarrow> command_terminal (cmd_status c))"
    by code_simp
  then obtain c where c: "command_lookup ''org'' ''c1'' example_db = Some c" "command_terminal (cmd_status c)"
    by (auto split: option.splits)
  from fwd[OF c(1)] c show ?thesis by auto
qed

subsection \<open>Isolation of Organizations\<close>

definition org_view ::
    "ident \<Rightarrow> session_db \<Rightarrow> session_row list \<times> command_row list \<times> session_event_row list
       \<times> output_chunk list \<times> machine_authority list" where
  "org_view org db =
     (sql_where (\<lambda>r. ses_organizationId r = org) (db_sessions db),
      sql_where (\<lambda>r. cmd_organizationId r = org) (db_commands db),
      sql_where (\<lambda>e. sev_organizationId e = org) (db_auditEvents db),
      sql_where (\<lambda>k. chk_organizationId k = org) (db_outputChunks db),
      sql_where (\<lambda>m. ma_organizationId m = org) (db_machineAuthorities db))"

text \<open>The Organization an operation acts for; the two sweeps and the purge act for all.\<close>

fun op_organization :: "session_db_op \<Rightarrow> ident option" where
  "op_organization (Op_putMachineAuthority a) = Some (ma_organizationId a)"
| "op_organization (Op_setMachineOnline org m b) = Some org"
| "op_organization (Op_createSession s k f) = Some (ses_organizationId s)"
| "op_organization (Op_createCommand c k f) = Some (cmd_organizationId c)"
| "op_organization (Op_decideSession org s d t) = Some org"
| "op_organization (Op_finishSession org a s w t) = Some org"
| "op_organization (Op_requestCommandCancellation org a c) = Some org"
| "op_organization (Op_append e t) = Some (sev_organizationId e)"
| "op_organization (Op_markSessionOpened org m s p u t) = Some org"
| "op_organization (Op_markSessionFailed org m s e t) = Some org"
| "op_organization (Op_markSessionClosed org m s r t) = Some org"
| "op_organization (Op_markCommandStarted org m c t) = Some org"
| "op_organization (Op_addCommandOutput org m c st n d ret t) = Some org"
| "op_organization (Op_markCommandCompleted org m c st x e tr fin t) = Some org"
| "op_organization (Op_expireSessions t) = None"
| "op_organization (Op_revokeSessions org a m t) = Some org"
| "op_organization (Op_purgeExpiredCommandOutput t) = None"

lemma where_update_other [frame_simps]:
  "(\<And>r. P r \<Longrightarrow> \<not> Q r \<and> \<not> Q (f r)) \<Longrightarrow> sql_where Q (sql_update P f t) = sql_where Q t"
  by (induction t) (auto simp: sql_where_def)

lemma where_append_other [frame_simps]: "\<not> Q r \<Longrightarrow> sql_where Q (t @ [r]) = sql_where Q t"
  by (simp add: sql_where_def)

lemma where_delete_other [frame_simps]:
  "(\<And>r. P r \<Longrightarrow> \<not> Q r) \<Longrightarrow> sql_where Q (sql_delete P t) = sql_where Q t"
  by (induction t) (auto simp: sql_where_def sql_delete_def)

lemmas key_defs = session_key_def command_key_def machine_command_def machine_key_def

lemma append_event_org_view [frame_simps]:
  "sev_organizationId e \<noteq> org \<Longrightarrow> org_view org (append_event e now db) = org_view org db"
  by (simp add: org_view_def append_event_def where_append_other session_event.defs session_event_row.defs)

lemma org_view_sessions [frame_simps]:
  "(\<And>r. P r \<Longrightarrow> ses_organizationId r \<noteq> org \<and> ses_organizationId (f r) \<noteq> org) \<Longrightarrow>
   org_view org (db\<lparr>db_sessions := sql_update P f (db_sessions db)\<rparr>) = org_view org db"
  by (simp add: org_view_def where_update_other)

lemma org_view_commands [frame_simps]:
  "(\<And>r. P r \<Longrightarrow> cmd_organizationId r \<noteq> org \<and> cmd_organizationId (f r) \<noteq> org) \<Longrightarrow>
   org_view org (db\<lparr>db_commands := sql_update P f (db_commands db)\<rparr>) = org_view org db"
  by (simp add: org_view_def where_update_other)

lemma createSession_view:
  "ses_organizationId s \<noteq> org \<Longrightarrow> org_view org (snd (createSession s k f db)) = org_view org db"
  by (auto simp: createSession_def Let_def org_view_def where_append_other split: option.split if_splits intro!: where_update_other)

lemma createCommand_view:
  "cmd_organizationId c \<noteq> org \<Longrightarrow> org_view org (snd (createCommand c k f db)) = org_view org db"
  by (auto simp: createCommand_def Let_def org_view_def where_append_other split: option.split if_splits intro!: where_update_other)

lemma decideSession_view:
  "org' \<noteq> org \<Longrightarrow> org_view org (snd (decideSession org' s d now db)) = org_view org db"
  by (auto simp: decideSession_def Let_def org_view_def key_defs split: option.split if_splits intro!: where_update_other)

lemma finishSession_view:
  "org' \<noteq> org \<Longrightarrow> org_view org (snd (finishSession org' a s w now db)) = org_view org db"
  by (auto simp: finishSession_def Let_def org_view_def key_defs split: option.split if_splits intro!: where_update_other)

lemma requestCommandCancellation_view:
  "org' \<noteq> org \<Longrightarrow> org_view org (snd (requestCommandCancellation org' a c db)) = org_view org db"
  by (auto simp: requestCommandCancellation_def Let_def org_view_def key_defs split: option.split if_splits intro!: where_update_other)

lemma putMachineAuthority_view:
  "ma_organizationId a \<noteq> org \<Longrightarrow> org_view org (putMachineAuthority a db) = org_view org db"
  by (auto simp: putMachineAuthority_def Let_def org_view_def key_defs where_append_other intro!: where_update_other)

lemma setMachineOnline_view:
  "org' \<noteq> org \<Longrightarrow> org_view org (snd (setMachineOnline org' m b db)) = org_view org db"
  by (auto simp: setMachineOnline_def Let_def org_view_def key_defs intro!: where_update_other)

lemma markCommandStarted_view:
  "org' \<noteq> org \<Longrightarrow> org_view org (snd (markCommandStarted org' m c t db)) = org_view org db"
  by (auto simp: markCommandStarted_def Let_def org_view_def key_defs intro!: where_update_other)

lemma addCommandOutput_view:
  "org' \<noteq> org \<Longrightarrow> org_view org (snd (addCommandOutput org' m c st n d ret t db)) = org_view org db"
  by (auto simp: addCommandOutput_def Let_def org_view_def key_defs where_append_other
      split: option.split if_splits intro!: where_update_other)

lemma sql_returningD: "sql_returning P f t = Some r' \<Longrightarrow> \<exists>r. r \<in> set t \<and> P r \<and> r' = f r"
  by (auto simp: sql_returning_def dest: sql_first_SomeD)

lemma markCommandCompleted_view:
  "org' \<noteq> org \<Longrightarrow> org_view org (snd (markCommandCompleted org' m c st x e tr fin t db)) = org_view org db"
  unfolding markCommandCompleted_def Let_def
  by (auto simp: key_defs append_event_org_view dest!: sql_returningD intro!: org_view_commands split: option.split)

lemma marks_view:
  assumes "org' \<noteq> org"
  shows "org_view org (snd (markSessionOpened org' m s p u t db)) = org_view org db"
    and "org_view org (snd (markSessionFailed org' m s e t db)) = org_view org db"
    and "org_view org (snd (markSessionClosed org' m s r t db)) = org_view org db"
proof -
  show "org_view org (snd (markSessionOpened org' m s p u t db)) = org_view org db"
    using assms unfolding markSessionOpened_def Let_def
    by (auto simp: append_event_org_view dest!: sql_returningD intro!: org_view_sessions split: option.split)
  show "org_view org (snd (markSessionFailed org' m s e t db)) = org_view org db"
    using assms unfolding markSessionFailed_def Let_def
    by (auto simp: append_event_org_view dest!: sql_returningD intro!: org_view_sessions split: option.split)
  show "org_view org (snd (markSessionClosed org' m s r t db)) = org_view org db"
    using assms unfolding markSessionClosed_def Let_def
    by (auto simp: append_event_org_view dest!: sql_returningD intro!: org_view_sessions split: option.split)
qed

lemma revokeSessions_view:
  assumes "org' \<noteq> org"
  shows "org_view org (snd (revokeSessions org' a m now db)) = org_view org db"
proof -
  let ?ss = "sql_where (revocable org' a m) (db_sessions db)"
  have "sql_where (\<lambda>r. ses_organizationId r = org) (fst (snd (revoke_loop org' now ?ss (db_sessions db) (db_commands db))))
      = sql_where (\<lambda>r. ses_organizationId r = org) (db_sessions db)"
    unfolding revoke_loop_sessions using assms by (intro where_update_other) (auto simp: revoked_session_def)
  moreover have "sql_where (\<lambda>r. cmd_organizationId r = org) (snd (snd (revoke_loop org' now ?ss (db_sessions db) (db_commands db))))
      = sql_where (\<lambda>r. cmd_organizationId r = org) (db_commands db)"
    unfolding revoke_loop_commands using assms
    by (intro where_update_other) (auto simp: owned_by_def cancelled_command_def)
  ultimately show ?thesis using assms
    by (auto simp: revokeSessions_def Let_def case_prod_unfold org_view_def key_defs
        intro!: where_delete_other split: option.split)
qed

text \<open>
  C8: Isolation of Organizations: an operation performed for one Organization leaves the
  Sessions, Commands, audit events, output chunks and Machine authorities of every other
  Organization exactly as they were.
\<close>

theorem organization_isolation:
  "op_organization p = Some org' \<Longrightarrow> org' \<noteq> org \<Longrightarrow> org_view org (apply_op p db) = org_view org db"
  by (cases p) (auto simp: createSession_view createCommand_view decideSession_view finishSession_view
      requestCommandCancellation_view putMachineAuthority_view setMachineOnline_view markCommandStarted_view
      addCommandOutput_view markCommandCompleted_view marks_view revokeSessions_view append_event_org_view)

theorem organization_isolation_witness:
  "org_view ''org'' (apply_op (Op_revokeSessions ''other'' None (Some ''machine'') 5000) example_db)
     = org_view ''org'' example_db
   \<and> fst (org_view ''org'' example_db) \<noteq> []"
proof -
  have "org_view ''org'' (apply_op (Op_revokeSessions ''other'' None (Some ''machine'') 5000) example_db)
     = org_view ''org'' example_db"
    by (rule organization_isolation[where org' = "''other''"]) simp_all
  moreover have "fst (org_view ''org'' example_db) \<noteq> []" by code_simp
  ultimately show ?thesis by blast
qed

end
