(* ===== verification/Session_Reads.thy ===== *)
theory Session_Reads
  imports Session_Properties
begin

text \<open>
  What the callers of the session database rely on: the answers of the two sweeps, the bound
  on stored output, retries of creations, the decision of an approver, and the pages of
  \<open>commandOutput\<close>.
\<close>

section \<open>Answers of the sweeps\<close>

lemma cancelled_ids:
  "map cmd_id (sql_where (command_of org sid) (sql_update (owned_by K) cancelled_command C))
   = map cmd_id (sql_where (command_of org sid) C)"
  by (induction C) (auto simp: sql_where_def command_of_def owned_by_def cancelled_command_def active_defs)

lemma cancel_commands_of_eq:
  "cancel_commands_of org sid C = (map cmd_id (sql_where (command_of org sid) C),
     sql_update (owned_by {(org, sid)}) cancelled_command C)"
  using cancel_commands_of_update[of org sid C] by (simp add: cancel_commands_of_def)

lemma expire_loop_result:
  "fst (expire_loop ss C) = map (\<lambda>s. (sessionRecord s,
     map cmd_id (sql_where (command_of (ses_organizationId s) (ses_id s)) C))) ss"
  by (induction ss arbitrary: C)
     (simp_all add: cancel_commands_of_eq cancelled_ids Let_def case_prod_unfold)

lemma revoke_loop_answer:
  "fst (revoke_loop org now ss S C) = map (\<lambda>s. (sessionRecord (revoked_session now s),
     map cmd_id (sql_where (command_of org (ses_id s)) C))) ss"
  by (induction ss arbitrary: S C)
     (simp_all add: cancel_commands_of_eq cancelled_ids Let_def case_prod_unfold revoked_session_def[abs_def])

lemma expireSessions_answer:
  "fst (expireSessions now db) = map (\<lambda>s. (sessionRecord (s\<lparr>ses_status := S_cancellation_requested\<rparr>),
     map cmd_id (sql_where (command_of (ses_organizationId s) (ses_id s)) (db_commands db))))
       (sql_where (expiry_due now) (db_sessions db))"
  by (simp only: expireSessions_def Let_def case_prod_unfold expire_loop_result due_after_pending
      fst_conv map_map comp_def) simp

text \<open>
  The expiry sweep: afterwards no Session waits for approval, opens or runs past its expiry;
  the answer lists exactly the open or opening Sessions that were due, each with the ids of all its
  active Commands; and every active Command of a listed Session is marked for cancellation.
\<close>

theorem expiry_sweep:
  defines "result \<equiv> \<lambda>now db. fst (expireSessions now db)" and "after \<equiv> \<lambda>now db. snd (expireSessions now db)"
  shows "(\<forall>r \<in> set (db_sessions (after now db)). session_active r \<longrightarrow> now < ses_expiresAt r)
     \<and> map (\<lambda>(s, ids). (ses_id s, ids)) (result now db)
         = map (\<lambda>s. (ses_id s, map cmd_id (sql_where (command_of (ses_organizationId s) (ses_id s)) (db_commands db))))
             (sql_where (\<lambda>s. ses_status s \<in> {S_opening, S_active} \<and> ses_expiresAt s \<le> now) (db_sessions db))
     \<and> (\<forall>c \<in> set (db_commands (after now db)). \<forall>(s, ids) \<in> set (result now db).
          cmd_organizationId c = ses_organizationId s \<and> cmd_sessionId c = ses_id s \<and> command_active c \<longrightarrow>
          cmd_status c = C_cancellation_requested)"
proof (intro conjI ballI impI)
  fix r assume "r \<in> set (db_sessions (after now db))" "session_active r"
  then show "now < ses_expiresAt r"
    by (auto simp: after_def expireSessions_db expired_session_def expiry_pending_def expiry_due_def active_defs
        split: if_splits)
next
  show "map (\<lambda>(s, ids). (ses_id s, ids)) (result now db)
     = map (\<lambda>s. (ses_id s, map cmd_id (sql_where (command_of (ses_organizationId s) (ses_id s)) (db_commands db))))
         (sql_where (\<lambda>s. ses_status s \<in> {S_opening, S_active} \<and> ses_expiresAt s \<le> now) (db_sessions db))"
    by (simp add: result_def expireSessions_answer expiry_due_def[abs_def])
next
  fix c x assume c: "c \<in> set (db_commands (after now db))" and x: "x \<in> set (result now db)"
  obtain s ids where s: "x = (s, ids)" by (cases x)
  have "(ses_organizationId s, ses_id s) \<in> due_keys now db"
    using x s by (auto simp: result_def expireSessions_answer due_keys_def)
  then show "case x of (s, ids) \<Rightarrow> cmd_organizationId c = ses_organizationId s \<and> cmd_sessionId c = ses_id s
      \<and> command_active c \<longrightarrow> cmd_status c = C_cancellation_requested"
    using c s by (auto simp: after_def expireSessions_db owned_by_def cancelled_command_def split: if_splits)
qed

theorem expiry_sweep_witness:
  "map (\<lambda>(s, ids). (ses_id s, ids)) (fst (expireSessions 1000000 example_db)) = [(''s'', [''c2''])]
   \<and> filter (\<lambda>r. session_active r \<and> ses_expiresAt r \<le> 1000000) (db_sessions (snd (expireSessions 1000000 example_db))) = []"
proof -
  note sweep = expiry_sweep[where now = 1000000 and db = example_db]
  have "map (\<lambda>s. (ses_id s, map cmd_id (sql_where (command_of (ses_organizationId s) (ses_id s)) (db_commands example_db))))
         (sql_where (\<lambda>s. ses_status s \<in> {S_opening, S_active} \<and> ses_expiresAt s \<le> 1000000) (db_sessions example_db))
       = [(''s'', [''c2''])]"
    by code_simp
  then show ?thesis using sweep[THEN conjunct1] sweep[THEN conjunct2, THEN conjunct1] by (auto simp: filter_empty_conv)
qed

lemma revoked_not_revocable: "\<not> revocable org agent machine (revoked_session now r)"
  by (simp add: revocable_def revoked_session_def session_active_def ACTIVE_SESSION_STATUSES_def)

text \<open>
  Revocation of an Agent or a Machine: afterwards no Session in the scope is pending, opening or
  active, every Session outside the scope is unchanged, every active Command of a revoked Session is
  marked for cancellation, the answer lists the revoked Sessions with their active Commands, and the
  authority of a revoked Machine is gone.
\<close>

theorem revocation:
  assumes "db_wf db" "agent \<noteq> None \<or> machine \<noteq> None"
    and "revokeSessions org agent machine now db = (answer, db')"
  shows "(\<forall>r \<in> set (db_sessions db'). \<not> revocable org agent machine r)
     \<and> (\<forall>r \<in> set (db_sessions db). \<not> revocable org agent machine r \<longrightarrow> r \<in> set (db_sessions db'))
     \<and> answer = Inr (map (\<lambda>s. (sessionRecord (s\<lparr>ses_status := S_revoked, ses_finishedAt := Some now\<rparr>),
          map cmd_id (sql_where (command_of org (ses_id s)) (db_commands db))))
            (sql_where (revocable org agent machine) (db_sessions db)))
     \<and> (\<forall>s \<in> set (db_sessions db). revocable org agent machine s \<longrightarrow>
          (\<forall>c \<in> set (db_commands db'). command_in c s \<and> command_active c \<longrightarrow> cmd_status c = C_cancellation_requested))
     \<and> (\<forall>m. machine = Some m \<longrightarrow> machineAuthority org m db' = None)"
proof (intro conjI ballI impI allI)
  have db': "db' = snd (revokeSessions org agent machine now db)" using assms(3) by simp
  note eq = revokeSessions_db[OF assms(1,2), of org now]
  { fix r assume "r \<in> set (db_sessions db')"
    then show "\<not> revocable org agent machine r"
      by (auto simp: db' eq revoked_not_revocable split: if_splits) }
  { fix r assume "r \<in> set (db_sessions db)" "\<not> revocable org agent machine r"
    then show "r \<in> set (db_sessions db')" by (auto simp: db' eq image_iff) }
  { fix s c assume "s \<in> set (db_sessions db)" "revocable org agent machine s"
      and c: "c \<in> set (db_commands db')" "command_in c s \<and> command_active c"
    moreover from this(1,2) have "(org, ses_id s) \<in> revoked_keys org agent machine db"
      unfolding revoked_keys_def by blast
    ultimately have "(cmd_organizationId c, cmd_sessionId c) \<in> revoked_keys org agent machine db"
      by (auto simp: command_in_def revocable_def)
    then show "cmd_status c = C_cancellation_requested"
      using c by (auto simp: db' eq owned_by_def cancelled_command_def split: if_splits) }
  { fix m assume "machine = Some m"
    then show "machineAuthority org m db' = None"
      unfolding db' eq by (auto simp: machineAuthority_def sql_first_None_iff) }
  have "answer = fst (revokeSessions org agent machine now db)" using assms(3) by simp
  then show "answer = Inr (map (\<lambda>s. (sessionRecord (s\<lparr>ses_status := S_revoked, ses_finishedAt := Some now\<rparr>),
      map cmd_id (sql_where (command_of org (ses_id s)) (db_commands db))))
        (sql_where (revocable org agent machine) (db_sessions db)))"
    using assms(2) by (auto simp: revokeSessions_def Let_def case_prod_unfold revoke_loop_answer revoked_session_def)
qed

theorem revocation_witness:
  "\<exists>answer db'. revokeSessions ''org'' (Some ''agent'') None 5000 example_db = (answer, db')
     \<and> (\<forall>r \<in> set (db_sessions db'). \<not> revocable ''org'' (Some ''agent'') None r)
     \<and> list_ex (revocable ''org'' (Some ''agent'') None) (db_sessions example_db)"
proof -
  obtain answer db' where r: "revokeSessions ''org'' (Some ''agent'') None 5000 example_db = (answer, db')" by fastforce
  have "list_ex (revocable ''org'' (Some ''agent'') None) (db_sessions example_db)" by code_simp
  with conjunct1[OF revocation[OF example_wf _ r]] r show ?thesis by simp
qed

section \<open>Stored output\<close>

definition stored_output :: "ident \<Rightarrow> ident \<Rightarrow> session_db \<Rightarrow> int" where
  "stored_output org cid db = sum_list (map (\<lambda>k. int (length (chk_data k)))
     (sql_where (\<lambda>k. chk_organizationId k = org \<and> chk_commandId k = cid) (db_outputChunks db)))"

lemma stored_output_streams:
  "stored_output (cmd_organizationId c) (cmd_id c) db
   = stored_bytes c stdout (db_outputChunks db) + stored_bytes c stderr (db_outputChunks db)"
proof -
  have "sum_list (map g (filter (\<lambda>k. P k) ks))
      = sum_list (map g (filter (\<lambda>k. P k \<and> chk_stream k = stdout) ks))
        + sum_list (map g (filter (\<lambda>k. P k \<and> chk_stream k = stderr) ks))" for g :: "output_chunk \<Rightarrow> int" and P ks
  proof (induction ks)
    case (Cons k ks)
    then show ?case by (cases "chk_stream k") simp_all
  qed simp
  from this[of "\<lambda>k. int (length (chk_data k))"
      "\<lambda>k. chk_organizationId k = cmd_organizationId c \<and> chk_commandId k = cmd_id c" "db_outputChunks db"]
  show ?thesis by (simp add: stored_output_def stored_bytes_def sql_where_def)
qed

text \<open>
  C26: The server never holds more than \<open>DEFAULT_COMMAND_OUTPUT_BYTES\<close> (1 MiB) of output for one
  Command, whatever chunks the Machine sends and in whatever order.
\<close>

theorem stored_output_bounded:
  assumes "db_history empty_session_db db"
  shows "stored_output org cid db \<le> DEFAULT_COMMAND_OUTPUT_BYTES"
proof (cases "\<exists>k \<in> set (db_outputChunks db). chk_organizationId k = org \<and> chk_commandId k = cid")
  case True
  have wf: "db_wf db" by (rule history_empty_wf[OF assms])
  with True obtain c where c: "c \<in> set (db_commands db)" "cmd_organizationId c = org" "cmd_id c = cid"
    by (auto simp: db_wf_def chunks_wf_def)
  then have "stored_output org cid db \<le> cmd_stdoutBytes c + cmd_stderrBytes c"
    using wf stored_output_streams[of c db] by (fastforce simp: db_wf_def chunks_wf_def)
  then show ?thesis using c wf by (fastforce simp: db_wf_def commands_wf_def command_row_ok_def)
next
  case False
  then have "sql_where (\<lambda>k. chk_organizationId k = org \<and> chk_commandId k = cid) (db_outputChunks db) = []"
    by (simp add: sql_where_def filter_empty_conv)
  then show ?thesis by (simp add: stored_output_def DEFAULT_COMMAND_OUTPUT_BYTES_def)
qed

theorem stored_output_bounded_witness:
  "stored_output ''org'' ''c1'' example_db = 3 \<and> stored_output ''org'' ''c1'' example_db \<le> DEFAULT_COMMAND_OUTPUT_BYTES"
proof -
  have "stored_output ''org'' ''c1'' example_db = 3" by code_simp
  with stored_output_bounded[OF example_history, of "''org''" "''c1''"] show ?thesis by blast
qed

section \<open>Retried requests\<close>

text \<open>
  A create request is idempotent over time: once a Session was created under an idempotency
  key, any later request of the same Agent under that key, after any operations in between, changes
  nothing; it gets that Session in its current state if the request is the same, and a conflict if
  it differs.
\<close>

theorem session_retry:
  assumes "db_wf db" "new_session_ok s" "fst (createSession s key print db) = Created s0"
    and "db_history (snd (createSession s key print db)) db'"
    and "ses_organizationId s' = ses_organizationId s" "ses_agentId s' = ses_agentId s"
  shows "\<exists>current. session_lookup (ses_organizationId s) (ses_id s) db' = Some current \<and>
     createSession s' key print' db' = (if print' = print then Replayed current else Idempotency_conflict, db')"
proof -
  let ?row = "sessionInsert s key print" and ?row' = "sessionInsert s' key print'"
  let ?db1 = "snd (createSession s key print db)"
  have eq: "createSession s k p = create_session_row (sessionInsert s k p)" for s k p
    by (rule ext) (simp add: create_session_row_def)
  have db1: "db_sessions ?db1 = db_sessions db @ [?row]"
    using session_inserts.create_Created assms(3) unfolding eq by blast
  have wf1: "db_wf ?db1" using createSession_wf[OF assms(1) new_session_row_ok[OF assms(2)]] by blast
  have wf': "db_wf db'" "db_step ?db1 db'" using history_wf[OF assms(4) wf1] by auto
  have "sql_first (session_key (ses_organizationId s) (ses_id s)) (db_sessions ?db1) = Some ?row"
    by (rule sql_first_key[where k = ses_id])
      (use wf1 db1 in \<open>auto simp: db_wf_def sessions_wf_def session_key_def\<close>)
  from session_lookup_forward[OF wf' this] obtain r' where
    r': "sql_first (session_key (ses_organizationId s) (ses_id s)) (db_sessions db') = Some r'" "session_step ?row r'"
    by blast
  have "r' \<in> set (db_sessions db')" using r'(1) by (auto dest: sql_first_SomeD)
  moreover have "session_idem ?row' = session_idem r'"
    using session_step_idem[OF r'(2)] assms(5,6) by (simp add: session_idem_def)
  moreover have "srow_requestFingerprint r' = print"
    using r'(2) by (simp add: session_step_def session_identity_def)
  ultimately have "createSession s' key print' db'
      = (if print' = print then Replayed (sessionRecord r') else Idempotency_conflict, db')"
    unfolding eq using session_inserts.create_replay[of db' r' ?row'] wf'(1)
    by (simp add: db_wf_def sessions_wf_def)
  then show ?thesis using r'(1) by (simp add: session_lookup_def)
qed

theorem session_retry_witness:
  "\<exists>current. session_lookup ''org'' ''t'' (snd (expireSessions 5000000 (snd (createSession (example_session ''t'') ''k2'' ''p'' example_db)))) = Some current
     \<and> fst (createSession (example_session ''u'') ''k2'' ''p'' (snd (expireSessions 5000000 (snd (createSession (example_session ''t'') ''k2'' ''p'' example_db))))) = Replayed current"
proof -
  let ?s = "example_session ''t''" and ?s' = "example_session ''u''"
  let ?db1 = "snd (createSession ?s ''k2'' ''p'' example_db)"
  let ?db' = "snd (expireSessions 5000000 ?db1)"
  have s: "new_session_ok ?s" "ses_organizationId ?s' = ses_organizationId ?s" "ses_agentId ?s' = ses_agentId ?s"
    "ses_organizationId ?s = ''org''" "ses_id ?s = ''t''"
    by (simp_all add: new_session_ok_def example_session_def)
  have "(case fst (createSession ?s ''k2'' ''p'' example_db) of Created x \<Rightarrow> True | _ \<Rightarrow> False)" by code_simp
  then obtain s0 where s0: "fst (createSession ?s ''k2'' ''p'' example_db) = Created s0"
    by (auto split: create_result.splits)
  have "db_history ?db1 (apply_op (Op_expireSessions 5000000) ?db1)"
    by (intro history_step history_refl) simp
  then have h: "db_history ?db1 ?db'" by simp
  from session_retry[OF example_wf s(1) s0 h s(2,3), of "''p''"] s(4,5) show ?thesis by auto
qed

section \<open>The decision of an approver\<close>

text \<open>
  An approval takes effect at most once, only while the Session is pending and not past its
  expiry, and gives the Session the full duration it was requested with, counted from the decision;
  a decision about anything else changes nothing, except that a request found past its expiry
  becomes expired.
\<close>

theorem approval_preserves_duration:
  assumes "db_wf db" "session_lookup org sid db = Some s"
    and "decideSession org sid approve now db = (answer, db')"
  shows "(ses_status s = S_pending_approval \<and> now < ses_expiresAt s \<longrightarrow>
            (\<exists>s'. answer = Decide_approved s' True \<and> session_lookup org sid db' = Some s'
               \<and> ses_status s' = S_opening
               \<and> ses_expiresAt s' - now = ses_expiresAt s - ses_createdAt s))
       \<and> (ses_status s = S_pending_approval \<and> ses_expiresAt s \<le> now \<longrightarrow>
            answer = Decide_conflict
            \<and> session_lookup org sid db' = Some (s\<lparr>ses_status := S_expired, ses_finishedAt := Some now\<rparr>))
       \<and> (ses_status s \<in> {S_opening, S_active} \<longrightarrow> answer = Decide_approved s False \<and> db' = db)
       \<and> (ses_status s \<notin> {S_pending_approval, S_opening, S_active} \<longrightarrow> answer = Decide_conflict \<and> db' = db)"
proof -
  obtain r where r: "sql_first (session_key org sid) (db_sessions db) = Some r" "s = sessionRecord r"
    using assms(2) by (auto simp: session_lookup_def)
  then have mem: "r \<in> set (db_sessions db)" "session_key org sid r" by (auto dest: sql_first_SomeD)
  let ?P = "\<lambda>r. session_key org sid r \<and> ses_status r = S_pending_approval"
  have d: "distinct (map ses_id (db_sessions db))" using assms(1) by (simp add: db_wf_def sessions_wf_def)
  have ret: "sql_returning ?P f (db_sessions db) = Some (f r)" if "ses_status r = S_pending_approval" for f :: "session_row \<Rightarrow> session_row"
  proof -
    have "sql_first ?P (db_sessions db) = Some r"
      by (rule sql_first_key[OF d mem(1)]) (use mem that in \<open>auto simp: session_key_def\<close>)
    then show ?thesis by (simp add: sql_returning_def)
  qed
  have look: "sql_first (session_key org sid) (sql_update ?P f (db_sessions db)) = Some (f r)"
    if "ses_status r = S_pending_approval" "\<And>x. ses_id (f x) = ses_id x" "session_key org sid (f r)" for f
    using sql_first_update_key[OF d that(2) r(1), of "session_key org sid" ?P] mem that
    by (simp add: session_key_def)
  have key: "session_key org sid (r\<lparr>ses_status := a, ses_expiresAt := b\<rparr>)"
    "session_key org sid (r\<lparr>ses_status := a, ses_finishedAt := c\<rparr>)" for a b c
    using mem(2) by (simp_all add: session_key_def)
  show ?thesis
    using assms(3) r
    by (auto simp: decideSession_def Let_def ret look key session_lookup_def sessionRecord_def)
qed

theorem approval_preserves_duration_witness:
  "let db = snd (createSession (example_session ''t'') ''k2'' ''p'' example_db) in
   (case decideSession ''org'' ''t'' approve 500000 db of
      (Decide_approved s' True, db') \<Rightarrow> ses_status s' = S_opening \<and> ses_expiresAt s' = 1400000
    | _ \<Rightarrow> False)"
proof -
  let ?db = "snd (createSession (example_session ''t'') ''k2'' ''p'' example_db)"
  obtain answer db' where d: "decideSession ''org'' ''t'' approve 500000 ?db = (answer, db')" by fastforce
  have wf: "db_wf ?db"
    by (rule conjunct1[OF createSession_wf[OF example_wf new_session_row_ok]])
      (simp add: new_session_ok_def example_session_def)
  have "(case session_lookup ''org'' ''t'' ?db of Some s \<Rightarrow> ses_status s = S_pending_approval
      \<and> ses_expiresAt s = 901000 \<and> ses_createdAt s = 1000 | None \<Rightarrow> False)" by code_simp
  then obtain s where s: "session_lookup ''org'' ''t'' ?db = Some s"
    "ses_status s = S_pending_approval" "ses_expiresAt s = 901000" "ses_createdAt s = 1000"
    by (auto split: option.splits)
  from approval_preserves_duration[OF wf s(1) d, THEN conjunct1] s d show ?thesis by (auto simp: Let_def)
qed

section \<open>Reading output page by page\<close>

text \<open>
  A reader passes the last sequence number it has seen as the next cursor, until a page is empty.
\<close>

fun read_pages :: "nat \<Rightarrow> ident \<Rightarrow> ident \<Rightarrow> int \<Rightarrow> instant \<Rightarrow> session_db \<Rightarrow> output_item list" where
  "read_pages 0 org cid cursor now db = []"
| "read_pages (Suc n) org cid cursor now db =
     (let page = commandOutput org cid cursor now db in
      if page = [] then [] else page @ read_pages n org cid (oi_sequence (last page)) now db)"

definition readable_chunks :: "ident \<Rightarrow> ident \<Rightarrow> int \<Rightarrow> instant \<Rightarrow> session_db \<Rightarrow> output_chunk list" where
  "readable_chunks org cid cursor now db =
     sort_key chk_sequence (sql_where (readable_chunk org cid cursor now db) (db_outputChunks db))"

definition chunk_item :: "output_chunk \<Rightarrow> output_item" where
  "chunk_item k = \<lparr>oi_sequence = chk_sequence k, oi_stream = chk_stream k, oi_dataBase64 = base64_encode (chk_data k)\<rparr>"

lemma commandOutput_page:
  "commandOutput org cid cursor now db = map chunk_item (take output_page (readable_chunks org cid cursor now db))"
  by (simp add: commandOutput_def readable_chunks_def chunk_item_def[abs_def])

lemma readable_sorted: "sorted (map chk_sequence (readable_chunks org cid cursor now db))"
  by (simp add: readable_chunks_def)

lemma readable_distinct:
  assumes "db_wf db"
  shows "distinct (map chk_sequence (readable_chunks org cid cursor now db))"
proof -
  have "inj_on chk_sequence {k \<in> set (db_outputChunks db). readable_chunk org cid cursor now db k}"
  proof (rule inj_onI)
    fix k k' assume "k \<in> {k \<in> set (db_outputChunks db). readable_chunk org cid cursor now db k}"
      "k' \<in> {k \<in> set (db_outputChunks db). readable_chunk org cid cursor now db k}" "chk_sequence k = chk_sequence k'"
    moreover from this have "chunk_id k = chunk_id k'" by (auto simp: chunk_id_def readable_chunk_def)
    ultimately show "k = k'"
      using assms distinct_key_eq[of chunk_id "db_outputChunks db" k k'] by (auto simp: db_wf_def chunks_wf_def)
  qed
  moreover have "distinct (db_outputChunks db)"
    using assms by (auto simp: db_wf_def chunks_wf_def distinct_map)
  ultimately show ?thesis
    by (simp add: readable_chunks_def distinct_map sql_where_def)
qed

lemma readable_later:
  "cursor \<le> c \<Longrightarrow> readable_chunks org cid c now db = filter (\<lambda>k. c < chk_sequence k) (readable_chunks org cid cursor now db)"
proof -
  assume le: "cursor \<le> c"
  have "sql_where (readable_chunk org cid c now db) (db_outputChunks db)
      = filter (\<lambda>k. c < chk_sequence k) (sql_where (readable_chunk org cid cursor now db) (db_outputChunks db))"
    unfolding sql_where_def filter_filter by (rule filter_cong) (use le in \<open>auto simp: readable_chunk_def\<close>)
  then show ?thesis by (simp add: readable_chunks_def filter_sort)
qed

lemma sorted_filter_after:
  assumes "sorted (map f xs)" "distinct (map f xs)" "n \<le> length xs" "0 < n"
  shows "filter (\<lambda>x. f (last (take n xs)) < (f x :: int)) xs = drop n xs"
proof -
  let ?m = "f (last (take n xs))"
  have "take n xs \<noteq> []" using assms(3,4) by auto
  have s: "sorted (map f (take n xs) @ map f (drop n xs))" "distinct (map f (take n xs) @ map f (drop n xs))"
    using assms(1,2) by (metis append_take_drop_id map_append)+
  have last_in: "?m \<in> set (map f (take n xs))" using \<open>take n xs \<noteq> []\<close> by simp
  have hi: "?m < f x" if "x \<in> set (drop n xs)" for x
  proof -
    have "?m \<le> f x" using s(1) last_in that by (auto simp: sorted_append)
    moreover have "?m \<noteq> f x" using s(2) last_in that by (metis distinct_append IntI empty_iff image_eqI set_map)
    ultimately show ?thesis by simp
  qed
  have lo: "f x \<le> ?m" if "x \<in> set (take n xs)" for x
  proof -
    have "sorted (map f (butlast (take n xs) @ [last (take n xs)]))"
      using s(1) \<open>take n xs \<noteq> []\<close> by (simp add: sorted_append)
    then have "\<forall>y \<in> set (butlast (take n xs)). f y \<le> ?m" by (simp add: sorted_append)
    moreover have "x \<in> set (butlast (take n xs) @ [last (take n xs)])"
      using that \<open>take n xs \<noteq> []\<close> by simp
    ultimately show ?thesis by auto
  qed
  have "filter (\<lambda>x. ?m < f x) (take n xs @ drop n xs) = drop n xs"
    using hi lo by (auto simp: filter_empty_conv filter_id_conv not_less simp del: append_take_drop_id)
  then show ?thesis by simp
qed

lemma read_pages_all:
  assumes "db_wf db"
  shows "length (readable_chunks org cid cursor now db) \<le> n * output_page \<Longrightarrow>
    read_pages n org cid cursor now db = map chunk_item (readable_chunks org cid cursor now db)"
proof (induction n arbitrary: cursor)
  case (Suc n)
  let ?L = "readable_chunks org cid cursor now db"
  let ?k = "min output_page (length ?L)"
  show ?case
  proof (cases "?L = []")
    case False
    then have k: "0 < ?k" "?k \<le> length ?L" "take output_page ?L = take ?k ?L"
      by (auto simp: output_page_def min_def)
    let ?page = "map chunk_item (take ?k ?L)"
    let ?next = "chk_sequence (last (take ?k ?L))"
    have ne: "take ?k ?L \<noteq> []" using k by auto
    have seq: "oi_sequence (last ?page) = ?next" using ne by (simp add: last_map chunk_item_def)
    have "last (take ?k ?L) \<in> set ?L" using ne by (meson in_set_takeD last_in_set)
    then have "cursor \<le> ?next" by (auto simp: readable_chunks_def readable_chunk_def)
    then have rest: "readable_chunks org cid ?next now db = drop ?k ?L"
      using readable_later sorted_filter_after[OF readable_sorted readable_distinct[OF assms] k(2,1)] by simp
    have "length (drop ?k ?L) \<le> n * output_page" using Suc.prems by (auto simp: min_def)
    then have "read_pages n org cid ?next now db = map chunk_item (drop ?k ?L)"
      using Suc.IH[of ?next] rest by simp
    moreover have page: "commandOutput org cid cursor now db = ?page" using k(3) by (simp add: commandOutput_page)
    ultimately have "read_pages (Suc n) org cid cursor now db = ?page @ map chunk_item (drop ?k ?L)"
      using ne by (simp only: read_pages.simps Let_def page seq) simp
    then show ?thesis by (metis append_take_drop_id map_append)
  qed (simp add: commandOutput_page Let_def)
qed simp

text \<open>
  C35: Reading the output of a Command page by page, always from the last sequence number seen,
  returns every unexpired chunk after the first cursor exactly once, in the order of the sequence
  numbers, however many pages it takes; decoding a chunk's text gives back the stored bytes.
\<close>

theorem output_pages_complete:
  assumes "db_wf db" "length (db_outputChunks db) \<le> n * output_page"
  shows "(let items = read_pages n org cid cursor now db in
       map (\<lambda>i. (oi_sequence i, oi_stream i, base64_decode (oi_dataBase64 i))) items
         = map (\<lambda>k. (chk_sequence k, chk_stream k, chk_data k)) (readable_chunks org cid cursor now db)
       \<and> sorted (map oi_sequence items) \<and> distinct (map oi_sequence items)
       \<and> set (map oi_sequence items)
         = chk_sequence ` {k \<in> set (db_outputChunks db). readable_chunk org cid cursor now db k})"
proof -
  have "length (readable_chunks org cid cursor now db) \<le> n * output_page"
    using order_trans[OF length_filter_le[of "readable_chunk org cid cursor now db" "db_outputChunks db"] assms(2)]
    by (simp add: readable_chunks_def sql_where_def)
  from read_pages_all[OF assms(1) this] have "read_pages n org cid cursor now db
      = map chunk_item (readable_chunks org cid cursor now db)" .
  moreover have "map oi_sequence (map chunk_item ks) = map chk_sequence ks" for ks
    by (simp add: chunk_item_def)
  ultimately show ?thesis
    using readable_sorted readable_distinct[OF assms(1)]
    by (simp add: Let_def chunk_item_def base64_decode_encode comp_def) (simp add: readable_chunks_def image_image)
qed

theorem output_pages_complete_witness:
  "map (\<lambda>i. (oi_sequence i, oi_stream i, base64_decode (oi_dataBase64 i)))
     (read_pages 1 ''org'' ''c1'' (-1) 5000 example_db) = [(0, stdout, [104, 105]), (1, stderr, [33])]"
proof -
  have "length (db_outputChunks example_db) \<le> 1 * output_page" by code_simp
  note pages = output_pages_complete[OF example_wf this, of "''org''" "''c1''" "-1" 5000]
  have "map (\<lambda>k. (chk_sequence k, chk_stream k, chk_data k)) (readable_chunks ''org'' ''c1'' (-1) 5000 example_db)
      = [(0, stdout, [104, 105]), (1, stderr, [33])]" by code_simp
  then show ?thesis using pages[unfolded Let_def, THEN conjunct1] by (simp only:)
qed

text \<open>
  A chunk the Machine sends twice is stored and counted once: the second delivery of a stored
  sequence number leaves the database alone.  It is acknowledged unless the Command has ended or
  the retransmitted bytes would not fit in the budget a second time.
\<close>

theorem output_redelivery:
  assumes "addCommandOutput org mid cid st sq data ret now db = (True, db1)"
    and "addCommandOutput org mid cid st' sq data' ret' now' db1 = (ok, db2)"
  shows "db2 = db1
     \<and> (ok \<longleftrightarrow> (\<exists>c. sql_first (\<lambda>r. machine_command org mid cid r \<and> command_active r) (db_commands db1) = Some c
            \<and> cmd_stdoutBytes c + cmd_stderrBytes c + int (length data') \<le> DEFAULT_COMMAND_OUTPUT_BYTES))"
proof -
  have "list_ex (chunk_key org cid sq) (db_outputChunks db1)"
    using assms(1) by (auto simp: addCommandOutput_def list_ex_iff chunk_key_def split: option.splits if_splits)
  then show ?thesis
    using assms(2) by (auto simp: addCommandOutput_def split: option.splits if_splits)
qed

lemma case_option_ex: "(case x of Some c \<Rightarrow> P c | None \<Rightarrow> False) \<Longrightarrow> \<exists>c. x = Some c \<and> P c"
  by (cases x) simp_all

theorem output_redelivery_witness:
  "\<exists>db1. addCommandOutput ''org'' ''machine'' ''c2'' stdout 7 [1] 1000 4000 example_db = (True, db1)
     \<and> addCommandOutput ''org'' ''machine'' ''c2'' stdout 7 [1] 1000 4500 db1 = (True, db1)"
proof -
  let ?r = "addCommandOutput ''org'' ''machine'' ''c2'' stdout 7 [1] 1000 4000 example_db"
  have "fst ?r" by code_simp
  then obtain db1 where db1: "?r = (True, db1)" by (metis prod.collapse)
  obtain ok db2 where r2: "addCommandOutput ''org'' ''machine'' ''c2'' stdout 7 [1] 1000 4500 db1 = (ok, db2)"
    by fastforce
  have "(case sql_first (\<lambda>r. machine_command ''org'' ''machine'' ''c2'' r \<and> command_active r) (db_commands (snd ?r)) of
      Some c \<Rightarrow> cmd_stdoutBytes c + cmd_stderrBytes c + int (length [1::byte]) \<le> DEFAULT_COMMAND_OUTPUT_BYTES
    | None \<Rightarrow> False)" by code_simp
  then have ex: "\<exists>c. sql_first (\<lambda>r. machine_command ''org'' ''machine'' ''c2'' r \<and> command_active r) (db_commands db1) = Some c
      \<and> cmd_stdoutBytes c + cmd_stderrBytes c + int (length [1::byte]) \<le> DEFAULT_COMMAND_OUTPUT_BYTES"
    unfolding db1 snd_conv by (rule case_option_ex)
  note again = output_redelivery[OF db1 r2]
  have "ok" by (rule iffD2[OF conjunct2[OF again] ex])
  with r2 conjunct1[OF again] have "addCommandOutput ''org'' ''machine'' ''c2'' stdout 7 [1] 1000 4500 db1 = (True, db1)"
    by simp
  with db1 show ?thesis by (intro exI[of _ db1] conjI)
qed

section \<open>What a reconnecting Machine is told\<close>

definition reconnectable :: "ident \<Rightarrow> ident \<Rightarrow> session_row \<Rightarrow> bool" where
  "reconnectable org mid r \<longleftrightarrow> ses_organizationId r = org \<and> ses_machineId r = mid
     \<and> ses_status r \<in> {S_opening, S_active, S_cancellation_requested}"

definition restarted_command :: "ident \<Rightarrow> ident \<Rightarrow> session_db \<Rightarrow> command_row \<Rightarrow> bool" where
  "restarted_command org mid db c \<longleftrightarrow> cmd_organizationId c = org \<and> cmd_machineId c = mid \<and> command_active c
     \<and> cmd_sessionId c \<in> ses_id ` {r \<in> set (db_sessions db). reconnectable org mid r}"

lemma reconnectState_eq:
  "reconnectState org mid db =
     (let open_sessions = sort_key (\<lambda>r. (ses_createdAt r, ses_id r)) (sql_where (reconnectable org mid) (db_sessions db))
      in if open_sessions = [] then ([], [])
         else (map sessionRecord open_sessions,
               map commandRecord (sort_key (\<lambda>r. (cmd_createdAt r, cmd_id r))
                 (sql_where (restarted_command org mid db) (db_commands db)))))"
proof -
  have "(\<lambda>r. ses_organizationId r = org \<and> ses_machineId r = mid
      \<and> ses_status r \<in> {S_opening, S_active, S_cancellation_requested}) = reconnectable org mid"
    by (rule ext) (simp add: reconnectable_def)
  moreover have "(\<lambda>r. cmd_organizationId r = org \<and> cmd_machineId r = mid
      \<and> cmd_sessionId r \<in> set (map ses_id (sort_key (\<lambda>r. (ses_createdAt r, ses_id r))
          (sql_where (reconnectable org mid) (db_sessions db)))) \<and> command_active r)
      = restarted_command org mid db"
    by (rule ext) (auto simp: restarted_command_def)
  ultimately show ?thesis by (simp only: reconnectState_def Let_def)
qed

lemma reconnectState_sessions:
  "set (fst (reconnectState org mid db)) = sessionRecord ` {r \<in> set (db_sessions db). reconnectable org mid r}"
proof (cases "sql_where (reconnectable org mid) (db_sessions db) = []")
  case True
  moreover from this have "{r \<in> set (db_sessions db). reconnectable org mid r} = {}"
    by (metis set_sql_where set_empty)
  ultimately show ?thesis by (simp add: reconnectState_eq Let_def)
next
  case False
  then show ?thesis by (simp add: reconnectState_eq Let_def) (metis length_0_conv length_sort)
qed

lemma reconnectState_commands:
  "set (snd (reconnectState org mid db)) = commandRecord ` {c \<in> set (db_commands db). restarted_command org mid db c}"
proof (cases "sql_where (reconnectable org mid) (db_sessions db) = []")
  case True
  moreover from this have "{r \<in> set (db_sessions db). reconnectable org mid r} = {}"
    by (metis set_sql_where set_empty)
  then have "{c \<in> set (db_commands db). restarted_command org mid db c} = {}"
    unfolding restarted_command_def by (metis (no_types, lifting) Collect_empty_eq empty_iff image_empty)
  ultimately show ?thesis by (simp add: reconnectState_eq Let_def)
next
  case False
  then show ?thesis by (simp add: reconnectState_eq Let_def) (metis length_0_conv length_sort)
qed

text \<open>
  C33: A reconnecting Machine hears nothing about revoked authority.  \<open>revokeSessions\<close> for an Agent
  or Machine leaves every active Command of a revoked Session in the database, waiting for its
  cancellation; but \<open>reconnectState\<close> contains neither the revoked Session nor any of its Commands, so
  a Machine that was away is never asked to cancel them.  (The design document has a reconnecting
  Machine reconciled with revocations.)
\<close>

theorem reconnect_omits_revoked:
  assumes "db_wf db" "agent \<noteq> None \<or> machine \<noteq> None"
    and "revokeSessions org agent machine now db = (answer, db')"
    and "s \<in> set (db_sessions db)" "revocable org agent machine s"
  shows "ses_id s \<notin> ses_id ` set (fst (reconnectState org (ses_machineId s) db'))
     \<and> (\<forall>c \<in> set (db_commands db). command_in c s \<and> command_active c \<longrightarrow>
          c\<lparr>cmd_status := C_cancellation_requested\<rparr> \<in> set (db_commands db'))
     \<and> (\<forall>c \<in> set (db_commands db'). command_in c s \<longrightarrow>
          (command_active c \<longrightarrow> cmd_status c = C_cancellation_requested)
          \<and> cmd_id c \<notin> cmd_id ` set (snd (reconnectState org (ses_machineId s) db')))"
proof -
  have db': "db' = snd (revokeSessions org agent machine now db)" using assms(3) by simp
  have wf': "db_wf db'" using revokeSessions_wf[OF assms(1)] db' by simp
  have "revoked_session now s \<in> set (db_sessions db')"
    using assms(4,5) unfolding db' revokeSessions_db[OF assms(1,2)]
    by (auto intro!: rev_image_eqI)
  then have st: "ses_status x = S_revoked" if "x \<in> set (db_sessions db')" "ses_id x = ses_id s" for x
    using session_by_id[OF wf' that(1)] that(2) by (simp add: revoked_session_def)
  have notin: "ses_id s \<notin> ses_id ` {r \<in> set (db_sessions db'). reconnectable org (ses_machineId s) r}"
    using st by (auto simp: reconnectable_def)
  have "cmd_id c \<notin> cmd_id ` set (snd (reconnectState org (ses_machineId s) db'))"
    if c: "c \<in> set (db_commands db')" "command_in c s" for c
  proof
    assume "cmd_id c \<in> cmd_id ` set (snd (reconnectState org (ses_machineId s) db'))"
    then obtain d where d: "d \<in> set (db_commands db')" "cmd_id d = cmd_id c" "restarted_command org (ses_machineId s) db' d"
      unfolding reconnectState_commands by auto
    then have "d = c" using command_by_id[OF wf' d(1) c(1)] by simp
    then show False using c(2) notin d(3) by (simp add: restarted_command_def command_in_def)
  qed
  moreover have "ses_id s \<notin> ses_id ` set (fst (reconnectState org (ses_machineId s) db'))"
    using notin unfolding reconnectState_sessions by (simp add: image_image)
  moreover have key: "owned_by (revoked_keys org agent machine db) c"
    if "command_in c s" "command_active c" for c
  proof -
    have "(org, ses_id s) \<in> revoked_keys org agent machine db"
      using assms(4,5) unfolding revoked_keys_def by blast
    then show ?thesis using that assms(5) by (simp add: owned_by_def command_in_def revocable_def)
  qed
  moreover have "c\<lparr>cmd_status := C_cancellation_requested\<rparr> \<in> set (db_commands db')"
    if "c \<in> set (db_commands db)" "command_in c s" "command_active c" for c
    using that key[OF that(2,3)] unfolding db' revokeSessions_db[OF assms(1,2)]
    by (auto simp: cancelled_command_def intro!: rev_image_eqI)
  moreover have "cmd_status c = C_cancellation_requested"
    if c: "c \<in> set (db_commands db')" "command_in c s" "command_active c" for c
    using c(1) key[OF c(2,3)] unfolding db' revokeSessions_db[OF assms(1,2)]
    by (auto simp: cancelled_command_def split: if_splits)
  ultimately show ?thesis by blast
qed

theorem reconnect_omits_revoked_witness:
  "\<exists>answer db' c. revokeSessions ''org'' (Some ''agent'') None 5000 example_db = (answer, db')
     \<and> command_lookup ''org'' ''c2'' db' = Some c \<and> cmd_status c = C_cancellation_requested
     \<and> ''s'' \<notin> ses_id ` set (fst (reconnectState ''org'' ''machine'' db'))"
proof -
  obtain answer db' where r: "revokeSessions ''org'' (Some ''agent'') None 5000 example_db = (answer, db')" by fastforce
  have "(case sql_first (session_key ''org'' ''s'') (db_sessions example_db) of None \<Rightarrow> False
      | Some s \<Rightarrow> revocable ''org'' (Some ''agent'') None s \<and> ses_id s = ''s'' \<and> ses_machineId s = ''machine'')" by code_simp
  then obtain s where s: "s \<in> set (db_sessions example_db)" "revocable ''org'' (Some ''agent'') None s"
    "ses_id s = ''s''" "ses_machineId s = ''machine''"
    by (auto split: option.splits dest: sql_first_SomeD)
  have "(case command_lookup ''org'' ''c2'' (snd (revokeSessions ''org'' (Some ''agent'') None 5000 example_db)) of
      None \<Rightarrow> False | Some c \<Rightarrow> cmd_status c = C_cancellation_requested)" by code_simp
  then obtain c where "command_lookup ''org'' ''c2'' db' = Some c" "cmd_status c = C_cancellation_requested"
    unfolding r by (auto split: option.splits)
  moreover have "''s'' \<notin> ses_id ` set (fst (reconnectState ''org'' ''machine'' db'))"
    using reconnect_omits_revoked[OF example_wf _ r s(1,2), THEN conjunct1] s(3,4) by simp
  ultimately show ?thesis using r by blast
qed

end
