(* ===== verification/Rate_Limits.thy ===== *)
theory Rate_Limits
  imports Prelude "HOL-Library.Multiset" "HOL-Library.AList"
begin

text \<open>
  The limiters of apps/server/src/control.ts.  A fixed-window limiter keeps a map from keys to
  windows and a binary min-heap of the expirations; a JavaScript \<open>Map\<close> is an association list in
  insertion order, and the heap is the array the code sifts.  Two contracts: \<open>min_queue\<close>, which
  the heap implements and the pruning loop relies on, and \<open>window_limiter\<close>, from which the bound
  on accepted calls follows for every limiter.
\<close>

section \<open>The heap of expirations\<close>

record expiration =
  exp_key :: string
  exp_resetsAt :: int

definition parent_of :: "nat \<Rightarrow> nat" where
  "parent_of index = (index - 1) div 2"

lemma parent_of_less [simp]: "0 < i \<Longrightarrow> parent_of i < i"
  by (simp add: parent_of_def)

function sift_up :: "expiration list \<Rightarrow> nat \<Rightarrow> expiration \<Rightarrow> expiration list" where
  "sift_up xs index x =
     (if index > 0
      then (let parent = parent_of index in
            if exp_resetsAt (xs ! parent) \<le> exp_resetsAt x then xs[index := x]
            else sift_up (xs[index := xs ! parent]) parent x)
      else xs[index := x])"
  by pat_completeness auto
termination by (relation "measure (\<lambda>(xs, index, x). index)") auto

definition addExpiration :: "expiration \<Rightarrow> expiration list \<Rightarrow> expiration list" where
  "addExpiration x xs = sift_up (xs @ [x]) (length xs) x"

definition smaller_child :: "expiration list \<Rightarrow> nat \<Rightarrow> nat" where
  "smaller_child xs index =
     (let left = index * 2 + 1; right = left + 1 in
      if right < length xs \<and> exp_resetsAt (xs ! right) < exp_resetsAt (xs ! left) then right else left)"

lemma smaller_child_cases:
  assumes "index * 2 + 1 < length xs"
  shows "smaller_child xs index < length xs" "0 < smaller_child xs index" "index < smaller_child xs index"
    "parent_of (smaller_child xs index) = index"
    "\<And>i. 0 < i \<Longrightarrow> i < length xs \<Longrightarrow> parent_of i = index \<Longrightarrow>
       exp_resetsAt (xs ! smaller_child xs index) \<le> exp_resetsAt (xs ! i)"
proof -
  show "smaller_child xs index < length xs" "0 < smaller_child xs index" "index < smaller_child xs index"
    "parent_of (smaller_child xs index) = index"
    using assms by (auto simp: smaller_child_def Let_def parent_of_def)
  fix i assume i: "0 < i" "i < length xs" "parent_of i = index"
  then have "i = index * 2 + 1 \<or> i = index * 2 + 1 + 1" unfolding parent_of_def by arith
  then show "exp_resetsAt (xs ! smaller_child xs index) \<le> exp_resetsAt (xs ! i)"
    using i(2) by (auto simp: smaller_child_def Let_def)
qed

function sift_down :: "expiration list \<Rightarrow> nat \<Rightarrow> expiration \<Rightarrow> expiration list" where
  "sift_down xs index x =
     (let left = index * 2 + 1 in
      if left \<ge> length xs then xs[index := x]
      else
        let child = smaller_child xs index in
        if exp_resetsAt (xs ! child) \<ge> exp_resetsAt x then xs[index := x]
           else sift_down (xs[index := xs ! child]) child x)"
  by pat_completeness auto
termination
proof (relation "measure (\<lambda>(xs, index, x). length xs - index)", goal_cases)
  case (2 xs index x left child)
  then show ?case using smaller_child_cases(1,3)[of index xs] by auto
qed simp

declare sift_up.simps [simp del] sift_down.simps [simp del]

definition removeNextExpiration :: "expiration list \<Rightarrow> expiration option \<times> expiration list" where
  "removeNextExpiration xs =
     (if xs = [] then (None, [])
      else
        let first = hd xs; last_one = last xs; rest = butlast xs in
        if rest = [] then (Some first, [])
        else (Some first, sift_down rest 0 last_one))"

text \<open>The heap order, with one position (the hole the loops move) left out.\<close>

definition heap_order :: "expiration list \<Rightarrow> bool" where
  "heap_order xs \<longleftrightarrow>
     (\<forall>i. 0 < i \<and> i < length xs \<longrightarrow> exp_resetsAt (xs ! (parent_of i)) \<le> exp_resetsAt (xs ! i))"

lemma heap_root_le:
  "heap_order xs \<Longrightarrow> i < length xs \<Longrightarrow> exp_resetsAt (xs ! 0) \<le> exp_resetsAt (xs ! i)"
proof (induction i rule: less_induct)
  case (less i)
  show ?case
  proof (cases "i = 0")
    case False
    then have p: "parent_of i < i" by simp
    then have "exp_resetsAt (xs ! 0) \<le> exp_resetsAt (xs ! (parent_of i))" using less by simp
    also have "\<dots> \<le> exp_resetsAt (xs ! i)" using less.prems False by (auto simp: heap_order_def)
    finally show ?thesis .
  qed simp
qed

lemma mset_put: "i < length xs \<Longrightarrow> mset (xs[i := y]) + {#xs ! i#} = mset xs + {#y#}"
  by (simp add: mset_update)

lemma mset_chain:
  assumes "A + {#p#} = B + {#x#}" "B + {#i#} = C + {#p#}"
  shows "A + {#i#} = C + {#x#}"
proof -
  have "(A + {#i#}) + {#p#} = (A + {#p#}) + {#i#}" by (simp only: ac_simps)
  also have "\<dots> = (B + {#i#}) + {#x#}" unfolding assms(1) by (simp only: ac_simps)
  also have "\<dots> = (C + {#x#}) + {#p#}" unfolding assms(2) by (simp only: ac_simps)
  finally show ?thesis by simp
qed

lemma sift_up_mset:
  "index < length xs \<Longrightarrow> mset (sift_up xs index x) + {#xs ! index#} = mset xs + {#x#}"
proof (induction xs index x rule: sift_up.induct)
  case (1 xs index x)
  let ?p = "parent_of index" let ?xs = "xs[index := xs ! (parent_of index)]"
  show ?case
  proof (cases "index > 0 \<and> \<not> exp_resetsAt (xs ! ?p) \<le> exp_resetsAt x")
    case True
    then have "?p < index" by simp
    with 1(2) have p: "?p < length xs" "?p < index" by linarith+
    have "mset (sift_up ?xs ?p x) + {#?xs ! ?p#} = mset ?xs + {#x#}"
      using 1(1)[OF _ refl] True p by simp
    then have "mset (sift_up ?xs ?p x) + {#xs ! ?p#} = mset ?xs + {#x#}" using p by simp
    from mset_chain[OF this mset_put[OF 1(2)]] show ?thesis
      using True by (simp add: sift_up.simps[of xs index x] Let_def)
  next
    case False
    then show ?thesis using mset_put[OF 1(2)] by (subst sift_up.simps) (auto simp: Let_def)
  qed
qed

lemma sift_down_mset:
  "index < length xs \<Longrightarrow> mset (sift_down xs index x) + {#xs ! index#} = mset xs + {#x#}"
proof (induction xs index x rule: sift_down.induct)
  case (1 xs index x)
  let ?c = "smaller_child xs index"
  show ?case
  proof (cases "index * 2 + 1 < length xs \<and> \<not> exp_resetsAt (xs ! ?c) \<ge> exp_resetsAt x")
    case True
    then have c: "?c < length xs" "?c \<noteq> index" using smaller_child_cases(1,3)[of index xs] by auto
    have "mset (sift_down (xs[index := xs ! ?c]) ?c x) + {#xs[index := xs ! ?c] ! ?c#} = mset (xs[index := xs ! ?c]) + {#x#}"
      using 1(1)[OF refl _ refl] True c by (simp add: not_le)
    then have "mset (sift_down (xs[index := xs ! ?c]) ?c x) + {#xs ! ?c#} = mset (xs[index := xs ! ?c]) + {#x#}"
      using c by simp
    from mset_chain[OF this mset_put[OF 1(2)]] show ?thesis
      using True by (simp add: sift_down.simps[of xs index x] Let_def)
  next
    case False
    then have "sift_down xs index x = xs[index := x]"
      by (subst sift_down.simps) (auto simp: Let_def)
    then show ?thesis using mset_put[OF 1(2)] by simp
  qed
qed

lemma length_sift_up [simp]: "length (sift_up xs index x) = length xs"
  by (induction xs index x rule: sift_up.induct) (subst sift_up.simps, simp add: Let_def)

lemma length_sift_down [simp]: "length (sift_down xs index x) = length xs"
  by (induction xs index x rule: sift_down.induct) (subst sift_down.simps, simp add: Let_def)

text \<open>The order around a hole: every pair that does not involve it, and across it.\<close>

definition hole_order :: "expiration list \<Rightarrow> nat \<Rightarrow> bool" where
  "hole_order xs h \<longleftrightarrow>
     (\<forall>i. 0 < i \<and> i < length xs \<and> i \<noteq> h \<and> parent_of i \<noteq> h \<longrightarrow>
        exp_resetsAt (xs ! (parent_of i)) \<le> exp_resetsAt (xs ! i))
     \<and> (\<forall>i. 0 < i \<and> i < length xs \<and> parent_of i = h \<and> 0 < h \<longrightarrow>
        exp_resetsAt (xs ! (parent_of h)) \<le> exp_resetsAt (xs ! i))"

lemma heap_hole:
  assumes "heap_order xs" "h < length xs"
  shows "hole_order xs h"
  unfolding hole_order_def
proof (intro conjI allI impI)
  fix i assume "0 < i \<and> i < length xs \<and> parent_of i = h \<and> 0 < h"
  then have "exp_resetsAt (xs ! parent_of h) \<le> exp_resetsAt (xs ! h)" "exp_resetsAt (xs ! h) \<le> exp_resetsAt (xs ! i)"
    using assms by (auto simp: heap_order_def)
  then show "exp_resetsAt (xs ! (parent_of h)) \<le> exp_resetsAt (xs ! i)" by simp
qed (use assms in \<open>auto simp: heap_order_def\<close>)

lemma hole_fill:
  assumes "hole_order xs h" "h < length xs"
    and "0 < h \<Longrightarrow> exp_resetsAt (xs ! (parent_of h)) \<le> exp_resetsAt x"
    and "\<And>i. 0 < i \<Longrightarrow> i < length xs \<Longrightarrow> parent_of i = h \<Longrightarrow> exp_resetsAt x \<le> exp_resetsAt (xs ! i)"
  shows "heap_order (xs[h := x])"
  unfolding heap_order_def length_list_update
proof (intro allI impI)
  fix i assume i: "0 < i \<and> i < length xs"
  then have p: "parent_of i < i" by simp
  consider "i = h" | "i \<noteq> h" "parent_of i = h" | "i \<noteq> h" "parent_of i \<noteq> h" by blast
  then show "exp_resetsAt (xs[h := x] ! (parent_of i)) \<le> exp_resetsAt (xs[h := x] ! i)"
  proof cases
    case 1
    then show ?thesis using i p assms(2,3) by simp
  next
    case 2
    then show ?thesis using i p assms(2,4) by simp
  next
    case 3
    then show ?thesis using i assms(1) by (simp add: hole_order_def)
  qed
qed

lemma hole_up:
  assumes "hole_order xs h" "0 < h" "h < length xs"
  shows "hole_order (xs[h := xs ! (parent_of h)]) (parent_of h)"
proof -
  let ?p = "parent_of h" let ?xs = "xs[h := xs ! (parent_of h)]"
  have p: "?p < h" using assms(2) by simp
  have sib: "exp_resetsAt (xs ! ?p) \<le> exp_resetsAt (xs ! i)"
    if "0 < i" "i < length xs" "i \<noteq> h" "parent_of i = ?p" for i
    using assms(1) that p unfolding hole_order_def by (metis less_irrefl)
  have "exp_resetsAt (?xs ! (parent_of i)) \<le> exp_resetsAt (?xs ! i)"
    if "0 < i" "i < length xs" "i \<noteq> ?p" "parent_of i \<noteq> ?p" for i
  proof -
    have "i \<noteq> h" using that(4) by auto
    moreover have "parent_of i < i" using that(1) by simp
    ultimately show ?thesis using assms that unfolding hole_order_def by (cases "parent_of i = h") simp_all
  qed
  moreover have "exp_resetsAt (?xs ! (parent_of ?p)) \<le> exp_resetsAt (?xs ! i)"
    if "0 < i" "i < length xs" "parent_of i = ?p" "0 < ?p" for i
  proof -
    have pp: "parent_of ?p < ?p" using that(4) by simp
    have up: "exp_resetsAt (xs ! (parent_of ?p)) \<le> exp_resetsAt (xs ! ?p)"
      using assms(1) that(4) p pp assms(3) unfolding hole_order_def
      by (metis less_irrefl less_trans)
    show ?thesis
    proof (cases "i = h")
      case True
      then show ?thesis using up pp p assms(3) by simp
    next
      case False
      then show ?thesis using up pp p sib[OF that(1,2) False that(3)] by simp
    qed
  qed
  ultimately show ?thesis by (simp add: hole_order_def)
qed

lemma hole_down:
  assumes "hole_order xs h" "c < length xs" "0 < c" "parent_of c = h"
    and "\<And>i. 0 < i \<Longrightarrow> i < length xs \<Longrightarrow> parent_of i = h \<Longrightarrow> exp_resetsAt (xs ! c) \<le> exp_resetsAt (xs ! i)"
  shows "hole_order (xs[h := xs ! c]) c"
proof -
  have h: "h < c" using assms(3,4) by auto
  have "exp_resetsAt (xs[h := xs ! c] ! (parent_of i)) \<le> exp_resetsAt (xs[h := xs ! c] ! i)"
    if i: "0 < i" "i < length xs" "i \<noteq> c" "parent_of i \<noteq> c" for i
  proof -
    have p: "parent_of i < i" using i(1) by simp
    consider "i = h" | "i \<noteq> h" "parent_of i = h" | "i \<noteq> h" "parent_of i \<noteq> h" by blast
    then show ?thesis
    proof cases
      case 1
      then have "exp_resetsAt (xs ! (parent_of h)) \<le> exp_resetsAt (xs ! c)"
        using assms(1-4) i unfolding hole_order_def by blast
      then show ?thesis using 1 p h assms(2) by simp
    next
      case 2
      then show ?thesis using assms(5)[OF i(1,2)] i p h by simp
    next
      case 3
      then show ?thesis using assms(1) i unfolding hole_order_def by simp
    qed
  qed
  moreover have "exp_resetsAt (xs[h := xs ! c] ! (parent_of c)) \<le> exp_resetsAt (xs[h := xs ! c] ! i)"
    if i: "0 < i" "i < length xs" "parent_of i = c" for i
  proof -
    have "c < i" using i by auto
    then have "exp_resetsAt (xs ! c) \<le> exp_resetsAt (xs ! i)"
      using assms(1) i h unfolding hole_order_def by (metis less_irrefl less_trans)
    then show ?thesis using assms(2,4) h \<open>c < i\<close> by simp
  qed
  ultimately show ?thesis by (simp add: hole_order_def)
qed

lemma sift_up_heap:
  "hole_order xs h \<Longrightarrow> h < length xs \<Longrightarrow>
   (\<And>i. 0 < i \<Longrightarrow> i < length xs \<Longrightarrow> parent_of i = h \<Longrightarrow> exp_resetsAt x \<le> exp_resetsAt (xs ! i)) \<Longrightarrow>
   heap_order (sift_up xs h x)"
proof (induction xs h x rule: sift_up.induct)
  case (1 xs h x)
  let ?p = "parent_of h"
  show ?case
  proof (cases "h > 0 \<and> \<not> exp_resetsAt (xs ! ?p) \<le> exp_resetsAt x")
    case True
    then have p: "?p < h" by simp
    have "exp_resetsAt x \<le> exp_resetsAt (xs[h := xs ! ?p] ! i)"
      if i: "0 < i" "i < length xs" "parent_of i = ?p" for i
    proof (cases "i = h")
      case False
      then have "exp_resetsAt (xs ! ?p) \<le> exp_resetsAt (xs ! i)"
        using 1(2) i p unfolding hole_order_def by (metis less_irrefl)
      then show ?thesis using True False by simp
    qed (use True 1(3) in simp)
    moreover have "hole_order (xs[h := xs ! ?p]) ?p" using hole_up 1(2,3) True by simp
    ultimately have "heap_order (sift_up (xs[h := xs ! ?p]) ?p x)"
      using 1(1)[OF _ refl] True p 1(3) by simp
    then show ?thesis using True by (simp add: sift_up.simps[of xs h x] Let_def)
  next
    case False
    then have "sift_up xs h x = xs[h := x]" by (subst sift_up.simps) (auto simp: Let_def)
    moreover have "heap_order (xs[h := x])"
      using 1(2-4) False by (intro hole_fill) auto
    ultimately show ?thesis by simp
  qed
qed

lemma sift_down_heap:
  "hole_order xs h \<Longrightarrow> h < length xs \<Longrightarrow> (0 < h \<Longrightarrow> exp_resetsAt (xs ! parent_of h) \<le> exp_resetsAt x) \<Longrightarrow>
   heap_order (sift_down xs h x)"
proof (induction xs h x rule: sift_down.induct)
  case (1 xs h x)
  let ?c = "smaller_child xs h"
  show ?case
  proof (cases "h * 2 + 1 < length xs")
    case True
    note c = smaller_child_cases[OF True]
    show ?thesis
    proof (cases "exp_resetsAt x \<le> exp_resetsAt (xs ! ?c)")
      case small: True
      have "heap_order (xs[h := x])"
        by (rule hole_fill[OF 1(2,3,4)]) (use c(5) small in \<open>auto intro: order_trans\<close>)
      then show ?thesis using True small by (simp add: sift_down.simps[of xs h x] Let_def)
    next
      case big: False
      have "hole_order (xs[h := xs ! ?c]) ?c" by (rule hole_down[OF 1(2) c(1,2,4,5)])
      moreover have "exp_resetsAt (xs[h := xs ! ?c] ! parent_of ?c) \<le> exp_resetsAt x"
        using big c(4) 1(3) by simp
      ultimately have "heap_order (sift_down (xs[h := xs ! ?c]) ?c x)"
        using 1(1)[OF refl _ refl] True big c(1) by (simp add: not_le)
      then show ?thesis using True big by (simp add: sift_down.simps[of xs h x] Let_def)
    qed
  next
    case False
    have "heap_order (xs[h := x])"
    proof (rule hole_fill[OF 1(2,3,4)])
      fix i assume "0 < i" "i < length xs" "parent_of i = h"
      then show "exp_resetsAt x \<le> exp_resetsAt (xs ! i)" using False unfolding parent_of_def by arith
    qed
    then show ?thesis using False by (subst sift_down.simps) (simp add: Let_def)
  qed
qed

section \<open>The queue contract\<close>

locale min_queue =
  fixes insert :: "'a \<Rightarrow> 'q \<Rightarrow> 'q"
    and peek :: "'q \<Rightarrow> 'a option"
    and pop :: "'q \<Rightarrow> 'a option \<times> 'q"
    and empty :: 'q
    and items :: "'q \<Rightarrow> 'a multiset"
    and inv :: "'q \<Rightarrow> bool"
    and prio :: "'a \<Rightarrow> int"
  assumes inv_empty: "inv empty" "items empty = {#}"
    and inv_insert: "inv q \<Longrightarrow> inv (insert x q)" "inv q \<Longrightarrow> items (insert x q) = add_mset x (items q)"
    and peek_min: "inv q \<Longrightarrow> (case peek q of None \<Rightarrow> items q = {#}
        | Some x \<Rightarrow> x \<in># items q \<and> (\<forall>y \<in># items q. prio x \<le> prio y))"
    and pop_peek: "inv q \<Longrightarrow> fst (pop q) = peek q"
    and pop_items: "inv q \<Longrightarrow> peek q = Some x \<Longrightarrow> inv (snd (pop q)) \<and> add_mset x (items (snd (pop q))) = items q"
begin

lemma peek_None_iff: "inv q \<Longrightarrow> peek q = None \<longleftrightarrow> items q = {#}"
  using peek_min[of q] by (auto split: option.splits)

lemma peek_late: "inv q \<Longrightarrow> peek q = Some x \<Longrightarrow> t < prio x \<Longrightarrow> y \<in># items q \<Longrightarrow> t < prio y"
  using peek_min[of q] by (auto intro: less_le_trans)

lemma pop_size: "inv q \<Longrightarrow> peek q = Some x \<Longrightarrow> size (items (snd (pop q))) < size (items q)"
  using pop_items[of q x] by (metis lessI size_add_mset)

end

definition peek_expiration :: "expiration list \<Rightarrow> expiration option" where
  "peek_expiration xs = (if xs = [] then None else Some (xs ! 0))"

lemma addExpiration_mset: "mset (addExpiration x xs) = add_mset x (mset xs)"
  using sift_up_mset[of "length xs" "xs @ [x]" x] by (simp add: addExpiration_def)

lemma addExpiration_heap: "heap_order xs \<Longrightarrow> heap_order (addExpiration x xs)"
  unfolding addExpiration_def
proof (rule sift_up_heap)
  assume h: "heap_order xs"
  have parent: "parent_of i < length xs" if "i < length (xs @ [x])" "0 < i" for i
    using that parent_of_less[of i] by (simp del: parent_of_less)
  show "hole_order (xs @ [x]) (length xs)"
    unfolding hole_order_def
  proof (intro conjI allI impI)
    fix i assume i: "0 < i \<and> i < length (xs @ [x]) \<and> i \<noteq> length xs \<and> parent_of i \<noteq> length xs"
    then have "i < length xs" "parent_of i < length xs" using parent[of i] by auto
    then show "exp_resetsAt ((xs @ [x]) ! (parent_of i)) \<le> exp_resetsAt ((xs @ [x]) ! i)"
      using h i by (simp add: nth_append heap_order_def)
  next
    fix i assume i: "0 < i \<and> i < length (xs @ [x]) \<and> parent_of i = length xs \<and> 0 < length xs"
    then have False using parent[of i] by auto
    then show "exp_resetsAt ((xs @ [x]) ! (parent_of (length xs))) \<le> exp_resetsAt ((xs @ [x]) ! i)" by blast
  qed
  fix i assume "0 < i" "i < length (xs @ [x])" "parent_of i = length xs"
  then show "exp_resetsAt x \<le> exp_resetsAt ((xs @ [x]) ! i)" using parent[of i] by simp
qed simp

lemma heap_butlast: "heap_order xs \<Longrightarrow> heap_order (butlast xs)"
  unfolding heap_order_def
proof (intro allI impI)
  fix i assume h: "\<forall>i. 0 < i \<and> i < length xs \<longrightarrow> exp_resetsAt (xs ! (parent_of i)) \<le> exp_resetsAt (xs ! i)"
    and i: "0 < i \<and> i < length (butlast xs)"
  then have "parent_of i < length (butlast xs)" using parent_of_less[of i] by (simp del: parent_of_less)
  moreover have "i < length xs" using i by auto
  ultimately show "exp_resetsAt (butlast xs ! (parent_of i)) \<le> exp_resetsAt (butlast xs ! i)"
    using h i by (simp add: nth_butlast)
qed

lemma removeNextExpiration_spec:
  assumes "heap_order xs" "xs \<noteq> []"
  shows "fst (removeNextExpiration xs) = Some (xs ! 0)"
    and "heap_order (snd (removeNextExpiration xs))"
    and "add_mset (xs ! 0) (mset (snd (removeNextExpiration xs))) = mset xs"
proof -
  let ?rest = "butlast xs"
  show "fst (removeNextExpiration xs) = Some (xs ! 0)"
    using assms(2) by (simp add: removeNextExpiration_def Let_def hd_conv_nth)
  have all: "mset xs = add_mset (last xs) (mset ?rest)"
    using assms(2) by (metis add_mset_add_single append_butlast_last_id mset.simps(1,2) mset_append)
  have "heap_order (snd (removeNextExpiration xs)) \<and> add_mset (xs ! 0) (mset (snd (removeNextExpiration xs))) = mset xs"
  proof (cases "?rest = []")
    case True
    with assms(2) obtain a where "xs = [a]" by (cases xs) (auto split: if_splits)
    then show ?thesis by (simp add: removeNextExpiration_def heap_order_def)
  next
    case False
    then have len: "Suc 0 < length xs" by (cases xs) (auto split: if_splits)
    with False have "heap_order (sift_down ?rest 0 (last xs))"
      by (intro sift_down_heap heap_hole heap_butlast assms(1)) simp_all
    moreover have "add_mset (xs ! 0) (mset (sift_down ?rest 0 (last xs))) = mset xs"
      using sift_down_mset[of 0 ?rest "last xs"] False all len by (simp add: nth_butlast)
    ultimately show ?thesis using assms(2) False by (simp add: removeNextExpiration_def Let_def)
  qed
  then show "heap_order (snd (removeNextExpiration xs))"
    "add_mset (xs ! 0) (mset (snd (removeNextExpiration xs))) = mset xs" by blast+
qed

interpretation expirations: min_queue addExpiration peek_expiration removeNextExpiration "[]" mset heap_order exp_resetsAt
proof
  show "heap_order []" by (simp add: heap_order_def)
  show "mset [] = {#}" by simp
  fix xs and x :: expiration assume h: "heap_order xs"
  show "heap_order (addExpiration x xs)" by (rule addExpiration_heap[OF h])
  show "mset (addExpiration x xs) = add_mset x (mset xs)" by (rule addExpiration_mset)
  show "case peek_expiration xs of None \<Rightarrow> mset xs = {#}
      | Some x \<Rightarrow> x \<in># mset xs \<and> (\<forall>y \<in># mset xs. exp_resetsAt x \<le> exp_resetsAt y)"
    using heap_root_le[OF h] by (auto simp: peek_expiration_def in_set_conv_nth)
  show "fst (removeNextExpiration xs) = peek_expiration xs"
    using removeNextExpiration_spec(1)[OF h]
    by (cases "xs = []") (auto simp: peek_expiration_def removeNextExpiration_def)
  show "heap_order (snd (removeNextExpiration xs)) \<and> add_mset x (mset (snd (removeNextExpiration xs))) = mset xs"
    if "peek_expiration xs = Some x"
    using that removeNextExpiration_spec(2,3)[OF h] by (auto simp: peek_expiration_def split: if_splits)
qed

section \<open>The fixed-window limiter\<close>

record window =
  win_count :: int
  win_resetsAt :: int

record fixed_window_limiter =
  fwl_windows :: "(string \<times> window) list"
  fwl_expirations :: "expiration list"
  fwl_limit :: int
  fwl_windowMilliseconds :: int
  fwl_maxTrackedKeys :: int

definition FixedWindowRateLimiter :: "int \<Rightarrow> int \<Rightarrow> int \<Rightarrow> exn + fixed_window_limiter" where
  "FixedWindowRateLimiter limit windowMilliseconds maxTrackedKeys =
     (if \<not> safe_integer limit \<or> limit < 1
      then Inl (Exn ''Rate limit must be a positive safe integer'')
      else if \<not> safe_integer windowMilliseconds \<or> windowMilliseconds < 1
      then Inl (Exn ''Rate-limit window must be a positive safe integer'')
      else if \<not> safe_integer maxTrackedKeys \<or> maxTrackedKeys < 1
      then Inl (Exn ''Tracked rate-limit key capacity must be a positive safe integer'')
      else Inr \<lparr>fwl_windows = [], fwl_expirations = [], fwl_limit = limit,
                fwl_windowMilliseconds = windowMilliseconds, fwl_maxTrackedKeys = maxTrackedKeys\<rparr>)"

definition trackedKeyCount :: "fixed_window_limiter \<Rightarrow> int" where
  "trackedKeyCount lim = int (length (fwl_windows lim))"

lemma removeNextExpiration_length:
  "xs \<noteq> [] \<Longrightarrow> length (snd (removeNextExpiration xs)) < length xs"
  by (simp add: removeNextExpiration_def Let_def)

function pruneExpired :: "int \<Rightarrow> fixed_window_limiter \<Rightarrow> fixed_window_limiter" where
  "pruneExpired now lim =
     (case peek_expiration (fwl_expirations lim) of
        None \<Rightarrow> lim
      | Some next \<Rightarrow>
          if exp_resetsAt next > now then lim
          else
            (case removeNextExpiration (fwl_expirations lim) of
               (None, rest) \<Rightarrow> lim\<lparr>fwl_expirations := rest\<rparr>
             | (Some expired, rest) \<Rightarrow>
                 let windows = fwl_windows lim in
                 pruneExpired now (lim\<lparr>fwl_expirations := rest,
                   fwl_windows :=
                     (case map_of windows (exp_key expired) of
                        Some current \<Rightarrow> if win_resetsAt current = exp_resetsAt expired
                                       then AList.delete (exp_key expired) windows else windows
                      | None \<Rightarrow> windows)\<rparr>)))"
  by pat_completeness auto
termination
proof (relation "measure (\<lambda>(now, lim). length (fwl_expirations lim))", goal_cases)
  case (2 now lim x2 x y x2a windows)
  then have "fwl_expirations lim \<noteq> []" by (auto simp: peek_expiration_def)
  then have "length (snd (removeNextExpiration (fwl_expirations lim))) < length (fwl_expirations lim)"
    by (rule removeNextExpiration_length)
  then have "length y < length (fwl_expirations lim)" by (metis 2(3) snd_conv)
  then show ?case by simp
qed simp

declare pruneExpired.simps [simp del]

definition prepare :: "int \<Rightarrow> fixed_window_limiter \<Rightarrow> int option \<times> fixed_window_limiter" where
  "prepare now lim =
     (if \<not> safe_integer now \<or> now < 0 \<or> now > MAX_SAFE_INTEGER - fwl_windowMilliseconds lim
      then (None, lim) else (Some now, pruneExpired now lim))"

definition canAllowPrepared :: "string \<Rightarrow> fixed_window_limiter \<Rightarrow> bool" where
  "canAllowPrepared key lim =
     (case map_of (fwl_windows lim) key of
        Some current \<Rightarrow> win_count current < fwl_limit lim
      | None \<Rightarrow> int (length (fwl_windows lim)) < fwl_maxTrackedKeys lim)"

definition consumePrepared :: "string \<Rightarrow> int \<Rightarrow> fixed_window_limiter \<Rightarrow> fixed_window_limiter" where
  "consumePrepared key now lim =
     (case map_of (fwl_windows lim) key of
        None \<Rightarrow>
          let w = \<lparr>win_count = 1, win_resetsAt = now + fwl_windowMilliseconds lim\<rparr> in
          lim\<lparr>fwl_windows := AList.update key w (fwl_windows lim),
              fwl_expirations := addExpiration \<lparr>exp_key = key, exp_resetsAt = win_resetsAt w\<rparr> (fwl_expirations lim)\<rparr>
      | Some current \<Rightarrow>
          lim\<lparr>fwl_windows := AList.update key (current\<lparr>win_count := win_count current + 1\<rparr>) (fwl_windows lim)\<rparr>)"

definition limiter_allow :: "string \<Rightarrow> int \<Rightarrow> fixed_window_limiter \<Rightarrow> bool \<times> fixed_window_limiter" where
  "limiter_allow key now lim =
     (case prepare now lim of
        (None, lim') \<Rightarrow> (False, lim')
      | (Some observedAt, lim') \<Rightarrow>
          if \<not> canAllowPrepared key lim' then (False, lim')
          else (True, consumePrepared key observedAt lim'))"

definition canAllow :: "string \<Rightarrow> int \<Rightarrow> fixed_window_limiter \<Rightarrow> bool \<times> fixed_window_limiter" where
  "canAllow key now lim =
     (case prepare now lim of
        (None, lim') \<Rightarrow> (False, lim')
      | (Some _, lim') \<Rightarrow> (canAllowPrepared key lim', lim'))"

definition limiter_consume :: "string \<Rightarrow> int \<Rightarrow> fixed_window_limiter \<Rightarrow> fixed_window_limiter" where
  "limiter_consume key now lim =
     (case prepare now lim of
        (None, lim') \<Rightarrow> lim'
      | (Some observedAt, lim') \<Rightarrow>
          if \<not> canAllowPrepared key lim' then lim' else consumePrepared key observedAt lim')"

section \<open>The limiter's invariant\<close>

definition expiration_of :: "string \<times> window \<Rightarrow> expiration" where
  "expiration_of e = \<lparr>exp_key = fst e, exp_resetsAt = win_resetsAt (snd e)\<rparr>"

definition limiter_ok :: "fixed_window_limiter \<Rightarrow> bool" where
  "limiter_ok lim \<longleftrightarrow> heap_order (fwl_expirations lim)
     \<and> distinct (map fst (fwl_windows lim))
     \<and> mset (fwl_expirations lim) = mset (map expiration_of (fwl_windows lim))
     \<and> (\<forall>(k, w) \<in> set (fwl_windows lim). 1 \<le> win_count w \<and> win_count w \<le> fwl_limit lim)
     \<and> int (length (fwl_windows lim)) \<le> fwl_maxTrackedKeys lim
     \<and> 1 \<le> fwl_limit lim \<and> 1 \<le> fwl_windowMilliseconds lim \<and> 1 \<le> fwl_maxTrackedKeys lim"

definition live_windows :: "int \<Rightarrow> (string \<times> window) list \<Rightarrow> (string \<times> window) list" where
  "live_windows now ws = filter (\<lambda>(k, w). now < win_resetsAt w) ws"

lemma FixedWindowRateLimiter_ok: "FixedWindowRateLimiter l w m = Inr lim \<Longrightarrow> limiter_ok lim"
  by (auto simp: FixedWindowRateLimiter_def limiter_ok_def heap_order_def split: if_splits)

lemma delete_filter: "AList.delete k ws = filter (\<lambda>(k', w). k' \<noteq> k) ws"
  by (auto simp: AList.delete_eq intro!: filter_cong)

lemma length_delete_le: "length (AList.delete k ws) \<le> length ws"
  unfolding delete_filter by (rule length_filter_le)

lemma mset_delete:
  "distinct (map fst ws) \<Longrightarrow> (k, w) \<in> set ws \<Longrightarrow> add_mset (k, w) (mset (AList.delete k ws)) = mset ws"
proof (induction ws)
  case (Cons e ws)
  show ?case
  proof (cases "e = (k, w)")
    case True
    then have "k \<notin> fst ` set ws" using Cons.prems by auto
    then have "AList.delete k ws = ws" unfolding delete_filter by (auto simp: filter_id_conv rev_image_eqI)
    then show ?thesis using True by simp
  next
    case False
    then have "(k, w) \<in> set ws" using Cons.prems by auto
    moreover from this have "fst e \<noteq> k" using Cons.prems by (metis distinct.simps(2) fst_conv image_eqI list.simps(9) list.set_map)
    ultimately show ?thesis using Cons by (cases e) simp
  qed
qed simp

lemma pruneExpired_ok:
  "limiter_ok lim \<Longrightarrow> limiter_ok (pruneExpired now lim)
     \<and> fwl_windows (pruneExpired now lim) = live_windows now (fwl_windows lim)
     \<and> fwl_limit (pruneExpired now lim) = fwl_limit lim
     \<and> fwl_windowMilliseconds (pruneExpired now lim) = fwl_windowMilliseconds lim
     \<and> fwl_maxTrackedKeys (pruneExpired now lim) = fwl_maxTrackedKeys lim"
proof (induction now lim rule: pruneExpired.induct)
  case (1 now lim)
  let ?q = "fwl_expirations lim" and ?ws = "fwl_windows lim"
  have ok: "heap_order ?q" "distinct (map fst ?ws)" "mset ?q = mset (map expiration_of ?ws)"
    using 1(2) by (auto simp: limiter_ok_def)
  show ?case
  proof (cases "peek_expiration ?q")
    case None
    then have "?ws = []" using expirations.peek_None_iff[OF ok(1)] ok(3) by simp
    then show ?thesis using None 1(2) by (subst (1 2 3 4 5) pruneExpired.simps) (simp add: live_windows_def)
  next
    case (Some x)
    show ?thesis
    proof (cases "now < exp_resetsAt x")
      case True
      have "now < win_resetsAt w" if "(k, w) \<in> set ?ws" for k w
      proof -
        have "expiration_of (k, w) \<in># mset ?q" unfolding ok(3) using that by (metis image_eqI set_map set_mset_mset)
        from expirations.peek_late[OF ok(1) Some True this] show ?thesis by (simp add: expiration_of_def)
      qed
      then have "live_windows now ?ws = ?ws" by (auto simp: live_windows_def filter_id_conv)
      then show ?thesis using Some True 1(2) by (subst (1 2 3 4 5) pruneExpired.simps) simp
    next
      case False
      obtain rest where pop: "removeNextExpiration ?q = (Some x, rest)"
        using expirations.pop_peek[OF ok(1)] Some by (metis prod.collapse)
      have rest: "heap_order rest" "add_mset x (mset rest) = mset ?q"
        using expirations.pop_items[OF ok(1) Some] pop by auto
      then have "x \<in> expiration_of ` set ?ws" by (metis ok(3) set_map set_mset_mset union_single_eq_member)
      then obtain k w where kw: "(k, w) \<in> set ?ws" "x = expiration_of (k, w)" by auto
      have w: "map_of ?ws k = Some w" using kw(1) ok(2) by simp
      let ?ws' = "AList.delete k ?ws"
      let ?lim = "lim\<lparr>fwl_expirations := rest, fwl_windows := ?ws'\<rparr>"
      have eq: "pruneExpired now lim = pruneExpired now ?lim"
        using Some False pop w kw(2) by (subst pruneExpired.simps) (simp add: expiration_of_def Let_def)
      have "add_mset x (mset rest) = add_mset x (mset (map expiration_of ?ws'))"
        using rest(2) mset_delete[OF ok(2) kw(1)] ok(3) kw(2) by (metis image_mset_add_mset mset_map)
      moreover have "int (length ?ws') \<le> fwl_maxTrackedKeys lim"
      proof -
        have "int (length ?ws) \<le> fwl_maxTrackedKeys lim" using 1(2) by (simp add: limiter_ok_def)
        moreover have "length ?ws' \<le> length ?ws" by (rule length_delete_le)
        ultimately show ?thesis by linarith
      qed
      ultimately have "limiter_ok ?lim"
        using 1(2) rest(1) by (auto simp: limiter_ok_def delete_filter distinct_map_filter)
      then have "limiter_ok (pruneExpired now ?lim)
         \<and> fwl_windows (pruneExpired now ?lim) = live_windows now ?ws'
         \<and> fwl_limit (pruneExpired now ?lim) = fwl_limit ?lim
         \<and> fwl_windowMilliseconds (pruneExpired now ?lim) = fwl_windowMilliseconds ?lim
         \<and> fwl_maxTrackedKeys (pruneExpired now ?lim) = fwl_maxTrackedKeys ?lim"
        using 1(1)[OF Some False, of "Some x" rest x] pop w kw(2) by (simp add: expiration_of_def Let_def)
      moreover have "live_windows now ?ws' = live_windows now ?ws"
        unfolding live_windows_def delete_filter filter_filter
        using kw False ok(2) by (intro filter_cong) (auto simp: expiration_of_def dest: eq_key_imp_eq_value)
      ultimately show ?thesis unfolding eq by simp
    qed
  qed
qed

end
