(* ===== verification/Window_Limiters.thy ===== *)
theory Window_Limiters
  imports Rate_Limits
begin

text \<open>
  The contract of a window limiter and the bound it gives on accepted calls, for the fixed-window
  limiter and both sides of \<open>ScopedRateLimiter\<close>; then the concurrency limiter and the guard against
  replayed live tokens (apps/server/src/control.ts).
\<close>

section \<open>Window limiters\<close>

definition live_window :: "int \<Rightarrow> (int \<times> int) option \<Rightarrow> (int \<times> int) option" where
  "live_window now w = (case w of None \<Rightarrow> None | Some (n, r) \<Rightarrow> if now < r then Some (n, r) else None)"

text \<open>The instants of the accepted calls that count, along a sequence of calls.\<close>

fun accepted_times ::
    "('c \<Rightarrow> int \<Rightarrow> 's \<Rightarrow> bool \<times> 's) \<Rightarrow> ('c \<Rightarrow> bool) \<Rightarrow> ('c \<times> int) list \<Rightarrow> 's \<Rightarrow> int list" where
  "accepted_times call counts [] s = []"
| "accepted_times call counts ((c, t) # cs) s =
     (let (ok, s') = call c t s in
      (if ok \<and> counts c then [t] else []) @ accepted_times call counts cs s')"

definition within :: "int \<Rightarrow> int \<Rightarrow> int list \<Rightarrow> int" where
  "within a b ts = int (length (filter (\<lambda>t. a \<le> t \<and> t < b) ts))"

definition since :: "int \<Rightarrow> int list \<Rightarrow> int" where
  "since a ts = int (length (filter (\<lambda>t. a \<le> t) ts))"

lemma within_append [simp]: "within a b (ts @ us) = within a b ts + within a b us"
  by (simp add: within_def)
lemma since_append [simp]: "since a (ts @ us) = since a ts + since a us"
  by (simp add: since_def)
lemma within_single [simp]: "within a b [t] = (if a \<le> t \<and> t < b then 1 else 0)"
  by (simp add: within_def)
lemma since_single [simp]: "since a [t] = (if a \<le> t then 1 else 0)"
  by (simp add: since_def)
lemma within_Nil [simp]: "within a b [] = 0" by (simp add: within_def)
lemma since_Nil [simp]: "since a [] = 0" by (simp add: since_def)

lemma within_le_since: "within a b ts \<le> since a ts"
  by (induction ts) (auto simp: within_def since_def)

lemma since_mono: "a \<le> b \<Longrightarrow> since b ts \<le> since a ts"
  by (induction ts) (auto simp: since_def)

lemma since_zero: "\<forall>t \<in> set ts. t < a \<Longrightarrow> since a ts = 0"
  by (induction ts) (auto simp: since_def)

locale window_limiter =
  fixes call :: "'c \<Rightarrow> int \<Rightarrow> 's \<Rightarrow> bool \<times> 's"
    and counts :: "'c \<Rightarrow> bool"
    and win :: "'s \<Rightarrow> (int \<times> int) option"
    and inv :: "'s \<Rightarrow> bool"
    and limit :: int
    and width :: int
  assumes positive: "inv s \<Longrightarrow> 1 \<le> limit \<and> 1 \<le> width"
    and inv_call: "inv s \<Longrightarrow> inv (snd (call c now s))"
    and other: "inv s \<Longrightarrow> \<not> (fst (call c now s) \<and> counts c) \<Longrightarrow>
      win (snd (call c now s)) = win s \<or> win (snd (call c now s)) = live_window now (win s)"
    and accepted: "inv s \<Longrightarrow> fst (call c now s) \<Longrightarrow> counts c \<Longrightarrow>
      (case live_window now (win s) of
         None \<Rightarrow> win (snd (call c now s)) = Some (1, now + width)
       | Some (n, r) \<Rightarrow> n < limit \<and> win (snd (call c now s)) = Some (n + 1, r))"
begin

text \<open>What the window says about the calls accepted so far, up to the instant of the last call.\<close>

definition tracks :: "int list \<Rightarrow> int \<Rightarrow> (int \<times> int) option \<Rightarrow> bool" where
  "tracks ts now w \<longleftrightarrow> (\<forall>a. within a (a + width) ts \<le> 2 * limit)
     \<and> (case w of
          None \<Rightarrow> (\<forall>t \<in> set ts. t < now) \<and> (\<forall>a \<ge> now - width. since a ts \<le> limit)
        | Some (n, r) \<Rightarrow> n \<le> limit \<and> r - width \<le> now \<and> (\<forall>t \<in> set ts. t < r)
            \<and> since (r - width) ts = n \<and> (\<forall>a \<ge> r - 2 * width. since a ts \<le> limit + n))"

lemma tracks_later: "tracks ts now w \<Longrightarrow> now \<le> now' \<Longrightarrow> tracks ts now' w"
  unfolding tracks_def by (auto split: option.splits)

lemma tracks_live:
  assumes "tracks ts now' w"
  shows "tracks ts now' (live_window now' w)"
proof (cases "\<exists>n r. w = Some (n, r) \<and> r \<le> now'")
  case True
  then obtain n r where w: "w = Some (n, r)" "r \<le> now'" by blast
  then have "since a ts \<le> limit" if "now' - width \<le> a" for a
    using assms that since_mono[of "r - width" a ts] by (auto simp: tracks_def)
  then show ?thesis using assms w by (fastforce simp: tracks_def live_window_def)
next
  case False
  then have "live_window now' w = w" by (auto simp: live_window_def split: option.splits)
  then show ?thesis using assms by simp
qed

lemma within_snoc:
  assumes "\<forall>a. within a (a + width) ts \<le> 2 * limit" "since (now - width + 1) ts < 2 * limit"
  shows "\<forall>a. within a (a + width) (ts @ [now]) \<le> 2 * limit"
proof
  fix a
  show "within a (a + width) (ts @ [now]) \<le> 2 * limit"
  proof (cases "a \<le> now \<and> now < a + width")
    case True
    then have "within a (a + width) ts \<le> since (now - width + 1) ts"
      using within_le_since[of a "a + width" ts] since_mono[of "now - width + 1" a ts] by linarith
    with True assms(2) show ?thesis by simp
  qed (use assms(1) in auto)
qed

lemma tracks_open:
  assumes "tracks ts now None" "1 \<le> limit" "1 \<le> width"
  shows "tracks (ts @ [now]) now (Some (1, now + width))"
proof -
  have lt: "\<forall>t \<in> set ts. t < now" and few: "\<And>a. now - width \<le> a \<Longrightarrow> since a ts \<le> limit"
    using assms(1) by (auto simp: tracks_def)
  have "\<forall>a. within a (a + width) (ts @ [now]) \<le> 2 * limit"
  proof (rule within_snoc)
    show "since (now - width + 1) ts < 2 * limit" using few[of "now - width + 1"] assms(2) by linarith
  qed (use assms(1) in \<open>simp add: tracks_def\<close>)
  moreover have "since now ts = 0" using lt by (rule since_zero)
  moreover have "since a ts \<le> limit" "since a ts \<le> limit + 1" if "now - width \<le> a" for a
    using few[OF that] by linarith+
  ultimately show ?thesis using assms(2,3) lt by (auto simp: tracks_def)
qed

lemma tracks_count:
  assumes "tracks ts now (Some (n, r))" "now < r" "n < limit"
  shows "tracks (ts @ [now]) now (Some (n + 1, r))"
proof -
  have few: "\<And>a. r - 2 * width \<le> a \<Longrightarrow> since a ts \<le> limit + n"
    and w: "r - width \<le> now" "since (r - width) ts = n" "\<forall>t \<in> set ts. t < r"
    using assms(1) by (auto simp: tracks_def)
  have "\<forall>a. within a (a + width) (ts @ [now]) \<le> 2 * limit"
  proof (rule within_snoc)
    show "since (now - width + 1) ts < 2 * limit" using few[of "now - width + 1"] assms(3) w(1) by linarith
  qed (use assms(1) in \<open>simp add: tracks_def\<close>)
  moreover have "since a ts \<le> limit + n" "since a ts \<le> limit + (n + 1)" if "r - 2 * width \<le> a" for a
    using few[OF that] by linarith+
  ultimately show ?thesis using assms(2,3) w by (auto simp: tracks_def)
qed

lemma tracks_run:
  "inv s \<Longrightarrow> tracks ts now (win s) \<Longrightarrow> sorted (now # map snd cs) \<Longrightarrow>
   \<forall>a. within a (a + width) (ts @ accepted_times call counts cs s) \<le> 2 * limit"
proof (induction cs arbitrary: s ts now)
  case (Cons ct cs)
  obtain c t where ct: "ct = (c, t)" by (cases ct)
  let ?s = "snd (call c t s)"
  note pos = positive[OF Cons.prems(1)]
  have t: "now \<le> t" "sorted (t # map snd cs)" using Cons.prems(3) ct by auto
  have at_t: "tracks ts t (win s)" by (rule tracks_later[OF Cons.prems(2) t(1)])
  have inv: "inv ?s" by (rule inv_call[OF Cons.prems(1)])
  have eq: "accepted_times call counts (ct # cs) s =
      (if fst (call c t s) \<and> counts c then [t] else []) @ accepted_times call counts cs ?s"
    by (simp add: ct case_prod_unfold Let_def)
  show ?case
  proof (cases "fst (call c t s) \<and> counts c")
    case True
    have "tracks (ts @ [t]) t (win ?s)"
    proof (cases "live_window t (win s)")
      case None
      then show ?thesis
        using accepted[OF Cons.prems(1), of c t] True tracks_live[OF at_t] tracks_open pos by auto
    next
      case (Some w)
      obtain n r where w: "w = (n, r)" by (cases w)
      have "t < r" using Some w by (auto simp: live_window_def split: option.splits if_splits)
      then show ?thesis
        using accepted[OF Cons.prems(1), of c t] True tracks_live[OF at_t] Some w tracks_count by auto
    qed
    from Cons.IH[OF inv this t(2)] True eq show ?thesis by simp
  next
    case False
    have "tracks ts t (win ?s)"
      using other[OF Cons.prems(1) False] at_t tracks_live[OF at_t] by metis
    moreover have "accepted_times call counts (ct # cs) s = accepted_times call counts cs ?s"
      unfolding eq using False by simp
    ultimately show ?thesis using Cons.IH[OF inv _ t(2), of ts] by simp
  qed
qed (auto simp: tracks_def)

lemma accepted_bound:
  assumes "inv s" "win s = None" "sorted (map snd cs)"
  shows "within a (a + width) (accepted_times call counts cs s) \<le> 2 * limit"
proof (cases cs)
  case Nil
  then show ?thesis using positive[OF assms(1)] by simp
next
  case (Cons ct cs')
  have "tracks [] (snd ct) (win s)" using assms(2) positive[OF assms(1)] by (auto simp: tracks_def)
  then have "within a (a + width) ([] @ accepted_times call counts cs s) \<le> 2 * limit"
    using tracks_run[OF assms(1), of "[]" "snd ct" cs] assms(3) Cons by simp
  then show ?thesis by simp
qed

end

section \<open>The fixed-window limiter meets the contract\<close>

definition key_window :: "string \<Rightarrow> fixed_window_limiter \<Rightarrow> (int \<times> int) option" where
  "key_window key lim = map_option (\<lambda>w. (win_count w, win_resetsAt w)) (map_of (fwl_windows lim) key)"

definition limiter_with :: "int \<Rightarrow> int \<Rightarrow> fixed_window_limiter \<Rightarrow> bool" where
  "limiter_with limit width lim \<longleftrightarrow>
     limiter_ok lim \<and> fwl_limit lim = limit \<and> fwl_windowMilliseconds lim = width"

lemma map_of_live:
  "distinct (map fst ws) \<Longrightarrow> map_of (live_windows now ws) key =
     (case map_of ws key of None \<Rightarrow> None | Some w \<Rightarrow> if now < win_resetsAt w then Some w else None)"
proof (induction ws)
  case (Cons e ws)
  obtain k w where e: "e = (k, w)" by (cases e)
  show ?case
  proof (cases "k = key")
    case True
    then have "map_of ws key = None" using Cons.prems e by (auto simp: map_of_eq_None_iff)
    then show ?thesis using Cons True e by (simp add: live_windows_def)
  next
    case False
    then show ?thesis using Cons e by (simp add: live_windows_def)
  qed
qed (simp add: live_windows_def)

lemma prepare_cases:
  assumes "limiter_with limit width lim"
  obtains "prepare now lim = (None, lim)"
  | lim' where "prepare now lim = (Some now, lim')" "limiter_with limit width lim'"
      "\<And>key. key_window key lim' = live_window now (key_window key lim)"
proof (cases "\<not> safe_integer now \<or> now < 0 \<or> now > MAX_SAFE_INTEGER - fwl_windowMilliseconds lim")
  case True
  then have "prepare now lim = (None, lim)" by (auto simp: prepare_def)
  then show ?thesis by (rule that(1))
next
  case False
  have ok: "limiter_ok lim" using assms by (simp add: limiter_with_def)
  note p = pruneExpired_ok[OF ok, of now]
  have "key_window key (pruneExpired now lim) = live_window now (key_window key lim)" for key
    using p ok map_of_live[of "fwl_windows lim" now key]
    by (auto simp: key_window_def live_window_def limiter_ok_def split: option.split)
  moreover have "limiter_with limit width (pruneExpired now lim)"
    using p assms by (simp add: limiter_with_def)
  moreover have "prepare now lim = (Some now, pruneExpired now lim)" using False by (simp add: prepare_def)
  ultimately show ?thesis by (intro that(2))
qed

lemma update_same_expiration:
  "map_of ws key = Some w \<Longrightarrow> win_resetsAt w' = win_resetsAt w \<Longrightarrow>
   map expiration_of (AList.update key w' ws) = map expiration_of ws"
  by (induction ws) (auto simp: expiration_of_def split: if_splits)

lemma update_new: "map_of ws key = None \<Longrightarrow> AList.update key w ws = ws @ [(key, w)]"
  by (induction ws) (auto split: if_splits)

lemma length_update: "map_of ws key = Some w \<Longrightarrow> length (AList.update key w' ws) = length ws"
  by (induction ws) (auto split: if_splits)

lemma in_set_update:
  "distinct (map fst ws) \<Longrightarrow> (k, v) \<in> set (AList.update key w ws) \<Longrightarrow> (k = key \<and> v = w) \<or> ((k, v) \<in> set ws \<and> k \<noteq> key)"
  by (induction ws) (auto split: if_splits simp: rev_image_eqI)

lemma consumePrepared_ok:
  assumes "limiter_with limit width lim" "canAllowPrepared key lim"
  shows "limiter_with limit width (consumePrepared key now lim)"
    and "key_window key' (consumePrepared key now lim) =
       (if key' = key then (case key_window key lim of None \<Rightarrow> Some (1, now + width) | Some (n, r) \<Rightarrow> Some (n + 1, r))
        else key_window key' lim)"
proof -
  have ok: "limiter_ok lim" "fwl_limit lim = limit" "fwl_windowMilliseconds lim = width"
    using assms(1) by (auto simp: limiter_with_def)
  have d: "distinct (map fst (fwl_windows lim))" using ok(1) by (simp add: limiter_ok_def)
  have "limiter_ok (consumePrepared key now lim)"
  proof (cases "map_of (fwl_windows lim) key")
    case None
    then have "key \<notin> fst ` set (fwl_windows lim)" by (simp add: map_of_eq_None_iff)
    then show ?thesis
      using None ok assms(2) unfolding consumePrepared_def canAllowPrepared_def limiter_ok_def
      by (auto simp: Let_def update_new addExpiration_heap addExpiration_mset expiration_of_def)
  next
    case (Some w)
    let ?w = "w\<lparr>win_count := win_count w + 1\<rparr>"
    have "1 \<le> win_count w \<and> win_count w < fwl_limit lim"
      using Some ok(1) assms(2) by (auto simp: canAllowPrepared_def limiter_ok_def dest: map_of_SomeD)
    then have "\<forall>(k, v) \<in> set (AList.update key ?w (fwl_windows lim)). 1 \<le> win_count v \<and> win_count v \<le> fwl_limit lim"
      using ok(1) by (auto simp: limiter_ok_def dest!: in_set_update[OF d])
    then show ?thesis
      using Some ok update_same_expiration[OF Some, of ?w] length_update[OF Some, of ?w]
      unfolding consumePrepared_def limiter_ok_def by (auto simp: distinct_update)
  qed
  then show "limiter_with limit width (consumePrepared key now lim)"
    using ok by (auto simp: limiter_with_def consumePrepared_def Let_def split: option.split)
  show "key_window key' (consumePrepared key now lim) =
       (if key' = key then (case key_window key lim of None \<Rightarrow> Some (1, now + width) | Some (n, r) \<Rightarrow> Some (n + 1, r))
        else key_window key' lim)"
    using ok(3) by (auto simp: key_window_def consumePrepared_def Let_def update_conv' split: option.split)
qed

lemma limiter_allow_cases:
  assumes "limiter_with limit width lim"
  shows "limiter_with limit width (snd (limiter_allow key now lim))"
    and "\<not> fst (limiter_allow key now lim) \<Longrightarrow>
      (\<forall>k. key_window k (snd (limiter_allow key now lim)) = key_window k lim)
      \<or> (\<forall>k. key_window k (snd (limiter_allow key now lim)) = live_window now (key_window k lim))"
    and "fst (limiter_allow key now lim) \<Longrightarrow>
      (case live_window now (key_window key lim) of
         None \<Rightarrow> key_window key (snd (limiter_allow key now lim)) = Some (1, now + width)
       | Some (n, r) \<Rightarrow> n < limit \<and> key_window key (snd (limiter_allow key now lim)) = Some (n + 1, r))
      \<and> (\<forall>k. k \<noteq> key \<longrightarrow> key_window k (snd (limiter_allow key now lim)) = live_window now (key_window k lim))"
proof -
  have "limiter_with limit width (snd (limiter_allow key now lim))
    \<and> (\<not> fst (limiter_allow key now lim) \<longrightarrow>
      (\<forall>k. key_window k (snd (limiter_allow key now lim)) = key_window k lim)
      \<or> (\<forall>k. key_window k (snd (limiter_allow key now lim)) = live_window now (key_window k lim)))
    \<and> (fst (limiter_allow key now lim) \<longrightarrow>
      (case live_window now (key_window key lim) of
         None \<Rightarrow> key_window key (snd (limiter_allow key now lim)) = Some (1, now + width)
       | Some (n, r) \<Rightarrow> n < limit \<and> key_window key (snd (limiter_allow key now lim)) = Some (n + 1, r))
      \<and> (\<forall>k. k \<noteq> key \<longrightarrow> key_window k (snd (limiter_allow key now lim)) = live_window now (key_window k lim)))"
  proof (rule prepare_cases[OF assms, of now])
    assume "prepare now lim = (None, lim)"
    then show ?thesis using assms by (simp add: limiter_allow_def)
  next
    fix lim' assume p: "prepare now lim = (Some now, lim')" "limiter_with limit width lim'"
      "\<And>key. key_window key lim' = live_window now (key_window key lim)"
    show ?thesis
    proof (cases "canAllowPrepared key lim'")
      case True
      note c = consumePrepared_ok[OF p(2) True]
      have "n < limit" if "live_window now (key_window key lim) = Some (n, r)" for n r
        using that True p(2) p(3)[of key]
        by (auto simp: canAllowPrepared_def key_window_def limiter_with_def split: option.splits)
      moreover have "limiter_allow key now lim = (True, consumePrepared key now lim')"
        using True by (simp add: limiter_allow_def p(1))
      ultimately show ?thesis
        using c(1) by (simp add: c(2) p(3) split: option.split)
    qed (use p in \<open>simp add: limiter_allow_def\<close>)
  qed
  then show "limiter_with limit width (snd (limiter_allow key now lim))"
    "\<not> fst (limiter_allow key now lim) \<Longrightarrow>
      (\<forall>k. key_window k (snd (limiter_allow key now lim)) = key_window k lim)
      \<or> (\<forall>k. key_window k (snd (limiter_allow key now lim)) = live_window now (key_window k lim))"
    "fst (limiter_allow key now lim) \<Longrightarrow>
      (case live_window now (key_window key lim) of
         None \<Rightarrow> key_window key (snd (limiter_allow key now lim)) = Some (1, now + width)
       | Some (n, r) \<Rightarrow> n < limit \<and> key_window key (snd (limiter_allow key now lim)) = Some (n + 1, r))
      \<and> (\<forall>k. k \<noteq> key \<longrightarrow> key_window k (snd (limiter_allow key now lim)) = live_window now (key_window k lim))"
    by blast+
qed

interpretation fixed_window: window_limiter limiter_allow "\<lambda>c. c = key" "key_window key"
  "limiter_with limit width" limit width for key limit width
proof
  fix lim c now assume i: "limiter_with limit width lim"
  show "1 \<le> limit \<and> 1 \<le> width" using i by (auto simp: limiter_with_def limiter_ok_def)
  show "limiter_with limit width (snd (limiter_allow c now lim))" by (rule limiter_allow_cases(1)[OF i])
  show "key_window key (snd (limiter_allow c now lim)) = key_window key lim
      \<or> key_window key (snd (limiter_allow c now lim)) = live_window now (key_window key lim)"
    if refused: "\<not> (fst (limiter_allow c now lim) \<and> c = key)"
  proof (cases "fst (limiter_allow c now lim)")
    case True
    with refused have "key \<noteq> c" by blast
    then show ?thesis using limiter_allow_cases(3)[OF i True, THEN conjunct2] by simp
  next
    case False
    then show ?thesis using limiter_allow_cases(2)[OF i False] by metis
  qed
  show "case live_window now (key_window key lim) of
         None \<Rightarrow> key_window key (snd (limiter_allow c now lim)) = Some (1, now + width)
       | Some (n, r) \<Rightarrow> n < limit \<and> key_window key (snd (limiter_allow c now lim)) = Some (n + 1, r)"
    if "fst (limiter_allow c now lim)" "c = key"
    using limiter_allow_cases(3)[OF i, of key now, THEN conjunct1] that(1) unfolding that(2) by blast
qed

section \<open>The scoped rate limiter\<close>

record scoped_rate_limiter =
  srl_organizationLimiter :: fixed_window_limiter
  srl_userLimiter :: fixed_window_limiter

definition user_key :: "ident \<Rightarrow> ident \<Rightarrow> string" where
  "user_key organizationId userId = organizationId @ '':'' @ userId"

definition DEFAULT_TRACKED_KEYS :: int where
  "DEFAULT_TRACKED_KEYS = 10000"

definition ScopedRateLimiter :: "int \<Rightarrow> int \<Rightarrow> int \<Rightarrow> exn + scoped_rate_limiter" where
  "ScopedRateLimiter organizationLimit userLimit windowMilliseconds =
     (case FixedWindowRateLimiter organizationLimit windowMilliseconds DEFAULT_TRACKED_KEYS of
        Inl e \<Rightarrow> Inl e
      | Inr organizations \<Rightarrow>
          (case FixedWindowRateLimiter userLimit windowMilliseconds DEFAULT_TRACKED_KEYS of
             Inl e \<Rightarrow> Inl e
           | Inr users \<Rightarrow> Inr \<lparr>srl_organizationLimiter = organizations, srl_userLimiter = users\<rparr>))"

definition scoped_allow :: "ident \<Rightarrow> ident \<Rightarrow> int \<Rightarrow> scoped_rate_limiter \<Rightarrow> bool \<times> scoped_rate_limiter" where
  "scoped_allow organizationId userId now s =
     (let userKey = user_key organizationId userId;
          (userOk, users) = canAllow userKey now (srl_userLimiter s) in
      if \<not> userOk then (False, s\<lparr>srl_userLimiter := users\<rparr>)
      else
        let (organizationOk, organizations) = canAllow organizationId now (srl_organizationLimiter s) in
        if \<not> organizationOk
        then (False, s\<lparr>srl_userLimiter := users, srl_organizationLimiter := organizations\<rparr>)
        else (True, s\<lparr>srl_userLimiter := limiter_consume userKey now users,
                      srl_organizationLimiter := limiter_consume organizationId now organizations\<rparr>))"

definition scoped_with :: "int \<Rightarrow> int \<Rightarrow> int \<Rightarrow> scoped_rate_limiter \<Rightarrow> bool" where
  "scoped_with organizationLimit userLimit width s \<longleftrightarrow>
     limiter_with organizationLimit width (srl_organizationLimiter s)
     \<and> limiter_with userLimit width (srl_userLimiter s)"

lemma FixedWindowRateLimiter_with:
  "FixedWindowRateLimiter l w m = Inr lim \<Longrightarrow> limiter_with l w lim \<and> key_window k lim = None"
  using FixedWindowRateLimiter_ok[of l w m lim]
  by (auto simp: FixedWindowRateLimiter_def limiter_with_def key_window_def split: if_splits)

lemma ScopedRateLimiter_with:
  "ScopedRateLimiter l u w = Inr s \<Longrightarrow> scoped_with l u w s
     \<and> key_window k (srl_organizationLimiter s) = None \<and> key_window k (srl_userLimiter s) = None"
  by (auto simp: ScopedRateLimiter_def scoped_with_def dest!: FixedWindowRateLimiter_with split: sum.splits)

text \<open>Asking and then consuming at the same instant is one call of \<open>allow\<close>.\<close>

lemma pruned_again: "limiter_ok lim \<Longrightarrow> fwl_windows (pruneExpired now (pruneExpired now lim)) = fwl_windows (pruneExpired now lim)"
  using pruneExpired_ok[of lim now] pruneExpired_ok[of "pruneExpired now lim" now] by (simp add: live_windows_def)

lemma pruneExpired_idem:
  assumes "limiter_ok lim"
  shows "pruneExpired now (pruneExpired now lim) = pruneExpired now lim"
proof -
  let ?lim = "pruneExpired now lim"
  note p = pruneExpired_ok[OF assms, of now]
  have "\<not> exp_resetsAt x \<le> now" if "peek_expiration (fwl_expirations ?lim) = Some x" for x
  proof -
    have ok: "limiter_ok ?lim" using p by blast
    then have "x \<in># mset (fwl_expirations ?lim)"
      using expirations.peek_min[of "fwl_expirations ?lim"] that by (auto simp: limiter_ok_def)
    then have "x \<in># mset (map expiration_of (fwl_windows ?lim))" using ok by (simp only: limiter_ok_def)
    then obtain e where "e \<in> set (fwl_windows ?lim)" "x = expiration_of e" by auto
    then show ?thesis using p by (auto simp: live_windows_def expiration_of_def)
  qed
  then show ?thesis by (subst pruneExpired.simps) (auto split: option.split)
qed

lemma prepare_again:
  assumes "limiter_ok lim" "prepare now lim = (Some t, lim')"
  shows "prepare now lim' = (Some now, lim')"
  using assms pruneExpired_idem[OF assms(1), of now] pruneExpired_ok[OF assms(1), of now]
  by (auto simp: prepare_def split: if_splits)

lemma canAllow_consume:
  assumes "limiter_ok lim"
  shows "limiter_allow key now lim =
    (let (ok, lim') = canAllow key now lim in (ok, if ok then limiter_consume key now lim' else lim'))"
proof (cases "prepare now lim")
  case (Pair t lim')
  show ?thesis
  proof (cases t)
    case None
    then show ?thesis using Pair by (simp add: limiter_allow_def canAllow_def Let_def)
  next
    case (Some t')
    have "prepare now lim' = (Some now, lim')" using prepare_again[OF assms] Pair Some by simp
    moreover have "t' = now" using Pair Some by (auto simp: prepare_def split: if_splits)
    ultimately show ?thesis using Pair Some
      by (simp add: limiter_allow_def canAllow_def limiter_consume_def Let_def)
  qed
qed

lemma canAllow_window:
  assumes "limiter_with limit width lim"
  shows "limiter_with limit width (snd (canAllow key now lim))
    \<and> ((\<forall>k. key_window k (snd (canAllow key now lim)) = key_window k lim)
       \<or> (\<forall>k. key_window k (snd (canAllow key now lim)) = live_window now (key_window k lim)))"
  by (rule prepare_cases[OF assms, of now]) (use assms in \<open>auto simp: canAllow_def\<close>)

text \<open>What \<open>scoped_allow\<close> leaves in each of its limiters.\<close>

lemma scoped_allow_limiters:
  fixes org user :: ident
  assumes "scoped_with l u w s"
  defines "uk \<equiv> user_key org user" and "U \<equiv> srl_userLimiter s" and "O' \<equiv> srl_organizationLimiter s"
  shows "if fst (scoped_allow org user now s)
    then snd (scoped_allow org user now s) =
           s\<lparr>srl_userLimiter := snd (limiter_allow uk now U), srl_organizationLimiter := snd (limiter_allow org now O')\<rparr>
         \<and> fst (limiter_allow uk now U) \<and> fst (limiter_allow org now O')
    else srl_userLimiter (snd (scoped_allow org user now s)) = snd (canAllow uk now U)
         \<and> srl_organizationLimiter (snd (scoped_allow org user now s)) \<in> {O', snd (canAllow org now O')}"
proof -
  have ok: "limiter_ok U" "limiter_ok O'" using assms by (auto simp: scoped_with_def limiter_with_def)
  obtain a U1 where a: "canAllow uk now U = (a, U1)" by fastforce
  obtain b O1 where b: "canAllow org now O' = (b, O1)" by fastforce
  show ?thesis
    using canAllow_consume[OF ok(1), of uk now] canAllow_consume[OF ok(2), of org now] a b
    by (simp add: scoped_allow_def uk_def[symmetric] U_def[symmetric] O'_def[symmetric] Let_def)
qed

definition organization_window :: "ident \<Rightarrow> scoped_rate_limiter \<Rightarrow> (int \<times> int) option" where
  "organization_window org s = key_window org (srl_organizationLimiter s)"

definition user_window :: "string \<Rightarrow> scoped_rate_limiter \<Rightarrow> (int \<times> int) option" where
  "user_window key s = key_window key (srl_userLimiter s)"

definition scoped_call :: "ident \<times> ident \<Rightarrow> int \<Rightarrow> scoped_rate_limiter \<Rightarrow> bool \<times> scoped_rate_limiter" where
  "scoped_call c now s = scoped_allow (fst c) (snd c) now s"

lemma scoped_call_with:
  assumes "scoped_with l u w s"
  shows "scoped_with l u w (snd (scoped_call c now s))"
  using scoped_allow_limiters[OF assms, of "fst c" "snd c" now] assms
    limiter_allow_cases(1) canAllow_window
  unfolding scoped_call_def scoped_with_def by (auto split: if_splits)

interpretation scoped_organization: window_limiter scoped_call "\<lambda>c. fst c = org" "organization_window org"
  "scoped_with l u w" l w for org l u w
proof
  fix s c now assume i: "scoped_with l u w s"
  let ?lim = "srl_organizationLimiter s"
  have lim: "limiter_with l w ?lim" using i by (simp add: scoped_with_def)
  note post = scoped_allow_limiters[OF i, of "fst c" "snd c" now, folded scoped_call_def]
  show "1 \<le> l \<and> 1 \<le> w" using lim by (auto simp: limiter_with_def limiter_ok_def)
  show "scoped_with l u w (snd (scoped_call c now s))" by (rule scoped_call_with[OF i])
  show "organization_window org (snd (scoped_call c now s)) = organization_window org s
      \<or> organization_window org (snd (scoped_call c now s)) = live_window now (organization_window org s)"
    if refused: "\<not> (fst (scoped_call c now s) \<and> fst c = org)"
  proof (cases "fst (scoped_call c now s)")
    case True
    with refused have "org \<noteq> fst c" by blast
    with True show ?thesis using post limiter_allow_cases(3)[OF lim, of "fst c" now]
      by (simp add: organization_window_def)
  next
    case False
    then have "srl_organizationLimiter (snd (scoped_call c now s)) \<in> {?lim, snd (canAllow (fst c) now ?lim)}"
      using post by simp
    then show ?thesis using canAllow_window[OF lim, of "fst c" now]
      unfolding organization_window_def by auto
  qed
  show "case live_window now (organization_window org s) of
         None \<Rightarrow> organization_window org (snd (scoped_call c now s)) = Some (1, now + w)
       | Some (n, r) \<Rightarrow> n < l \<and> organization_window org (snd (scoped_call c now s)) = Some (n + 1, r)"
    if ok: "fst (scoped_call c now s)" "fst c = org"
    using post limiter_allow_cases(3)[OF lim, of org now, THEN conjunct1] ok
    by (auto simp: organization_window_def split: option.splits)
qed

interpretation scoped_user: window_limiter scoped_call "\<lambda>c. user_key (fst c) (snd c) = key" "user_window key"
  "scoped_with l u w" u w for key l u w
proof
  fix s c now assume i: "scoped_with l u w s"
  let ?lim = "srl_userLimiter s" and ?k = "user_key (fst c) (snd c)"
  have lim: "limiter_with u w ?lim" using i by (simp add: scoped_with_def)
  note post = scoped_allow_limiters[OF i, of "fst c" "snd c" now, folded scoped_call_def]
  show "1 \<le> u \<and> 1 \<le> w" using lim by (auto simp: limiter_with_def limiter_ok_def)
  show "scoped_with l u w (snd (scoped_call c now s))" by (rule scoped_call_with[OF i])
  show "user_window key (snd (scoped_call c now s)) = user_window key s
      \<or> user_window key (snd (scoped_call c now s)) = live_window now (user_window key s)"
    if refused: "\<not> (fst (scoped_call c now s) \<and> ?k = key)"
  proof (cases "fst (scoped_call c now s)")
    case True
    with refused have "key \<noteq> ?k" by blast
    with True show ?thesis using post limiter_allow_cases(3)[OF lim, of ?k now]
      by (simp add: user_window_def)
  next
    case False
    then have "srl_userLimiter (snd (scoped_call c now s)) = snd (canAllow ?k now ?lim)"
      using post by simp
    then show ?thesis using canAllow_window[OF lim, of ?k now]
      unfolding user_window_def by auto
  qed
  show "case live_window now (user_window key s) of
         None \<Rightarrow> user_window key (snd (scoped_call c now s)) = Some (1, now + w)
       | Some (n, r) \<Rightarrow> n < u \<and> user_window key (snd (scoped_call c now s)) = Some (n + 1, r)"
    if ok: "fst (scoped_call c now s)" "?k = key"
    using post limiter_allow_cases(3)[OF lim, of key now, THEN conjunct1] ok
    by (auto simp: user_window_def split: option.splits)
qed

section \<open>Concurrency limits and replayed tokens\<close>

text \<open>A \<open>Map<string, number>\<close>, as a map with the counts that are present.\<close>

record concurrency_limiter =
  scl_organizations :: "string \<rightharpoonup> int"
  scl_users :: "string \<rightharpoonup> int"
  scl_organizationLimit :: int
  scl_userLimit :: int

definition ScopedConcurrencyLimiter :: "int \<Rightarrow> int \<Rightarrow> concurrency_limiter" where
  "ScopedConcurrencyLimiter organizationLimit userLimit =
     \<lparr>scl_organizations = Map.empty, scl_users = Map.empty,
      scl_organizationLimit = organizationLimit, scl_userLimit = userLimit\<rparr>"

definition count_of :: "(string \<rightharpoonup> int) \<Rightarrow> string \<Rightarrow> int" where
  "count_of m key = (case m key of None \<Rightarrow> 0 | Some n \<Rightarrow> n)"

definition acquire :: "ident \<Rightarrow> ident \<Rightarrow> concurrency_limiter \<Rightarrow> bool \<times> concurrency_limiter" where
  "acquire organizationId userId l =
     (let userKey = user_key organizationId userId;
          organizationCount = count_of (scl_organizations l) organizationId;
          userCount = count_of (scl_users l) userKey
      in if organizationCount \<ge> scl_organizationLimit l \<or> userCount \<ge> scl_userLimit l then (False, l)
         else (True, l\<lparr>scl_organizations := (scl_organizations l)(organizationId \<mapsto> organizationCount + 1),
                       scl_users := (scl_users l)(userKey \<mapsto> userCount + 1)\<rparr>))"

definition decrementOrDelete :: "(string \<rightharpoonup> int) \<Rightarrow> string \<Rightarrow> string \<rightharpoonup> int" where
  "decrementOrDelete counts key =
     (case counts key of
        None \<Rightarrow> counts
      | Some n \<Rightarrow>
          if n = 0 then counts
          else if n = 1 then counts(key := None)
          else counts(key \<mapsto> n - 1))"

definition release :: "ident \<Rightarrow> ident \<Rightarrow> concurrency_limiter \<Rightarrow> concurrency_limiter" where
  "release organizationId userId l =
     (let userKey = user_key organizationId userId in
      if scl_users l userKey = None then l
      else l\<lparr>scl_users := decrementOrDelete (scl_users l) userKey,
             scl_organizations := decrementOrDelete (scl_organizations l) organizationId\<rparr>)"

definition activeForOrganization :: "ident \<Rightarrow> concurrency_limiter \<Rightarrow> int" where
  "activeForOrganization organizationId l = count_of (scl_organizations l) organizationId"

lemma count_of_decrement:
  "count_of (decrementOrDelete m k) k' = (if k' = k \<and> count_of m k \<noteq> 0 then count_of m k - 1 else count_of m k')"
  by (auto simp: count_of_def decrementOrDelete_def split: option.split)

record replay_guard =
  rg_usedUntil :: "(string \<times> int) list"

definition replay_consume :: "(string \<Rightarrow> string) \<Rightarrow> string \<Rightarrow> int \<Rightarrow> int \<Rightarrow> replay_guard \<Rightarrow> bool \<times> replay_guard" where
  "replay_consume digest token expiresAt now g =
     (let kept = filter (\<lambda>(d, expiry). \<not> expiry \<le> now) (rg_usedUntil g); d = digest token in
      if d \<in> fst ` set kept then (False, g\<lparr>rg_usedUntil := kept\<rparr>)
      else (True, g\<lparr>rg_usedUntil := AList.update d expiresAt kept\<rparr>))"

lemma update_mem: "(k, v) \<in> set (AList.update k v ks)"
  by (induction ks) auto

text \<open>The limiter after a sequence of calls, accepted or not.\<close>

definition after_calls :: "((ident \<times> ident) \<times> int) list \<Rightarrow> scoped_rate_limiter \<Rightarrow> scoped_rate_limiter" where
  "after_calls calls s = fold (\<lambda>(c, now) s. snd (scoped_call c now s)) calls s"

lemma after_calls_with: "scoped_with l u w s \<Longrightarrow> scoped_with l u w (after_calls calls s)"
  by (induction calls arbitrary: s) (auto simp: after_calls_def scoped_call_with)

section \<open>Properties\<close>

text \<open>
  C27: However calls for many Organizations and users interleave, the scoped rate limiter accepts at
  most twice the Organization's limit in any span of one window width, and at most twice the user's
  limit for one user.  After every sequence of calls (timestamps in order or not), both limiters
  still hold consistent tables: the heap of expirations is in heap order and lists exactly the
  windows of the map, no key has two windows, every window counts between one call and the limit,
  and no limiter tracks more keys than it may.
\<close>

theorem scoped_rate_limit_bound:
  assumes "ScopedRateLimiter organizationLimit userLimit width = Inr s" "sorted (map snd calls)"
  shows "within a (a + width) (accepted_times scoped_call (\<lambda>c. fst c = org) calls s) \<le> 2 * organizationLimit
     \<and> within a (a + width) (accepted_times scoped_call (\<lambda>c. user_key (fst c) (snd c) = user_key org user) calls s)
         \<le> 2 * userLimit
     \<and> (\<forall>lim \<in> {srl_organizationLimiter (after_calls anyCalls s), srl_userLimiter (after_calls anyCalls s)}.
          limiter_ok lim)"
proof -
  note s = ScopedRateLimiter_with[OF assms(1)]
  have "scoped_with organizationLimit userLimit width (after_calls anyCalls s)"
    by (rule after_calls_with[OF s[THEN conjunct1]])
  then have "\<forall>lim \<in> {srl_organizationLimiter (after_calls anyCalls s), srl_userLimiter (after_calls anyCalls s)}. limiter_ok lim"
    by (simp add: scoped_with_def limiter_with_def)
  then show ?thesis
    using scoped_organization.accepted_bound[of organizationLimit userLimit width s org calls a]
      scoped_user.accepted_bound[of organizationLimit userLimit width s "user_key org user" calls a] s assms(2)
    by (simp add: organization_window_def user_window_def)
qed

theorem scoped_rate_limit_bound_witness:
  "\<exists>s. ScopedRateLimiter 3 2 100 = Inr s
     \<and> accepted_times scoped_call (\<lambda>c. fst c = ''o'')
         [((''o'', ''u''), 1), ((''o'', ''u''), 2), ((''o'', ''u''), 3), ((''o'', ''v''), 4), ((''o'', ''v''), 101)] s = [1, 2, 4, 101]
     \<and> within 1 101 (accepted_times scoped_call (\<lambda>c. fst c = ''o'')
         [((''o'', ''u''), 1), ((''o'', ''u''), 2), ((''o'', ''u''), 3), ((''o'', ''v''), 4), ((''o'', ''v''), 101)] s) \<le> 6
     \<and> limiter_ok (srl_userLimiter (after_calls [((''o'', ''u''), 50), ((''p'', ''u''), 20)] s))"
proof -
  let ?calls = "[((''o'', ''u''), 1), ((''o'', ''u''), 2), ((''o'', ''u''), 3), ((''o'', ''v''), 4), ((''o'', ''v''), 101)]"
  have "(case ScopedRateLimiter 3 2 100 of Inl _ \<Rightarrow> False
     | Inr s \<Rightarrow> accepted_times scoped_call (\<lambda>c. fst c = ''o'') ?calls s = [1, 2, 4, 101])" by code_simp
  then obtain s where s: "ScopedRateLimiter 3 2 100 = Inr s"
    "accepted_times scoped_call (\<lambda>c. fst c = ''o'') ?calls s = [1, 2, 4, 101]" by (auto split: sum.splits)
  have "sorted (map snd (?calls :: ((ident \<times> ident) \<times> int) list))" by simp
  from scoped_rate_limit_bound[OF s(1) this, of 1 "''o''" "''u''" "[((''o'', ''u''), 50), ((''p'', ''u''), 20)]"]
  have "within 1 101 (accepted_times scoped_call (\<lambda>c. fst c = ''o'') ?calls s) \<le> 6"
    "limiter_ok (srl_userLimiter (after_calls [((''o'', ''u''), 50), ((''p'', ''u''), 20)] s))" by simp_all
  with s show ?thesis by blast
qed

text \<open>
  Callers of the concurrency limiter: a slot is released by the request that acquired it
  (the live event streams and the pings of control-http.ts).
\<close>

datatype slot_event = Acquire ident ident | Release ident ident

fun slot_step :: "slot_event \<Rightarrow> concurrency_limiter \<times> (ident \<times> ident) list \<Rightarrow> concurrency_limiter \<times> (ident \<times> ident) list" where
  "slot_step (Acquire org user) (l, held) =
     (let (ok, l') = acquire org user l in (l', if ok then (org, user) # held else held))"
| "slot_step (Release org user) (l, held) =
     (if (org, user) \<in> set held then (release org user l, remove1 (org, user) held) else (l, held))"

definition held_by :: "(ident \<times> ident \<Rightarrow> bool) \<Rightarrow> (ident \<times> ident) list \<Rightarrow> int" where
  "held_by P held = int (length (filter P held))"

definition slots_ok :: "int \<Rightarrow> int \<Rightarrow> concurrency_limiter \<times> (ident \<times> ident) list \<Rightarrow> bool" where
  "slots_ok ol ul st \<longleftrightarrow> scl_organizationLimit (fst st) = ol \<and> scl_userLimit (fst st) = ul
     \<and> (\<forall>org. count_of (scl_organizations (fst st)) org = held_by (\<lambda>h. fst h = org) (snd st)
          \<and> held_by (\<lambda>h. fst h = org) (snd st) \<le> ol)
     \<and> (\<forall>key. count_of (scl_users (fst st)) key = held_by (\<lambda>h. user_key (fst h) (snd h) = key) (snd st)
          \<and> held_by (\<lambda>h. user_key (fst h) (snd h) = key) (snd st) \<le> ul)"

lemma held_by_Cons [simp]: "held_by P (h # held) = (if P h then 1 else 0) + held_by P held"
  by (simp add: held_by_def)

lemma held_by_remove1 [simp]:
  "h \<in> set held \<Longrightarrow> held_by P (remove1 h held) = held_by P held - (if P h then 1 else 0)"
  by (induction held) (auto simp: held_by_def)

lemma held_by_pos: "h \<in> set held \<Longrightarrow> P h \<Longrightarrow> 0 < held_by P held"
  by (auto simp: held_by_def filter_empty_conv)

lemma count_of_upd [simp]: "count_of (m(k \<mapsto> n)) k' = (if k' = k then n else count_of m k')"
  by (simp add: count_of_def)

lemma slot_step_ok:
  assumes "slots_ok ol ul (l, held)"
  shows "slots_ok ol ul (slot_step e (l, held))"
proof (cases e)
  case (Acquire org user)
  show ?thesis
  proof (cases "fst (acquire org user l)")
    case True
    then show ?thesis using assms Acquire
      by (auto simp: acquire_def slots_ok_def Let_def split: if_splits)
  next
    case False
    then have "acquire org user l = (False, l)" by (auto simp: acquire_def Let_def split: if_splits)
    then show ?thesis using assms Acquire by simp
  qed
next
  case (Release org user)
  show ?thesis
  proof (cases "(org, user) \<in> set held")
    case True
    have "0 < count_of (scl_users l) (user_key org user)" "0 < count_of (scl_organizations l) org"
      using assms True held_by_pos[OF True, of "\<lambda>h. user_key (fst h) (snd h) = user_key org user"]
        held_by_pos[OF True, of "\<lambda>h. fst h = org"] by (auto simp: slots_ok_def)
    moreover from this(1) obtain n where "scl_users l (user_key org user) = Some n"
      by (cases "scl_users l (user_key org user)") (simp_all add: count_of_def)
    ultimately have "release org user l = l\<lparr>scl_users := decrementOrDelete (scl_users l) (user_key org user),
        scl_organizations := decrementOrDelete (scl_organizations l) org\<rparr>"
      and "count_of (scl_users l) (user_key org user) \<noteq> 0" "count_of (scl_organizations l) org \<noteq> 0"
      by (simp_all add: release_def Let_def)
    moreover have "held_by (\<lambda>h. fst h = o') held - 1 \<le> ol" "held_by (\<lambda>h. user_key (fst h) (snd h) = k) held - 1 \<le> ul" for o' k
    proof -
      have "held_by (\<lambda>h. fst h = o') held \<le> ol" "held_by (\<lambda>h. user_key (fst h) (snd h) = k) held \<le> ul"
        using assms by (auto simp: slots_ok_def)
      then show "held_by (\<lambda>h. fst h = o') held - 1 \<le> ol" "held_by (\<lambda>h. user_key (fst h) (snd h) = k) held - 1 \<le> ul"
        by linarith+
    qed
    ultimately show ?thesis using assms Release True
      by (auto simp: slots_ok_def count_of_decrement)
  qed (use assms Release in simp)
qed

lemma slots_run: "slots_ok ol ul st \<Longrightarrow> slots_ok ol ul (fold slot_step es st)"
  by (induction es arbitrary: st) (auto, metis slot_step_ok surj_pair)

text \<open>
  C36: Slots of the concurrency limiter are neither leaked nor lost: after any sequence of
  acquisitions and releases by their holders, the count kept for an Organization is exactly the
  number of slots held in it and never exceeds the limit, and the same holds for a user's slots.
\<close>

theorem concurrency_slots_exact:
  assumes "0 \<le> organizationLimit" "0 \<le> userLimit"
    and "fold slot_step events (ScopedConcurrencyLimiter organizationLimit userLimit, []) = (l, held)"
  shows "activeForOrganization org l = int (length (filter (\<lambda>h. fst h = org) held))
     \<and> activeForOrganization org l \<le> organizationLimit
     \<and> count_of (scl_users l) (user_key org user)
         = int (length (filter (\<lambda>h. user_key (fst h) (snd h) = user_key org user) held))
     \<and> count_of (scl_users l) (user_key org user) \<le> userLimit"
proof -
  have "slots_ok organizationLimit userLimit (ScopedConcurrencyLimiter organizationLimit userLimit, [])"
    using assms(1,2) by (simp add: slots_ok_def ScopedConcurrencyLimiter_def count_of_def held_by_def)
  from slots_run[OF this, of events] show ?thesis
    unfolding assms(3) by (simp add: slots_ok_def activeForOrganization_def held_by_def)
qed

theorem concurrency_slots_exact_witness:
  "\<exists>l held. fold slot_step [Acquire ''o'' ''u'', Acquire ''o'' ''u'', Acquire ''o'' ''v'', Release ''o'' ''u'']
       (ScopedConcurrencyLimiter 2 1, []) = (l, held)
     \<and> held = [(''o'', ''v'')] \<and> activeForOrganization ''o'' l = 1"
proof -
  let ?es = "[Acquire ''o'' ''u'', Acquire ''o'' ''u'', Acquire ''o'' ''v'', Release ''o'' ''u'']"
  obtain l held where r: "fold slot_step ?es (ScopedConcurrencyLimiter 2 1, []) = (l, held)" by fastforce
  have "snd (fold slot_step ?es (ScopedConcurrencyLimiter 2 1, [])) = [(''o'', ''v'')]" by code_simp
  then have h: "held = [(''o'', ''v'')]" using r by simp
  from concurrency_slots_exact[OF _ _ r, THEN conjunct1, of "''o''"] h
  have "activeForOrganization ''o'' l = 1" by simp
  with r h show ?thesis by blast
qed

text \<open>
  C37: A live token is accepted at most once before it expires: after \<open>consume\<close> accepted a token,
  every later call with the same token is refused as long as the clock has not reached its expiry.
\<close>

theorem live_token_single_use:
  assumes "replay_consume digest token expiresAt now g = (True, g1)"
    and "\<forall>(other, e, t) \<in> set calls. t < expiresAt" "later < expiresAt"
    and "g2 = fold (\<lambda>(other, e, t) g. snd (replay_consume digest other e t g)) calls g1"
  shows "fst (replay_consume digest token e' later g2) = False"
proof -
  have keep: "(digest token, expiresAt) \<in> set (rg_usedUntil (snd (replay_consume digest other e t h)))"
    if "(digest token, expiresAt) \<in> set (rg_usedUntil h)" "t < expiresAt" for other e t h
  proof -
    have kept: "(digest token, expiresAt) \<in> set (filter (\<lambda>(d, expiry). \<not> expiry \<le> t) (rg_usedUntil h))"
      using that by simp
    have "(digest token, expiresAt) \<in> set (AList.update (digest other) e ks)"
      if "(digest token, expiresAt) \<in> set ks" "digest other \<notin> fst ` set ks" for ks
      using that by (induction ks) (auto split: if_splits)
    then show ?thesis using kept by (simp add: replay_consume_def Let_def)
  qed
  have "(digest token, expiresAt) \<in> set (rg_usedUntil g1)"
    using assms(1) update_mem by (auto simp: replay_consume_def Let_def split: if_splits)
  then have "(digest token, expiresAt) \<in> set (rg_usedUntil g2)"
    unfolding assms(4) using assms(2)
    by (induction calls arbitrary: g1) (auto simp: keep)
  then have "digest token \<in> fst ` set (filter (\<lambda>(d, expiry). \<not> expiry \<le> later) (rg_usedUntil g2))"
    using assms(3) by force
  then show ?thesis by (simp add: replay_consume_def Let_def)
qed

theorem live_token_single_use_witness:
  "\<exists>g1. replay_consume id ''token'' 60 0 \<lparr>rg_usedUntil = []\<rparr> = (True, g1)
     \<and> fst (replay_consume id ''token'' 60 59 (snd (replay_consume id ''other'' 90 30 g1))) = False"
proof -
  have "fst (replay_consume id ''token'' 60 0 \<lparr>rg_usedUntil = []\<rparr>)" by code_simp
  then obtain g1 where g1: "replay_consume id ''token'' 60 0 \<lparr>rg_usedUntil = []\<rparr> = (True, g1)"
    by (metis prod.collapse)
  from live_token_single_use[OF g1, of "[(''other'', 90, 30)]" 59 _ 60] g1 show ?thesis by simp
qed

end
