(* ===== verification/Json.thy ===== *)
theory Json
  imports Protocol
begin

text \<open>
  The text \<open>JSON.stringify\<close> makes of the objects whose text the program hashes (the fingerprints of
  apps/server/src/sessions.ts): quoted strings with the escapes of the language standard, decimal
  integers, and objects with their keys in insertion order.  Absent optional properties leave no
  trace.  The texts are injective: two requests with one text are the same request.
\<close>

section \<open>Numbers and strings\<close>

fun decimal_digits :: "nat \<Rightarrow> string" where
  "decimal_digits n = (if n < 10 then [char_of (48 + n)] else decimal_digits (n div 10) @ [char_of (48 + n mod 10)])"

declare decimal_digits.simps [simp del]

definition json_int :: "int \<Rightarrow> string" where
  "json_int n = (if n < 0 then CHR ''-'' # decimal_digits (nat (- n)) else decimal_digits (nat n))"

definition quote :: char where
  "quote = char_of (34 :: nat)"

definition hex_digit :: "nat \<Rightarrow> char" where
  "hex_digit n = (if n < 10 then char_of (48 + n) else char_of (87 + n))"

text \<open>The escapes of a code unit: quote, backslash, the five short escapes, and \<open>u00xx\<close> below 32.\<close>

definition json_escape :: "char \<Rightarrow> string" where
  "json_escape c =
     (let n = of_char c :: nat in
      if c = quote then [backslash, quote]
      else if c = backslash then [backslash, backslash]
      else if n = 8 then [backslash, CHR ''b'']
      else if n = 9 then [backslash, CHR ''t'']
      else if n = 10 then [backslash, CHR ''n'']
      else if n = 12 then [backslash, CHR ''f'']
      else if n = 13 then [backslash, CHR ''r'']
      else if n < 32 then [backslash, CHR ''u'', CHR ''0'', CHR ''0'', hex_digit (n div 16), hex_digit (n mod 16)]
      else [c])"

text \<open>For evaluation: the same escapes with the code of the unit as a binary integer.\<close>

lemma json_escape_code [code]:
  "json_escape c =
     (if c = CHR 0x22 then [CHR 0x5C, CHR 0x22]
      else if c = CHR 0x5C then [CHR 0x5C, CHR 0x5C]
      else let n = of_char c :: int in
        if 32 \<le> n then [c]
        else if n = 8 then [CHR 0x5C, CHR ''b'']
        else if n = 9 then [CHR 0x5C, CHR ''t'']
        else if n = 10 then [CHR 0x5C, CHR ''n'']
        else if n = 12 then [CHR 0x5C, CHR ''f'']
        else if n = 13 then [CHR 0x5C, CHR ''r'']
        else [CHR 0x5C, CHR ''u'', CHR ''0'', CHR ''0'', hex_digit (nat (n div 16)), hex_digit (nat (n mod 16))])"
proof -
  have q: "quote = CHR 0x22" "backslash = CHR 0x5C"
    by (simp_all add: quote_def backslash_def char_of_def bit_iff_odd)
  define k :: nat where "k = of_char c"
  have n: "(of_char c :: int) = int k" by (simp add: k_def of_nat_of_char)
  have "nat (int k div 16) = k div 16" "nat (int k mod 16) = k mod 16" by (simp_all add: nat_div_distrib nat_mod_distrib)
  moreover have "(32 \<le> int k) = (32 \<le> k)" "(int k = 8) = (k = 8)" "(int k = 9) = (k = 9)" "(int k = 10) = (k = 10)"
    "(int k = 12) = (k = 12)" "(int k = 13) = (k = 13)" by linarith+
  ultimately show ?thesis
    unfolding json_escape_def Let_def n k_def[symmetric] q by auto
qed

lemma quote_code [code]: "quote = CHR 0x22"
  by (simp add: quote_def char_of_def bit_iff_odd)

definition json_string :: "string \<Rightarrow> string" where
  "json_string s = quote # concat (map json_escape s) @ [quote]"

section \<open>Objects\<close>

text \<open>Members that are present, each with the text of its value.\<close>

fun json_members :: "(string \<times> string) list \<Rightarrow> string" where
  "json_members [] = []"
| "json_members [(k, v)] = json_string k @ '':'' @ v"
| "json_members ((k, v) # m # ms) = json_string k @ '':'' @ v @ '','' @ json_members (m # ms)"

definition json_object :: "(string \<times> string) list \<Rightarrow> string" where
  "json_object ms = ''{'' @ json_members ms @ ''}''"

definition json_optional :: "string \<Rightarrow> string option \<Rightarrow> (string \<times> string) list" where
  "json_optional k v = (case v of None \<Rightarrow> [] | Some t \<Rightarrow> [(k, t)])"

section \<open>Texts can be read back\<close>

text \<open>A text is self-delimiting among others when what follows it does not matter for reading it.\<close>

definition cancels :: "('a \<Rightarrow> string) \<Rightarrow> bool" where
  "cancels f \<longleftrightarrow> (\<forall>a b r s. f a @ r = f b @ s \<longrightarrow> a = b \<and> r = s)"

lemma cancelsD: "cancels f \<Longrightarrow> f a @ r = f b @ s \<Longrightarrow> a = b \<and> r = s"
  by (simp add: cancels_def)

lemma cancels_inject: "cancels f \<Longrightarrow> f a = f b \<Longrightarrow> a = b"
  using cancelsD[of f a "[]" b "[]"] by simp

text \<open>One code unit is read back from its escape, whatever follows.\<close>

definition hex_value :: "char \<Rightarrow> nat" where
  "hex_value c = (let n = of_char c in if n < 60 then n - 48 else n - 87)"

lemma hex_value_digit: "n < 16 \<Longrightarrow> hex_value (hex_digit n) = n"
  by (simp add: hex_value_def hex_digit_def)

definition short_escape :: "char \<Rightarrow> char" where
  "short_escape e =
     (if e = CHR ''b'' then char_of (8 :: nat) else if e = CHR ''t'' then char_of (9 :: nat)
      else if e = CHR ''n'' then char_of (10 :: nat) else if e = CHR ''f'' then char_of (12 :: nat)
      else if e = CHR ''r'' then char_of (13 :: nat) else e)"

fun read_unit :: "string \<Rightarrow> char \<times> string" where
  "read_unit (x # y # r) =
     (if x \<noteq> backslash then (x, y # r)
      else if y = CHR ''u'' then (char_of (hex_value (r ! 2) * 16 + hex_value (r ! 3)), drop 4 r)
      else (short_escape y, r))"
| "read_unit [x] = (x, [])"
| "read_unit [] = (nul, [])"

lemma read_plain: "x \<noteq> backslash \<Longrightarrow> read_unit (x # r) = (x, r)"
  by (cases r) auto

lemma unit_codes: "quote = CHR 0x22" "backslash = CHR 0x5C"
  by (simp_all add: quote_code backslash_def char_of_def bit_iff_odd)

lemma short_escapes:
  "short_escape quote = quote" "short_escape backslash = backslash"
  "short_escape (CHR ''b'') = char_of (8 :: nat)" "short_escape (CHR ''t'') = char_of (9 :: nat)"
  "short_escape (CHR ''n'') = char_of (10 :: nat)" "short_escape (CHR ''f'') = char_of (12 :: nat)"
  "short_escape (CHR ''r'') = char_of (13 :: nat)"
  by (simp_all add: short_escape_def unit_codes)

lemma quote_not_u: "quote \<noteq> CHR ''u''" "backslash \<noteq> CHR ''u''" "quote \<noteq> backslash" "backslash \<noteq> quote"
  by (simp_all add: unit_codes)

lemma read_escape: "read_unit (json_escape c @ r) = (c, r)"
proof -
  define n :: nat where "n = of_char c"
  have c: "c = char_of n" by (simp add: n_def)
  consider "c = quote" | "c = backslash" | "n \<in> {8, 9, 10, 12, 13}" "c \<noteq> quote" "c \<noteq> backslash"
    | "n < 32" "n \<notin> {8, 9, 10, 12, 13}" "c \<noteq> quote" "c \<noteq> backslash"
    | "32 \<le> n" "c \<noteq> quote" "c \<noteq> backslash" by fastforce
  then show ?thesis
  proof cases
    case 3
    then consider "n = 8" | "n = 9" | "n = 10" | "n = 12" | "n = 13" by auto
    then show ?thesis
      by cases (use 3 c in \<open>simp_all add: json_escape_def n_def[symmetric] short_escapes\<close>)
  next
    case 4
    have "json_escape c = [backslash, CHR ''u'', CHR ''0'', CHR ''0'', hex_digit (n div 16), hex_digit (n mod 16)]"
      using 4 by (simp add: json_escape_def n_def[symmetric])
    moreover have "hex_value (hex_digit (n div 16)) = n div 16" "hex_value (hex_digit (n mod 16)) = n mod 16"
      using 4(1) by (simp_all add: hex_value_digit)
    moreover have "n div 16 * 16 + n mod 16 = n" by (rule div_mult_mod_eq)
    ultimately show ?thesis using c by simp
  next
    case 5
    then show ?thesis by (simp add: json_escape_def n_def[symmetric] read_plain)
  qed (simp_all add: json_escape_def short_escapes quote_not_u Let_def)
qed

lemma json_escape_cancels: "cancels json_escape"
  unfolding cancels_def by (metis read_escape prod.inject)

lemma json_escape_Cons: "\<exists>x xs. json_escape c = x # xs \<and> x \<noteq> quote"
  using quote_not_u by (auto simp: json_escape_def Let_def)

lemma escaped_cancels:
  "concat (map json_escape a) @ quote # r = concat (map json_escape b) @ quote # s \<Longrightarrow> a = b \<and> r = s"
proof (induction a arbitrary: b)
  case Nil
  then show ?case
  proof (cases b)
    case (Cons d b')
    obtain x xs where "json_escape d = x # xs" "x \<noteq> quote" using json_escape_Cons by blast
    with Nil Cons show ?thesis by simp
  qed simp
next
  case (Cons c a)
  show ?case
  proof (cases b)
    case Nil
    obtain x xs where "json_escape c = x # xs" "x \<noteq> quote" using json_escape_Cons by blast
    with Cons.prems Nil show ?thesis by simp
  next
    case (Cons d b')
    then have "json_escape c @ (concat (map json_escape a) @ quote # r)
        = json_escape d @ (concat (map json_escape b') @ quote # s)"
      using Cons.prems by simp
    from cancelsD[OF json_escape_cancels this] show ?thesis using Cons.IH[of b'] Cons by simp
  qed
qed

lemma json_string_cancels: "cancels json_string"
  unfolding cancels_def
proof (intro allI impI)
  fix a b r s
  assume "json_string a @ r = json_string b @ s"
  then have "concat (map json_escape a) @ quote # r = concat (map json_escape b) @ quote # s"
    by (simp add: json_string_def)
  then show "a = b \<and> r = s" by (rule escaped_cancels)
qed

lemma json_string_inject: "json_string a = json_string b \<Longrightarrow> a = b"
  by (rule cancels_inject[OF json_string_cancels])

text \<open>Numbers: equal texts before a unit that is no digit are equal numbers.\<close>

lemma decimal_digits_plain: "list_all (\<lambda>c. of_char c \<in> {48 .. 57 :: nat}) (decimal_digits n)"
proof (induction n rule: decimal_digits.induct)
  case (1 n)
  have "n mod 10 < 10" by simp
  then show ?case using 1 by (subst decimal_digits.simps) auto
qed

lemma decimal_digits_nonempty: "decimal_digits n \<noteq> []"
  by (subst decimal_digits.simps) simp

definition digits_value :: "string \<Rightarrow> nat" where
  "digits_value s = foldl (\<lambda>v c. v * 10 + (of_char c - 48)) 0 s"

lemma digits_value_digits: "digits_value (decimal_digits n) = n"
proof (induction n rule: decimal_digits.induct)
  case (1 n)
  have "n mod 10 < 10" by simp
  then show ?case using 1 by (subst decimal_digits.simps) (auto simp: digits_value_def)
qed

lemma takeWhile_digits:
  assumes "list_all (\<lambda>c. c \<noteq> x) u"
  shows "takeWhile (\<lambda>c. c \<noteq> x) (u @ x # r) = u"
  using assms by (induction u) auto

lemma json_int_no_delimiter: "list_all (\<lambda>c. c \<noteq> CHR 0x7D \<and> c \<noteq> CHR '','') (json_int n)"
proof -
  have "list_all (\<lambda>c. c \<noteq> CHR 0x7D \<and> c \<noteq> CHR '','') (decimal_digits k)" for k
    using decimal_digits_plain[of k] by (auto simp: list_all_iff)
  then show ?thesis by (simp add: json_int_def)
qed

lemma json_int_inject: "json_int a = json_int b \<longleftrightarrow> a = b"
proof
  have plain: "decimal_digits k \<noteq> CHR ''-'' # xs" for k xs
    using decimal_digits_plain[of k] by auto
  assume "json_int a = json_int b"
  then have "(a < 0) = (b < 0)" and "nat \<bar>a\<bar> = nat \<bar>b\<bar>"
    using plain plain[symmetric] digits_value_digits by (simp_all add: json_int_def split: if_splits) metis+
  then show "a = b" by (cases "a < 0") auto
qed simp

lemma json_int_delimited:
  "json_int a @ CHR 0x7D # r = json_int b @ CHR 0x7D # s \<longleftrightarrow> a = b \<and> r = s"
proof
  assume eq: "json_int a @ CHR 0x7D # r = json_int b @ CHR 0x7D # s"
  have "list_all (\<lambda>c. c \<noteq> CHR 0x7D) (json_int n)" for n
    using json_int_no_delimiter[of n] by (auto simp: list_all_iff)
  from takeWhile_digits[OF this, of a r] takeWhile_digits[OF this, of b s] eq
  have "json_int a = json_int b" by simp
  with eq show "a = b \<and> r = s" by (simp add: json_int_inject)
qed simp

lemma json_string_append: "json_string a @ r = json_string b @ s \<longleftrightarrow> a = b \<and> r = s"
  using cancelsD[OF json_string_cancels] by blast

lemmas json_cancel = json_string_append json_int_delimited json_int_inject

end
