(* ===== verification/Control.thy ===== *)
theory Control
  imports Session_Store Json
begin

text \<open>
  The pure parts of apps/server/src/control.ts: the schemas of the console's requests, live tokens,
  the decisions about origins and web keys, and the metadata the console may see.  Primitives of
  packages and of the runtime that the code only calls are parameters: \<open>hmac\<close> (SHA-256 HMAC of
  node:crypto, keyed), \<open>digest\<close> (SHA-256), \<open>json\<close> and \<open>parse_json\<close> (the text of a claims object and
  back), \<open>parse_url\<close> and \<open>known_time_zone\<close>.
\<close>

section \<open>Requests of the console\<close>

datatype logging_level = privacy_minimal | operational | diagnostic

record control_identity =
  cid_userId :: ident
  cid_role :: human_role
  cid_externalId :: ident
  cid_slug :: string
  cid_name :: string

definition lower_alnum :: "char \<Rightarrow> bool" where
  "lower_alnum c \<longleftrightarrow> (let n = of_char c :: nat in (97 \<le> n \<and> n \<le> 122) \<or> (48 \<le> n \<and> n \<le> 57))"

text \<open>\<open>^[a-z0-9][a-z0-9-]*$\<close>\<close>

definition slug_pattern :: "string \<Rightarrow> bool" where
  "slug_pattern s = (case s of [] \<Rightarrow> False | c # cs \<Rightarrow> lower_alnum c \<and> list_all (\<lambda>d. lower_alnum d \<or> d = CHR ''-'') cs)"

definition controlIdentitySchema :: "control_identity \<Rightarrow> control_identity option" where
  "controlIdentitySchema i =
     (case parse_trimmed 1 200 (cid_name i) of
        None \<Rightarrow> None
      | Some n \<Rightarrow>
          if length_between 1 256 (cid_userId i) \<and> length_between 1 256 (cid_externalId i)
             \<and> length_between 1 128 (cid_slug i) \<and> slug_pattern (cid_slug i)
          then Some (i\<lparr>cid_name := n\<rparr>) else None)"

definition controlUserSettingsSchema ::
    "(string \<Rightarrow> bool) \<Rightarrow> control_identity \<Rightarrow> string \<Rightarrow> (control_identity \<times> string) option" where
  "controlUserSettingsSchema known_time_zone i timeZone =
     (case (controlIdentitySchema i, parse_trimmed 1 128 timeZone) of
        (Some i', Some z) \<Rightarrow> if z = ''System'' \<or> known_time_zone z then Some (i', z) else None
      | _ \<Rightarrow> None)"

datatype organization_settings = Details string string | Logging logging_level

definition controlOrganizationSettingsSchema ::
    "control_identity \<Rightarrow> organization_settings \<Rightarrow> (control_identity \<times> organization_settings) option" where
  "controlOrganizationSettingsSchema i st =
     (case controlIdentitySchema i of
        None \<Rightarrow> None
      | Some i' \<Rightarrow>
          (case st of
             Details name seed \<Rightarrow>
               (case (parse_trimmed 1 96 name, parse_trimmed 1 128 seed) of
                  (Some n, Some s) \<Rightarrow> Some (i', Details n s) | _ \<Rightarrow> None)
           | Logging level \<Rightarrow> Some (i', Logging level)))"

definition revokeControlMachineSchema ::
    "(string \<Rightarrow> bool) \<Rightarrow> control_identity \<Rightarrow> ident \<Rightarrow> (control_identity \<times> ident) option" where
  "revokeControlMachineSchema uuid i machineId =
     (case controlIdentitySchema i of
        Some i' \<Rightarrow> if uuid machineId then Some (i', machineId) else None | None \<Rightarrow> None)"

definition updateControlMachineSchema ::
    "(string \<Rightarrow> bool) \<Rightarrow> control_identity \<Rightarrow> ident \<Rightarrow> string \<Rightarrow> string \<Rightarrow>
     (control_identity \<times> ident \<times> string \<times> string) option" where
  "updateControlMachineSchema uuid i machineId name description =
     (case (controlIdentitySchema i, parse_trimmed 1 128 name, parse_trimmed 0 280 description) of
        (Some i', Some n, Some d) \<Rightarrow> if uuid machineId then Some (i', machineId, n, d) else None
      | _ \<Rightarrow> None)"

definition deleteControlAgentSchema ::
    "(string \<Rightarrow> bool) \<Rightarrow> control_identity \<Rightarrow> ident \<Rightarrow> (control_identity \<times> ident) option" where
  "deleteControlAgentSchema uuid i agentId =
     (case controlIdentitySchema i of
        Some i' \<Rightarrow> if uuid agentId then Some (i', agentId) else None | None \<Rightarrow> None)"

definition updateControlAgentRoleSchema ::
    "(string \<Rightarrow> bool) \<Rightarrow> control_identity \<Rightarrow> ident \<Rightarrow> agent_role \<Rightarrow>
     (control_identity \<times> ident \<times> agent_role) option" where
  "updateControlAgentRoleSchema uuid i agentId role =
     (case controlIdentitySchema i of
        Some i' \<Rightarrow> if uuid agentId then Some (i', agentId, role) else None | None \<Rightarrow> None)"

section \<open>base64url\<close>

text \<open>
  The alphabet without padding.  The decoder of the runtime skips units that are in neither
  alphabet and drops an incomplete last group.
\<close>

definition to_url_unit :: "char \<Rightarrow> char" where
  "to_url_unit c = (if c = CHR ''+'' then CHR ''-'' else if c = CHR ''/'' then CHR ''_'' else c)"

definition from_url_unit :: "char \<Rightarrow> char" where
  "from_url_unit c = (if c = CHR ''-'' then CHR ''+'' else if c = CHR ''_'' then CHR ''/'' else c)"

definition base64url_encode :: "byte list \<Rightarrow> string" where
  "base64url_encode bs = map to_url_unit (filter (\<lambda>c. c \<noteq> CHR ''='') (base64_encode bs))"

definition pad_base64 :: "string \<Rightarrow> string" where
  "pad_base64 s =
     (let r = length s mod 4 in
      if r = 2 then s @ ''=='' else if r = 3 then s @ ''='' else if r = 1 then butlast s else s)"

definition base64url_decode :: "string \<Rightarrow> byte list" where
  "base64url_decode s =
     base64_decode (pad_base64 (filter b64_unit (map from_url_unit (takeWhile (\<lambda>c. c \<noteq> CHR ''='') s))))"

lemma to_from_url: "b64_unit c \<Longrightarrow> from_url_unit (to_url_unit c) = c \<and> to_url_unit c \<noteq> CHR ''=''"
  by (auto simp: to_url_unit_def from_url_unit_def b64_unit_not_pad b64_unit_def b64_value_def)

text \<open>An encoded text is a run of alphabet units followed by the padding its length asks for.\<close>

lemma pad_append:
  assumes "length g = 4" "length u mod 4 \<noteq> 1"
  shows "pad_base64 (g @ u) = g @ pad_base64 u"
proof -
  have "length (g @ u) mod 4 = length u mod 4" using assms(1) by simp
  then show ?thesis using assms(2) unfolding pad_base64_def Let_def by simp
qed

lemma base64_encode_shape:
  "\<exists>u. list_all b64_unit u \<and> base64_encode bs = pad_base64 u \<and> length u mod 4 \<noteq> 1"
proof (induction bs rule: base64_encode.induct)
  case 1
  show ?case by (rule exI[of _ "[]"]) (simp add: pad_base64_def)
next
  case (2 a)
  show ?case
    by (rule exI[of _ "[b64_char (unat a div 4), b64_char (unat a mod 4 * 16)]"])
      (use base64_single(1,2)[OF unat_byte_less[of a]] in \<open>simp add: pad_base64_def Let_def\<close>)
next
  case (3 a b)
  let ?n = "unat a * 256 + unat b"
  show ?case
    by (rule exI[of _ "[b64_char (?n div 1024), b64_char (?n div 16 mod 64), b64_char (?n mod 16 * 4)]"])
      (use base64_pair(1,2)[OF unat_byte_less[of a] unat_byte_less[of b]] in \<open>simp add: pad_base64_def Let_def\<close>)
next
  case (4 a b c r)
  let ?n = "unat a * 65536 + unat b * 256 + unat c"
  from 4 obtain u where u: "list_all b64_unit u" "base64_encode r = pad_base64 u" "length u mod 4 \<noteq> 1"
    by blast
  let ?g = "[b64_char (?n div 262144), b64_char (?n div 4096 mod 64), b64_char (?n div 64 mod 64), b64_char (?n mod 64)]"
  have "list_all b64_unit ?g"
    using base64_triple(1)[OF unat_byte_less[of a] unat_byte_less[of b] unat_byte_less[of c]]
    by (simp only: list.pred_inject b64_char_simps mod_less_divisor zero_less_numeral simp_thms)
  moreover have "pad_base64 (?g @ u) = ?g @ pad_base64 u" by (rule pad_append[OF _ u(3)]) simp
  moreover have "base64_encode (a # b # c # r) = ?g @ base64_encode r"
    by (simp only: base64_encode.simps Let_def append_Cons append_Nil)
  moreover have "length (?g @ u) mod 4 \<noteq> 1" using u(3) by (simp only: length_append list.size) simp
  ultimately show ?case using u by (intro exI[of _ "?g @ u"]) (simp only: list_all_append simp_thms)
qed

lemma filter_pad: "list_all b64_unit u \<Longrightarrow> length u mod 4 \<noteq> 1 \<Longrightarrow> filter (\<lambda>c. c \<noteq> CHR ''='') (pad_base64 u) = u"
  by (auto simp: pad_base64_def Let_def list_all_iff filter_id_conv b64_unit_not_pad)

lemma base64url_decode_encode: "base64url_decode (base64url_encode bs) = bs"
proof -
  obtain u where u: "list_all b64_unit u" "base64_encode bs = pad_base64 u" "length u mod 4 \<noteq> 1"
    using base64_encode_shape by blast
  have enc: "base64url_encode bs = map to_url_unit u"
    using filter_pad[OF u(1,3)] u(2) by (simp add: base64url_encode_def)
  have f1: "takeWhile (\<lambda>c. c \<noteq> CHR ''='') (map to_url_unit u) = map to_url_unit u"
    using u(1) to_from_url by (auto simp: takeWhile_eq_all_conv list_all_iff)
  have f2: "map from_url_unit (map to_url_unit u) = u"
    using u(1) to_from_url by (auto simp: list_all_iff intro!: map_idI)
  have f3: "filter b64_unit u = u" using u(1) by (simp add: filter_id_conv list_all_iff)
  show ?thesis
    by (simp only: base64url_decode_def enc f1 f2 f3 u(2)[symmetric] base64_decode_encode)
qed


lemma base64url_units: "list_all (\<lambda>c. b64_unit (from_url_unit c) \<and> c \<noteq> CHR ''='' \<and> c \<noteq> CHR ''.'') (base64url_encode bs)"
proof -
  obtain u where u: "list_all b64_unit u" "base64_encode bs = pad_base64 u" "length u mod 4 \<noteq> 1"
    using base64_encode_shape by blast
  have enc: "base64url_encode bs = map to_url_unit u"
    using filter_pad[OF u(1,3)] u(2) by (simp add: base64url_encode_def)
  have "to_url_unit c \<noteq> CHR ''.''" if "b64_unit c" for c
    using that by (auto simp: to_url_unit_def b64_unit_def b64_value_def)
  then show ?thesis using u(1) to_from_url by (auto simp: enc list_all_iff)
qed

lemma base64url_inject: "base64url_encode a = base64url_encode b \<Longrightarrow> a = b"
  using base64url_decode_encode by metis

lemma base64url_no_dot: "CHR ''.'' \<notin> set (base64url_encode bs)"
  using base64url_units[of bs] by (auto simp: list_all_iff)

section \<open>Live tokens\<close>

record live_claims =
  lc_organizationId :: ident
  lc_userId :: ident
  lc_nonce :: string
  lc_expiresAt :: instant

definition nonce_unit :: "char \<Rightarrow> bool" where
  "nonce_unit c \<longleftrightarrow> b64_unit (from_url_unit c) \<and> c \<noteq> CHR ''+'' \<and> c \<noteq> CHR ''/''"

definition controlLiveClaimsSchema :: "live_claims \<Rightarrow> bool" where
  "controlLiveClaimsSchema c \<longleftrightarrow>
     length_between 1 128 (lc_organizationId c) \<and> length_between 1 256 (lc_userId c) \<and>
     length_between 16 64 (lc_nonce c) \<and> list_all nonce_unit (lc_nonce c) \<and>
     0 < lc_expiresAt c \<and> safe_integer (lc_expiresAt c)"

definition CONTROL_LIVE_TOKEN_PREFIX :: string where
  "CONTROL_LIVE_TOKEN_PREFIX = ''ods_live_''"

definition MAX_CONTROL_LIVE_TOKEN_LENGTH :: nat where
  "MAX_CONTROL_LIVE_TOKEN_LENGTH = 2048"

text \<open>\<open>String.prototype.split(".")\<close>\<close>

fun split_dot :: "string \<Rightarrow> string list" where
  "split_dot [] = [[]]"
| "split_dot (c # cs) =
     (if c = CHR ''.'' then [] # split_dot cs
      else (case split_dot cs of [] \<Rightarrow> [[c]] | p # ps \<Rightarrow> (c # p) # ps))"

text \<open>
  The random bytes of the nonce are the argument \<open>random\<close>; \<open>json\<close> is the UTF-8 text of
  \<open>JSON.stringify\<close> on the claims.
\<close>

definition createControlLiveToken ::
    "(string \<Rightarrow> string \<Rightarrow> byte list) \<Rightarrow> (live_claims \<Rightarrow> byte list) \<Rightarrow> byte list \<Rightarrow>
     string \<Rightarrow> ident \<Rightarrow> ident \<Rightarrow> instant \<Rightarrow> int \<Rightarrow> string" where
  "createControlLiveToken hmac json random secret organizationId userId now lifetimeMilliseconds =
     (let payload = base64url_encode (json
            \<lparr>lc_organizationId = organizationId, lc_userId = userId,
             lc_nonce = base64url_encode random,
             lc_expiresAt = now + max 1000 (min lifetimeMilliseconds 60000)\<rparr>);
          signature = base64url_encode (hmac secret payload)
      in CONTROL_LIVE_TOKEN_PREFIX @ payload @ ''.'' @ signature)"

text \<open>
  \<open>parse_json\<close> is \<open>JSON.parse\<close> of a UTF-8 text, \<open>None\<close> where it throws or where the value has not
  the strict object type of the claims.
\<close>

definition verifyControlLiveToken ::
    "(string \<Rightarrow> string \<Rightarrow> byte list) \<Rightarrow> (byte list \<Rightarrow> live_claims option) \<Rightarrow>
     string \<Rightarrow> string \<Rightarrow> instant \<Rightarrow> live_claims option" where
  "verifyControlLiveToken hmac parse_json secret token now =
     (if MAX_CONTROL_LIVE_TOKEN_LENGTH < length token
         \<or> take (length CONTROL_LIVE_TOKEN_PREFIX) token \<noteq> CONTROL_LIVE_TOKEN_PREFIX then None
      else (case split_dot (drop (length CONTROL_LIVE_TOKEN_PREFIX) token) of
          [payload, signature] \<Rightarrow>
            if payload = [] \<or> signature = [] then None
            else let expected = hmac secret payload; provided = base64url_decode signature in
              if base64url_encode provided \<noteq> signature then None
              else if length provided \<noteq> length expected \<or> provided \<noteq> expected then None
              else (case parse_json (base64url_decode payload) of
                  None \<Rightarrow> None
                | Some claims \<Rightarrow>
                    if controlLiveClaimsSchema claims \<and> now < lc_expiresAt claims then Some claims else None)
        | _ \<Rightarrow> None))"

lemma split_dot_nonempty: "split_dot s \<noteq> []"
  by (induction s) (auto split: list.split)

lemma split_dot_plain: "CHR ''.'' \<notin> set s \<Longrightarrow> split_dot s = [s]"
  by (induction s) auto

lemma split_dot_pair: "CHR ''.'' \<notin> set p \<Longrightarrow> split_dot (p @ ''.'' @ s) = p # split_dot s"
  by (induction p) auto

lemma split_dot_one: "split_dot s = [p] \<Longrightarrow> s = p"
proof (induction s arbitrary: p)
  case (Cons c cs)
  then show ?case using split_dot_nonempty[of cs] by (auto split: if_splits list.splits)
qed simp

lemma split_dot_two: "split_dot s = [p, q] \<Longrightarrow> s = p @ ''.'' @ q"
proof (induction s arbitrary: p)
  case (Cons c cs)
  show ?case
  proof (cases "c = CHR ''.''")
    case True
    then have "p = []" "split_dot cs = [q]" using Cons.prems by auto
    then show ?thesis using True split_dot_one by simp
  next
    case False
    then obtain p' where "p = c # p'" "split_dot cs = [p', q]"
      using Cons.prems split_dot_nonempty[of cs] by (auto split: list.splits)
    then show ?thesis using Cons.IH by simp
  qed
qed simp

lemma nonce_of_random:
  assumes "length random = 18"
  shows "length_between 16 64 (base64url_encode random) \<and> list_all nonce_unit (base64url_encode random)"
proof -
  obtain u where u: "list_all b64_unit u" "base64_encode random = pad_base64 u" "length u mod 4 \<noteq> 1"
    using base64_encode_shape by blast
  have len: "length (base64_encode random) = 24" using assms by (simp add: length_base64_encode)
  have "length u = 24 \<or> length u = 22 \<or> length u = 23"
    using len u(2,3) by (auto simp: pad_base64_def Let_def split: if_splits)
  moreover have "base64url_encode random = map to_url_unit u"
    using filter_pad[OF u(1,3)] u(2) by (simp add: base64url_encode_def)
  moreover have "nonce_unit (to_url_unit c)" if "b64_unit c" for c
    using that to_from_url[OF that] by (auto simp: nonce_unit_def to_url_unit_def split: if_splits)
  ultimately show ?thesis using u(1) by (auto simp: length_between_def list_all_iff)
qed

text \<open>
  Live tokens round trip.  When JSON text parses back to the claims it was made from and the
  token fits the length the verifier reads, the token createControlLiveToken issues verifies under
  the same secret, until the clock reaches its expiry and not after: the verifier answers exactly
  the organization, the user, the nonce and the expiry, at most a minute after the creation
  whatever lifetime was asked for.
\<close>

theorem live_token_roundtrip:
  fixes hmac json parse_json random organizationId userId now lifetime
  defines "claims \<equiv> \<lparr>lc_organizationId = organizationId, lc_userId = userId,
             lc_nonce = base64url_encode random, lc_expiresAt = now + max 1000 (min lifetime 60000)\<rparr>"
  assumes json_law: "parse_json (json claims) = Some claims"
    and ids: "length_between 1 128 organizationId" "length_between 1 256 userId"
    and random: "length random = 18" and now: "0 \<le> now" "now + 60000 \<le> MAX_SAFE_INTEGER"
    and hmac_size: "\<And>p. hmac secret p \<noteq> []" and json_size: "json claims \<noteq> []"
    and fits: "length (createControlLiveToken hmac json random secret organizationId userId now lifetime) \<le> 2048"
  shows "verifyControlLiveToken hmac parse_json secret
           (createControlLiveToken hmac json random secret organizationId userId now lifetime) later =
         (if later < now + max 1000 (min lifetime 60000) then Some claims else None)
       \<and> lc_expiresAt claims \<le> now + 60000"
proof -
  define payload where "payload = base64url_encode (json claims)"
  define sig where "sig = base64url_encode (hmac secret payload)"
  have tok: "createControlLiveToken hmac json random secret organizationId userId now lifetime =
      CONTROL_LIVE_TOKEN_PREFIX @ payload @ ''.'' @ sig"
    by (simp add: createControlLiveToken_def Let_def payload_def sig_def claims_def)
  have len: "length (CONTROL_LIVE_TOKEN_PREFIX @ payload @ ''.'' @ sig) \<le> 2048"
    using fits unfolding tok by simp
  have split: "split_dot (payload @ ''.'' @ sig) = [payload, sig]"
    by (simp only: split_dot_pair[OF base64url_no_dot[of "json claims", folded payload_def]]
        split_dot_plain[OF base64url_no_dot[of "hmac secret payload", folded sig_def]])
  have e0: "base64url_encode [] = []" by (simp add: base64url_encode_def)
  have ne: "payload \<noteq> []" "sig \<noteq> []"
    using base64url_inject[of _ "[]"] hmac_size json_size by (auto simp: payload_def sig_def e0)
  have dec: "base64url_decode sig = hmac secret payload" "base64url_decode payload = json claims"
    by (simp_all add: sig_def payload_def base64url_decode_encode)
  have schema: "controlLiveClaimsSchema claims"
    using ids now nonce_of_random[OF random] by (auto simp: controlLiveClaimsSchema_def claims_def safe_integer_def)
  have "verifyControlLiveToken hmac parse_json secret (CONTROL_LIVE_TOKEN_PREFIX @ payload @ ''.'' @ sig) later =
      (if later < lc_expiresAt claims then Some claims else None)"
    using len split ne schema
    by (simp add: verifyControlLiveToken_def MAX_CONTROL_LIVE_TOKEN_LENGTH_def dec sig_def[symmetric] json_law)
  then show ?thesis unfolding tok by (simp add: claims_def)
qed


definition demo_hmac :: "string \<Rightarrow> string \<Rightarrow> byte list" where
  "demo_hmac secret p = (if p = ''byx1'' then [98, 121, 120] else map of_char (secret @ p))"

definition demo_json :: "live_claims \<Rightarrow> byte list" where
  "demo_json c = map of_char (lc_organizationId c @ '','' @ lc_userId c)"

definition demo_claims :: live_claims where
  "demo_claims = \<lparr>lc_organizationId = ''o'', lc_userId = ''u'',
                  lc_nonce = ''BwcHBwcHBwcHBwcHBwcHBwcH'', lc_expiresAt = 62000\<rparr>"

definition demo_parse :: "byte list \<Rightarrow> live_claims option" where
  "demo_parse b = (if b = demo_json demo_claims then Some demo_claims else None)"



definition demo_random :: "byte list" where
  "demo_random = [7, 7, 7, 7, 7, 7, 7, 7, 7, 7, 7, 7, 7, 7, 7, 7, 7, 7]"

lemma demo_chars:
  "char_of (98 :: nat) = CHR ''b''" "char_of (121 :: nat) = CHR ''y''" "char_of (120 :: nat) = CHR ''x''"
  "char_of (49 :: nat) = CHR ''1''" "char_of (66 :: nat) = CHR ''B''" "char_of (119 :: nat) = CHR ''w''"
  "char_of (99 :: nat) = CHR ''c''" "char_of (72 :: nat) = CHR ''H''" "char_of (89 :: nat) = CHR ''Y''"
  "char_of (110 :: nat) = CHR ''n''" "char_of (108 :: nat) = CHR ''l''" "char_of (52 :: nat) = CHR ''4''"
  by (simp_all add: char_of_def bit_iff_odd)

lemma demo_base64:
  "demo_json demo_claims = [111, 44, 117]"
  "base64url_encode [111, 44, 117] = ''byx1''" "base64url_encode [98, 121, 120] = ''Ynl4''"
  "base64url_encode [7, 7, 7, 7, 7, 7, 7, 7, 7, 7, 7, 7, 7, 7, 7, 7, 7, 7] = ''BwcHBwcHBwcHBwcHBwcHBwcH''"
  by (simp_all add: demo_json_def demo_claims_def base64url_encode_def Let_def b64_char_def to_url_unit_def
      demo_chars)

lemma demo_decode: "base64url_decode ''byx1'' = [111, 44, 117]" "base64url_decode ''Ynl4'' = [98, 121, 120]"
  by (simp_all only: demo_base64(2,3)[symmetric] base64url_decode_encode)

lemma demo_token_text:
  "createControlLiveToken demo_hmac demo_json (demo_random) ''key'' ''o'' ''u'' 2000 90000 = ''ods_live_byx1.Ynl4''"
proof -
  have "\<lparr>lc_organizationId = ''o'', lc_userId = ''u'', lc_nonce = base64url_encode (demo_random),
         lc_expiresAt = 2000 + max 1000 (min 90000 60000)\<rparr> = demo_claims"
    by (simp add: demo_claims_def demo_base64(4) demo_random_def)
  then show ?thesis
    by (simp add: createControlLiveToken_def Let_def CONTROL_LIVE_TOKEN_PREFIX_def demo_base64(1-3) demo_hmac_def)
qed

theorem live_token_roundtrip_witness:
  "verifyControlLiveToken demo_hmac demo_parse ''key'' ''ods_live_byx1.Ynl4'' 5000 = Some demo_claims"
proof -
  have claims: "\<lparr>lc_organizationId = ''o'', lc_userId = ''u'', lc_nonce = base64url_encode (demo_random),
         lc_expiresAt = 2000 + max 1000 (min 90000 60000)\<rparr> = demo_claims"
    by (simp add: demo_claims_def demo_base64(4) demo_random_def)
  have law: "demo_parse (demo_json demo_claims) = Some demo_claims" by (simp add: demo_parse_def)
  have sizes: "demo_hmac ''key'' p \<noteq> []" "demo_json demo_claims \<noteq> []" for p
    by (simp_all add: demo_hmac_def demo_base64)
  have len: "length_between 1 128 ''o''" "length_between 1 256 ''u''" "length (demo_random) = 18"
    by (simp_all add: length_between_def demo_random_def)
  note roundtrip = live_token_roundtrip[where parse_json = demo_parse and json = demo_json and hmac = demo_hmac
      and organizationId = "''o''" and userId = "''u''" and random = "demo_random" and now = 2000
      and lifetime = 90000 and secret = "''key''" and later = 5000, unfolded claims demo_token_text]
  show ?thesis using roundtrip[OF law len _ _ sizes(1) sizes(2)] by (simp add: MAX_SAFE_INTEGER_def)
qed

text \<open>What an accepted token has passed, check by check.\<close>

lemma verify_accepts:
  assumes "verifyControlLiveToken hmac parse_json secret token now = Some c"
  shows "length token \<le> 2048 \<and> take (length CONTROL_LIVE_TOKEN_PREFIX) token = CONTROL_LIVE_TOKEN_PREFIX"
    and "\<exists>payload signature. split_dot (drop (length CONTROL_LIVE_TOKEN_PREFIX) token) = [payload, signature]
           \<and> base64url_encode (base64url_decode signature) = signature
           \<and> base64url_decode signature = hmac secret payload
           \<and> parse_json (base64url_decode payload) = Some c
           \<and> controlLiveClaimsSchema c \<and> now < lc_expiresAt c"
proof -
  define parts where "parts = split_dot (drop (length CONTROL_LIVE_TOKEN_PREFIX) token)"
  note def = assms[unfolded verifyControlLiveToken_def MAX_CONTROL_LIVE_TOKEN_LENGTH_def Let_def, folded parts_def]
  show 1: "length token \<le> 2048 \<and> take (length CONTROL_LIVE_TOKEN_PREFIX) token = CONTROL_LIVE_TOKEN_PREFIX"
    using def by (simp only: split: if_splits) auto
  obtain p s where ps: "parts = [p, s]" using def 1
    by (cases parts rule: remdups_adj.cases) (auto split: list.splits)
  have "base64url_encode (base64url_decode s) = s \<and> base64url_decode s = hmac secret p
      \<and> (case parse_json (base64url_decode p) of None \<Rightarrow> False
         | Some d \<Rightarrow> d = c \<and> controlLiveClaimsSchema d \<and> now < lc_expiresAt d)"
    using def 1 unfolding ps by (simp split: if_splits option.splits)
  then show "\<exists>payload signature. parts = [payload, signature]
           \<and> base64url_encode (base64url_decode signature) = signature
           \<and> base64url_decode signature = hmac secret payload
           \<and> parse_json (base64url_decode payload) = Some c
           \<and> controlLiveClaimsSchema c \<and> now < lc_expiresAt c"
    using ps by (auto split: option.splits)
qed

text \<open>
  C15: Live tokens cannot be forged or altered.  Whatever string a browser presents, the verifier
  answers claims only for a token that is byte for byte the prefix, a payload and the canonical
  base64url text of the keyed hash of that payload; the claims are those of the payload, within the
  schema's bounds and not yet expired.  The token is thus determined by its payload, so an accepted
  token has no second spelling the replay guard would take for a new one.
\<close>

theorem live_token_authentic:
  assumes ok: "verifyControlLiveToken hmac parse_json secret token now = Some c"
  shows "\<exists>payload. token = CONTROL_LIVE_TOKEN_PREFIX @ payload @ ''.'' @ base64url_encode (hmac secret payload)
       \<and> parse_json (base64url_decode payload) = Some c
       \<and> controlLiveClaimsSchema c \<and> now < lc_expiresAt c \<and> length token \<le> 2048"
proof -
  obtain payload signature where s: "split_dot (drop (length CONTROL_LIVE_TOKEN_PREFIX) token) = [payload, signature]"
    and sig: "signature = base64url_encode (hmac secret payload)"
    and rest: "parse_json (base64url_decode payload) = Some c" "controlLiveClaimsSchema c" "now < lc_expiresAt c"
    using verify_accepts(2)[OF ok] by metis
  have "token = CONTROL_LIVE_TOKEN_PREFIX @ drop (length CONTROL_LIVE_TOKEN_PREFIX) token"
    using verify_accepts(1)[OF ok] append_take_drop_id by metis
  moreover note split_dot_two[OF s] sig
  ultimately show ?thesis using rest verify_accepts(1)[OF ok] by metis
qed

theorem live_token_authentic_witness:
  "\<exists>payload. ''ods_live_byx1.Ynl4'' = CONTROL_LIVE_TOKEN_PREFIX @ payload @ ''.'' @ base64url_encode (demo_hmac ''key'' payload)
       \<and> demo_parse (base64url_decode payload) = Some demo_claims
       \<and> controlLiveClaimsSchema demo_claims \<and> 5000 < lc_expiresAt demo_claims
       \<and> length ''ods_live_byx1.Ynl4'' \<le> 2048"
proof -
  have nonce: "list_all nonce_unit (lc_nonce demo_claims) \<and> length_between 16 64 (lc_nonce demo_claims)"
    using nonce_of_random[of demo_random] by (simp add: demo_base64(4) demo_random_def demo_claims_def)
  then have schema: "controlLiveClaimsSchema demo_claims"
    by (simp add: controlLiveClaimsSchema_def)
       (simp add: demo_claims_def length_between_def safe_integer_def MAX_SAFE_INTEGER_def)
  have exp: "lc_expiresAt demo_claims = 62000" by (simp add: demo_claims_def)
  have "verifyControlLiveToken demo_hmac demo_parse ''key'' ''ods_live_byx1.Ynl4'' 5000 = Some demo_claims"
    by (simp add: verifyControlLiveToken_def MAX_CONTROL_LIVE_TOKEN_LENGTH_def CONTROL_LIVE_TOKEN_PREFIX_def Let_def
        demo_decode demo_base64 demo_hmac_def demo_parse_def schema exp)
  from live_token_authentic[OF this] show ?thesis .
qed

section \<open>Origins, web keys and metadata\<close>

datatype origin_decision = Origin_allowed | Origin_denied | Origin_disabled

text \<open>\<open>!value\<close> on an optional string: absent or empty.\<close>

definition falsy :: "string option \<Rightarrow> bool" where
  "falsy v \<longleftrightarrow> v = None \<or> v = Some []"

definition controlLiveOriginDecision :: "string option \<Rightarrow> string option \<Rightarrow> origin_decision" where
  "controlLiveOriginDecision configuredOrigin requestOrigin =
     (if falsy configuredOrigin then Origin_disabled
      else if requestOrigin = configuredOrigin then Origin_allowed else Origin_denied)"

datatype metadata_value = M_int int | M_number | M_bool bool | M_text string | M_other

definition safe_count :: "metadata_value option \<Rightarrow> string option" where
  "safe_count v = (case v of Some (M_int n) \<Rightarrow> if 0 \<le> n \<and> n \<le> MAX_SAFE_INTEGER then Some (decimal_digits (nat n)) else None | _ \<Rightarrow> None)"

definition safe_flag :: "metadata_value option \<Rightarrow> string option" where
  "safe_flag v = (case v of Some (M_bool b) \<Rightarrow> Some (if b then ''true'' else ''false'') | _ \<Rightarrow> None)"

definition put_some :: "string \<Rightarrow> string option \<Rightarrow> (string \<times> string) list" where
  "put_some key v = (case v of None \<Rightarrow> [] | Some s \<Rightarrow> [(key, s)])"

text \<open>The result's own properties, in the order the code sets them.\<close>

definition privacySafeControlMetadata :: "(string \<rightharpoonup> metadata_value) \<Rightarrow> (string \<times> string) list" where
  "privacySafeControlMetadata metadata =
     put_some ''revokedSessions'' (safe_count (metadata ''revokedSessions''))
     @ put_some ''deletedAgents'' (safe_count (metadata ''deletedAgents''))
     @ put_some ''disconnected'' (safe_flag (metadata ''disconnected''))"

record web_environment =
  we_ODYSHELL_WEB_KEY :: "string option"
  we_ODYSHELL_WEB_URL :: "string option"
  we_NODE_ENV :: "string option"

definition in_production :: "web_environment \<Rightarrow> bool" where
  "in_production env \<longleftrightarrow> we_NODE_ENV env = Some ''production''"

definition controlWebKey :: "web_environment \<Rightarrow> exn + string option" where
  "controlWebKey env =
     (case we_ODYSHELL_WEB_KEY env of
        None \<Rightarrow> Inr None
      | Some value \<Rightarrow>
          if value = [] then Inr None
          else if in_production env \<and> length value < 32
          then Inl (Exn ''ODYSHELL_WEB_KEY must contain at least 32 characters in production'')
          else Inr (Some value))"

datatype web_decision = Web_authorized | Web_disabled | Web_unauthorized

definition controlWebRequestDecision ::
    "(string \<Rightarrow> byte list) \<Rightarrow> string option \<Rightarrow> string option \<Rightarrow> web_decision" where
  "controlWebRequestDecision digest expected provided =
     (if falsy expected then Web_disabled
      else if falsy provided then Web_unauthorized
      else if digest (the expected) = digest (the provided) then Web_authorized else Web_unauthorized)"

record web_url =
  url_protocol :: string
  url_hostname :: string
  url_origin :: string

definition isLoopback :: "web_url \<Rightarrow> bool" where
  "isLoopback u \<longleftrightarrow> url_hostname u \<in> {''localhost'', ''127.0.0.1'', ''[::1]''}"

text \<open>\<open>parse_url\<close> is the constructor of \<open>URL\<close>, \<open>None\<close> where it throws.\<close>

definition controlWebUrl ::
    "(string \<Rightarrow> web_url option) \<Rightarrow> web_environment \<Rightarrow> bool \<Rightarrow> exn + string option" where
  "controlWebUrl parse_url env controlEnabled =
     (if \<not> controlEnabled then Inr None
      else let value = (case we_ODYSHELL_WEB_URL env of
                 Some v \<Rightarrow> Some v
               | None \<Rightarrow> if in_production env then None else Some ''http://localhost:3000'') in
        if falsy value then Inl (Exn ''ODYSHELL_WEB_URL is required when control authentication is enabled'')
        else (case parse_url (the value) of
            None \<Rightarrow> Inl (Exn ''Invalid URL'')
          | Some url \<Rightarrow>
              if in_production env \<and> url_protocol url \<noteq> ''https:'' \<and> \<not> isLoopback url
              then Inl (Exn ''ODYSHELL_WEB_URL must use HTTPS in production'')
              else Inr (Some (url_origin url))))"

lemma put_some_mem: "(k, v) \<in> set (put_some key x) \<longleftrightarrow> k = key \<and> x = Some v"
  by (auto simp: put_some_def split: option.splits)

lemma put_some_keys: "map fst (put_some key x) = (if x = None then [] else [key])"
  by (simp add: put_some_def split: option.split)

lemma safe_count_SomeD:
  assumes "safe_count x = Some v"
  shows "list_all (\<lambda>c. of_char c \<in> {48 .. 57 :: nat}) v \<and> (\<exists>n \<ge> 0. x = Some (M_int n))"
proof (cases x)
  case None
  with assms show ?thesis by (simp add: safe_count_def)
next
  case (Some w)
  show ?thesis
  proof (cases w)
    case (M_int n)
    with assms Some have "0 \<le> n" "v = decimal_digits (nat n)"
      by (simp_all only: safe_count_def option.case metadata_value.case split: if_splits) auto
    with Some M_int decimal_digits_plain show ?thesis by blast
  qed (use assms Some in \<open>simp_all add: safe_count_def\<close>)
qed

lemma safe_flag_SomeD:
  assumes "safe_flag x = Some v"
  shows "\<exists>b. x = Some (M_bool b) \<and> v = (if b then ''true'' else ''false'')"
proof (cases x)
  case None
  with assms show ?thesis by (simp add: safe_flag_def)
next
  case (Some w)
  show ?thesis
  proof (cases w)
    case (M_bool b)
    with assms Some show ?thesis by (simp only: safe_flag_def option.case metadata_value.case) blast
  qed (use assms Some in \<open>simp_all add: safe_flag_def\<close>)
qed

text \<open>
  Audit metadata leaks nothing into the console.  Whatever an audit event carries, the metadata
  the console is shown has only the three keys revokedSessions, deletedAgents and disconnected, each
  at most once; the counts are decimal numbers and the flag is true or false, so no free text of the
  event can reach it.
\<close>

theorem console_metadata_is_private:
  "distinct (map fst (privacySafeControlMetadata metadata))
   \<and> (\<forall>key value. (key, value) \<in> set (privacySafeControlMetadata metadata) \<longrightarrow>
        (key \<in> {''revokedSessions'', ''deletedAgents''} \<and> list_all (\<lambda>c. of_char c \<in> {48 .. 57 :: nat}) value
           \<and> (\<exists>n \<ge> 0. metadata key = Some (M_int n)))
        \<or> (key = ''disconnected'' \<and> (\<exists>b. metadata key = Some (M_bool b)
             \<and> value = (if b then ''true'' else ''false''))))"
proof (intro conjI allI impI)
  show "distinct (map fst (privacySafeControlMetadata metadata))"
    by (simp add: privacySafeControlMetadata_def put_some_keys)
next
  fix key v
  assume "(key, v) \<in> set (privacySafeControlMetadata metadata)"
  then consider "key \<in> {''revokedSessions'', ''deletedAgents''}" "safe_count (metadata key) = Some v"
    | "key = ''disconnected''" "safe_flag (metadata key) = Some v"
    unfolding privacySafeControlMetadata_def set_append Un_iff put_some_mem by blast
  then show "(key \<in> {''revokedSessions'', ''deletedAgents''} \<and> list_all (\<lambda>c. of_char c \<in> {48 .. 57 :: nat}) v
           \<and> (\<exists>n \<ge> 0. metadata key = Some (M_int n)))
        \<or> (key = ''disconnected'' \<and> (\<exists>b. metadata key = Some (M_bool b)
             \<and> v = (if b then ''true'' else ''false'')))"
    using safe_count_SomeD safe_flag_SomeD by cases blast+
qed

definition demo_metadata :: "string \<rightharpoonup> metadata_value" where
  "demo_metadata = [''revokedSessions'' \<mapsto> M_int 12, ''command'' \<mapsto> M_text ''rm -rf /'', ''disconnected'' \<mapsto> M_bool True]"

lemma demo_metadata_shown:
  "privacySafeControlMetadata demo_metadata = [(''revokedSessions'', ''12''), (''disconnected'', ''true'')]"
  by (simp add: privacySafeControlMetadata_def demo_metadata_def put_some_def safe_count_def safe_flag_def
      MAX_SAFE_INTEGER_def decimal_digits.simps demo_chars char_of_def bit_iff_odd)

theorem console_metadata_is_private_witness:
  "(''revokedSessions'', ''12'') \<in> set (privacySafeControlMetadata demo_metadata)
   \<and> (\<exists>n \<ge> 0. demo_metadata ''revokedSessions'' = Some (M_int n))"
  using console_metadata_is_private[of demo_metadata] by (simp add: demo_metadata_shown)

text \<open>
  The web gate in production.  When the environment is production, the key the server starts with
  is absent or at least 32 characters, and the origin it trusts is that of an https URL or of a
  loopback host.  With a key, a request is authorized exactly when it presents a key with the same
  digest; without one every request is answered disabled; a live connection is allowed only from the
  configured origin, and never when none is configured.
\<close>

theorem web_gate:
  assumes prod: "in_production env"
    and key: "controlWebKey env = Inr expected" and url: "controlWebUrl parse_url env True = Inr origin"
  shows "(\<forall>k. expected = Some k \<longrightarrow> 32 \<le> length k)
    \<and> (\<exists>v u. we_ODYSHELL_WEB_URL env = Some v \<and> parse_url v = Some u \<and> origin = Some (url_origin u)
         \<and> (url_protocol u = ''https:'' \<or> isLoopback u))
    \<and> (controlWebRequestDecision digest expected provided =
         (case expected of
            None \<Rightarrow> Web_disabled
          | Some k \<Rightarrow> if \<exists>p. provided = Some p \<and> p \<noteq> [] \<and> digest p = digest k then Web_authorized
                      else Web_unauthorized))
    \<and> (controlLiveOriginDecision origin request = Origin_allowed \<longleftrightarrow> \<not> falsy origin \<and> request = origin)"
proof (intro conjI)
  show len: "\<forall>k. expected = Some k \<longrightarrow> 32 \<le> length k"
    using key prod by (auto simp: controlWebKey_def split: option.splits if_splits)
  show "\<exists>v u. we_ODYSHELL_WEB_URL env = Some v \<and> parse_url v = Some u \<and> origin = Some (url_origin u)
         \<and> (url_protocol u = ''https:'' \<or> isLoopback u)"
    using url prod by (auto simp: controlWebUrl_def Let_def falsy_def split: option.splits if_splits)
  show "controlWebRequestDecision digest expected provided =
         (case expected of
            None \<Rightarrow> Web_disabled
          | Some k \<Rightarrow> if \<exists>p. provided = Some p \<and> p \<noteq> [] \<and> digest p = digest k then Web_authorized
                      else Web_unauthorized)"
    using len by (cases expected; cases provided) (auto simp: controlWebRequestDecision_def falsy_def)
  show "controlLiveOriginDecision origin request = Origin_allowed \<longleftrightarrow> \<not> falsy origin \<and> request = origin"
    by (auto simp: controlLiveOriginDecision_def)
qed

definition demo_environment :: web_environment where
  "demo_environment = \<lparr>we_ODYSHELL_WEB_KEY = Some ''0123456789abcdef0123456789abcdef'',
     we_ODYSHELL_WEB_URL = Some ''https://o.example'', we_NODE_ENV = Some ''production''\<rparr>"

definition demo_parse_url :: "string \<Rightarrow> web_url option" where
  "demo_parse_url s = (if take 8 s = ''https://'' then Some
     \<lparr>url_protocol = ''https:'', url_hostname = drop 8 s, url_origin = s\<rparr> else None)"

theorem web_gate_witness:
  "controlWebRequestDecision (map of_char) (Some ''0123456789abcdef0123456789abcdef'') (Some ''guess'') = Web_unauthorized
   \<and> controlLiveOriginDecision (Some ''https://o.example'') (Some ''https://p.example'') \<noteq> Origin_allowed"
proof -
  have env: "in_production demo_environment"
    "controlWebKey demo_environment = Inr (Some ''0123456789abcdef0123456789abcdef'')"
    "controlWebUrl demo_parse_url demo_environment True = Inr (Some ''https://o.example'')"
    by (simp_all add: demo_environment_def in_production_def controlWebKey_def controlWebUrl_def demo_parse_url_def
        falsy_def)
  show ?thesis
    using web_gate[OF env, of "map of_char" "Some ''guess''" "Some ''https://p.example''"] by simp
qed

end
