(* ===== verification/Session_Service.thy ===== *)
theory Session_Service
  imports Session_Properties Json
begin

text \<open>
  The session service, apps/server/src/sessions.ts: admission of Sessions and Commands under the
  Machine's authority, supervision, closing and cancellation.  A method is a function on the
  session database and on the state of the \<open>SessionClient\<close> it was constructed with; what it has
  written stays written when a later call throws, as in the code, where each repository call is a
  transaction of its own.  The random id and the clock readings are arguments; \<open>hash\<close> is the
  hexadecimal SHA-256 of node:crypto.
\<close>

section \<open>Principals and the client interface\<close>

record agent_principal =
  ap_organizationId :: ident
  ap_agentId :: ident
  ap_agentRole :: agent_role

record supervisor_principal =
  sp_organizationId :: ident
  sp_humanId :: ident
  sp_role :: human_role

text \<open>The four calls of \<open>SessionClient\<close>, on the client's own state; \<open>Some\<close> is a throw.\<close>

record 'c session_client =
  sc_openSession :: "session \<Rightarrow> 'c \<Rightarrow> exn option \<times> 'c"
  sc_startCommand :: "command \<Rightarrow> 'c \<Rightarrow> exn option \<times> 'c"
  sc_closeSession :: "session \<Rightarrow> string \<Rightarrow> 'c \<Rightarrow> exn option \<times> 'c"
  sc_cancelCommand :: "command \<Rightarrow> 'c \<Rightarrow> exn option \<times> 'c"

section \<open>Fingerprints\<close>

definition principal_text :: "ident \<Rightarrow> ident \<Rightarrow> string" where
  "principal_text organizationId agentId =
     json_object [(''organizationId'', json_string organizationId), (''agentId'', json_string agentId)]"

definition session_request_text :: "session_request \<Rightarrow> string" where
  "session_request_text r =
     json_object ([(''machineId'', json_string (sr_machineId r)), (''title'', json_string (sr_title r))]
       @ json_optional ''purpose'' (map_option json_string (sr_purpose r))
       @ [(''durationSeconds'', json_int (sr_durationSeconds r))])"

definition command_request_text :: "command_request \<Rightarrow> string" where
  "command_request_text r =
     json_object ([(''command'', json_string (cr_command r))]
       @ json_optional ''cwd'' (map_option json_string (cr_cwd r))
       @ [(''timeoutSeconds'', json_int (cr_timeoutSeconds r))])"

definition session_text :: "agent_principal \<Rightarrow> session_request \<Rightarrow> string" where
  "session_text p r =
     json_object [(''principal'', principal_text (ap_organizationId p) (ap_agentId p)),
                  (''request'', session_request_text r)]"

definition session_fingerprint :: "(string \<Rightarrow> string) \<Rightarrow> agent_principal \<Rightarrow> session_request \<Rightarrow> string" where
  "session_fingerprint hash p r = hash (session_text p r)"

definition command_text :: "agent_principal \<Rightarrow> ident \<Rightarrow> command_request \<Rightarrow> string" where
  "command_text p sessionId r =
     json_object [(''principal'', principal_text (ap_organizationId p) (ap_agentId p)),
                  (''sessionId'', json_string sessionId),
                  (''request'', command_request_text r)]"

definition command_fingerprint ::
    "(string \<Rightarrow> string) \<Rightarrow> agent_principal \<Rightarrow> ident \<Rightarrow> command_request \<Rightarrow> string" where
  "command_fingerprint hash p sessionId r = hash (command_text p sessionId r)"

section \<open>Requesting a Session\<close>

datatype request_denial =
    Request_machine_not_found | Request_machine_offline | Request_organization_denied
  | Request_supervision_denied | Request_duration_denied | Request_session_concurrency_denied
  | Request_command_concurrency_denied | Request_idempotency_conflict

datatype request_result =
  Request_created session | Request_replayed session | Request_denied request_denial

text \<open>The checks between the replay and the creation, in the order of the code.\<close>

definition admission_denial ::
    "agent_principal \<Rightarrow> session_request \<Rightarrow> session_db \<Rightarrow> request_denial + machine_authority" where
  "admission_denial p request db =
     (case machineAuthority (ap_organizationId p) (sr_machineId request) db of
        None \<Rightarrow> Inl Request_machine_not_found
      | Some machine \<Rightarrow>
          let policy = ma_localPolicy machine in
          if ma_organizationId machine \<noteq> ap_organizationId p then Inl Request_organization_denied
          else if \<not> ma_online machine then Inl Request_machine_offline
          else if lp_organizationId policy \<noteq> ap_organizationId p then Inl Request_organization_denied
          else if sr_durationSeconds request > lp_maxSessionDurationSeconds policy
          then Inl Request_duration_denied
          else if countActiveSessions (ap_organizationId p) (sr_machineId request) db
                    \<ge> lp_maxConcurrentSessions policy
          then Inl Request_session_concurrency_denied
          else if lp_maxConcurrentCommands policy < 1 then Inl Request_command_concurrency_denied
          else if ap_agentRole p \<noteq> operator \<and> \<not> lp_allowRemoteApproval policy
          then Inl Request_supervision_denied
          else Inr machine)"

definition requested_session ::
    "agent_principal \<Rightarrow> session_request \<Rightarrow> machine_authority \<Rightarrow> ident \<Rightarrow> instant \<Rightarrow> session" where
  "requested_session p request machine sessionId now =
     \<lparr>ses_id = sessionId, ses_organizationId = ap_organizationId p, ses_agentId = ap_agentId p,
      ses_machineId = sr_machineId request, ses_clientProfileId = ma_clientProfileId machine,
      ses_operatingSystemUser = ma_operatingSystemUser machine, ses_title = sr_title request,
      ses_purpose = sr_purpose request,
      ses_status = (if ap_agentRole p = operator then S_opening else S_pending_approval),
      ses_maxConcurrentCommands = lp_maxConcurrentCommands (ma_localPolicy machine),
      ses_createdAt = now, ses_readyAt = None,
      ses_expiresAt = now + sr_durationSeconds request * 1000, ses_finishedAt = None\<rparr>"

definition requested_event :: "agent_principal \<Rightarrow> session_request \<Rightarrow> session \<Rightarrow> session_event" where
  "requested_event p request s =
     \<lparr>sev_organizationId = ses_organizationId s, sev_agentId = ses_agentId s, sev_sessionId = ses_id s,
      sev_commandId = None, sev_type = session_requested,
      sev_metadata = Meta_requested (ses_machineId s) (ses_clientProfileId s)
        (ses_operatingSystemUser s) (sr_durationSeconds request) (ap_agentRole p)
        (ap_agentRole p = operator)\<rparr>"

definition requestSession ::
    "(string \<Rightarrow> string) \<Rightarrow> 'c session_client \<Rightarrow> agent_principal \<Rightarrow> session_request \<Rightarrow> string \<Rightarrow>
     ident \<Rightarrow> instant \<Rightarrow> session_db \<Rightarrow> 'c \<Rightarrow> (exn + request_result) \<times> session_db \<times> 'c" where
  "requestSession hash client p request idempotencyKey freshId now db c =
     (let keyHash = hash idempotencyKey; fp = session_fingerprint hash p request in
      case sessionByIdempotency (ap_organizationId p) (ap_agentId p) keyHash db of
        Some (existing, fp') \<Rightarrow>
          (Inr (if fp' = fp then Request_replayed existing
                else Request_denied Request_idempotency_conflict), db, c)
      | None \<Rightarrow>
          (case admission_denial p request db of
             Inl d \<Rightarrow> (Inr (Request_denied d), db, c)
           | Inr machine \<Rightarrow>
               let s = requested_session p request machine freshId now in
               (case createSession s keyHash fp db of
                  (Idempotency_conflict, db1) \<Rightarrow> (Inr (Request_denied Request_idempotency_conflict), db1, c)
                | (Replayed existing, db1) \<Rightarrow> (Inr (Request_replayed existing), db1, c)
                | (Created _, db1) \<Rightarrow>
                    let db2 = append_event (requested_event p request s) now db1 in
                    if ses_status s = S_opening
                    then (case sc_openSession client s c of
                            (Some e, c') \<Rightarrow> (Inl e, db2, c')
                          | (None, c') \<Rightarrow> (Inr (Request_created s), db2, c'))
                    else (Inr (Request_created s), db2, c))))"

section \<open>Creating a Command\<close>

datatype command_creation_denial =
    Create_session_not_found | Create_session_agent_denied | Create_decision command_denial
  | Create_command_concurrency_denied | Create_idempotency_conflict

datatype create_command_result =
  Command_created command | Command_replayed command | Command_denied command_creation_denial

definition command_admission ::
    "agent_principal \<Rightarrow> ident \<Rightarrow> command_request \<Rightarrow> instant \<Rightarrow> session_db \<Rightarrow>
     command_creation_denial + session \<times> int" where
  "command_admission p sessionId request now db =
     (case session_lookup (ap_organizationId p) sessionId db of
        None \<Rightarrow> Inl Create_session_not_found
      | Some session \<Rightarrow>
          if ses_agentId session \<noteq> ap_agentId p then Inl Create_session_agent_denied
          else (case machineAuthority (ap_organizationId p) (ses_machineId session) db of
              None \<Rightarrow> Inl Create_session_not_found
            | Some machine \<Rightarrow>
                (case commandDecision session (cr_timeoutSeconds request)
                        (lp_maxCommandTimeoutSeconds (ma_localPolicy machine)) now of
                   Inl d \<Rightarrow> Inl (Create_decision d)
                 | Inr timeout \<Rightarrow>
                     if countActiveCommands (ap_organizationId p) (ses_id session) db
                          \<ge> ses_maxConcurrentCommands session
                     then Inl Create_command_concurrency_denied
                     else Inr (session, timeout))))"

definition requested_command ::
    "session \<Rightarrow> command_request \<Rightarrow> int \<Rightarrow> ident \<Rightarrow> instant \<Rightarrow> command" where
  "requested_command session request timeout commandId now =
     \<lparr>cmd_id = commandId, cmd_sessionId = ses_id session,
      cmd_organizationId = ses_organizationId session, cmd_agentId = ses_agentId session,
      cmd_machineId = ses_machineId session, cmd_command = cr_command request,
      cmd_cwd = cr_cwd request, cmd_timeoutSeconds = timeout, cmd_status = C_queued,
      cmd_createdAt = now, cmd_startedAt = None, cmd_finishedAt = None, cmd_exitCode = None,
      cmd_outputTruncated = False, cmd_stdoutBytes = 0, cmd_stderrBytes = 0, cmd_error = None\<rparr>"

definition created_event :: "command \<Rightarrow> session_event" where
  "created_event c =
     \<lparr>sev_organizationId = cmd_organizationId c, sev_agentId = cmd_agentId c,
      sev_sessionId = cmd_sessionId c, sev_commandId = Some (cmd_id c), sev_type = command_created,
      sev_metadata = Meta_command (cmd_machineId c) (cmd_command c) (cmd_cwd c) (cmd_timeoutSeconds c)\<rparr>"

text \<open>The clock is read twice: \<open>decidedAt\<close> for the decision, \<open>now\<close> for the record.\<close>

definition service_createCommand ::
    "(string \<Rightarrow> string) \<Rightarrow> 'c session_client \<Rightarrow> agent_principal \<Rightarrow> ident \<Rightarrow> command_request \<Rightarrow>
     string \<Rightarrow> ident \<Rightarrow> instant \<Rightarrow> instant \<Rightarrow> session_db \<Rightarrow> 'c \<Rightarrow>
     (exn + create_command_result) \<times> session_db \<times> 'c" where
  "service_createCommand hash client p sessionId request idempotencyKey freshId decidedAt now db c =
     (let keyHash = hash idempotencyKey; fp = command_fingerprint hash p sessionId request in
      case commandByIdempotency (ap_organizationId p) sessionId keyHash db of
        Some (existing, fp') \<Rightarrow>
          (Inr (if fp' = fp then Command_replayed existing
                else Command_denied Create_idempotency_conflict), db, c)
      | None \<Rightarrow>
          (case command_admission p sessionId request decidedAt db of
             Inl d \<Rightarrow> (Inr (Command_denied d), db, c)
           | Inr (session, timeout) \<Rightarrow>
               let command = requested_command session request timeout freshId now in
               (case createCommand command keyHash fp db of
                  (Idempotency_conflict, db1) \<Rightarrow> (Inr (Command_denied Create_idempotency_conflict), db1, c)
                | (Replayed existing, db1) \<Rightarrow> (Inr (Command_replayed existing), db1, c)
                | (Created _, db1) \<Rightarrow>
                    let db2 = append_event (created_event command) now db1 in
                    (case sc_startCommand client command c of
                       (Some e, c') \<Rightarrow> (Inl e, db2, c')
                     | (None, c') \<Rightarrow> (Inr (Command_created command), db2, c')))))"

section \<open>Supervision, closing, cancellation\<close>

datatype delivery = sent | pending

datatype supervise_result =
    Supervised_approved session delivery | Supervised_denied session
  | Supervision_session_not_found | Supervision_already_decided

definition decided_event :: "supervisor_principal \<Rightarrow> decision \<Rightarrow> session \<Rightarrow> session_event" where
  "decided_event p dec s =
     \<lparr>sev_organizationId = ses_organizationId s, sev_agentId = ses_agentId s,
      sev_sessionId = ses_id s, sev_commandId = None,
      sev_type = (if dec = approve then session_approved else session_denied),
      sev_metadata = Meta_decided (sp_humanId p) (sp_role p)\<rparr>"

definition superviseSession ::
    "'c session_client \<Rightarrow> supervisor_principal \<Rightarrow> ident \<Rightarrow> decision \<Rightarrow> instant \<Rightarrow>
     session_db \<Rightarrow> 'c \<Rightarrow> (exn + supervise_result) \<times> session_db \<times> 'c" where
  "superviseSession client p sessionId dec now db c =
     (case decideSession (sp_organizationId p) sessionId dec now db of
        (Decide_not_found, db1) \<Rightarrow> (Inr Supervision_session_not_found, db1, c)
      | (Decide_conflict, db1) \<Rightarrow> (Inr Supervision_already_decided, db1, c)
      | (Decide_denied s changed, db1) \<Rightarrow>
          (Inr (Supervised_denied s),
           if changed then append_event (decided_event p dec s) now db1 else db1, c)
      | (Decide_approved s changed, db1) \<Rightarrow>
          let db2 = (if changed then append_event (decided_event p dec s) now db1 else db1) in
          (case sc_openSession client s c of
             (None, c') \<Rightarrow> (Inr (Supervised_approved s sent), db2, c')
           | (Some e, c') \<Rightarrow>
               if e = SessionClientUnavailableError
               then (Inr (Supervised_approved s pending), db2, c')
               else (Inl e, db2, c')))"

datatype finish_service_result =
    Service_completed session | Service_cancellation_requested session
  | Service_session_not_found | Service_commands_active

text \<open>The loop over the ids of the cancelled Commands; a throw ends it.\<close>

fun cancel_each ::
    "'c session_client \<Rightarrow> ident \<Rightarrow> session_db \<Rightarrow> ident list \<Rightarrow> 'c \<Rightarrow> exn option \<times> 'c" where
  "cancel_each client organizationId db [] c = (None, c)"
| "cancel_each client organizationId db (i # ids) c =
     (case command_lookup organizationId i db of
        None \<Rightarrow> cancel_each client organizationId db ids c
      | Some command \<Rightarrow>
          (case sc_cancelCommand client command c of
             (Some e, c') \<Rightarrow> (Some e, c')
           | (None, c') \<Rightarrow> cancel_each client organizationId db ids c'))"

definition service_finishSession ::
    "'c session_client \<Rightarrow> agent_principal \<Rightarrow> ident \<Rightarrow> outcome \<Rightarrow> instant \<Rightarrow> session_db \<Rightarrow> 'c \<Rightarrow>
     (exn + finish_service_result) \<times> session_db \<times> 'c" where
  "service_finishSession client p sessionId out now db c =
     (case finishSession (ap_organizationId p) (ap_agentId p) sessionId out now db of
        (Finish_not_found, db1) \<Rightarrow> (Inr Service_session_not_found, db1, c)
      | (Finish_commands_active, db1) \<Rightarrow> (Inr Service_commands_active, db1, c)
      | (Finished s ids, db1) \<Rightarrow>
          (case (if out = cancel then cancel_each client (ap_organizationId p) db1 ids c else (None, c)) of
             (Some e, c1) \<Rightarrow> (Inl e, db1, c1)
           | (None, c1) \<Rightarrow>
               (case sc_closeSession client s (if out = complete then ''completed'' else ''cancelled'') c1 of
                  (Some e, c2) \<Rightarrow> (Inl e, db1, c2)
                | (None, c2) \<Rightarrow>
                    (Inr (if out = complete then Service_completed s
                          else Service_cancellation_requested s), db1, c2))))"

definition service_cancelCommand ::
    "'c session_client \<Rightarrow> agent_principal \<Rightarrow> ident \<Rightarrow> session_db \<Rightarrow> 'c \<Rightarrow>
     (exn + command option) \<times> session_db \<times> 'c" where
  "service_cancelCommand client p commandId db c =
     (case requestCommandCancellation (ap_organizationId p) (ap_agentId p) commandId db of
        (None, db1) \<Rightarrow> (Inr None, db1, c)
      | (Some command, db1) \<Rightarrow>
          (case sc_cancelCommand client command c of
             (Some e, c') \<Rightarrow> (Inl e, db1, c')
           | (None, c') \<Rightarrow> (Inr (Some command), db1, c')))"

end
