(* ===== verification/Session_Service_Properties.thy ===== *)
theory Session_Service_Properties
  imports Session_Service
begin

text \<open>
  What the session service promises: its calls on the database form a history (so every property
  of the session database carries over), a request is admitted exactly within the authority of the
  Machine, a retry is answered with the Session or Command of the first call, and a client that
  fails never undoes what was stored.
\<close>

section \<open>Fingerprints tell requests apart\<close>

lemmas text_defs = json_object_def json_optional_def json_cancel

lemma session_request_text_inject:
  "session_request_text r = session_request_text r' \<Longrightarrow> (r :: session_request) = r'"
  by (cases r; cases r')
     (auto simp: session_request_text_def text_defs split: option.splits)

lemma command_request_text_inject:
  "command_request_text r = command_request_text r' \<Longrightarrow> (r :: command_request) = r'"
  by (cases r; cases r')
     (auto simp: command_request_text_def text_defs split: option.splits)

lemma session_text_inject: "session_text p r = session_text p r' \<Longrightarrow> r = r'"
  using session_request_text_inject by (simp add: session_text_def json_object_def)

lemma command_text_inject: "command_text p i r = command_text p i r' \<Longrightarrow> r = r'"
  using command_request_text_inject by (simp add: command_text_def text_defs)

text \<open>
  A digest of fixed length has collisions, so what a retry needs is stated for the two texts it
  compares and no others.
\<close>

lemma session_fingerprint_iff:
  assumes "inj_on hash {session_text p r, session_text p r'}"
  shows "session_fingerprint hash p r' = session_fingerprint hash p r \<longleftrightarrow> r' = r"
  using assms session_text_inject[of p r' r] by (auto simp: session_fingerprint_def inj_on_def)

lemma command_fingerprint_iff:
  assumes "inj_on hash {command_text p i r, command_text p i r'}"
  shows "command_fingerprint hash p i r' = command_fingerprint hash p i r \<longleftrightarrow> r' = r"
  using assms command_text_inject[of p i r' r] by (auto simp: command_fingerprint_def inj_on_def)

section \<open>Service calls are histories of the database\<close>

lemma history_op: "op_ok p db \<Longrightarrow> db_history db (apply_op p db)"
  by (rule history_step[OF history_refl])

lemma history_op2: "op_ok p db \<Longrightarrow> op_ok q (apply_op p db) \<Longrightarrow> db_history db (apply_op q (apply_op p db))"
  by (rule history_step[OF history_op])

lemma createSession_stores:
  "createSession s k f db = (Created t, db') \<Longrightarrow>
     t = s \<and> db' = db\<lparr>db_sessions := db_sessions db @ [sessionInsert s k f]\<rparr>"
  by (auto simp: createSession_def Let_def row_simps split: if_splits option.splits)

lemma createCommand_stores:
  "createCommand c k f db = (Created t, db') \<Longrightarrow>
     t = c \<and> db' = db\<lparr>db_commands := db_commands db @ [commandInsert c k f]\<rparr>"
  by (auto simp: createCommand_def Let_def row_simps split: if_splits option.splits)

lemma requested_session_sel [simp]:
  "ses_id (requested_session p r m i t) = i"
  "ses_organizationId (requested_session p r m i t) = ap_organizationId p"
  "ses_agentId (requested_session p r m i t) = ap_agentId p"
  "ses_machineId (requested_session p r m i t) = sr_machineId r"
  "ses_status (requested_session p r m i t) = (if ap_agentRole p = operator then S_opening else S_pending_approval)"
  by (simp_all add: requested_session_def)

lemma requested_session_ok: "new_session_ok (requested_session p r m i t)"
  by (simp add: new_session_ok_def requested_session_def)

lemma requestSession_history:
  "db_history db (fst (snd (requestSession hash client p r key i now db c)))"
proof -
  let ?k = "hash key" and ?f = "session_fingerprint hash p r"
  have created: "db_history db (append_event (requested_event p r (requested_session p r m i now)) now db1)"
    if "createSession (requested_session p r m i now) ?k ?f db = (Created t, db1)" for m t db1
  proof -
    let ?s = "requested_session p r m i now"
    have "db1 = apply_op (Op_createSession ?s ?k ?f) db" using that by simp
    moreover have "new_event_ok (requested_event p r ?s) db1"
      using createSession_stores[OF that] by (simp add: new_event_ok_def requested_event_def)
    ultimately show ?thesis
      using history_op2[of "Op_createSession ?s ?k ?f" db "Op_append (requested_event p r ?s) now"]
        requested_session_ok by simp
  qed
  have other: "db_history db db1" if "createSession (requested_session p r m i now) ?k ?f db = (x, db1)" for m x db1
    using history_op[of "Op_createSession (requested_session p r m i now) ?k ?f" db] that requested_session_ok by simp
  show ?thesis
    unfolding requestSession_def Let_def
    by (auto split: option.split sum.split prod.split create_result.split intro: created other history_refl)
qed

lemma command_admission_session:
  assumes "command_admission p sid r now db = Inr (s, timeout)"
  shows "session_lookup (ap_organizationId p) sid db = Some s" "ses_agentId s = ap_agentId p"
    and "\<exists>m. machineAuthority (ap_organizationId p) (ses_machineId s) db = Some m
           \<and> commandDecision s (cr_timeoutSeconds r) (lp_maxCommandTimeoutSeconds (ma_localPolicy m)) now = Inr timeout"
    and "countActiveCommands (ap_organizationId p) (ses_id s) db < ses_maxConcurrentCommands s"
  using assms by (auto simp: command_admission_def split: option.splits sum.splits if_splits)

lemma session_lookup_row:
  "session_lookup org sid db = Some s \<Longrightarrow>
     \<exists>row \<in> set (db_sessions db). s = sessionRecord row \<and> ses_organizationId s = org \<and> ses_id s = sid"
  by (auto simp: session_lookup_def session_key_def dest!: sql_first_SomeD)

lemma requested_command_ok:
  assumes "session_lookup org sid db = Some s"
  shows "new_command_ok (requested_command s r timeout i now) db"
  using session_lookup_row[OF assms]
  by (auto simp: new_command_ok_def requested_command_def list_ex_iff)

lemma createCommand_history:
  "db_history db (fst (snd (service_createCommand hash client p sid r key i at now db c)))"
proof -
  let ?k = "hash key" and ?f = "command_fingerprint hash p sid r"
  have created: "db_history db (append_event (created_event (requested_command s r timeout i now)) now db1)"
    if adm: "command_admission p sid r at db = Inr (s, timeout)"
      and create: "createCommand (requested_command s r timeout i now) ?k ?f db = (Created x, db1)" for s timeout x db1
  proof -
    let ?c = "requested_command s r timeout i now"
    have "db1 = apply_op (Op_createCommand ?c ?k ?f) db" using create by simp
    moreover have "new_event_ok (created_event ?c) db1"
      using createCommand_stores[OF create] session_lookup_row[OF command_admission_session(1)[OF adm]]
      by (auto simp: new_event_ok_def created_event_def requested_command_def list_ex_iff)
    ultimately show ?thesis
      using history_op2[of "Op_createCommand ?c ?k ?f" db "Op_append (created_event ?c) now"]
        requested_command_ok[OF command_admission_session(1)[OF adm]] by simp
  qed
  have other: "db_history db db1"
    if "command_admission p sid r at db = Inr (s, timeout)"
      "createCommand (requested_command s r timeout i now) ?k ?f db = (x, db1)" for s timeout x db1
    using history_op[of "Op_createCommand (requested_command s r timeout i now) ?k ?f" db] that
      requested_command_ok[OF command_admission_session(1)[OF that(1)]] by simp
  show ?thesis
    unfolding service_createCommand_def Let_def
    by (auto split: option.split sum.split prod.split create_result.split intro: created other history_refl)
qed

lemma decided_session_stored:
  assumes "decideSession org sid dec now db = (res, db1)"
    and "res = Decide_approved s changed \<or> res = Decide_denied s changed"
  shows "list_ex (\<lambda>r. ses_id r = ses_id s \<and> ses_organizationId r = ses_organizationId s) (db_sessions db1)"
proof -
  have stored: "list_ex (\<lambda>r. ses_id r = ses_id x \<and> ses_organizationId r = ses_organizationId x)
      (sql_update P f (db_sessions db))"
    if "sql_first P (db_sessions db) = Some x"
      "\<And>r. ses_id (f r) = ses_id r \<and> ses_organizationId (f r) = ses_organizationId r"
    for P and f :: "session_row \<Rightarrow> session_row" and x
    using sql_first_SomeD[OF that(1)] that(2) by (auto simp: list_ex_iff)
  have here: "list_ex (\<lambda>r. ses_id r = ses_id x \<and> ses_organizationId r = ses_organizationId x) (db_sessions db)"
    if "sql_first Q (db_sessions db) = Some x" for Q x and db :: session_db
    using sql_first_SomeD[OF that] by (auto simp: list_ex_iff)
  show ?thesis
    using assms
    unfolding decideSession_def Let_def sql_returning_def
    by (auto split: option.splits if_splits intro: here intro!: stored)
qed

lemma superviseSession_history:
  "db_history db (fst (snd (superviseSession client p sid dec now db c)))"
proof -
  have op: "db_history db db1" if "decideSession (sp_organizationId p) sid dec now db = (x, db1)" for x db1
    using history_op[of "Op_decideSession (sp_organizationId p) sid dec now" db] that by simp
  have event: "db_history db (append_event (decided_event p dec s) now db1)"
    if "decideSession (sp_organizationId p) sid dec now db = (x, db1)"
      "x = Decide_approved s ch \<or> x = Decide_denied s ch" for x db1 s ch
    using history_op2[of "Op_decideSession (sp_organizationId p) sid dec now" db "Op_append (decided_event p dec s) now"]
      that(1) decided_session_stored[OF that] by (simp add: new_event_ok_def decided_event_def)
  show ?thesis
    unfolding superviseSession_def Let_def
    by (auto split: prod.split option.split decide_result.split intro: op event)
qed

lemma finishSession_history:
  "db_history db (fst (snd (service_finishSession client p sid out now db c)))"
  using history_op[of "Op_finishSession (ap_organizationId p) (ap_agentId p) sid out now" db]
  unfolding service_finishSession_def Let_def
  by (auto split: prod.split option.split finish_result.split)

lemma cancelCommand_history:
  "db_history db (fst (snd (service_cancelCommand client p cid db c)))"
  using history_op[of "Op_requestCommandCancellation (ap_organizationId p) (ap_agentId p) cid" db]
  unfolding service_cancelCommand_def Let_def
  by (auto split: prod.split option.split)

text \<open>The calls on a service, with the random id and the clock readings of each.\<close>

datatype service_call =
    Call_requestSession agent_principal session_request string ident instant
  | Call_createCommand agent_principal ident command_request string ident instant instant
  | Call_superviseSession supervisor_principal ident decision instant
  | Call_finishSession agent_principal ident outcome instant
  | Call_cancelCommand agent_principal ident

fun run_call :: "(string \<Rightarrow> string) \<Rightarrow> 'c session_client \<Rightarrow> service_call \<Rightarrow> session_db \<times> 'c \<Rightarrow> session_db \<times> 'c" where
  "run_call hash client (Call_requestSession p r k i t) (db, c) = snd (requestSession hash client p r k i t db c)"
| "run_call hash client (Call_createCommand p s r k i t t') (db, c) = snd (service_createCommand hash client p s r k i t t' db c)"
| "run_call hash client (Call_superviseSession p s d t) (db, c) = snd (superviseSession client p s d t db c)"
| "run_call hash client (Call_finishSession p s w t) (db, c) = snd (service_finishSession client p s w t db c)"
| "run_call hash client (Call_cancelCommand p i) (db, c) = snd (service_cancelCommand client p i db c)"

lemma run_call_history: "db_history db (fst (run_call hash client call (db, c)))"
  by (cases call) (simp_all add: requestSession_history createCommand_history superviseSession_history
      finishSession_history cancelCommand_history)

lemma run_calls_history: "db_history (fst st) (fst (fold (run_call hash client) calls st))"
proof (induction calls arbitrary: st)
  case (Cons call calls)
  have "db_history (fst st) (fst (run_call hash client call st))"
    using run_call_history[of "fst st" hash client call "snd st"] by simp
  with Cons.IH[of "run_call hash client call st"] show ?case using history_trans by simp
qed (simp add: history_refl)

text \<open>The database after a call is the same whatever the client does with it.\<close>

lemma requestSession_db:
  "fst (snd (requestSession hash client p r k i t db c)) = fst (snd (requestSession hash client' p r k i t db c'))"
proof (cases "sessionByIdempotency (ap_organizationId p) (ap_agentId p) (hash k) db")
  case None
  show ?thesis
  proof (cases "admission_denial p r db")
    case (Inr m)
    then show ?thesis using None
      by (cases "createSession (requested_session p r m i t) (hash k) (session_fingerprint hash p r) db")
        (auto simp: requestSession_def Let_def split: create_result.split option.split prod.split)
  qed (simp add: requestSession_def Let_def None)
qed (auto simp: requestSession_def Let_def)

lemma createCommand_db:
  "fst (snd (service_createCommand hash client p s r k i t t' db c)) =
   fst (snd (service_createCommand hash client' p s r k i t t' db c'))"
proof (cases "commandByIdempotency (ap_organizationId p) s (hash k) db")
  case None
  show ?thesis
  proof (cases "command_admission p s r t db")
    case (Inr m)
    then show ?thesis using None
      by (cases "createCommand (requested_command (fst m) r (snd m) i t') (hash k) (command_fingerprint hash p s r) db"; cases m)
        (auto simp: service_createCommand_def Let_def split: create_result.split option.split prod.split)
  qed (simp add: service_createCommand_def Let_def None)
qed (auto simp: service_createCommand_def Let_def)

lemma superviseSession_db:
  "fst (snd (superviseSession client p s d t db c)) = fst (snd (superviseSession client' p s d t db c'))"
  by (cases "decideSession (sp_organizationId p) s d t db")
     (auto simp: superviseSession_def Let_def split: option.split prod.split decide_result.split)

lemma finishSession_db:
  "fst (snd (service_finishSession client p s w t db c)) =
     snd (finishSession (ap_organizationId p) (ap_agentId p) s w t db)"
  unfolding service_finishSession_def Let_def
  by (auto split: prod.split option.split finish_result.split)

lemma cancelCommand_db:
  "fst (snd (service_cancelCommand client p i db c)) = fst (snd (service_cancelCommand client' p i db c'))"
  by (cases "requestCommandCancellation (ap_organizationId p) (ap_agentId p) i db")
     (auto simp: service_cancelCommand_def Let_def split: option.split prod.split)

lemma run_call_db:
  "fst (run_call hash client call (db, c)) = fst (run_call hash client' call (db, c'))"
proof (cases call)
  case (Call_requestSession p r k i t)
  then show ?thesis using requestSession_db by simp
next
  case (Call_createCommand p s r k i t t')
  then show ?thesis using createCommand_db by simp
next
  case (Call_superviseSession p s d t)
  then show ?thesis using superviseSession_db by simp
next
  case (Call_finishSession p s w t)
  then show ?thesis by (simp add: finishSession_db)
next
  case (Call_cancelCommand p i)
  then show ?thesis using cancelCommand_db by simp
qed

lemma run_calls_db:
  "fst st = fst st' \<Longrightarrow> fst (fold (run_call hash client) calls st) = fst (fold (run_call hash client') calls st')"
proof (induction calls arbitrary: st st')
  case (Cons call calls)
  have "fst (run_call hash client call st) = fst (run_call hash client' call st')"
    using run_call_db[of hash client call "fst st" "snd st" client' "snd st'"] Cons.prems
    by (metis prod.collapse)
  then show ?case using Cons.IH by simp
qed simp

section \<open>Properties\<close>

text \<open>
  C34: The session service keeps the invariant of the session database and never loses it to its
  client: whatever calls agents and supervisors make, and whichever of the deliveries to the Machine
  throw, the database they leave is well formed, every stored Session and Command only moved
  forward, and it is the same database a client that never fails would have left.  A failed delivery
  undoes nothing and does nothing else.
\<close>

theorem service_survives_client_failures:
  fixes client :: "'c session_client" and steady :: "'d session_client"
  assumes "db_wf db"
  shows "db_wf (fst (fold (run_call hash client) calls (db, c)))
       \<and> db_step db (fst (fold (run_call hash client) calls (db, c)))
       \<and> fst (fold (run_call hash client) calls (db, c)) = fst (fold (run_call hash steady) calls (db, c'))"
  using history_wf[OF run_calls_history[of "(db, c)" hash client calls]] assms
    run_calls_db[of "(db, c)" "(db, c')" hash client calls steady] by simp

definition silent_client :: "unit session_client" where
  "silent_client = \<lparr>sc_openSession = (\<lambda>_ c. (None, c)), sc_startCommand = (\<lambda>_ c. (None, c)),
     sc_closeSession = (\<lambda>_ _ c. (None, c)), sc_cancelCommand = (\<lambda>_ c. (None, c))\<rparr>"

definition failing_client :: "nat session_client" where
  "failing_client = \<lparr>sc_openSession = (\<lambda>_ n. (Some SessionClientUnavailableError, Suc n)),
     sc_startCommand = (\<lambda>_ n. (Some (Exn ''Machine disconnected before Command delivery''), Suc n)),
     sc_closeSession = (\<lambda>_ _ n. (None, Suc n)), sc_cancelCommand = (\<lambda>_ n. (None, Suc n))\<rparr>"

definition demo_agent :: "agent_role \<Rightarrow> agent_principal" where
  "demo_agent role = \<lparr>ap_organizationId = ''org'', ap_agentId = ''agent'', ap_agentRole = role\<rparr>"

theorem service_survives_client_failures_witness:
  "fst (fold (run_call id failing_client) [Call_finishSession (demo_agent standard) ''s'' cancel 5000] (example_db, 0))
   = fst (fold (run_call id silent_client) [Call_finishSession (demo_agent standard) ''s'' cancel 5000] (example_db, ()))"
  using service_survives_client_failures[OF example_wf, of id failing_client
      "[Call_finishSession (demo_agent standard) ''s'' cancel 5000]" 0 silent_client "()"] by blast

text \<open>Looking up the row a creation appended.\<close>

lemma created_session_lookup:
  assumes "createSession s k f db = (Created t, db1)"
  shows "session_lookup (ses_organizationId s) (ses_id s) db1 = Some s"
    and "countActiveSessions (ses_organizationId s) (ses_machineId s) db1 =
         countActiveSessions (ses_organizationId s) (ses_machineId s) db + (if session_active s then 1 else 0)"
    and "db_machineAuthorities db1 = db_machineAuthorities db"
proof -
  have new: "sql_first (session_key (ses_organizationId s) (ses_id s)) (db_sessions db) = None"
    using assms by (auto simp: createSession_def list_ex_iff sql_first_None_iff session_key_def Let_def
        split: if_splits option.splits)
  have db1: "db1 = db\<lparr>db_sessions := db_sessions db @ [sessionInsert s k f]\<rparr>"
    using createSession_stores[OF assms] by simp
  show "session_lookup (ses_organizationId s) (ses_id s) db1 = Some s"
    using new by (simp add: db1 session_lookup_def sql_first_append session_key_def row_simps)
  show "db_machineAuthorities db1 = db_machineAuthorities db" by (simp add: db1)
  show "countActiveSessions (ses_organizationId s) (ses_machineId s) db1 =
         countActiveSessions (ses_organizationId s) (ses_machineId s) db + (if session_active s then 1 else 0)"
    by (simp add: db1 countActiveSessions_def session_active_def)
qed

lemma append_event_frame [simp]:
  "db_sessions (append_event e t db) = db_sessions db" "db_commands (append_event e t db) = db_commands db"
  "session_lookup org i (append_event e t db) = session_lookup org i db"
  "countActiveSessions org m (append_event e t db) = countActiveSessions org m db"
  "command_lookup org j (append_event e t db) = command_lookup org j db"
  "countActiveCommands org i (append_event e t db) = countActiveCommands org i db"
  by (simp_all add: append_event_def session_lookup_def countActiveSessions_def command_lookup_def
      countActiveCommands_def)

lemma admission_denial_machine:
  assumes "admission_denial p r db = Inr m"
  shows "machineAuthority (ap_organizationId p) (sr_machineId r) db = Some m" "ma_online m"
    "lp_organizationId (ma_localPolicy m) = ap_organizationId p"
    "sr_durationSeconds r \<le> lp_maxSessionDurationSeconds (ma_localPolicy m)"
    "countActiveSessions (ap_organizationId p) (sr_machineId r) db < lp_maxConcurrentSessions (ma_localPolicy m)"
    "1 \<le> lp_maxConcurrentCommands (ma_localPolicy m)"
    "ap_agentRole p = operator \<or> lp_allowRemoteApproval (ma_localPolicy m)"
  using assms by (auto simp: admission_denial_def Let_def split: option.splits if_splits)

text \<open>What one request does: nothing at all, or exactly the creation it was admitted for.\<close>

lemma requestSession_cases:
  assumes "requestSession hash client p r key i now db c = (res, db1, c1)"
  obtains (unchanged) "db1 = db" "c1 = c"
      "(\<exists>d. res = Inr (Request_denied d)) \<or> (\<exists>s. res = Inr (Request_replayed s))"
    | (created) m db0 where "sessionByIdempotency (ap_organizationId p) (ap_agentId p) (hash key) db = None"
      "admission_denial p r db = Inr m"
      "createSession (requested_session p r m i now) (hash key) (session_fingerprint hash p r) db
         = (Created (requested_session p r m i now), db0)"
      "db1 = append_event (requested_event p r (requested_session p r m i now)) now db0"
      "res = (case (if ap_agentRole p = operator then fst (sc_openSession client (requested_session p r m i now) c) else None) of
               None \<Rightarrow> Inr (Request_created (requested_session p r m i now)) | Some e \<Rightarrow> Inl e)"
      "c1 = (if ap_agentRole p = operator then snd (sc_openSession client (requested_session p r m i now) c) else c)"
proof (cases "sessionByIdempotency (ap_organizationId p) (ap_agentId p) (hash key) db")
  case (Some x)
  then show ?thesis using assms unchanged
    by (cases x) (auto simp: requestSession_def Let_def split: if_splits)
next
  case None
  show ?thesis
  proof (cases "admission_denial p r db")
    case (Inl d)
    then show ?thesis using assms None unchanged by (auto simp: requestSession_def Let_def)
  next
    case (Inr m)
    let ?s = "requested_session p r m i now"
    obtain x db0 where x: "createSession ?s (hash key) (session_fingerprint hash p r) db = (x, db0)" by force
    show ?thesis
    proof (cases x)
      case (Created t)
      have t: "t = ?s" using createSession_stores[OF x[unfolded Created]] by simp
      note x' = x[unfolded Created t]
      show ?thesis
      proof (rule created[OF None Inr x'])
        obtain e c' where o: "sc_openSession client ?s c = (e, c')" by force
        have run: "requestSession hash client p r key i now db c =
          (if ap_agentRole p = operator
           then ((case e of None \<Rightarrow> Inr (Request_created ?s) | Some x \<Rightarrow> Inl x),
                 append_event (requested_event p r ?s) now db0, c')
           else (Inr (Request_created ?s), append_event (requested_event p r ?s) now db0, c))"
          using None Inr x' o by (simp add: requestSession_def Let_def split: option.split)
        show "db1 = append_event (requested_event p r ?s) now db0"
          using assms unfolding run by (simp split: if_splits)
        show "res = (case (if ap_agentRole p = operator then fst (sc_openSession client ?s c) else None) of
               None \<Rightarrow> Inr (Request_created ?s) | Some e \<Rightarrow> Inl e)"
          using assms unfolding run o by (simp split: if_splits)
        show "c1 = (if ap_agentRole p = operator then snd (sc_openSession client ?s c) else c)"
          using assms unfolding run o by (simp split: if_splits)
      qed
    next
      case (Replayed t)
      have "db0 = db" using x Replayed by (auto simp: createSession_def Let_def split: if_splits option.splits)
      then show ?thesis using assms None Inr x Replayed unchanged by (auto simp: requestSession_def Let_def)
    next
      case Idempotency_conflict
      have "db0 = db" using x Idempotency_conflict
        by (auto simp: createSession_def Let_def split: if_splits option.splits)
      then show ?thesis using assms None Inr x Idempotency_conflict unchanged by (auto simp: requestSession_def Let_def)
    qed
  qed
qed

text \<open>
  C11: Admission of a Session.  A request either changes nothing at all (and sends nothing to the
  Machine), or it stores exactly one Session under the fresh id, and then the Machine was registered
  and online, its local policy belongs to the Agent's Organization and allows the duration, the
  active Sessions of the Machine including the new one are within the policy's bound, and the Session
  expires its duration after the request.  The Session of a standard Agent is pending and nothing is
  sent, and that only under a policy that allows remote approval; only an operator's Session starts
  opening and is delivered at once.
\<close>

theorem session_admission:
  assumes "requestSession hash client p r key i now db c = (res, db1, c1)"
  shows "db1 = db \<and> c1 = c \<and> ((\<exists>d. res = Inr (Request_denied d)) \<or> (\<exists>s. res = Inr (Request_replayed s)))
    \<or> (\<exists>m s. machineAuthority (ap_organizationId p) (sr_machineId r) db = Some m \<and> ma_online m
         \<and> lp_organizationId (ma_localPolicy m) = ap_organizationId p
         \<and> sr_durationSeconds r \<le> lp_maxSessionDurationSeconds (ma_localPolicy m)
         \<and> countActiveSessions (ap_organizationId p) (sr_machineId r) db1
             = countActiveSessions (ap_organizationId p) (sr_machineId r) db + 1
         \<and> countActiveSessions (ap_organizationId p) (sr_machineId r) db1 \<le> lp_maxConcurrentSessions (ma_localPolicy m)
         \<and> session_lookup (ap_organizationId p) i db1 = Some s
         \<and> ses_agentId s = ap_agentId p \<and> ses_machineId s = sr_machineId r
         \<and> ses_expiresAt s = now + sr_durationSeconds r * 1000
         \<and> (if ap_agentRole p = operator
            then ses_status s = S_opening \<and> c1 = snd (sc_openSession client s c)
              \<and> res = (case fst (sc_openSession client s c) of None \<Rightarrow> Inr (Request_created s) | Some e \<Rightarrow> Inl e)
            else ses_status s = S_pending_approval \<and> lp_allowRemoteApproval (ma_localPolicy m)
              \<and> c1 = c \<and> res = Inr (Request_created s)))"
  using assms
proof (cases rule: requestSession_cases)
  case (created m db0)
  let ?s = "requested_session p r m i now"
  note lookup = created_session_lookup[OF created(3)]
  have "session_active ?s" by (simp add: active_defs)
  then have count: "countActiveSessions (ap_organizationId p) (sr_machineId r) db1
      = countActiveSessions (ap_organizationId p) (sr_machineId r) db + 1"
    using lookup(2) created(4) by simp
  have found: "session_lookup (ap_organizationId p) i db1 = Some ?s" using lookup(1) created(4) by simp
  have sel: "ses_agentId ?s = ap_agentId p" "ses_machineId ?s = sr_machineId r"
    "ses_expiresAt ?s = now + sr_durationSeconds r * 1000" by (simp_all add: requested_session_def)
  show ?thesis
    by (rule disjI2, rule exI[of _ m], rule exI[of _ ?s])
      (use admission_denial_machine[OF created(2)] count found sel created(5,6) in \<open>simp split: if_splits\<close>)
qed simp

definition demo_machine :: machine_authority where
  "demo_machine = \<lparr>ma_organizationId = ''org'', ma_machineId = ''machine'', ma_clientProfileId = ''profile'',
     ma_operatingSystemUser = ''user'', ma_online = True,
     ma_localPolicy = \<lparr>lp_organizationId = ''org'', lp_maxSessionDurationSeconds = 3600,
       lp_maxConcurrentSessions = 2, lp_maxConcurrentCommands = 4, lp_maxCommandTimeoutSeconds = 600,
       lp_maxCommandOutputBytes = 1048576, lp_allowRemoteApproval = True\<rparr>\<rparr>"

definition demo_request :: session_request where
  "demo_request = \<lparr>sr_machineId = ''machine'', sr_title = ''build'', sr_purpose = None, sr_durationSeconds = 900\<rparr>"

definition demo_db :: session_db where
  "demo_db = putMachineAuthority demo_machine empty_session_db"

lemma demo_db_wf: "db_wf demo_db"
  unfolding demo_db_def using putMachineAuthority_wf[OF history_empty_wf[OF history_refl]] by blast

theorem session_admission_witness:
  "\<exists>s. session_lookup ''org'' ''new'' (fst (snd (requestSession id silent_client (demo_agent standard) demo_request ''key'' ''new'' 7000 demo_db ()))) = Some s
     \<and> ses_status s = S_pending_approval \<and> ses_expiresAt s = 907000"
proof -
  let ?run = "requestSession id silent_client (demo_agent standard) demo_request ''key'' ''new'' 7000 demo_db ()"
  obtain res db1 c1 where run: "?run = (res, db1, c1)" by (cases ?run) auto
  have "(case fst ?run of Inr (Request_created s) \<Rightarrow> True | _ \<Rightarrow> False)" by code_simp
  then have "\<not> ((\<exists>d. res = Inr (Request_denied d)) \<or> (\<exists>s. res = Inr (Request_replayed s)))"
    using run by auto
  then show ?thesis
    using session_admission[OF run] run by (auto simp: demo_agent_def demo_request_def)
qed

section \<open>Retries\<close>

lemma created_replay:
  assumes wf: "db_wf db" and create: "createSession s k f db = (Created t, db0)" and ok: "new_session_ok s"
    and later: "db_history db0 db'"
  shows "\<exists>current. session_lookup (ses_organizationId s) (ses_id s) db' = Some current
    \<and> sessionByIdempotency (ses_organizationId s) (ses_agentId s) k db' = Some (current, f)"
proof -
  let ?row = "sessionInsert s k f"
  have db0: "db0 = db\<lparr>db_sessions := db_sessions db @ [?row]\<rparr>" using createSession_stores[OF create] by simp
  have wf0: "db_wf db0" using createSession_wf[OF wf new_session_row_ok[OF ok], of k f] create by simp
  have wf': "db_wf db'" "db_step db0 db'" using history_wf[OF later wf0] by auto
  have "sql_first (session_key (ses_organizationId s) (ses_id s)) (db_sessions db0) = Some ?row"
    by (rule sql_first_key[where k = ses_id])
      (use wf0 db0 in \<open>auto simp: db_wf_def sessions_wf_def session_key_def\<close>)
  from session_lookup_forward[OF wf' this] obtain r' where
    r': "sql_first (session_key (ses_organizationId s) (ses_id s)) (db_sessions db') = Some r'" "session_step ?row r'"
    by blast
  have mem: "r' \<in> set (db_sessions db')" using r'(1) by (auto dest: sql_first_SomeD)
  have idem: "session_idem r' = session_idem ?row" using session_step_idem[OF r'(2)] .
  have "sql_first (session_idempotency (ses_organizationId s) (ses_agentId s) k) (db_sessions db') = Some r'"
    by (rule sql_first_key[where k = session_idem])
      (use wf'(1) mem idem in \<open>auto simp: db_wf_def sessions_wf_def session_idempotency_def session_idem_def\<close>)
  moreover have "srow_requestFingerprint r' = f"
    using r'(2) by (simp add: session_step_def session_identity_def)
  ultimately show ?thesis using r'(1) by (simp add: session_lookup_def sessionByIdempotency_def)
qed

text \<open>
  C38: A retried Session request is answered from the first one.  Once a request stored a Session
  (even when its delivery then threw), any later request of the same Agent under the same key, after
  whatever the server did in between and whatever the policy or the Agent's role is by then, changes
  nothing and sends nothing: the same request gets that Session in its current state, and a
  different request is refused as a conflict.  Of the digest this needs only that the texts of these
  two requests do not collide (nothing at all when the request is the same); different requests
  always have different texts.
\<close>

theorem request_retry:
  assumes "inj_on hash {session_text p r, session_text p r'}"
    and "db_wf db" "requestSession hash client p r key i now db c = (res, db1, c1)"
    and "length (db_sessions db) < length (db_sessions db1)" and "db_history db1 db2"
    and "ap_organizationId p' = ap_organizationId p" "ap_agentId p' = ap_agentId p"
  shows "\<exists>current. session_lookup (ap_organizationId p) i db2 = Some current \<and>
     requestSession hash client' p' r' key i' now' db2 c2 =
       (Inr (if r' = r then Request_replayed current else Request_denied Request_idempotency_conflict), db2, c2)"
  using assms(3)
proof (cases rule: requestSession_cases)
  case unchanged
  then show ?thesis using assms(4) by simp
next
  case (created m db0)
  let ?s = "requested_session p r m i now" and ?f = "session_fingerprint hash p r"
  have "db_history db0 db1"
    using history_op[of "Op_append (requested_event p r ?s) now" db0] createSession_stores[OF created(3)] created(4)
    by (simp add: new_event_ok_def requested_event_def)
  from created_replay[OF assms(2) created(3) requested_session_ok history_trans[OF assms(5) this]]
  obtain current where cur: "session_lookup (ap_organizationId p) i db2 = Some current"
    "sessionByIdempotency (ap_organizationId p) (ap_agentId p) (hash key) db2 = Some (current, ?f)" by auto
  have principal: "session_fingerprint hash p' r' = session_fingerprint hash p r'"
    using assms(6,7) by (simp add: session_fingerprint_def session_text_def)
  note session_fingerprint_iff[OF assms(1)]
  with cur principal assms(6,7) show ?thesis by (auto simp: requestSession_def Let_def)
qed

text \<open>A digest of two characters, for the witnesses: it is not injective.\<close>

definition demo_digest :: "string \<Rightarrow> string" where
  "demo_digest text =
     (let h = foldl (\<lambda>h c. (h * 31 + of_char c) mod 65521) (7::int) text
      in [char_of (h div 256), char_of (h mod 256)])"

definition other_demo_request :: session_request where
  "other_demo_request = demo_request\<lparr>sr_durationSeconds := 901\<rparr>"

theorem request_retry_witness:
  "\<exists>db1 current. db1 = fst (snd (requestSession demo_digest failing_client (demo_agent operator) demo_request ''key'' ''new'' 7000 demo_db 0))
     \<and> session_lookup ''org'' ''new'' (snd (expireSessions 9000000 db1)) = Some current
     \<and> fst (requestSession demo_digest silent_client (demo_agent standard) demo_request ''key'' ''other'' 9000001
            (snd (expireSessions 9000000 db1)) ()) = Inr (Request_replayed current)
     \<and> fst (requestSession demo_digest silent_client (demo_agent standard) other_demo_request ''key'' ''other'' 9000001
            (snd (expireSessions 9000000 db1)) ()) = Inr (Request_denied Request_idempotency_conflict)"
proof -
  let ?run = "requestSession demo_digest failing_client (demo_agent operator) demo_request ''key'' ''new'' 7000 demo_db 0"
  obtain res db1 c1 where run: "?run = (res, db1, c1)" by (cases ?run) auto
  have len: "length (db_sessions demo_db) < length (db_sessions (fst (snd ?run)))" by code_simp
  have "db_history db1 (apply_op (Op_expireSessions 9000000) db1)" by (rule history_op) simp
  then have h: "db_history db1 (snd (expireSessions 9000000 db1))" by simp
  have "demo_digest (session_text (demo_agent operator) demo_request)
      \<noteq> demo_digest (session_text (demo_agent operator) other_demo_request)" by code_simp
  then have inj: "inj_on demo_digest {session_text (demo_agent operator) demo_request, session_text (demo_agent operator) other_demo_request}"
    "inj_on demo_digest {session_text (demo_agent operator) demo_request, session_text (demo_agent operator) demo_request}"
    by (auto simp: inj_on_def)
  have ne: "other_demo_request \<noteq> demo_request" by (simp add: other_demo_request_def demo_request_def)
  note retry = request_retry[OF _ demo_db_wf run _ h, of _ "demo_agent standard" silent_client "''other''" 9000001 "()"]
  from retry[OF inj(1)] retry[OF inj(2)] show ?thesis using len run ne by (auto simp: demo_agent_def)
qed

end
