(* ===== verification/Command_Service.thy ===== *)
theory Command_Service
  imports Session_Service_Properties
begin

text \<open>
  Commands in the session service: the authority a Command is created under, retries of Commands,
  and what supervision and closing hand to the Machine.
\<close>

section \<open>The cases of a Command request\<close>

lemma createCommand_cases:
  assumes "service_createCommand hash client p sid r key i at now db c = (res, db1, c1)"
  obtains (unchanged) "db1 = db" "c1 = c"
      "(\<exists>d. res = Inr (Command_denied d)) \<or> (\<exists>s. res = Inr (Command_replayed s))"
    | (created) s timeout db0 where "commandByIdempotency (ap_organizationId p) sid (hash key) db = None"
      "command_admission p sid r at db = Inr (s, timeout)"
      "createCommand (requested_command s r timeout i now) (hash key) (command_fingerprint hash p sid r) db
         = (Created (requested_command s r timeout i now), db0)"
      "db1 = append_event (created_event (requested_command s r timeout i now)) now db0"
      "res = (case fst (sc_startCommand client (requested_command s r timeout i now) c) of
               None \<Rightarrow> Inr (Command_created (requested_command s r timeout i now)) | Some e \<Rightarrow> Inl e)"
      "c1 = snd (sc_startCommand client (requested_command s r timeout i now) c)"
proof (cases "commandByIdempotency (ap_organizationId p) sid (hash key) db")
  case (Some x)
  then show ?thesis using assms unchanged
    by (cases x) (auto simp: service_createCommand_def Let_def split: if_splits)
next
  case None
  show ?thesis
  proof (cases "command_admission p sid r at db")
    case (Inl d)
    then show ?thesis using assms None unchanged by (auto simp: service_createCommand_def Let_def)
  next
    case (Inr st)
    obtain s timeout where st: "st = (s, timeout)" by force
    note adm = Inr[unfolded st]
    let ?c = "requested_command s r timeout i now" and ?f = "command_fingerprint hash p sid r"
    obtain x db0 where x: "createCommand ?c (hash key) ?f db = (x, db0)" by force
    show ?thesis
    proof (cases x)
      case (Created t)
      have t: "t = ?c" using createCommand_stores[OF x[unfolded Created]] by simp
      note x' = x[unfolded Created t]
      obtain e c' where o: "sc_startCommand client ?c c = (e, c')" by force
      have run: "service_createCommand hash client p sid r key i at now db c =
          ((case e of None \<Rightarrow> Inr (Command_created ?c) | Some y \<Rightarrow> Inl y), append_event (created_event ?c) now db0, c')"
        using None adm x' o by (simp add: service_createCommand_def Let_def split: option.split)
      show ?thesis
        by (rule created[OF None adm x']) (use assms run o in simp_all)
    next
      case (Replayed t)
      have "db0 = db" using x Replayed by (auto simp: createCommand_def Let_def split: if_splits option.splits)
      then show ?thesis using assms None adm x Replayed unchanged by (auto simp: service_createCommand_def Let_def)
    next
      case Idempotency_conflict
      have "db0 = db" using x Idempotency_conflict
        by (auto simp: createCommand_def Let_def split: if_splits option.splits)
      then show ?thesis using assms None adm x Idempotency_conflict unchanged
        by (auto simp: service_createCommand_def Let_def)
    qed
  qed
qed

lemma created_command_lookup:
  assumes "createCommand c k f db = (Created t, db1)"
  shows "command_lookup (cmd_organizationId c) (cmd_id c) db1 = Some c"
    and "countActiveCommands (cmd_organizationId c) (cmd_sessionId c) db1 =
         countActiveCommands (cmd_organizationId c) (cmd_sessionId c) db + (if command_active c then 1 else 0)"
proof -
  have new: "sql_first (command_key (cmd_organizationId c) (cmd_id c)) (db_commands db) = None"
    using assms by (auto simp: createCommand_def list_ex_iff sql_first_None_iff command_key_def Let_def
        split: if_splits option.splits)
  have db1: "db1 = db\<lparr>db_commands := db_commands db @ [commandInsert c k f]\<rparr>"
    using createCommand_stores[OF assms] by simp
  show "command_lookup (cmd_organizationId c) (cmd_id c) db1 = Some c"
    using new by (simp add: db1 command_lookup_def sql_first_append command_key_def row_simps)
  show "countActiveCommands (cmd_organizationId c) (cmd_sessionId c) db1 =
         countActiveCommands (cmd_organizationId c) (cmd_sessionId c) db + (if command_active c then 1 else 0)"
    by (simp add: db1 countActiveCommands_def command_active_def)
qed

text \<open>
  C12: Authority of a Command.  A Command request either changes nothing and sends nothing, or it
  stores exactly one queued Command in an active Session of the same Agent and hands that Command to
  the Machine; then at the moment of the decision the whole timeout still fits before the Session's
  expiry and the Machine's policy, and the active Commands of the Session including the new one are
  within the Session's bound.
\<close>

theorem command_authority:
  assumes "service_createCommand hash client p sid r key i at now db c = (res, db1, c1)"
  shows "db1 = db \<and> c1 = c \<and> ((\<exists>d. res = Inr (Command_denied d)) \<or> (\<exists>s. res = Inr (Command_replayed s)))
    \<or> (\<exists>s m d. session_lookup (ap_organizationId p) sid db = Some s \<and> ses_agentId s = ap_agentId p
         \<and> ses_status s = S_active
         \<and> machineAuthority (ap_organizationId p) (ses_machineId s) db = Some m
         \<and> cr_timeoutSeconds r \<le> lp_maxCommandTimeoutSeconds (ma_localPolicy m)
         \<and> at + 1000 * cr_timeoutSeconds r \<le> ses_expiresAt s
         \<and> countActiveCommands (ap_organizationId p) sid db1 = countActiveCommands (ap_organizationId p) sid db + 1
         \<and> countActiveCommands (ap_organizationId p) sid db1 \<le> ses_maxConcurrentCommands s
         \<and> command_lookup (ap_organizationId p) i db1 = Some d
         \<and> cmd_status d = C_queued \<and> cmd_sessionId d = sid \<and> cmd_agentId d = ap_agentId p
         \<and> cmd_machineId d = ses_machineId s \<and> cmd_command d = cr_command r
         \<and> cmd_timeoutSeconds d = cr_timeoutSeconds r
         \<and> c1 = snd (sc_startCommand client d c)
         \<and> res = (case fst (sc_startCommand client d c) of None \<Rightarrow> Inr (Command_created d) | Some e \<Rightarrow> Inl e))"
  using assms
proof (cases rule: createCommand_cases)
  case (created s timeout db0)
  let ?c = "requested_command s r timeout i now"
  note adm = command_admission_session[OF created(2)]
  obtain m where m: "machineAuthority (ap_organizationId p) (ses_machineId s) db = Some m"
    "commandDecision s (cr_timeoutSeconds r) (lp_maxCommandTimeoutSeconds (ma_localPolicy m)) at = Inr timeout"
    using adm(3) by blast
  note dec = commandDecision_InrD[OF m(2)]
  have s: "ses_organizationId s = ap_organizationId p" "ses_id s = sid"
    using session_lookup_row[OF adm(1)] by auto
  have sel: "cmd_organizationId ?c = ap_organizationId p" "cmd_id ?c = i" "cmd_sessionId ?c = sid"
    "cmd_status ?c = C_queued" "cmd_agentId ?c = ap_agentId p" "cmd_machineId ?c = ses_machineId s"
    "cmd_command ?c = cr_command r" "cmd_timeoutSeconds ?c = cr_timeoutSeconds r"
    using s adm(2) dec(1) by (simp_all add: requested_command_def)
  have "command_active ?c" by (simp add: active_defs requested_command_def)
  with created_command_lookup[OF created(3)] sel
  have look: "command_lookup (ap_organizationId p) i db1 = Some ?c"
    "countActiveCommands (ap_organizationId p) sid db1 = countActiveCommands (ap_organizationId p) sid db + 1"
    by (simp_all add: created(4))
  show ?thesis
    by (rule disjI2, rule exI[of _ s], rule exI[of _ m], rule exI[of _ ?c])
      (use adm(1,2,4) m(1) dec(2,4,5) s look sel created(5,6) in simp)
qed simp

definition command_demo_db :: session_db where
  "command_demo_db = putMachineAuthority demo_machine example_db"

lemma command_demo_db_wf: "db_wf command_demo_db"
  unfolding command_demo_db_def using putMachineAuthority_wf[OF example_wf] by blast

definition demo_command :: command_request where
  "demo_command = \<lparr>cr_command = ''make'', cr_cwd = None, cr_timeoutSeconds = 60\<rparr>"

theorem command_authority_witness:
  "\<exists>d. command_lookup ''org'' ''new'' (fst (snd (service_createCommand id silent_client (demo_agent standard) ''s''
       demo_command ''key'' ''new'' 5000 5001 command_demo_db ()))) = Some d \<and> cmd_status d = C_queued"
proof -
  let ?run = "service_createCommand id silent_client (demo_agent standard) ''s'' demo_command ''key'' ''new'' 5000 5001 command_demo_db ()"
  obtain res db1 c1 where run: "?run = (res, db1, c1)" by (cases ?run) auto
  have "(case fst ?run of Inr (Command_created s) \<Rightarrow> True | _ \<Rightarrow> False)" by code_simp
  then have "\<not> ((\<exists>d. res = Inr (Command_denied d)) \<or> (\<exists>s. res = Inr (Command_replayed s)))"
    using run by auto
  then show ?thesis
    using command_authority[OF run] run by (auto simp: demo_agent_def)
qed

section \<open>Retries\<close>

lemma created_command_replay:
  assumes wf: "db_wf db" and create: "createCommand d k f db = (Created t, db0)" and ok: "new_command_ok d db"
    and later: "db_history db0 db'"
  shows "\<exists>current. command_lookup (cmd_organizationId d) (cmd_id d) db' = Some current
    \<and> commandByIdempotency (cmd_organizationId d) (cmd_sessionId d) k db' = Some (current, f)"
proof -
  let ?row = "commandInsert d k f"
  have db0: "db0 = db\<lparr>db_commands := db_commands db @ [?row]\<rparr>" using createCommand_stores[OF create] by simp
  have wf0: "db_wf db0"
    using createCommand_wf[OF wf new_command_row_ok[OF ok] new_command_in[OF ok], of k f] create by simp
  have wf': "db_wf db'" "db_step db0 db'" using history_wf[OF later wf0] by auto
  have "sql_first (command_key (cmd_organizationId d) (cmd_id d)) (db_commands db0) = Some ?row"
    by (rule sql_first_key[where k = cmd_id])
      (use wf0 db0 in \<open>auto simp: db_wf_def commands_wf_def command_key_def\<close>)
  from command_lookup_forward[OF wf' this] obtain r' where
    r': "sql_first (command_key (cmd_organizationId d) (cmd_id d)) (db_commands db') = Some r'" "command_step ?row r'"
    by blast
  have mem: "r' \<in> set (db_commands db')" using r'(1) by (auto dest: sql_first_SomeD)
  have same: "cmd_organizationId r' = cmd_organizationId d" "cmd_sessionId r' = cmd_sessionId d"
    "crow_idempotencyKeyHash r' = k" "crow_requestFingerprint r' = f"
    using r'(2) by (simp_all add: command_step_def command_identity_def)
  have "sql_first (command_idempotency (cmd_organizationId d) (cmd_sessionId d) k) (db_commands db') = Some r'"
    by (rule sql_first_key[where k = command_idem])
      (use wf'(1) mem same in \<open>auto simp: db_wf_def commands_wf_def command_idempotency_def command_idem_def\<close>)
  then show ?thesis using r'(1) same(4) by (simp add: command_lookup_def commandByIdempotency_def)
qed

text \<open>
  C39: A retried Command runs once.  Once a request stored a Command, even when handing it to the
  Machine threw, any later request of the same Agent in the same Session under the same key changes
  nothing and starts nothing: the same request gets that Command in its current state, a different
  one is refused.  Of the digest this needs only that the texts of these two requests do not collide
  (nothing at all when the request is the same); different requests always have different texts.
\<close>

theorem command_retry:
  assumes "inj_on hash {command_text p sid r, command_text p sid r'}"
    and "db_wf db" "service_createCommand hash client p sid r key i at now db c = (res, db1, c1)"
    and "length (db_commands db) < length (db_commands db1)" and "db_history db1 db2"
    and "ap_organizationId p' = ap_organizationId p" "ap_agentId p' = ap_agentId p"
  shows "\<exists>current. command_lookup (ap_organizationId p) i db2 = Some current \<and>
     service_createCommand hash client' p' sid r' key i' at' now' db2 c2 =
       (Inr (if r' = r then Command_replayed current else Command_denied Create_idempotency_conflict), db2, c2)"
  using assms(3)
proof (cases rule: createCommand_cases)
  case unchanged
  then show ?thesis using assms(4) by simp
next
  case (created s timeout db0)
  let ?c = "requested_command s r timeout i now" and ?f = "command_fingerprint hash p sid r"
  note adm = command_admission_session[OF created(2)]
  have s: "ses_organizationId s = ap_organizationId p" "ses_id s = sid"
    using session_lookup_row[OF adm(1)] by auto
  have stored: "db0 = db\<lparr>db_commands := db_commands db @ [commandInsert ?c (hash key) ?f]\<rparr>"
    using createCommand_stores[OF created(3)] by simp
  have "new_event_ok (created_event ?c) db0"
    using session_lookup_row[OF adm(1)] by (auto simp: stored new_event_ok_def created_event_def requested_command_def list_ex_iff)
  then have "db_history db0 db1"
    using history_op[of "Op_append (created_event ?c) now" db0] created(4) by simp
  from created_command_replay[OF assms(2) created(3) requested_command_ok[OF adm(1)] history_trans[OF assms(5) this]] s
  obtain current where cur: "command_lookup (ap_organizationId p) i db2 = Some current"
    "commandByIdempotency (ap_organizationId p) sid (hash key) db2 = Some (current, ?f)"
    by (auto simp: requested_command_def)
  have principal: "command_fingerprint hash p' sid r' = command_fingerprint hash p sid r'"
    using assms(6,7) by (simp add: command_fingerprint_def command_text_def)
  note command_fingerprint_iff[OF assms(1)]
  with cur principal assms(6,7) show ?thesis by (auto simp: service_createCommand_def Let_def)
qed

definition other_demo_command :: command_request where
  "other_demo_command = demo_command\<lparr>cr_command := ''make clean''\<rparr>"

theorem command_retry_witness:
  "\<exists>db1 current. db1 = fst (snd (service_createCommand demo_digest failing_client (demo_agent standard) ''s'' demo_command ''key'' ''new'' 5000 5001 command_demo_db 0))
     \<and> command_lookup ''org'' ''new'' db1 = Some current
     \<and> fst (service_createCommand demo_digest silent_client (demo_agent standard) ''s'' demo_command ''key'' ''other'' 6000 6001 db1 ())
        = Inr (Command_replayed current)
     \<and> fst (service_createCommand demo_digest silent_client (demo_agent standard) ''s'' other_demo_command ''key'' ''other'' 6000 6001 db1 ())
        = Inr (Command_denied Create_idempotency_conflict)"
proof -
  let ?run = "service_createCommand demo_digest failing_client (demo_agent standard) ''s'' demo_command ''key'' ''new'' 5000 5001 command_demo_db 0"
  obtain res db1 c1 where run: "?run = (res, db1, c1)" by (cases ?run) auto
  have len: "length (db_commands command_demo_db) < length (db_commands (fst (snd ?run)))" by code_simp
  have "demo_digest (command_text (demo_agent standard) ''s'' demo_command)
      \<noteq> demo_digest (command_text (demo_agent standard) ''s'' other_demo_command)" by code_simp
  then have inj: "inj_on demo_digest {command_text (demo_agent standard) ''s'' demo_command, command_text (demo_agent standard) ''s'' other_demo_command}"
    "inj_on demo_digest {command_text (demo_agent standard) ''s'' demo_command, command_text (demo_agent standard) ''s'' demo_command}"
    by (auto simp: inj_on_def)
  have ne: "other_demo_command \<noteq> demo_command" by (simp add: other_demo_command_def demo_command_def)
  note retry = command_retry[OF _ command_demo_db_wf run _ history_refl, of _ "demo_agent standard" silent_client "''other''" 6000 6001 "()"]
  from retry[OF inj(1)] retry[OF inj(2)] show ?thesis using len run ne by (auto simp: demo_agent_def)
qed

end
