(* ===== verification/Control_Store.thy ===== *)
theory Control_Store
  imports Control
begin

text \<open>
  The control database, apps/server/src/control-database.ts: Organizations, preferences,
  notifications, Machines and their enrollment tokens, Agents and their MCP installations, and the
  audit log of the console.  One operation per method of \<open>PostgresControlDatabase\<close>, each one
  transaction: a throw leaves the database as it was.  The clock (\<open>now()\<close> and \<open>new Date()\<close>) and the
  random ids are arguments.  A primary key or unique index that is hit is a throw, except that the
  random ids of notifications and audit events, which nothing refers to, are taken to be fresh; foreign
  keys are not checked on insertion (no operation deletes their targets).
\<close>

section \<open>Tables\<close>

record organization =
  org_id :: ident
  org_slug :: string
  org_name :: string
  org_externalId :: ident
  org_avatarSeed :: string
  org_loggingLevel :: logging_level
  org_createdAt :: instant

record user_preference =
  up_externalId :: ident
  up_timeZone :: string
  up_updatedAt :: instant

datatype notification_kind = notify_machine_enrolled | notify_machine_offline | notify_agent_revoked

record notification =
  nt_organizationId :: ident
  nt_id :: ident
  nt_userId :: ident
  nt_kind :: notification_kind
  nt_title :: string
  nt_description :: string
  nt_href :: string
  nt_resourceId :: ident
  nt_readAt :: "instant option"
  nt_createdAt :: instant

datatype machine_status = machine_online | machine_offline

text \<open>
  What the \<open>runtime\<close> column holds: the runtime a Client reported, or only the protocol version of an
  incompatible Client that reported none.
\<close>

datatype machine_runtime = Reported runtime_info | Only_version int

record machine =
  mc_organizationId :: ident
  mc_id :: ident
  mc_name :: string
  mc_description :: "string option"
  mc_publicKey :: string
  mc_status :: machine_status
  mc_runtime :: "machine_runtime option"
  mc_lastSeenAt :: "instant option"
  mc_revokedAt :: "instant option"
  mc_createdByHumanId :: "ident option"
  mc_enrolledAt :: instant

record enrollment_token =
  et_organizationId :: ident
  et_tokenHash :: string
  et_createdByHumanId :: "ident option"
  et_expiresAt :: instant
  et_usedAt :: "instant option"

datatype agent_status = agent_active | agent_disabled

record agent_identity =
  ag_organizationId :: ident
  ag_id :: ident
  ag_name :: string
  ag_role :: agent_role
  ag_createdByHumanId :: "ident option"
  ag_status :: agent_status
  ag_deletedAt :: "instant option"
  ag_createdAt :: instant
  ag_updatedAt :: instant

datatype installation_status = installation_active | installation_revoked

record mcp_installation =
  mi_organizationId :: ident
  mi_id :: ident
  mi_provider :: string
  mi_userId :: ident
  mi_oauthClientId :: ident
  mi_agentId :: ident
  mi_status :: installation_status
  mi_createdAt :: instant
  mi_updatedAt :: instant

datatype control_metadata =
  Meta_none | Meta_name string | Meta_agents "ident list" | Meta_values "(string \<times> metadata_value) list"

record control_audit_event =
  ae_organizationId :: ident
  ae_id :: ident
  ae_principalId :: ident
  ae_action :: string
  ae_targetType :: string
  ae_targetId :: ident
  ae_metadata :: control_metadata
  ae_createdAt :: instant

record control_db =
  cdb_organizations :: "organization list"
  cdb_preferences :: "user_preference list"
  cdb_notifications :: "notification list"
  cdb_machines :: "machine list"
  cdb_tokens :: "enrollment_token list"
  cdb_agents :: "agent_identity list"
  cdb_installations :: "mcp_installation list"
  cdb_audit :: "control_audit_event list"

definition empty_control_db :: control_db where
  "empty_control_db = \<lparr>cdb_organizations = [], cdb_preferences = [], cdb_notifications = [],
     cdb_machines = [], cdb_tokens = [], cdb_agents = [], cdb_installations = [], cdb_audit = []\<rparr>"

definition duplicate_key :: exn where
  "duplicate_key = Exn ''duplicate key value violates unique constraint''"

section \<open>Start\<close>

text \<open>After the migration, \<open>initialize\<close> marks every Machine offline.\<close>

definition control_initialize :: "control_db \<Rightarrow> control_db" where
  "control_initialize db =
     db\<lparr>cdb_machines := sql_update (\<lambda>m. mc_status m \<noteq> machine_offline)
          (\<lambda>m. m\<lparr>mc_status := machine_offline\<rparr>) (cdb_machines db)\<rparr>"

section \<open>Organizations, preferences, notifications\<close>

text \<open>
  A console sign-in is one transaction: it takes an advisory lock on the hash of its external id,
  checks that the Organization exists or that there is none at all, and then inserts the
  Organization or updates it (\<open>on conflict (external_id)\<close>; the primary key still has to be new).
\<close>

definition ensureContext_check :: "ident \<Rightarrow> control_db \<Rightarrow> exn option" where
  "ensureContext_check externalId db =
     (case sql_first (\<lambda>o'. org_externalId o' = externalId) (cdb_organizations db) of
        None \<Rightarrow>
          if cdb_organizations db \<noteq> []
          then Some (Exn ''Self-hosted Odyshell permits exactly one Organization'') else None
      | Some _ \<Rightarrow> None)"

definition ensureContext_insert ::
    "ident \<Rightarrow> string \<Rightarrow> string \<Rightarrow> ident \<Rightarrow> instant \<Rightarrow> control_db \<Rightarrow> (exn + organization) \<times> control_db" where
  "ensureContext_insert externalId slug name freshId now db =
     (let P = (\<lambda>o'. org_externalId o' = externalId);
          change = (\<lambda>o'. o'\<lparr>org_slug := slug, org_name := name\<rparr>) in
      case sql_first P (cdb_organizations db) of
        None \<Rightarrow>
          if list_ex (\<lambda>o'. org_id o' = freshId) (cdb_organizations db) then (Inl duplicate_key, db)
          else
            let row = \<lparr>org_id = freshId, org_slug = slug, org_name = name, org_externalId = externalId,
                       org_avatarSeed = ''default'', org_loggingLevel = privacy_minimal, org_createdAt = now\<rparr>
            in (Inr row, db\<lparr>cdb_organizations := cdb_organizations db @ [row]\<rparr>)
      | Some row \<Rightarrow>
          (Inr (change row), db\<lparr>cdb_organizations := sql_update P change (cdb_organizations db)\<rparr>))"

text \<open>The transaction run alone.\<close>

definition ensureControlContext ::
    "ident \<Rightarrow> string \<Rightarrow> string \<Rightarrow> ident \<Rightarrow> instant \<Rightarrow> control_db \<Rightarrow> (exn + organization) \<times> control_db" where
  "ensureControlContext externalId slug name freshId now db =
     (case ensureContext_check externalId db of
        Some e \<Rightarrow> (Inl e, db)
      | None \<Rightarrow> ensureContext_insert externalId slug name freshId now db)"

definition active_machine_of :: "ident \<Rightarrow> machine \<Rightarrow> bool" where
  "active_machine_of organizationId m \<longleftrightarrow> mc_organizationId m = organizationId \<and> mc_revokedAt m = None"

definition organizationUsage :: "ident \<Rightarrow> control_db \<Rightarrow> (nat \<times> nat) option" where
  "organizationUsage organizationId db =
     map_option (\<lambda>_. (sql_count (active_machine_of organizationId) (cdb_machines db),
                      sql_count (\<lambda>a. ag_organizationId a = organizationId \<and> ag_deletedAt a = None
                                   \<and> ag_status a = agent_active) (cdb_agents db)))
       (sql_first (\<lambda>o'. org_id o' = organizationId) (cdb_organizations db))"

record mcp_organization =
  mo_organizationId :: ident
  mo_organizationName :: string
  mo_organizationExternalId :: ident

definition mcpOrganizationRecord :: "organization \<Rightarrow> mcp_organization" where
  "mcpOrganizationRecord row = \<lparr>mo_organizationId = org_id row, mo_organizationName = org_name row,
                               mo_organizationExternalId = org_externalId row\<rparr>"

definition mcpOrganization :: "ident \<Rightarrow> control_db \<Rightarrow> mcp_organization option" where
  "mcpOrganization organizationId db =
     map_option mcpOrganizationRecord (sql_first (\<lambda>o'. org_id o' = organizationId) (cdb_organizations db))"

definition organizationByExternalId :: "ident \<Rightarrow> control_db \<Rightarrow> organization option" where
  "organizationByExternalId externalId db =
     sql_first (\<lambda>o'. org_externalId o' = externalId) (cdb_organizations db)"

definition mcpOrganizations :: "ident list \<Rightarrow> control_db \<Rightarrow> mcp_organization list" where
  "mcpOrganizations externalIds db =
     (if externalIds = [] then []
      else map mcpOrganizationRecord (sort_key org_createdAt
             (sql_where (\<lambda>o'. org_externalId o' \<in> set externalIds) (cdb_organizations db))))"

definition userPreferences :: "ident \<Rightarrow> control_db \<Rightarrow> user_preference" where
  "userPreferences externalId db =
     (case sql_first (\<lambda>u. up_externalId u = externalId) (cdb_preferences db) of
        Some row \<Rightarrow> row
      | None \<Rightarrow> \<lparr>up_externalId = externalId, up_timeZone = ''System'', up_updatedAt = 0\<rparr>)"

definition upsertUserPreferences ::
    "ident \<Rightarrow> string \<Rightarrow> instant \<Rightarrow> control_db \<Rightarrow> user_preference \<times> control_db" where
  "upsertUserPreferences externalId timeZone now db =
     (let P = (\<lambda>u. up_externalId u = externalId);
          row = \<lparr>up_externalId = externalId, up_timeZone = timeZone, up_updatedAt = now\<rparr> in
      if sql_first P (cdb_preferences db) = None
      then (row, db\<lparr>cdb_preferences := cdb_preferences db @ [row]\<rparr>)
      else (row, db\<lparr>cdb_preferences := sql_update P
             (\<lambda>u. u\<lparr>up_timeZone := timeZone, up_updatedAt := now\<rparr>) (cdb_preferences db)\<rparr>))"

definition updateOrganizationSettings ::
    "ident \<Rightarrow> organization_settings \<Rightarrow> control_db \<Rightarrow> organization option \<times> control_db" where
  "updateOrganizationSettings organizationId settings db =
     (let P = (\<lambda>o'. org_id o' = organizationId);
          change = (\<lambda>o'. case settings of
              Details name seed \<Rightarrow> o'\<lparr>org_name := name, org_avatarSeed := seed\<rparr>
            | Logging level \<Rightarrow> o'\<lparr>org_loggingLevel := level\<rparr>)
      in (sql_returning P change (cdb_organizations db),
          db\<lparr>cdb_organizations := sql_update P change (cdb_organizations db)\<rparr>))"

definition createNotification ::
    "ident \<Rightarrow> ident \<Rightarrow> notification_kind \<Rightarrow> string \<Rightarrow> string option \<Rightarrow> string \<Rightarrow> ident \<Rightarrow> ident \<Rightarrow>
     instant \<Rightarrow> control_db \<Rightarrow> control_db" where
  "createNotification organizationId userId kind title description href resourceId freshId now db =
     db\<lparr>cdb_notifications := cdb_notifications db @
          [\<lparr>nt_organizationId = organizationId, nt_id = freshId, nt_userId = userId, nt_kind = kind,
            nt_title = title, nt_description = (case description of None \<Rightarrow> [] | Some d \<Rightarrow> d),
            nt_href = href, nt_resourceId = resourceId, nt_readAt = None, nt_createdAt = now\<rparr>]\<rparr>"

definition NOTIFICATION_RETENTION :: int where
  "NOTIFICATION_RETENTION = 30 * 24 * 60 * 60 * 1000"

definition notification_of :: "ident \<Rightarrow> ident \<Rightarrow> notification \<Rightarrow> bool" where
  "notification_of organizationId userId n \<longleftrightarrow>
     nt_organizationId n = organizationId \<and> nt_userId n = userId"

definition listNotifications ::
    "ident \<Rightarrow> ident \<Rightarrow> int \<Rightarrow> instant \<Rightarrow> control_db \<Rightarrow> notification list \<times> control_db" where
  "listNotifications organizationId userId limit now db =
     (let kept = sql_delete (\<lambda>n. nt_createdAt n < now - NOTIFICATION_RETENTION) (cdb_notifications db)
      in (take (clamp_limit limit 100)
            (sort_desc nt_createdAt (sql_where (notification_of organizationId userId) kept)),
          db\<lparr>cdb_notifications := kept\<rparr>))"

definition markNotificationRead ::
    "ident \<Rightarrow> ident \<Rightarrow> ident \<Rightarrow> bool \<Rightarrow> instant \<Rightarrow> control_db \<Rightarrow> bool \<times> control_db" where
  "markNotificationRead organizationId userId notificationId read now db =
     (let P = (\<lambda>n. notification_of organizationId userId n \<and> nt_id n = notificationId) in
      (sql_count P (cdb_notifications db) = 1,
       db\<lparr>cdb_notifications := sql_update P
            (\<lambda>n. n\<lparr>nt_readAt := if read then Some now else None\<rparr>) (cdb_notifications db)\<rparr>))"

definition markAllNotificationsRead ::
    "ident \<Rightarrow> ident \<Rightarrow> instant \<Rightarrow> control_db \<Rightarrow> nat \<times> control_db" where
  "markAllNotificationsRead organizationId userId now db =
     (let P = (\<lambda>n. notification_of organizationId userId n \<and> nt_readAt n = None) in
      (sql_count P (cdb_notifications db),
       db\<lparr>cdb_notifications := sql_update P (\<lambda>n. n\<lparr>nt_readAt := Some now\<rparr>) (cdb_notifications db)\<rparr>))"

section \<open>Agents and their MCP installations\<close>

definition MCP_PROVIDER :: string where
  "MCP_PROVIDER = ''odyshell_identity''"

text \<open>\<open>^(MCP Agent|MCP)$\<close>, ignoring case.\<close>

definition generic_agent_name :: "string \<Rightarrow> bool" where
  "generic_agent_name s \<longleftrightarrow> map lower_unit s \<in> {''mcp agent'', ''mcp''}"

definition installation_key :: "ident \<Rightarrow> ident \<Rightarrow> ident \<Rightarrow> mcp_installation \<Rightarrow> bool" where
  "installation_key organizationId userId oauthClientId i \<longleftrightarrow>
     mi_organizationId i = organizationId \<and> mi_provider i = MCP_PROVIDER
     \<and> mi_userId i = userId \<and> mi_oauthClientId i = oauthClientId"

definition agent_key :: "ident \<Rightarrow> ident \<Rightarrow> agent_identity \<Rightarrow> bool" where
  "agent_key organizationId agentId a \<longleftrightarrow> ag_organizationId a = organizationId \<and> ag_id a = agentId"

text \<open>An Agent that may act: active and not deleted.\<close>

definition agent_usable :: "agent_identity \<Rightarrow> bool" where
  "agent_usable a \<longleftrightarrow> ag_status a = agent_active \<and> ag_deletedAt a = None"

record mcp_installation_record = mcp_installation +
  mi_agentName :: string
  mi_agentRole :: agent_role

definition installationRecord :: "mcp_installation \<Rightarrow> string \<Rightarrow> agent_role \<Rightarrow> mcp_installation_record" where
  "installationRecord row agentName agentRole =
     mcp_installation.extend row (mcp_installation_record.fields agentName agentRole)"

text \<open>The row of the join, when there is one.\<close>

definition active_join ::
    "ident \<Rightarrow> ident \<Rightarrow> ident \<Rightarrow> control_db \<Rightarrow> (mcp_installation \<times> agent_identity) option" where
  "active_join organizationId userId oauthClientId db =
     (case sql_first (\<lambda>i. installation_key organizationId userId oauthClientId i
            \<and> mi_status i = installation_active) (cdb_installations db) of
        None \<Rightarrow> None
      | Some i \<Rightarrow>
          (case sql_first (\<lambda>a. agent_key organizationId (mi_agentId i) a \<and> agent_usable a) (cdb_agents db) of
             None \<Rightarrow> None
           | Some a \<Rightarrow> Some (i, a)))"

definition activeInstallation ::
    "ident \<Rightarrow> ident \<Rightarrow> ident \<Rightarrow> string \<Rightarrow> instant \<Rightarrow> control_db \<Rightarrow>
     mcp_installation_record option \<times> control_db" where
  "activeInstallation organizationId userId oauthClientId agentName now db =
     (case active_join organizationId userId oauthClientId db of
        None \<Rightarrow> (None, db)
      | Some (i, a) \<Rightarrow>
          let name = (if generic_agent_name (ag_name a) then agentName else ag_name a) in
          (Some (installationRecord i name (ag_role a)),
           if name \<noteq> ag_name a
           then db\<lparr>cdb_agents := sql_update (agent_key organizationId (mi_agentId i))
                  (\<lambda>a. a\<lparr>ag_name := name, ag_updatedAt := now\<rparr>) (cdb_agents db)\<rparr>
           else db))"

definition ensureMcpInstallation ::
    "ident \<Rightarrow> ident \<Rightarrow> ident \<Rightarrow> string \<Rightarrow> ident \<Rightarrow> ident \<Rightarrow> instant \<Rightarrow> control_db \<Rightarrow>
     (exn + mcp_installation_record option) \<times> control_db" where
  "ensureMcpInstallation organizationId userId oauthClientId agentName agentId installationId now db =
     (case activeInstallation organizationId userId oauthClientId agentName now db of
        (Some existing, db1) \<Rightarrow> (Inr (Some existing), db1)
      | (None, _) \<Rightarrow>
          if list_ex (installation_key organizationId userId oauthClientId) (cdb_installations db)
          then (Inr None, db)
          else if list_ex (agent_key organizationId agentId) (cdb_agents db)
               \<or> list_ex (\<lambda>i. mi_organizationId i = organizationId \<and> mi_id i = installationId) (cdb_installations db)
          then (Inl duplicate_key, db)
          else
            let agent = \<lparr>ag_organizationId = organizationId, ag_id = agentId, ag_name = agentName,
                  ag_role = standard, ag_createdByHumanId = Some userId, ag_status = agent_active,
                  ag_deletedAt = None, ag_createdAt = now, ag_updatedAt = now\<rparr>;
                installation = \<lparr>mi_organizationId = organizationId, mi_id = installationId,
                  mi_provider = MCP_PROVIDER, mi_userId = userId, mi_oauthClientId = oauthClientId,
                  mi_agentId = agentId, mi_status = installation_active, mi_createdAt = now,
                  mi_updatedAt = now\<rparr>
            in (Inr (Some (installationRecord installation agentName standard)),
                db\<lparr>cdb_agents := cdb_agents db @ [agent],
                   cdb_installations := cdb_installations db @ [installation]\<rparr>))"

definition listOrganizationAgents :: "ident \<Rightarrow> control_db \<Rightarrow> agent_identity list" where
  "listOrganizationAgents organizationId db =
     sort_desc ag_createdAt
       (sql_where (\<lambda>a. ag_organizationId a = organizationId \<and> ag_deletedAt a = None) (cdb_agents db))"

definition listRunnableAgentIds :: "ident \<Rightarrow> control_db \<Rightarrow> ident list" where
  "listRunnableAgentIds organizationId db =
     remdups (map mi_agentId (sql_where (\<lambda>i. mi_organizationId i = organizationId
         \<and> mi_status i = installation_active
         \<and> list_ex (\<lambda>a. agent_key organizationId (mi_agentId i) a \<and> agent_usable a) (cdb_agents db))
       (cdb_installations db)))"

definition deleteOrganizationAgent ::
    "ident \<Rightarrow> ident \<Rightarrow> instant \<Rightarrow> control_db \<Rightarrow> ident list option \<times> control_db" where
  "deleteOrganizationAgent organizationId agentId now db =
     (let P = (\<lambda>a. agent_key organizationId agentId a \<and> ag_deletedAt a = None);
          agentIds = map ag_id (sql_where P (cdb_agents db))
      in if agentIds = [] then (None, db)
         else (Some agentIds,
               db\<lparr>cdb_agents := sql_update P (\<lambda>a. a\<lparr>ag_status := agent_disabled,
                       ag_deletedAt := Some now, ag_updatedAt := now\<rparr>) (cdb_agents db),
                  cdb_installations := sql_update (\<lambda>i. mi_organizationId i = organizationId
                       \<and> mi_agentId i \<in> set agentIds \<and> mi_status i = installation_active)
                     (\<lambda>i. i\<lparr>mi_status := installation_revoked, mi_updatedAt := now\<rparr>)
                     (cdb_installations db)\<rparr>))"

definition updateOrganizationAgentRole ::
    "ident \<Rightarrow> ident \<Rightarrow> agent_role \<Rightarrow> instant \<Rightarrow> control_db \<Rightarrow> agent_identity option \<times> control_db" where
  "updateOrganizationAgentRole organizationId agentId role now db =
     (let P = (\<lambda>a. agent_key organizationId agentId a \<and> agent_usable a);
          change = (\<lambda>a. a\<lparr>ag_role := role, ag_updatedAt := now\<rparr>)
      in (sql_returning P change (cdb_agents db),
          db\<lparr>cdb_agents := sql_update P change (cdb_agents db)\<rparr>))"

section \<open>Enrollment\<close>

definition createEnrollmentToken ::
    "ident \<Rightarrow> string \<Rightarrow> instant \<Rightarrow> ident option \<Rightarrow> control_db \<Rightarrow> exn option \<times> control_db" where
  "createEnrollmentToken organizationId tokenHash expiresAt createdByHumanId db =
     (if list_ex (\<lambda>t. et_tokenHash t = tokenHash) (cdb_tokens db) then (Some duplicate_key, db)
      else (None, db\<lparr>cdb_tokens := cdb_tokens db @
              [\<lparr>et_organizationId = organizationId, et_tokenHash = tokenHash,
                et_createdByHumanId = createdByHumanId, et_expiresAt = expiresAt, et_usedAt = None\<rparr>]\<rparr>))"

record enrollment_input =
  ei_tokenHash :: string
  ei_machineId :: ident
  ei_name :: string
  ei_publicKey :: string
  ei_previousMachineId :: "ident option"

record enrolled_machine =
  em_machineId :: ident
  em_name :: string
  em_controlOrganizationId :: ident
  em_organizationId :: ident
  em_createdByHumanId :: "ident option"

datatype enroll_result = Enrolled enrolled_machine | Previous_machine_active | Enroll_refused

definition enrollMachine ::
    "enrollment_input \<Rightarrow> instant \<Rightarrow> control_db \<Rightarrow> (exn + enroll_result) \<times> control_db" where
  "enrollMachine input now db =
     (case sql_first (\<lambda>t. et_tokenHash t = ei_tokenHash input) (cdb_tokens db) of
        None \<Rightarrow> (Inr Enroll_refused, db)
      | Some token \<Rightarrow>
          let org = et_organizationId token in
          if et_usedAt token \<noteq> None \<or> et_expiresAt token \<le> now then (Inr Enroll_refused, db)
          else if (case ei_previousMachineId input of
                     None \<Rightarrow> False
                   | Some previous \<Rightarrow> previous \<noteq> [] \<and>
                       list_ex (\<lambda>m. mc_id m = previous \<and> active_machine_of org m) (cdb_machines db))
          then (Inr Previous_machine_active, db)
          else (case sql_first (\<lambda>o'. org_id o' = org) (cdb_organizations db) of
              None \<Rightarrow> (Inr Enroll_refused, db)
            | Some owner \<Rightarrow>
                if list_ex (\<lambda>m. mc_id m = ei_machineId input) (cdb_machines db)
                then (Inl duplicate_key, db)
                else
                  (Inr (Enrolled \<lparr>em_machineId = ei_machineId input, em_name = ei_name input,
                          em_controlOrganizationId = org, em_organizationId = org_externalId owner,
                          em_createdByHumanId = et_createdByHumanId token\<rparr>),
                   db\<lparr>cdb_tokens := sql_update (\<lambda>t. et_tokenHash t = ei_tokenHash input)
                          (\<lambda>t. t\<lparr>et_usedAt := Some now\<rparr>) (cdb_tokens db),
                      cdb_machines := cdb_machines db @
                        [\<lparr>mc_organizationId = org, mc_id = ei_machineId input, mc_name = ei_name input,
                          mc_description = None, mc_publicKey = ei_publicKey input,
                          mc_status = machine_offline, mc_runtime = None, mc_lastSeenAt = None,
                          mc_revokedAt = None, mc_createdByHumanId = et_createdByHumanId token,
                          mc_enrolledAt = now\<rparr>]\<rparr>)))"

section \<open>Machines\<close>

definition listMachines :: "ident \<Rightarrow> control_db \<Rightarrow> machine list" where
  "listMachines organizationId db =
     sort_key mc_enrolledAt (sql_where (active_machine_of organizationId) (cdb_machines db))"

definition updateMachineDetails ::
    "ident \<Rightarrow> ident \<Rightarrow> string \<Rightarrow> string \<Rightarrow> control_db \<Rightarrow> machine option \<times> control_db" where
  "updateMachineDetails organizationId machineId name description db =
     (let P = (\<lambda>m. mc_id m = machineId \<and> active_machine_of organizationId m);
          d = js_trim description;
          change = (\<lambda>m. m\<lparr>mc_name := js_trim name, mc_description := if d = [] then None else Some d\<rparr>)
      in (sql_returning P change (cdb_machines db),
          db\<lparr>cdb_machines := sql_update P change (cdb_machines db)\<rparr>))"

definition activeMachinesExist :: "ident \<Rightarrow> ident list \<Rightarrow> control_db \<Rightarrow> bool" where
  "activeMachinesExist organizationId machineIds db =
     (if machineIds = [] then True
      else let uniqueIds = remdups machineIds in
        sql_count (\<lambda>m. mc_id m \<in> set uniqueIds \<and> active_machine_of organizationId m) (cdb_machines db)
          = length uniqueIds)"

record machine_identity =
  mid_publicKey :: string
  mid_organizationId :: ident
  mid_revoked :: bool

definition machinePublicKey :: "ident \<Rightarrow> control_db \<Rightarrow> machine_identity option" where
  "machinePublicKey machineId db =
     map_option (\<lambda>m. \<lparr>mid_publicKey = mc_publicKey m, mid_organizationId = mc_organizationId m,
                      mid_revoked = (mc_revokedAt m \<noteq> None)\<rparr>)
       (sql_first (\<lambda>m. mc_id m = machineId) (cdb_machines db))"

definition setMachineOffline :: "ident \<Rightarrow> control_db \<Rightarrow> control_db" where
  "setMachineOffline machineId db =
     db\<lparr>cdb_machines := sql_update (\<lambda>m. mc_id m = machineId)
          (\<lambda>m. m\<lparr>mc_status := machine_offline\<rparr>) (cdb_machines db)\<rparr>"

definition connectable :: "ident \<Rightarrow> machine \<Rightarrow> bool" where
  "connectable machineId m \<longleftrightarrow> mc_id m = machineId \<and> mc_revokedAt m = None"

definition control_setMachineOnline ::
    "ident \<Rightarrow> runtime_info option \<Rightarrow> instant \<Rightarrow> control_db \<Rightarrow> bool \<times> control_db" where
  "control_setMachineOnline machineId runtime now db =
     (sql_count (connectable machineId) (cdb_machines db) = 1,
      db\<lparr>cdb_machines := sql_update (connectable machineId)
           (\<lambda>m. m\<lparr>mc_status := machine_online, mc_lastSeenAt := Some now,
                  mc_runtime := (case runtime of None \<Rightarrow> mc_runtime m | Some r \<Rightarrow> Some (Reported r))\<rparr>)
           (cdb_machines db)\<rparr>)"

definition setMachineIncompatible ::
    "ident \<Rightarrow> machine_runtime \<Rightarrow> instant \<Rightarrow> control_db \<Rightarrow> bool \<times> control_db" where
  "setMachineIncompatible machineId runtime now db =
     (sql_count (connectable machineId) (cdb_machines db) = 1,
      db\<lparr>cdb_machines := sql_update (connectable machineId)
           (\<lambda>m. m\<lparr>mc_status := machine_offline, mc_lastSeenAt := Some now, mc_runtime := Some runtime\<rparr>)
           (cdb_machines db)\<rparr>)"

definition heartbeat :: "ident \<Rightarrow> instant \<Rightarrow> control_db \<Rightarrow> control_db" where
  "heartbeat machineId now db =
     db\<lparr>cdb_machines := sql_update (connectable machineId)
          (\<lambda>m. m\<lparr>mc_status := machine_online, mc_lastSeenAt := Some now\<rparr>) (cdb_machines db)\<rparr>"

definition revokeMachine ::
    "ident \<Rightarrow> ident \<Rightarrow> instant \<Rightarrow> control_db \<Rightarrow> (ident \<times> string \<times> instant) option \<times> control_db" where
  "revokeMachine organizationId machineId now db =
     (let P = (\<lambda>m. mc_id m = machineId \<and> active_machine_of organizationId m);
          change = (\<lambda>m. m\<lparr>mc_status := machine_offline, mc_revokedAt := Some now\<rparr>)
      in (map_option (\<lambda>m. (mc_id m, mc_name m, now)) (sql_first P (cdb_machines db)),
          db\<lparr>cdb_machines := sql_update P change (cdb_machines db)\<rparr>))"

section \<open>Audit and retention\<close>

definition control_listAudit :: "ident \<Rightarrow> int \<Rightarrow> control_db \<Rightarrow> control_audit_event list" where
  "control_listAudit organizationId limit db =
     take (clamp_limit limit 500) (sort_desc ae_createdAt
       (sql_where (\<lambda>e. ae_organizationId e = organizationId) (cdb_audit db)))"

definition control_audit ::
    "ident \<Rightarrow> ident \<Rightarrow> string \<Rightarrow> string \<Rightarrow> ident \<Rightarrow> control_metadata \<Rightarrow> ident \<Rightarrow> instant \<Rightarrow> control_db \<Rightarrow> control_db" where
  "control_audit organizationId principalId action targetType targetId metadata freshId now db =
     db\<lparr>cdb_audit := cdb_audit db @
          [\<lparr>ae_organizationId = organizationId, ae_id = freshId, ae_principalId = principalId,
            ae_action = action, ae_targetType = targetType, ae_targetId = targetId,
            ae_metadata = metadata, ae_createdAt = now\<rparr>]\<rparr>"

definition purgeExpiredData :: "instant \<Rightarrow> instant \<Rightarrow> control_db \<Rightarrow> control_db" where
  "purgeExpiredData transientDataBefore auditBefore db =
     db\<lparr>cdb_tokens := sql_delete (\<lambda>t. et_expiresAt t < transientDataBefore) (cdb_tokens db),
        cdb_audit := sql_delete (\<lambda>e. ae_createdAt e < auditBefore) (cdb_audit db)\<rparr>"

end
