(* ===== verification/Control_Invariants.thy ===== *)
theory Control_Invariants
  imports Control_Store Tables
begin

text \<open>
  The invariant of the control database and the life cycles of its rows: a revoked Machine, a
  revoked installation and a deleted Agent never change again.  Machines, installations and Agents
  meet the contract \<open>row_lifecycle\<close>; every operation preserves the invariant and is a forward step.
\<close>

section \<open>Life cycles\<close>

definition machine_final :: "machine \<Rightarrow> bool" where
  "machine_final m \<longleftrightarrow> mc_revokedAt m \<noteq> None \<and> mc_status m = machine_offline"

definition machine_step :: "machine \<Rightarrow> machine \<Rightarrow> bool" where
  "machine_step m m' \<longleftrightarrow> mc_id m' = mc_id m \<and> mc_organizationId m' = mc_organizationId m
     \<and> mc_publicKey m' = mc_publicKey m \<and> mc_enrolledAt m' = mc_enrolledAt m
     \<and> (machine_final m \<longrightarrow> m' = m)"

definition install_id :: "mcp_installation \<Rightarrow> ident \<times> ident" where
  "install_id i = (mi_organizationId i, mi_id i)"

definition install_unique :: "mcp_installation \<Rightarrow> ident \<times> string \<times> ident \<times> ident" where
  "install_unique i = (mi_organizationId i, mi_provider i, mi_userId i, mi_oauthClientId i)"

definition installation_step :: "mcp_installation \<Rightarrow> mcp_installation \<Rightarrow> bool" where
  "installation_step i i' \<longleftrightarrow> install_id i' = install_id i \<and> install_unique i' = install_unique i
     \<and> mi_agentId i' = mi_agentId i \<and> (mi_status i = installation_revoked \<longrightarrow> i' = i)"

definition agent_id :: "agent_identity \<Rightarrow> ident \<times> ident" where
  "agent_id a = (ag_organizationId a, ag_id a)"

definition agent_step :: "agent_identity \<Rightarrow> agent_identity \<Rightarrow> bool" where
  "agent_step a a' \<longleftrightarrow> agent_id a' = agent_id a \<and> (ag_deletedAt a \<noteq> None \<longrightarrow> a' = a)"

interpretation machines: row_lifecycle mc_id machine_step machine_final
  by unfold_locales (auto simp: machine_step_def)

interpretation installations: row_lifecycle install_id installation_step "\<lambda>i. mi_status i = installation_revoked"
  by unfold_locales (auto simp: installation_step_def)

interpretation agents: row_lifecycle agent_id agent_step "\<lambda>a. ag_deletedAt a \<noteq> None"
  by unfold_locales (auto simp: agent_step_def)

section \<open>The invariant\<close>

definition machines_wf :: "machine list \<Rightarrow> bool" where
  "machines_wf t \<longleftrightarrow> distinct (map mc_id t) \<and> (\<forall>m \<in> set t. mc_revokedAt m \<noteq> None \<longrightarrow> mc_status m = machine_offline)"

definition agents_wf :: "agent_identity list \<Rightarrow> bool" where
  "agents_wf t \<longleftrightarrow> distinct (map agent_id t) \<and> (\<forall>a \<in> set t. ag_deletedAt a = None \<longleftrightarrow> ag_status a = agent_active)"

definition usable_agent_in :: "agent_identity list \<Rightarrow> mcp_installation \<Rightarrow> bool" where
  "usable_agent_in t i \<longleftrightarrow> (\<exists>a \<in> set t. agent_id a = (mi_organizationId i, mi_agentId i) \<and> agent_usable a)"

definition installations_wf :: "agent_identity list \<Rightarrow> mcp_installation list \<Rightarrow> bool" where
  "installations_wf as t \<longleftrightarrow> distinct (map install_id t) \<and> distinct (map install_unique t)
     \<and> (\<forall>i \<in> set t. mi_status i = installation_active \<longrightarrow> usable_agent_in as i)"

definition organizations_wf :: "organization list \<Rightarrow> bool" where
  "organizations_wf t \<longleftrightarrow> distinct (map org_id t) \<and> distinct (map org_externalId t)"

definition control_wf :: "control_db \<Rightarrow> bool" where
  "control_wf db \<longleftrightarrow> organizations_wf (cdb_organizations db)
     \<and> distinct (map up_externalId (cdb_preferences db))
     \<and> machines_wf (cdb_machines db) \<and> distinct (map et_tokenHash (cdb_tokens db))
     \<and> agents_wf (cdb_agents db) \<and> installations_wf (cdb_agents db) (cdb_installations db)"

definition control_step :: "control_db \<Rightarrow> control_db \<Rightarrow> bool" where
  "control_step db db' \<longleftrightarrow> evolves machine_step (cdb_machines db) (cdb_machines db')
     \<and> evolves installation_step (cdb_installations db) (cdb_installations db')
     \<and> evolves agent_step (cdb_agents db) (cdb_agents db')"

lemma control_step_refl [simp]: "control_step db db"
  by (simp add: control_step_def machines.evolves_refl installations.evolves_refl agents.evolves_refl)

lemma control_step_trans: "control_step db db' \<Longrightarrow> control_step db' db'' \<Longrightarrow> control_step db db''"
  unfolding control_step_def
  using machines.evolves_trans installations.evolves_trans agents.evolves_trans by blast

abbreviation keeps :: "control_db \<Rightarrow> control_db \<Rightarrow> bool" where
  "keeps db db' \<equiv> control_wf db' \<and> control_step db db'"

lemma control_empty_wf [simp]: "control_wf empty_control_db"
  by (simp add: control_wf_def organizations_wf_def empty_control_db_def machines_wf_def agents_wf_def installations_wf_def)

lemma organization_by_id:
  "control_wf db \<Longrightarrow> o' \<in> set (cdb_organizations db) \<Longrightarrow>
   sql_first (\<lambda>x. org_id x = org_id o') (cdb_organizations db) = Some o'"
  by (rule sql_first_key[where k = org_id]) (simp_all add: control_wf_def organizations_wf_def)

text \<open>The tables one at a time.\<close>

lemma keeps_machines:
  assumes "control_wf db" "machines_wf t" "evolves machine_step (cdb_machines db) t"
  shows "keeps db (db\<lparr>cdb_machines := t\<rparr>)"
  using assms by (simp add: control_wf_def control_step_def installations.evolves_refl agents.evolves_refl)

lemma machines_update:
  assumes "machines_wf t" "\<And>m. m \<in> set t \<Longrightarrow> P m \<Longrightarrow> machine_step m (f m)
      \<and> (mc_revokedAt (f m) \<noteq> None \<longrightarrow> mc_status (f m) = machine_offline)"
  shows "machines_wf (sql_update P f t) \<and> evolves machine_step t (sql_update P f t)"
proof -
  have "map mc_id (sql_update P f t) = map mc_id t"
    using assms(2) by (auto simp: sql_update_def machine_step_def)
  moreover have "\<forall>m \<in> set (sql_update P f t). mc_revokedAt m \<noteq> None \<longrightarrow> mc_status m = machine_offline"
    using assms by (auto simp: machines_wf_def)
  ultimately show ?thesis
    using assms machines.evolves_update[of t P f] by (simp add: machines_wf_def)
qed

lemma keeps_machine_update:
  assumes "control_wf db" "\<And>m. m \<in> set (cdb_machines db) \<Longrightarrow> P m \<Longrightarrow> machine_step m (f m)
      \<and> (mc_revokedAt (f m) \<noteq> None \<longrightarrow> mc_status (f m) = machine_offline)"
  shows "keeps db (db\<lparr>cdb_machines := sql_update P f (cdb_machines db)\<rparr>)"
proof -
  have "machines_wf (cdb_machines db)" using assms(1) by (simp add: control_wf_def)
  from machines_update[OF this, of P f] assms(2)
  show ?thesis using keeps_machines[OF assms(1)] by blast
qed

lemma keeps_agent_update:
  assumes wf: "control_wf db" and step: "\<And>a. a \<in> set (cdb_agents db) \<Longrightarrow> P a \<Longrightarrow> agent_step a (f a)
      \<and> ag_deletedAt (f a) = ag_deletedAt a \<and> ag_status (f a) = ag_status a"
  shows "keeps db (db\<lparr>cdb_agents := sql_update P f (cdb_agents db)\<rparr>)"
proof -
  let ?t = "sql_update P f (cdb_agents db)"
  have ids: "map agent_id ?t = map agent_id (cdb_agents db)"
    using step by (auto simp: sql_update_def agent_step_def)
  have "agents_wf ?t" using wf step ids by (auto simp: control_wf_def agents_wf_def)
  moreover have "usable_agent_in ?t i" if "usable_agent_in (cdb_agents db) i" for i
  proof -
    obtain a where a: "a \<in> set (cdb_agents db)" "agent_id a = (mi_organizationId i, mi_agentId i)" "agent_usable a"
      using \<open>usable_agent_in (cdb_agents db) i\<close> by (auto simp: usable_agent_in_def)
    let ?b = "if P a then f a else a"
    have "?b \<in> set ?t" using a(1) by auto
    moreover have "agent_id ?b = agent_id a" "agent_usable ?b"
      using a step[OF a(1)] by (auto simp: agent_step_def agent_usable_def)
    ultimately show ?thesis using a(2) unfolding usable_agent_in_def by metis
  qed
  moreover have "evolves agent_step (cdb_agents db) ?t" using step agents.evolves_update by blast
  ultimately show ?thesis
    using wf by (auto simp: control_wf_def control_step_def installations_wf_def machines.evolves_refl
        installations.evolves_refl)
qed

section \<open>Every operation keeps the invariant\<close>

lemma keeps_frame:
  "control_wf db \<Longrightarrow> control_wf db' \<Longrightarrow> cdb_machines db' = cdb_machines db \<Longrightarrow>
   cdb_installations db' = cdb_installations db \<Longrightarrow> cdb_agents db' = cdb_agents db \<Longrightarrow> keeps db db'"
  by (simp add: control_step_def machines.evolves_refl installations.evolves_refl agents.evolves_refl)

lemma distinct_key_update:
  "(\<And>r. k (f r) = k r) \<Longrightarrow> distinct (map k (sql_update P f t)) = distinct (map k t)"
  by (simp add: map_sql_update)

lemma distinct_key_delete: "distinct (map k t) \<Longrightarrow> distinct (map k (sql_delete P t))"
  by (simp add: sql_delete_def distinct_map_filter)

lemma initialize_keeps: "control_wf db \<Longrightarrow> keeps db (control_initialize db)"
  unfolding control_initialize_def
  by (rule keeps_machine_update) (auto simp: machine_step_def machine_final_def)

lemma organizations_update:
  "(\<And>r. org_id (f r) = org_id r \<and> org_externalId (f r) = org_externalId r) \<Longrightarrow>
   organizations_wf (sql_update P f t) = organizations_wf t"
  by (simp add: organizations_wf_def map_sql_update)

lemma ensureContext_insert_keeps:
  "control_wf db \<Longrightarrow> keeps db (snd (ensureContext_insert ext slug name i now db))"
  by (rule keeps_frame) (auto simp: ensureContext_insert_def control_wf_def Let_def organizations_update
      list_ex_iff sql_first_None_iff split: option.split, auto simp: organizations_wf_def)

lemma ensureControlContext_keeps:
  "control_wf db \<Longrightarrow> keeps db (snd (ensureControlContext ext slug name i now db))"
  using ensureContext_insert_keeps by (simp add: ensureControlContext_def split: option.split)

lemma upsertUserPreferences_keeps:
  "control_wf db \<Longrightarrow> keeps db (snd (upsertUserPreferences ext z now db))"
  by (rule keeps_frame)
    (auto simp: upsertUserPreferences_def control_wf_def Let_def sql_first_None_iff distinct_key_update)

lemma updateOrganizationSettings_keeps:
  "control_wf db \<Longrightarrow> keeps db (snd (updateOrganizationSettings org st db))"
  by (cases st; rule keeps_frame) (auto simp: updateOrganizationSettings_def control_wf_def Let_def organizations_update)

lemma createNotification_keeps: "control_wf db \<Longrightarrow> keeps db (createNotification a b c d e f g h i db)"
  by (rule keeps_frame) (auto simp: createNotification_def control_wf_def)

lemma listNotifications_keeps: "control_wf db \<Longrightarrow> keeps db (snd (listNotifications org u l now db))"
  by (rule keeps_frame) (auto simp: listNotifications_def control_wf_def Let_def)

lemma markNotificationRead_keeps: "control_wf db \<Longrightarrow> keeps db (snd (markNotificationRead org u n r now db))"
  by (rule keeps_frame) (auto simp: markNotificationRead_def control_wf_def Let_def)

lemma markAllNotificationsRead_keeps: "control_wf db \<Longrightarrow> keeps db (snd (markAllNotificationsRead org u now db))"
  by (rule keeps_frame) (auto simp: markAllNotificationsRead_def control_wf_def Let_def)

lemma createEnrollmentToken_keeps: "control_wf db \<Longrightarrow> keeps db (snd (createEnrollmentToken org h e c db))"
  by (rule keeps_frame) (auto simp: createEnrollmentToken_def control_wf_def list_ex_iff)

lemma audit_keeps: "control_wf db \<Longrightarrow> keeps db (control_audit a b c d e f g h db)"
  by (rule keeps_frame) (auto simp: control_audit_def control_wf_def)

lemma purgeExpiredData_keeps: "control_wf db \<Longrightarrow> keeps db (purgeExpiredData t a db)"
  by (rule keeps_frame) (auto simp: purgeExpiredData_def control_wf_def distinct_key_delete)

lemma updateMachineDetails_keeps: "control_wf db \<Longrightarrow> keeps db (snd (updateMachineDetails org m n d db))"
  unfolding updateMachineDetails_def Let_def snd_conv
  by (rule keeps_machine_update) (auto simp: machine_step_def machine_final_def active_machine_of_def)

lemma setMachineOffline_keeps: "control_wf db \<Longrightarrow> keeps db (setMachineOffline m db)"
  unfolding setMachineOffline_def
  by (rule keeps_machine_update) (auto simp: machine_step_def machine_final_def)

lemma control_setMachineOnline_keeps: "control_wf db \<Longrightarrow> keeps db (snd (control_setMachineOnline m r now db))"
  unfolding control_setMachineOnline_def snd_conv
  by (rule keeps_machine_update) (auto simp: machine_step_def machine_final_def connectable_def)

lemma setMachineIncompatible_keeps: "control_wf db \<Longrightarrow> keeps db (snd (setMachineIncompatible m r now db))"
  unfolding setMachineIncompatible_def snd_conv
  by (rule keeps_machine_update) (auto simp: machine_step_def machine_final_def connectable_def)

lemma heartbeat_keeps: "control_wf db \<Longrightarrow> keeps db (heartbeat m now db)"
  unfolding heartbeat_def
  by (rule keeps_machine_update) (auto simp: machine_step_def machine_final_def connectable_def)

lemma revokeMachine_keeps: "control_wf db \<Longrightarrow> keeps db (snd (revokeMachine org m now db))"
  unfolding revokeMachine_def Let_def snd_conv
  by (rule keeps_machine_update) (auto simp: machine_step_def machine_final_def active_machine_of_def)

lemma enrollMachine_keeps:
  assumes "control_wf db"
  shows "keeps db (snd (enrollMachine input now db))"
proof -
  let ?used = "sql_update (\<lambda>t. et_tokenHash t = ei_tokenHash input) (\<lambda>t. t\<lparr>et_usedAt := Some now\<rparr>) (cdb_tokens db)"
  have "keeps db (db\<lparr>cdb_tokens := ?used, cdb_machines := cdb_machines db @ [m]\<rparr>)"
    if "\<not> list_ex (\<lambda>m. mc_id m = ei_machineId input) (cdb_machines db)" "mc_id m = ei_machineId input"
      "mc_revokedAt m = None" for m
    using that assms
    by (auto simp: control_wf_def control_step_def machines_wf_def list_ex_iff distinct_key_update
        machines.evolves_append installations.evolves_refl agents.evolves_refl)
  then show ?thesis
    using assms by (auto simp: enrollMachine_def Let_def split: option.split)
qed

lemma active_join_SomeD:
  assumes "active_join org u c db = Some (i, a)"
  shows "i \<in> set (cdb_installations db)" "installation_key org u c i" "mi_status i = installation_active"
    "a \<in> set (cdb_agents db)" "agent_key org (mi_agentId i) a" "agent_usable a"
  using assms by (auto simp: active_join_def split: option.splits dest: sql_first_SomeD)

lemma agent_rename_keeps:
  assumes "control_wf db" "a \<in> set (cdb_agents db)" "agent_key org i a" "agent_usable a"
  shows "keeps db (db\<lparr>cdb_agents := sql_update (agent_key org i) (\<lambda>a. a\<lparr>ag_name := n, ag_updatedAt := now\<rparr>) (cdb_agents db)\<rparr>)"
proof (rule keeps_agent_update[OF assms(1)])
  fix b assume b: "b \<in> set (cdb_agents db)" "agent_key org i b"
  have "distinct (map agent_id (cdb_agents db))" using assms(1) by (simp add: control_wf_def agents_wf_def)
  then have "b = a"
    using b assms(2,3) distinct_key_eq[of agent_id "cdb_agents db" b a] by (simp add: agent_id_def agent_key_def)
  then show "agent_step b (b\<lparr>ag_name := n, ag_updatedAt := now\<rparr>)
      \<and> ag_deletedAt (b\<lparr>ag_name := n, ag_updatedAt := now\<rparr>) = ag_deletedAt b
      \<and> ag_status (b\<lparr>ag_name := n, ag_updatedAt := now\<rparr>) = ag_status b"
    using assms(4) by (simp add: agent_step_def agent_id_def agent_usable_def)
qed

lemma activeInstallation_keeps:
  assumes "control_wf db"
  shows "keeps db (snd (activeInstallation org u c n now db))"
proof (cases "active_join org u c db")
  case (Some x)
  obtain i a where x: "x = (i, a)" by force
  note join = active_join_SomeD[OF Some[unfolded x]]
  show ?thesis
    using agent_rename_keeps[OF assms join(4,5,6)] assms Some x by (simp add: activeInstallation_def Let_def)
qed (use assms in \<open>simp add: activeInstallation_def\<close>)

lemma updateOrganizationAgentRole_keeps:
  "control_wf db \<Longrightarrow> keeps db (snd (updateOrganizationAgentRole org a r now db))"
  unfolding updateOrganizationAgentRole_def Let_def snd_conv
  by (rule keeps_agent_update) (auto simp: agent_step_def agent_id_def agent_usable_def)

lemma ensureMcpInstallation_keeps:
  assumes wf: "control_wf db"
  shows "keeps db (snd (ensureMcpInstallation org u c n ai ii now db))"
proof -
  have add: "keeps db (db\<lparr>cdb_agents := cdb_agents db @ [a], cdb_installations := cdb_installations db @ [i]\<rparr>)"
    if fresh: "\<not> list_ex (installation_key org u c) (cdb_installations db)" "\<not> list_ex (agent_key org ai) (cdb_agents db)"
      "\<not> list_ex (\<lambda>i. mi_organizationId i = org \<and> mi_id i = ii) (cdb_installations db)"
      and a: "agent_id a = (org, ai)" "agent_usable a"
      and i: "install_id i = (org, ii)" "install_unique i = (org, MCP_PROVIDER, u, c)" "mi_agentId i = ai" for a i
  proof -
    have "usable_agent_in (cdb_agents db @ [a]) j" if "usable_agent_in (cdb_agents db) j" for j
      using that by (auto simp: usable_agent_in_def)
    moreover have "usable_agent_in (cdb_agents db @ [a]) i"
      using a i by (auto simp: usable_agent_in_def install_id_def)
    moreover have "agent_id b \<noteq> (org, ai)" if "b \<in> set (cdb_agents db)" for b
      using fresh(2) that by (auto simp: list_ex_iff agent_key_def agent_id_def)
    moreover have "install_id j \<noteq> (org, ii)" "install_unique j \<noteq> (org, MCP_PROVIDER, u, c)"
      if "j \<in> set (cdb_installations db)" for j
      using fresh(1,3) that by (auto simp: list_ex_iff installation_key_def install_id_def install_unique_def)
    ultimately show ?thesis
      using wf a i
      by (auto simp: control_wf_def control_step_def agents_wf_def installations_wf_def image_iff agent_usable_def
          machines.evolves_refl installations.evolves_append agents.evolves_append) metis+
  qed
  show ?thesis
    using activeInstallation_keeps[OF wf, of org u c n now] wf
    by (auto simp: ensureMcpInstallation_def Let_def agent_id_def agent_usable_def install_id_def install_unique_def
        split: prod.split option.split intro!: add[THEN conjunct1] add[THEN conjunct2])
qed

section \<open>Histories\<close>

text \<open>
  Of a sign-in, the operation that changes the database is its insert, whatever its check saw: the
  histories below include sign-ins whose checks are stale.
\<close>

datatype control_op =
    Cop_initialize
  | Cop_insertContext ident string string ident instant
  | Cop_upsertUserPreferences ident string instant
  | Cop_updateOrganizationSettings ident organization_settings
  | Cop_createNotification ident ident notification_kind string "string option" string ident ident instant
  | Cop_listNotifications ident ident int instant
  | Cop_markNotificationRead ident ident ident bool instant
  | Cop_markAllNotificationsRead ident ident instant
  | Cop_ensureMcpInstallation ident ident ident string ident ident instant
  | Cop_deleteOrganizationAgent ident ident instant
  | Cop_updateOrganizationAgentRole ident ident agent_role instant
  | Cop_createEnrollmentToken ident string instant "ident option"
  | Cop_enrollMachine enrollment_input instant
  | Cop_updateMachineDetails ident ident string string
  | Cop_setMachineOffline ident
  | Cop_setMachineOnline ident "runtime_info option" instant
  | Cop_setMachineIncompatible ident machine_runtime instant
  | Cop_heartbeat ident instant
  | Cop_revokeMachine ident ident instant
  | Cop_audit ident ident string string ident control_metadata ident instant
  | Cop_purgeExpiredData instant instant

fun control_apply :: "control_op \<Rightarrow> control_db \<Rightarrow> control_db" where
  "control_apply Cop_initialize db = control_initialize db"
| "control_apply (Cop_insertContext e s n i t) db = snd (ensureContext_insert e s n i t db)"
| "control_apply (Cop_upsertUserPreferences e z t) db = snd (upsertUserPreferences e z t db)"
| "control_apply (Cop_updateOrganizationSettings org st) db = snd (updateOrganizationSettings org st db)"
| "control_apply (Cop_createNotification org u k t d h r i now) db = createNotification org u k t d h r i now db"
| "control_apply (Cop_listNotifications org u l t) db = snd (listNotifications org u l t db)"
| "control_apply (Cop_markNotificationRead org u n r t) db = snd (markNotificationRead org u n r t db)"
| "control_apply (Cop_markAllNotificationsRead org u t) db = snd (markAllNotificationsRead org u t db)"
| "control_apply (Cop_ensureMcpInstallation org u c n a i t) db = snd (ensureMcpInstallation org u c n a i t db)"
| "control_apply (Cop_deleteOrganizationAgent org a t) db = snd (deleteOrganizationAgent org a t db)"
| "control_apply (Cop_updateOrganizationAgentRole org a r t) db = snd (updateOrganizationAgentRole org a r t db)"
| "control_apply (Cop_createEnrollmentToken org h e c) db = snd (createEnrollmentToken org h e c db)"
| "control_apply (Cop_enrollMachine input t) db = snd (enrollMachine input t db)"
| "control_apply (Cop_updateMachineDetails org m n d) db = snd (updateMachineDetails org m n d db)"
| "control_apply (Cop_setMachineOffline m) db = setMachineOffline m db"
| "control_apply (Cop_setMachineOnline m r t) db = snd (control_setMachineOnline m r t db)"
| "control_apply (Cop_setMachineIncompatible m r t) db = snd (setMachineIncompatible m r t db)"
| "control_apply (Cop_heartbeat m t) db = heartbeat m t db"
| "control_apply (Cop_revokeMachine org m t) db = snd (revokeMachine org m t db)"
| "control_apply (Cop_audit org p a tt ti md i t) db = control_audit org p a tt ti md i t db"
| "control_apply (Cop_purgeExpiredData t a) db = purgeExpiredData t a db"

inductive control_history :: "control_db \<Rightarrow> control_db \<Rightarrow> bool" where
  control_history_refl: "control_history db db"
| control_history_step: "control_history db db' \<Longrightarrow> control_history db (control_apply p db')"

inductive_simps control_history_empty: "control_history empty_control_db db"

lemma sql_update_mem:
  "r \<in> set (sql_update P f t) \<Longrightarrow> (r \<in> set t \<and> \<not> P r) \<or> (\<exists>r0 \<in> set t. P r0 \<and> r = f r0)"
  by (induction t) auto

lemma deleteOrganizationAgent_keeps:
  assumes wf: "control_wf db"
  shows "keeps db (snd (deleteOrganizationAgent org a now db))"
proof -
  let ?P = "\<lambda>x. agent_key org a x \<and> ag_deletedAt x = None"
  let ?kill = "\<lambda>x. x\<lparr>ag_status := agent_disabled, ag_deletedAt := Some now, ag_updatedAt := now\<rparr>"
  let ?Q = "\<lambda>i. mi_organizationId i = org \<and> mi_agentId i = a \<and> mi_status i = installation_active"
  let ?revoke = "\<lambda>i. i\<lparr>mi_status := installation_revoked, mi_updatedAt := now\<rparr>"
  let ?as = "sql_update ?P ?kill (cdb_agents db)" and ?is = "sql_update ?Q ?revoke (cdb_installations db)"
  have ids: "map agent_id ?as = map agent_id (cdb_agents db)" by (rule map_sql_update) (simp add: agent_id_def)
  have iids: "map install_id ?is = map install_id (cdb_installations db)"
    "map install_unique ?is = map install_unique (cdb_installations db)"
    by (rule map_sql_update, simp add: install_id_def install_unique_def)+
  have aw: "agents_wf ?as" using wf ids by (auto simp: control_wf_def agents_wf_def)
  have usable: "usable_agent_in ?as i" if i: "i \<in> set ?is" "mi_status i = installation_active" for i
  proof -
    have old: "i \<in> set (cdb_installations db) \<and> \<not> ?Q i"
      using sql_update_mem[OF i(1)] i(2) by (elim disjE bexE conjE) simp_all
    then obtain x where x: "x \<in> set (cdb_agents db)" "agent_id x = (mi_organizationId i, mi_agentId i)" "agent_usable x"
      using wf i(2) by (auto simp: control_wf_def installations_wf_def usable_agent_in_def)
    have "\<not> ?P x" using x(2) old i(2) by (auto simp: agent_key_def agent_id_def)
    then have "x \<in> set ?as" using x(1) by force
    with x show ?thesis by (auto simp: usable_agent_in_def)
  qed
  have iw: "installations_wf ?as ?is"
    unfolding installations_wf_def iids using wf usable by (auto simp only: control_wf_def installations_wf_def)
  have "evolves agent_step (cdb_agents db) ?as"
    by (rule agents.evolves_update) (auto simp: agent_step_def agent_id_def)
  moreover have "evolves installation_step (cdb_installations db) ?is"
    by (rule installations.evolves_update) (auto simp: installation_step_def install_id_def install_unique_def)
  ultimately have "keeps db (db\<lparr>cdb_agents := ?as, cdb_installations := ?is\<rparr>)"
    using wf aw iw by (simp add: control_wf_def control_step_def machines.evolves_refl del: set_sql_update)
  moreover have "set (map ag_id (sql_where ?P (cdb_agents db))) = {a}" if "sql_where ?P (cdb_agents db) \<noteq> []"
  proof -
    have "\<forall>x \<in> set (sql_where ?P (cdb_agents db)). ag_id x = a" by (auto simp: agent_key_def)
    with that show ?thesis by (cases "sql_where ?P (cdb_agents db)") auto
  qed
  ultimately show ?thesis using wf by (simp add: deleteOrganizationAgent_def Let_def)
qed

lemma control_apply_keeps: "control_wf db \<Longrightarrow> keeps db (control_apply p db)"
  by (cases p) (simp_all add: initialize_keeps ensureContext_insert_keeps upsertUserPreferences_keeps
      updateOrganizationSettings_keeps createNotification_keeps listNotifications_keeps
      markNotificationRead_keeps markAllNotificationsRead_keeps ensureMcpInstallation_keeps
      deleteOrganizationAgent_keeps updateOrganizationAgentRole_keeps createEnrollmentToken_keeps
      enrollMachine_keeps updateMachineDetails_keeps setMachineOffline_keeps control_setMachineOnline_keeps
      setMachineIncompatible_keeps heartbeat_keeps revokeMachine_keeps audit_keeps purgeExpiredData_keeps)

lemma control_history_keeps: "control_history db db' \<Longrightarrow> control_wf db \<Longrightarrow> keeps db db'"
proof (induction rule: control_history.induct)
  case (control_history_step db db' p)
  then show ?case using control_apply_keeps control_step_trans by blast
qed simp

lemma control_history_trans: "control_history db' db'' \<Longrightarrow> control_history db db' \<Longrightarrow> control_history db db''"
  by (induction rule: control_history.induct) (auto intro: control_history_step)

lemma control_history_fold: "control_history db (fold control_apply ps db)"
proof (induction ps arbitrary: db)
  case (Cons p ps)
  have "control_history db (control_apply p db)"
    by (rule control_history_step[OF control_history_refl])
  with Cons[of "control_apply p db"] show ?case using control_history_trans by simp
qed (simp add: control_history_refl)

end
