(* ===== verification/Control_Properties.thy ===== *)
theory Control_Properties
  imports Control_Invariants
begin

text \<open>
  The properties of the control database: its invariant along every history, the finality of
  revocations and deletions, and enrollment with a token that works once.
\<close>

section \<open>Sign-ins that overlap\<close>

text \<open>
  A sign-in waits for the advisory lock on the hash of its external id, and the isolation level is
  READ COMMITTED: between its check and its commit, other transactions commit, and their inserts are
  visible only then.  The state is the committed database with the sign-ins that passed their check
  and have not committed; the events are the steps at which transactions meet.
\<close>

record sign_in =
  si_externalId :: ident
  si_slug :: string
  si_name :: string
  si_freshId :: ident

datatype sign_in_event =
    SI_check sign_in
  | SI_commit sign_in instant
  | SI_abort sign_in
  | SI_other control_op

definition lock_free :: "(ident \<Rightarrow> int) \<Rightarrow> ident \<Rightarrow> sign_in list \<Rightarrow> bool" where
  "lock_free hashtext externalId waiting \<longleftrightarrow>
     \<not> list_ex (\<lambda>w. hashtext (si_externalId w) = hashtext externalId) waiting"

fun inserts_context :: "control_op \<Rightarrow> bool" where
  "inserts_context (Cop_insertContext e s n i t) = True"
| "inserts_context _ = False"

fun sign_in_step ::
    "(ident \<Rightarrow> int) \<Rightarrow> sign_in_event \<Rightarrow> control_db \<times> sign_in list \<Rightarrow> control_db \<times> sign_in list" where
  "sign_in_step hashtext (SI_check w) (db, waiting) =
     (if lock_free hashtext (si_externalId w) waiting \<and> ensureContext_check (si_externalId w) db = None
      then (db, waiting @ [w]) else (db, waiting))"
| "sign_in_step hashtext (SI_commit w now) (db, waiting) =
     (if w \<in> set waiting
      then (snd (ensureContext_insert (si_externalId w) (si_slug w) (si_name w) (si_freshId w) now db),
            remove1 w waiting)
      else (db, waiting))"
| "sign_in_step hashtext (SI_abort w) (db, waiting) = (db, remove1 w waiting)"
| "sign_in_step hashtext (SI_other p) (db, waiting) =
     (if inserts_context p then (db, waiting) else (control_apply p db, waiting))"

definition run_sign_ins ::
    "(ident \<Rightarrow> int) \<Rightarrow> sign_in_event list \<Rightarrow> control_db \<times> sign_in list \<Rightarrow> control_db \<times> sign_in list" where
  "run_sign_ins hashtext events st = fold (sign_in_step hashtext) events st"

lemma run_sign_ins_simps [simp]:
  "run_sign_ins hashtext [] st = st"
  "run_sign_ins hashtext (events @ [e]) st = sign_in_step hashtext e (run_sign_ins hashtext events st)"
  by (simp_all add: run_sign_ins_def)








section \<open>The invariant\<close>




definition control_ops :: "control_op list" where
  "control_ops =
     [Cop_insertContext ''ext'' ''acme'' ''Acme'' ''org'' 100,
      Cop_createEnrollmentToken ''org'' ''hash'' 9000 (Some ''human''),
      Cop_enrollMachine \<lparr>ei_tokenHash = ''hash'', ei_machineId = ''m'', ei_name = ''box'',
        ei_publicKey = ''key'', ei_previousMachineId = None\<rparr> 200,
      Cop_setMachineOnline ''m'' None 300,
      Cop_ensureMcpInstallation ''org'' ''human'' ''client'' ''MCP'' ''a'' ''i'' 400]"

definition control_example :: control_db where
  "control_example = fold control_apply control_ops empty_control_db"

lemma control_example_history: "control_history empty_control_db control_example"
  unfolding control_example_def by (rule control_history_fold)

lemma control_example_wf: "control_wf control_example"
  using control_history_keeps[OF control_example_history control_empty_wf] by blast





section \<open>Revoked Machines\<close>

lemma machine_lookup_final:
  assumes "control_wf db" "control_history db db'" "m \<in> set (cdb_machines db)" "mc_revokedAt m \<noteq> None"
  shows "m \<in> set (cdb_machines db')" "sql_first (\<lambda>x. mc_id x = mc_id m) (cdb_machines db') = Some m"
    "machine_final m"
proof -
  have keeps: "control_wf db'" "control_step db db'" using control_history_keeps[OF assms(2,1)] by auto
  show final: "machine_final m" using assms(1,3,4) by (auto simp: control_wf_def machines_wf_def machine_final_def)
  show mem: "m \<in> set (cdb_machines db')"
    using machines.evolves_final keeps(2) assms(3) final by (auto simp: control_step_def)
  show "sql_first (\<lambda>x. mc_id x = mc_id m) (cdb_machines db') = Some m"
    by (rule sql_first_key[where k = mc_id]) (use keeps(1) mem in \<open>auto simp: control_wf_def machines_wf_def\<close>)
qed

text \<open>
  C31: Revoking a Machine is final.  Once a Machine is revoked, then whatever happens afterwards its
  record does not change any more: it stays offline with the time of its revocation, the gateway is
  told that its key is revoked, an attempt to set it online reports failure and changes nothing, and
  neither does a heartbeat or a second revocation.
\<close>

theorem revocation_is_final:
  assumes "control_wf db" "control_history db db'" "m \<in> set (cdb_machines db)" "mc_revokedAt m = Some t"
  shows "m \<in> set (cdb_machines db') \<and> mc_status m = machine_offline
    \<and> machinePublicKey (mc_id m) db' =
        Some \<lparr>mid_publicKey = mc_publicKey m, mid_organizationId = mc_organizationId m, mid_revoked = True\<rparr>
    \<and> control_setMachineOnline (mc_id m) runtime now db' = (False, db')
    \<and> heartbeat (mc_id m) now db' = db'
    \<and> revokeMachine org (mc_id m) now db' = (None, db')"
proof -
  have rev: "mc_revokedAt m \<noteq> None" using assms(4) by simp
  note final = machine_lookup_final[OF assms(1-3) rev]
  have "control_wf db'" using control_history_keeps[OF assms(2,1)] by blast
  then have "distinct (map mc_id (cdb_machines db'))" by (simp add: control_wf_def machines_wf_def)
  then have only: "x = m" if "x \<in> set (cdb_machines db')" "mc_id x = mc_id m" for x
    using distinct_key_eq final(1) that by metis
  have none: "\<not> connectable (mc_id m) x" "\<not> (mc_id x = mc_id m \<and> active_machine_of org x)"
    if "x \<in> set (cdb_machines db')" for x
    using only[OF that] rev by (auto simp: connectable_def active_machine_of_def)
  have count: "sql_count (connectable (mc_id m)) (cdb_machines db') = 0"
    using none(1) by (auto simp: sql_count_def filter_empty_conv)
  have same: "sql_update (connectable (mc_id m)) f (cdb_machines db') = cdb_machines db'" for f
    using none(1) by simp
  have same': "sql_update (\<lambda>x. mc_id x = mc_id m \<and> active_machine_of org x) f (cdb_machines db') = cdb_machines db'" for f
    using none(2) by simp
  have first: "sql_first (\<lambda>x. mc_id x = mc_id m \<and> active_machine_of org x) (cdb_machines db') = None"
    using none(2) by (auto simp: sql_first_None_iff)
  show ?thesis
    using final assms(4) count same same' first
    by (simp add: machinePublicKey_def control_setMachineOnline_def heartbeat_def revokeMachine_def machine_final_def)
qed

theorem revocation_is_final_witness:
  "fst (control_setMachineOnline ''m'' None 700 (control_apply Cop_initialize
     (snd (revokeMachine ''org'' ''m'' 600 control_example)))) = False"
proof -
  let ?db = "control_apply (Cop_revokeMachine ''org'' ''m'' 600) control_example"
  let ?m = "hd (cdb_machines ?db)"
  have m: "?m \<in> set (cdb_machines ?db)" "mc_revokedAt ?m = Some 600" "mc_id ?m = ''m''" by code_simp+
  have wf: "control_wf ?db" using control_apply_keeps[OF control_example_wf] by blast
  have "control_history ?db (control_apply Cop_initialize ?db)"
    by (rule control_history_step[OF control_history_refl])
  from revocation_is_final[OF wf this m(1,2), of None 700] m(3) show ?thesis by simp
qed

section \<open>Revoked installations and deleted Agents\<close>

text \<open>
  Deleting an Agent is final, for it and for its MCP installations.  The deletion revokes every
  active installation of the Agent; whatever happens afterwards, none of them becomes active again,
  the Agent is never listed as runnable, its role cannot be changed, and the OAuth client it was
  installed for gets no new Agent: every further attempt to connect is answered with nothing.
\<close>

theorem deleted_agent_stays_out:
  assumes "control_wf db" "deleteOrganizationAgent org a now db = (Some ids, db1)" "control_history db1 db'"
    and "i \<in> set (cdb_installations db)" "mi_organizationId i = org" "mi_agentId i = a"
    and "mi_provider i = MCP_PROVIDER"
  shows "(\<exists>i' \<in> set (cdb_installations db'). install_unique i' = install_unique i \<and> mi_status i' = installation_revoked)
    \<and> a \<notin> set (listRunnableAgentIds org db')
    \<and> updateOrganizationAgentRole org a role later db' = (None, db')
    \<and> ensureMcpInstallation org (mi_userId i) (mi_oauthClientId i) n fresh fresh' later db' = (Inr None, db')"
proof -
  let ?P = "\<lambda>x. agent_key org a x \<and> ag_deletedAt x = None"
  have ids: "map ag_id (sql_where ?P (cdb_agents db)) = ids" "ids \<noteq> []"
    and db1: "db1 = snd (deleteOrganizationAgent org a now db)"
    using assms(2) by (auto simp: deleteOrganizationAgent_def Let_def split: if_splits)
  have ids_a: "\<forall>x \<in> set ids. x = a" using ids(1) by (auto simp: agent_key_def)
  with ids(2) have mem_a: "a \<in> set ids" by (cases ids) auto
  have wf1: "control_wf db1" using deleteOrganizationAgent_keeps[OF assms(1)] db1 by blast
  have keeps: "control_wf db'" "control_step db1 db'" using control_history_keeps[OF assms(3) wf1] by auto
  define j where "j = (if mi_status i = installation_active
     then i\<lparr>mi_status := installation_revoked, mi_updatedAt := now\<rparr> else i)"
  have revoked: "mi_status j = installation_revoked" by (cases "mi_status i") (simp_all add: j_def)
  have j: "install_unique j = install_unique i" "mi_agentId j = a" "mi_organizationId j = org"
    "mi_userId j = mi_userId i" "mi_oauthClientId j = mi_oauthClientId i" "mi_provider j = MCP_PROVIDER"
    using assms(5-7) by (simp_all add: j_def install_unique_def)
  have "j \<in> set (cdb_installations db1)"
    using assms(2,4-6) mem_a by (auto simp: deleteOrganizationAgent_def Let_def j_def split: if_splits)
  then have jin: "j \<in> set (cdb_installations db')"
    using installations.evolves_final revoked keeps(2) by (auto simp: control_step_def)
  obtain x where x: "x \<in> set (cdb_agents db)" "?P x"
  proof -
    have "sql_where ?P (cdb_agents db) \<noteq> []" using ids by auto
    then have "set (sql_where ?P (cdb_agents db)) \<noteq> {}" by (simp only: set_empty not_False_eq_True)
    then show ?thesis using that by auto
  qed
  define y where "y = x\<lparr>ag_status := agent_disabled, ag_deletedAt := Some now, ag_updatedAt := now\<rparr>"
  have yid: "agent_id y = (org, a)" "ag_deletedAt y = Some now"
    using x(2) by (simp_all add: y_def agent_id_def agent_key_def)
  have "y \<in> set (cdb_agents db1)"
    using x assms(2) by (auto simp: deleteOrganizationAgent_def Let_def y_def split: if_splits)
  then have yin: "y \<in> set (cdb_agents db')"
    using agents.evolves_final keeps(2) yid(2) by (auto simp: control_step_def)
  have dist: "distinct (map agent_id (cdb_agents db'))" "distinct (map install_unique (cdb_installations db'))"
    using keeps(1) by (auto simp: control_wf_def agents_wf_def installations_wf_def)
  have unusable: "\<not> (agent_key org a z \<and> agent_usable z)" if "z \<in> set (cdb_agents db')" for z
    using distinct_key_eq[OF dist(1) that yin] yid by (auto simp: agent_key_def agent_id_def agent_usable_def)
  have "updateOrganizationAgentRole org a role later db' = (None, db')"
    using unusable by (auto simp: updateOrganizationAgentRole_def Let_def sql_returning_def sql_first_None_iff)
  moreover have "a \<notin> set (listRunnableAgentIds org db')"
    using unusable by (auto simp: listRunnableAgentIds_def list_ex_iff)
  moreover have "active_join org (mi_userId i) (mi_oauthClientId i) db' = None"
  proof (rule ccontr)
    assume "active_join org (mi_userId i) (mi_oauthClientId i) db' \<noteq> None"
    then obtain k b where k: "active_join org (mi_userId i) (mi_oauthClientId i) db' = Some (k, b)" by auto
    note join = active_join_SomeD[OF k]
    have "install_unique k = install_unique j" using join(2) j by (simp add: installation_key_def install_unique_def)
    then have "k = j" using distinct_key_eq[OF dist(2) join(1) jin] by simp
    with join(3) revoked show False by simp
  qed
  moreover have "list_ex (installation_key org (mi_userId i) (mi_oauthClientId i)) (cdb_installations db')"
    using jin j by (auto simp: list_ex_iff installation_key_def)
  ultimately show ?thesis
    using jin j(1) revoked by (auto simp: ensureMcpInstallation_def activeInstallation_def)
qed

theorem deleted_agent_stays_out_witness:
  "fst (ensureMcpInstallation ''org'' ''human'' ''client'' ''MCP'' ''a2'' ''i2'' 900
     (snd (deleteOrganizationAgent ''org'' ''a'' 800 control_example))) = Inr None"
proof -
  let ?i = "hd (cdb_installations control_example)"
  have i: "?i \<in> set (cdb_installations control_example)" "mi_organizationId ?i = ''org''"
    "mi_agentId ?i = ''a''" "mi_provider ?i = MCP_PROVIDER" "mi_userId ?i = ''human''" "mi_oauthClientId ?i = ''client''"
    by code_simp+
  have "fst (deleteOrganizationAgent ''org'' ''a'' 800 control_example) = Some [''a'']" by code_simp
  then have "deleteOrganizationAgent ''org'' ''a'' 800 control_example
      = (Some [''a''], snd (deleteOrganizationAgent ''org'' ''a'' 800 control_example))"
    by (simp add: prod_eq_iff)
  from deleted_agent_stays_out[OF control_example_wf this control_history_refl i(1-4), of standard 900 "''MCP''" "''a2''" "''i2''"]
  show ?thesis using i(5,6) by simp
qed

section \<open>Enrollment tokens\<close>

definition spent :: "string \<Rightarrow> control_db \<Rightarrow> bool" where
  "spent h db \<longleftrightarrow> (\<forall>t \<in> set (cdb_tokens db). et_tokenHash t = h \<longrightarrow> et_usedAt t \<noteq> None)"

fun issues_token :: "string \<Rightarrow> control_op \<Rightarrow> bool" where
  "issues_token h (Cop_createEnrollmentToken org h' e c) = (h' = h)"
| "issues_token h _ = False"

lemma token_frames [frame_simps]:
  "cdb_tokens (control_initialize db) = cdb_tokens db"
  "cdb_tokens (snd (ensureContext_insert e s n i t db)) = cdb_tokens db"
  "cdb_tokens (snd (upsertUserPreferences e z t db)) = cdb_tokens db"
  "cdb_tokens (snd (updateOrganizationSettings org st db)) = cdb_tokens db"
  "cdb_tokens (createNotification org u k tt d h r i t db) = cdb_tokens db"
  "cdb_tokens (snd (listNotifications org u l t db)) = cdb_tokens db"
  "cdb_tokens (snd (markNotificationRead org u n rd t db)) = cdb_tokens db"
  "cdb_tokens (snd (markAllNotificationsRead org u t db)) = cdb_tokens db"
  "cdb_tokens (snd (deleteOrganizationAgent org a t db)) = cdb_tokens db"
  "cdb_tokens (snd (updateOrganizationAgentRole org a ro t db)) = cdb_tokens db"
  "cdb_tokens (snd (updateMachineDetails org m n ds db)) = cdb_tokens db"
  "cdb_tokens (setMachineOffline m db) = cdb_tokens db"
  "cdb_tokens (snd (control_setMachineOnline m ru t db)) = cdb_tokens db"
  "cdb_tokens (snd (setMachineIncompatible m rt t db)) = cdb_tokens db"
  "cdb_tokens (heartbeat m t db) = cdb_tokens db"
  "cdb_tokens (snd (revokeMachine org m t db)) = cdb_tokens db"
  "cdb_tokens (control_audit org p a ty ti md i t db) = cdb_tokens db"
  by (simp_all add: control_initialize_def ensureContext_insert_def upsertUserPreferences_def
      updateOrganizationSettings_def createNotification_def listNotifications_def markNotificationRead_def
      markAllNotificationsRead_def deleteOrganizationAgent_def updateOrganizationAgentRole_def
      updateMachineDetails_def setMachineOffline_def control_setMachineOnline_def setMachineIncompatible_def
      heartbeat_def revokeMachine_def control_audit_def Let_def split: option.split)

lemma installation_token_frame [frame_simps]:
  "cdb_tokens (snd (ensureMcpInstallation org u c n a i t db)) = cdb_tokens db"
  by (auto simp: ensureMcpInstallation_def activeInstallation_def Let_def split: option.split)

lemma spent_enroll: "spent h db \<Longrightarrow> spent h (snd (enrollMachine input now db))"
  by (auto simp: spent_def enrollMachine_def Let_def split: option.split)

lemma spent_apply: "spent h db \<Longrightarrow> \<not> issues_token h p \<Longrightarrow> spent h (control_apply p db)"
proof (cases p)
  case (Cop_enrollMachine input t)
  then show "spent h db \<Longrightarrow> ?thesis" using spent_enroll by simp
qed (auto simp: spent_def frame_simps createEnrollmentToken_def purgeExpiredData_def)

lemma spent_fold: "spent h db \<Longrightarrow> list_all (\<lambda>p. \<not> issues_token h p) ps \<Longrightarrow> spent h (fold control_apply ps db)"
  by (induction ps arbitrary: db) (auto simp: spent_apply)

lemma spent_refused: "spent (ei_tokenHash input) db \<Longrightarrow> enrollMachine input now db = (Inr Enroll_refused, db)"
  by (auto simp: enrollMachine_def spent_def split: option.split dest!: sql_first_SomeD)

text \<open>
  C13: An enrollment token enrolls one Machine.  An enrollment succeeds only with a stored token that
  is neither used nor past its expiry, and then registers exactly one new Machine, offline and not
  revoked, in the Organization of that token under the given key; after it, whatever the server does
  (short of issuing a new token with the same hash), every further enrollment with that token is
  refused and changes nothing.
\<close>

theorem enrollment_token_single_use:
  assumes "enrollMachine input now db = (Inr (Enrolled em), db1)"
    and "list_all (\<lambda>p. \<not> issues_token (ei_tokenHash input) p) ps"
    and "ei_tokenHash input' = ei_tokenHash input"
  shows "(\<exists>t o' m. t \<in> set (cdb_tokens db) \<and> et_tokenHash t = ei_tokenHash input \<and> et_usedAt t = None
        \<and> now < et_expiresAt t \<and> o' \<in> set (cdb_organizations db) \<and> org_id o' = et_organizationId t
        \<and> em_organizationId em = org_externalId o'
        \<and> cdb_machines db1 = cdb_machines db @ [m] \<and> mc_id m = ei_machineId input
        \<and> mc_organizationId m = et_organizationId t \<and> mc_publicKey m = ei_publicKey input
        \<and> mc_status m = machine_offline \<and> mc_revokedAt m = None)
    \<and> enrollMachine input' later (fold control_apply ps db1) = (Inr Enroll_refused, fold control_apply ps db1)"
proof
  obtain t o' where t: "sql_first (\<lambda>t. et_tokenHash t = ei_tokenHash input) (cdb_tokens db) = Some t"
    and fresh: "et_usedAt t = None" "now < et_expiresAt t"
    and o': "sql_first (\<lambda>x. org_id x = et_organizationId t) (cdb_organizations db) = Some o'"
    and db1: "db1 = snd (enrollMachine input now db)" and em: "em_organizationId em = org_externalId o'"
    using assms(1) by (auto simp: enrollMachine_def Let_def split: option.splits if_splits)
  have "\<exists>m. cdb_machines db1 = cdb_machines db @ [m] \<and> mc_id m = ei_machineId input
        \<and> mc_organizationId m = et_organizationId t \<and> mc_publicKey m = ei_publicKey input
        \<and> mc_status m = machine_offline \<and> mc_revokedAt m = None"
    using assms(1) t o' by (auto simp: enrollMachine_def Let_def split: option.splits if_splits)
  then show "\<exists>t o' m. t \<in> set (cdb_tokens db) \<and> et_tokenHash t = ei_tokenHash input \<and> et_usedAt t = None
        \<and> now < et_expiresAt t \<and> o' \<in> set (cdb_organizations db) \<and> org_id o' = et_organizationId t
        \<and> em_organizationId em = org_externalId o'
        \<and> cdb_machines db1 = cdb_machines db @ [m] \<and> mc_id m = ei_machineId input
        \<and> mc_organizationId m = et_organizationId t \<and> mc_publicKey m = ei_publicKey input
        \<and> mc_status m = machine_offline \<and> mc_revokedAt m = None"
    using sql_first_SomeD[OF t] sql_first_SomeD[OF o'] fresh em by blast
  have "spent (ei_tokenHash input) db1"
    using assms(1) by (auto simp: spent_def enrollMachine_def Let_def split: option.splits if_splits)
  then show "enrollMachine input' later (fold control_apply ps db1) = (Inr Enroll_refused, fold control_apply ps db1)"
    using spent_fold[OF _ assms(2)] spent_refused[of input'] assms(3) by simp
qed

definition enroll_input :: "ident \<Rightarrow> enrollment_input" where
  "enroll_input m = \<lparr>ei_tokenHash = ''hash2'', ei_machineId = m, ei_name = ''box2'', ei_publicKey = ''key2'',
     ei_previousMachineId = Some ''gone''\<rparr>"

theorem enrollment_token_single_use_witness:
  "fst (enrollMachine (enroll_input ''m3'') 1100 (fold control_apply [Cop_heartbeat ''m'' 1000]
     (snd (enrollMachine (enroll_input ''m2'') 950
        (snd (createEnrollmentToken ''org'' ''hash2'' 2000 None control_example)))))) = Inr Enroll_refused"
proof -
  let ?db = "snd (createEnrollmentToken ''org'' ''hash2'' 2000 None control_example)"
  have "(case fst (enrollMachine (enroll_input ''m2'') 950 ?db) of Inr (Enrolled em) \<Rightarrow> True | _ \<Rightarrow> False)"
    by code_simp
  then obtain em where "fst (enrollMachine (enroll_input ''m2'') 950 ?db) = Inr (Enrolled em)"
    by (auto split: sum.splits enroll_result.splits)
  then have "enrollMachine (enroll_input ''m2'') 950 ?db = (Inr (Enrolled em), snd (enrollMachine (enroll_input ''m2'') 950 ?db))"
    by (simp add: prod_eq_iff)
  from enrollment_token_single_use[OF this, of "[Cop_heartbeat ''m'' 1000]" "enroll_input ''m3''" 1100]
  show ?thesis by (simp add: enroll_input_def)
qed

end
