(* ===== verification/Reconciliation.thy ===== *)
theory Reconciliation
  imports Session_Reads
begin

text \<open>
  What a Machine is told when it reconnects, apps/server/src/session-reconciliation.ts: the messages
  made from the reconnect state of the session database.
\<close>

section \<open>Messages\<close>

definition open_message :: "session \<Rightarrow> instant \<Rightarrow> server_message" where
  "open_message s now = SM_session_open
     \<lparr>so_sessionId = ses_id s, so_organizationId = ses_organizationId s, so_agentId = ses_agentId s,
      so_clientProfileId = ses_clientProfileId s, so_expiresAt = ses_expiresAt s,
      so_maxConcurrentCommands = ses_maxConcurrentCommands s, so_serverTime = now\<rparr>"

text \<open>\<open>command.cwd ? { cwd } : {}\<close>: an empty directory is left out too.\<close>

definition start_message :: "command \<Rightarrow> server_message" where
  "start_message c = SM_command_start
     \<lparr>cs_commandId = cmd_id c, cs_sessionId = cmd_sessionId c, cs_command = cmd_command c,
      cs_cwd = (if cmd_cwd c = Some [] then None else cmd_cwd c),
      cs_timeoutSeconds = cmd_timeoutSeconds c, cs_maxOutputBytes = DEFAULT_COMMAND_OUTPUT_BYTES\<rparr>"

definition live_session :: "session \<Rightarrow> bool" where
  "live_session s \<longleftrightarrow> ses_status s = S_opening \<or> ses_status s = S_active"

text \<open>\<open>new Map(sessions.map(...))\<close>: the last Session under an id.\<close>

definition session_by_id :: "session list \<Rightarrow> ident \<Rightarrow> session option" where
  "session_by_id sessions i = sql_first (\<lambda>s. ses_id s = i) (rev sessions)"

definition restartable :: "session list \<Rightarrow> command \<Rightarrow> bool" where
  "restartable sessions c \<longleftrightarrow>
     (case session_by_id sessions (cmd_sessionId c) of
        None \<Rightarrow> False
      | Some s \<Rightarrow> live_session s \<and> cmd_status c \<noteq> C_cancellation_requested)"

definition sessionReconnectMessages ::
    "session list \<times> command list \<Rightarrow> instant \<Rightarrow> server_message list" where
  "sessionReconnectMessages state now =
     (let (sessions, commands) = state in
      map (\<lambda>s. open_message s now) (filter live_session sessions)
      @ map start_message (filter (restartable sessions) commands)
      @ map (\<lambda>c. SM_command_cancel (cmd_id c))
          (filter (\<lambda>c. cmd_status c = C_cancellation_requested) commands)
      @ map (\<lambda>s. SM_session_close (ses_id s) (if ses_expiresAt s \<le> now then ''expired'' else ''cancelled''))
          (filter (\<lambda>s. ses_status s = S_cancellation_requested) sessions))"

section \<open>What a reconnecting Machine hears\<close>

lemma session_by_id_unique:
  assumes "s \<in> set sessions" "\<And>s'. s' \<in> set sessions \<Longrightarrow> ses_id s' = ses_id s \<Longrightarrow> s' = s"
  shows "session_by_id sessions (ses_id s) = Some s"
proof (cases "session_by_id sessions (ses_id s)")
  case None
  have "s \<in> set (rev sessions)" using assms(1) by simp
  from sql_first_NoneD[OF None[unfolded session_by_id_def] this] show ?thesis by (rule notE) (rule refl)
next
  case (Some x)
  then have "x \<in> set (rev sessions) \<and> ses_id x = ses_id s"
    unfolding session_by_id_def by (rule sql_first_SomeD)
  then have "x = s" by (intro assms(2)) simp_all
  then show ?thesis using Some by (simp only:)
qed

lemma session_by_id_SomeD: "session_by_id sessions i = Some s \<Longrightarrow> s \<in> set sessions \<and> ses_id s = i"
  by (auto simp: session_by_id_def dest: sql_first_SomeD)

lemma live_sessionRecord: "live_session (sessionRecord r) \<longleftrightarrow> ses_status r = S_opening \<or> ses_status r = S_active"
  by (simp add: live_session_def)

lemma restartable_row:
  assumes wf: "db_wf db" and c: "c \<in> set (db_commands db)" "restarted_command org mid db c"
  shows "restartable (fst (reconnectState org mid db)) (commandRecord c) \<longleftrightarrow>
     cmd_status c \<noteq> C_cancellation_requested
     \<and> (\<exists>s \<in> set (db_sessions db). command_in c s \<and> (ses_status s = S_opening \<or> ses_status s = S_active))"
proof -
  let ?S = "fst (reconnectState org mid db)"
  obtain s where s: "s \<in> set (db_sessions db)" "command_in c s"
    using wf c(1) by (auto simp: db_wf_def)
  have only: "t = s" if "t \<in> set (db_sessions db)" "ses_id t = ses_id s" for t
    using session_by_id[OF wf that(1) s(1) that(2)] .
  obtain r where r: "r \<in> set (db_sessions db)" "reconnectable org mid r" "ses_id r = cmd_sessionId c"
    using c(2) by (auto simp: restarted_command_def)
  then have rs: "r = s" using only s(2) by (simp add: command_in_def)
  have "sessionRecord s \<in> set ?S" using r rs by (simp add: reconnectState_sessions)
  moreover have "x = sessionRecord s" if "x \<in> set ?S" "ses_id x = ses_id (sessionRecord s)" for x
  proof -
    from that(1) obtain u where u: "u \<in> set (db_sessions db)" "x = sessionRecord u"
      unfolding reconnectState_sessions by blast
    then have "u = s" using that(2) by (intro only) simp_all
    with u show ?thesis by simp
  qed
  ultimately have "session_by_id ?S (ses_id (sessionRecord s)) = Some (sessionRecord s)"
    by (rule session_by_id_unique)
  then have look: "session_by_id ?S (cmd_sessionId c) = Some (sessionRecord s)"
    using s(2) by (simp add: command_in_def)
  have "(\<exists>t \<in> set (db_sessions db). command_in c t \<and> (ses_status t = S_opening \<or> ses_status t = S_active))
      \<longleftrightarrow> ses_status s = S_opening \<or> ses_status s = S_active" (is "?L \<longleftrightarrow> ?R")
  proof
    assume ?L
    then obtain t where t: "t \<in> set (db_sessions db)" "command_in c t"
        "ses_status t = S_opening \<or> ses_status t = S_active" by blast
    have "t = s" using t(1,2) s(2) by (intro only) (simp_all add: command_in_def)
    with t(3) show ?R by blast
  next
    assume ?R
    with s show ?L by blast
  qed
  then show ?thesis using look by (auto simp: restartable_def live_sessionRecord)
qed

text \<open>The four groups of messages, in the order they are sent.\<close>

definition reconnect_opens :: "ident \<Rightarrow> ident \<Rightarrow> session_db \<Rightarrow> instant \<Rightarrow> server_message list" where
  "reconnect_opens org mid db now = map (\<lambda>s. open_message s now) (filter live_session (fst (reconnectState org mid db)))"

definition reconnect_starts :: "ident \<Rightarrow> ident \<Rightarrow> session_db \<Rightarrow> server_message list" where
  "reconnect_starts org mid db = map start_message
     (filter (restartable (fst (reconnectState org mid db))) (snd (reconnectState org mid db)))"

definition reconnect_cancels :: "ident \<Rightarrow> ident \<Rightarrow> session_db \<Rightarrow> server_message list" where
  "reconnect_cancels org mid db = map (\<lambda>c. SM_command_cancel (cmd_id c))
     (filter (\<lambda>c. cmd_status c = C_cancellation_requested) (snd (reconnectState org mid db)))"

definition reconnect_closes :: "ident \<Rightarrow> ident \<Rightarrow> session_db \<Rightarrow> instant \<Rightarrow> server_message list" where
  "reconnect_closes org mid db now =
     map (\<lambda>s. SM_session_close (ses_id s) (if ses_expiresAt s \<le> now then ''expired'' else ''cancelled''))
       (filter (\<lambda>s. ses_status s = S_cancellation_requested) (fst (reconnectState org mid db)))"

lemma reconnect_parts:
  "sessionReconnectMessages (reconnectState org mid db) now = reconnect_opens org mid db now
     @ reconnect_starts org mid db @ reconnect_cancels org mid db @ reconnect_closes org mid db now"
  by (simp add: sessionReconnectMessages_def reconnect_opens_def reconnect_starts_def reconnect_cancels_def
      reconnect_closes_def case_prod_unfold Let_def)

lemma session_reconnects:
  assumes "s \<in> set (db_sessions db)" "ses_organizationId s = org" "ses_machineId s = mid"
    "ses_status s \<in> {S_opening, S_active, S_cancellation_requested}"
  shows "sessionRecord s \<in> set (fst (reconnectState org mid db))"
  using assms by (simp add: reconnectState_sessions reconnectable_def)

lemma session_reopened:
  assumes "s \<in> set (db_sessions db)" "ses_organizationId s = org" "ses_machineId s = mid" "ses_status s \<in> {S_opening, S_active}"
  shows "open_message (sessionRecord s) now \<in> set (reconnect_opens org mid db now)"
  using session_reconnects[OF assms(1-3)] assms(4) by (auto simp: reconnect_opens_def live_sessionRecord)

lemma session_reclosed:
  assumes "s \<in> set (db_sessions db)" "ses_organizationId s = org" "ses_machineId s = mid" "ses_status s = S_cancellation_requested"
  shows "\<exists>why. SM_session_close (ses_id s) why \<in> set (reconnect_closes org mid db now)"
proof -
  from session_reconnects[OF assms(1-3)] assms(4)
  have "sessionRecord s \<in> set (filter (\<lambda>s. ses_status s = S_cancellation_requested) (fst (reconnectState org mid db)))" by simp
  from imageI[OF this, of "\<lambda>s. SM_session_close (ses_id s) (if ses_expiresAt s \<le> now then ''expired'' else ''cancelled'')"]
  show ?thesis by (auto simp: reconnect_closes_def)
qed

lemma command_reconnects:
  assumes "c \<in> set (db_commands db)" "cmd_organizationId c = org" "cmd_machineId c = mid" "command_active c"
    "s \<in> set (db_sessions db)" "command_in c s" "ses_status s \<in> {S_opening, S_active}"
  shows "restarted_command org mid db c \<and> commandRecord c \<in> set (snd (reconnectState org mid db))"
proof -
  have "reconnectable org mid s" using assms by (auto simp: reconnectable_def command_in_def)
  then have "restarted_command org mid db c" using assms by (auto simp: restarted_command_def command_in_def image_iff)
  then show ?thesis using assms(1) by (simp add: reconnectState_commands)
qed

lemma command_recancelled:
  assumes "c \<in> set (db_commands db)" "cmd_organizationId c = org" "cmd_machineId c = mid" "command_active c"
    "s \<in> set (db_sessions db)" "command_in c s" "ses_status s \<in> {S_opening, S_active}"
    and "cmd_status c = C_cancellation_requested"
  shows "SM_command_cancel (cmd_id c) \<in> set (reconnect_cancels org mid db)"
  using command_reconnects[OF assms(1-7)] assms(8) by (auto simp: reconnect_cancels_def image_iff)

lemma command_restarted:
  assumes wf: "db_wf db"
    and c: "c \<in> set (db_commands db)" "cmd_organizationId c = org" "cmd_machineId c = mid" "command_active c"
      "s \<in> set (db_sessions db)" "command_in c s" "ses_status s \<in> {S_opening, S_active}"
    and st: "cmd_status c \<noteq> C_cancellation_requested"
  shows "\<exists>xs ys zs. sessionReconnectMessages (reconnectState org mid db) now
      = xs @ open_message (sessionRecord s) now # ys @ start_message (commandRecord c) # zs"
proof -
  have "restartable (fst (reconnectState org mid db)) (commandRecord c)"
    using restartable_row[OF wf c(1) command_reconnects[OF c, THEN conjunct1]] st c(5-7) by auto
  then have "start_message (commandRecord c) \<in> set (reconnect_starts org mid db)"
    using command_reconnects[OF c] by (simp add: reconnect_starts_def)
  then obtain s1 s2 where ss: "reconnect_starts org mid db = s1 @ start_message (commandRecord c) # s2" by (meson split_list)
  have "open_message (sessionRecord s) now \<in> set (reconnect_opens org mid db now)"
    using session_reopened[OF c(5) _ _ c(7)] c(2,3,6) by (simp add: command_in_def)
  then obtain o1 o2 where o: "reconnect_opens org mid db now = o1 @ open_message (sessionRecord s) now # o2" by (meson split_list)
  show ?thesis
    by (intro exI[of _ o1] exI[of _ "o2 @ s1"] exI[of _ "s2 @ reconnect_cancels org mid db @ reconnect_closes org mid db now"])
       (simp add: reconnect_parts o ss)
qed

text \<open>The Sessions and the Commands that a Machine may hear of.\<close>

definition told_of_session :: "ident \<Rightarrow> ident \<Rightarrow> session_db \<Rightarrow> instant \<Rightarrow> server_message \<Rightarrow> bool" where
  "told_of_session org mid db now m \<longleftrightarrow> (\<exists>s \<in> set (db_sessions db). ses_organizationId s = org \<and> ses_machineId s = mid
     \<and> (ses_status s \<in> {S_opening, S_active} \<and> m = open_message (sessionRecord s) now
        \<or> ses_status s = S_cancellation_requested \<and> (\<exists>why. m = SM_session_close (ses_id s) why)))"

definition told_of_command :: "ident \<Rightarrow> ident \<Rightarrow> session_db \<Rightarrow> server_message \<Rightarrow> bool" where
  "told_of_command org mid db m \<longleftrightarrow> (\<exists>c \<in> set (db_commands db). cmd_organizationId c = org \<and> cmd_machineId c = mid \<and> command_active c
     \<and> (cmd_status c = C_cancellation_requested \<and> m = SM_command_cancel (cmd_id c)
        \<or> cmd_status c \<noteq> C_cancellation_requested \<and> m = start_message (commandRecord c)
          \<and> (\<exists>s \<in> set (db_sessions db). command_in c s \<and> ses_status s \<in> {S_opening, S_active})))"

lemma reconnect_sessions_told:
  assumes "m \<in> set (reconnect_opens org mid db now) \<union> set (reconnect_closes org mid db now)"
  shows "told_of_session org mid db now m"
  using assms by (fastforce simp: told_of_session_def reconnect_opens_def reconnect_closes_def reconnectState_sessions
      reconnectable_def live_session_def)

lemma reconnect_command_row:
  assumes "c \<in> set (snd (reconnectState org mid db))"
  obtains d where "d \<in> set (db_commands db)" "c = commandRecord d" "restarted_command org mid db d"
  using assms by (auto simp: reconnectState_commands)

lemma reconnect_commands_told:
  assumes wf: "db_wf db" and m: "m \<in> set (reconnect_starts org mid db) \<union> set (reconnect_cancels org mid db)"
  shows "told_of_command org mid db m"
  using m
proof
  assume "m \<in> set (reconnect_starts org mid db)"
  then obtain c where c: "c \<in> set (snd (reconnectState org mid db))" "restartable (fst (reconnectState org mid db)) c" "m = start_message c"
    by (auto simp: reconnect_starts_def)
  obtain d where d: "d \<in> set (db_commands db)" "c = commandRecord d" "restarted_command org mid db d"
    using reconnect_command_row[OF c(1)] .
  from restartable_row[OF wf d(1,3)] c(2,3) d show ?thesis
    unfolding told_of_command_def by (intro bexI[of _ d]) (auto simp: restarted_command_def)
next
  assume "m \<in> set (reconnect_cancels org mid db)"
  then obtain c where c: "c \<in> set (snd (reconnectState org mid db))" "cmd_status c = C_cancellation_requested" "m = SM_command_cancel (cmd_id c)"
    by (auto simp: reconnect_cancels_def)
  obtain d where d: "d \<in> set (db_commands db)" "c = commandRecord d" "restarted_command org mid db d"
    using reconnect_command_row[OF c(1)] .
  with c show ?thesis unfolding told_of_command_def by (intro bexI[of _ d]) (auto simp: restarted_command_def)
qed

text \<open>
  C16: Reconciliation is complete and ordered.  In a well-formed database, for every active Command of
  the reconnecting Machine whose Session is opening or active the messages contain its cancellation
  if that was requested, and otherwise its start, after the message that opens its Session; every
  live Session of the Machine is opened and every Session waiting for its cancellation is closed; and
  nothing else is said: each message comes from a stored row of this Organization and Machine in the
  state that calls for it.
\<close>

theorem reconciliation_complete:
  assumes wf: "db_wf db"
    and msgs: "msgs = sessionReconnectMessages (reconnectState org mid db) now"
  shows "(\<forall>c \<in> set (db_commands db). \<forall>s \<in> set (db_sessions db).
       cmd_organizationId c = org \<longrightarrow> cmd_machineId c = mid \<longrightarrow> command_active c \<longrightarrow> command_in c s \<longrightarrow>
       ses_status s \<in> {S_opening, S_active} \<longrightarrow>
         (if cmd_status c = C_cancellation_requested then SM_command_cancel (cmd_id c) \<in> set msgs
          else (\<exists>xs ys zs. msgs = xs @ open_message (sessionRecord s) now # ys @ start_message (commandRecord c) # zs)))
    \<and> (\<forall>s \<in> set (db_sessions db). ses_organizationId s = org \<longrightarrow> ses_machineId s = mid \<longrightarrow>
         (ses_status s \<in> {S_opening, S_active} \<longrightarrow> open_message (sessionRecord s) now \<in> set msgs)
         \<and> (ses_status s = S_cancellation_requested \<longrightarrow> (\<exists>why. SM_session_close (ses_id s) why \<in> set msgs)))
    \<and> (\<forall>m \<in> set msgs. told_of_session org mid db now m \<or> told_of_command org mid db m)"
proof (intro conjI ballI impI)
  fix c s assume "c \<in> set (db_commands db)" "s \<in> set (db_sessions db)" "cmd_organizationId c = org" "cmd_machineId c = mid"
    "command_active c" "command_in c s" "ses_status s \<in> {S_opening, S_active}"
  then show "if cmd_status c = C_cancellation_requested then SM_command_cancel (cmd_id c) \<in> set msgs
      else (\<exists>xs ys zs. msgs = xs @ open_message (sessionRecord s) now # ys @ start_message (commandRecord c) # zs)"
    using command_recancelled[of c db org mid s] command_restarted[OF wf, of c org mid s now] by (simp add: msgs reconnect_parts)
next
  fix s assume s: "s \<in> set (db_sessions db)" "ses_organizationId s = org" "ses_machineId s = mid"
  { assume "ses_status s \<in> {S_opening, S_active}"
    from session_reopened[OF s this] show "open_message (sessionRecord s) now \<in> set msgs" by (simp add: msgs reconnect_parts) }
  { assume "ses_status s = S_cancellation_requested"
    from session_reclosed[OF s this] show "\<exists>why. SM_session_close (ses_id s) why \<in> set msgs" by (auto simp: msgs reconnect_parts) }
next
  fix m assume "m \<in> set msgs"
  then show "told_of_session org mid db now m \<or> told_of_command org mid db m"
    using reconnect_sessions_told[of m] reconnect_commands_told[OF wf, of m] by (auto simp: msgs reconnect_parts)
qed

lemma reconciliation_complete_witness:
  "\<exists>xs ys zs. sessionReconnectMessages (reconnectState ''org'' ''machine'' example_db) 5000
     = xs @ open_message (sessionRecord (db_sessions example_db ! 0)) 5000 # ys
          @ start_message (commandRecord (db_commands example_db ! 1)) # zs"
proof -
  let ?c = "db_commands example_db ! 1" and ?s = "db_sessions example_db ! 0"
  have c: "length (db_commands example_db) = 2" "cmd_organizationId ?c = ''org''" "cmd_machineId ?c = ''machine''"
      "cmd_status ?c = C_running" "command_active ?c"
    and s: "length (db_sessions example_db) = 1" "command_in ?c ?s" "ses_status ?s = S_active"
    by code_simp+
  have "?c \<in> set (db_commands example_db)" "?s \<in> set (db_sessions example_db)" using c(1) s(1) by simp_all
  from conjunct1[OF reconciliation_complete[OF example_wf refl, of "''org''" "''machine''" 5000],
    rule_format, OF this c(2,3,5) s(2)] show ?thesis
    using c(4) s(3) by simp
qed

end
