(* ===== verification/Gateway.thy ===== *)
theory Gateway
  imports Reconciliation Control_Invariants Base64
begin

text \<open>
  The Client gateway, apps/server/src/gateway.ts, with the session hooks that index.ts gives it.

  The state of the server process is the two databases, the WebSockets with their \<open>AuthState\<close>, the
  map of connections, the lifecycle queues and the tasks in flight.  A task is the promise chain of
  one WebSocket message, of one \<open>close\<close> event or of one revocation request.  Between two \<open>await\<close>s
  JavaScript runs undisturbed, and a database call commits at some moment before the code after it
  resumes; so a task is at a \<open>point\<close> where it awaits a database call (\<open>Waiting\<close>) or has its result
  (\<open>Resuming\<close>), or it waits for its turn in a lifecycle queue (\<open>Queued\<close>).  The events of
  \<open>gateway_step\<close> are the choices of the network and of the event loop; an event that is not
  possible leaves the state alone.  \<open>z.uuid\<close> and the signature check of node:crypto are parameters;
  a check that throws (an unusable key) is \<open>None\<close>.
\<close>

section \<open>State\<close>

record socket =
  sk_ready :: bool
  sk_sent :: "server_message list"
  sk_closeCode :: "(int \<times> string) option"
  sk_inbox :: "client_message option list"
  sk_gone :: bool
  as_connectionId :: ident
  as_nonce :: string
  as_machineId :: "ident option"
  as_controlOrganizationId :: "ident option"
  as_organizationId :: "ident option"
  as_authenticated :: bool
  as_lastHeartbeatPersistedAt :: "instant option"

text \<open>The operations that wait in a lifecycle queue, and the places where the code awaits.\<close>

datatype lifecycle_op =
    Op_authenticate nat authenticate_msg machine_identity
  | Op_close nat

datatype point =
    At_key nat authenticate_msg
  | At_incompatible nat authenticate_msg machine_identity
  | At_check nat authenticate_msg machine_identity
  | At_organization nat authenticate_msg machine_identity
  | At_authority nat authenticate_msg machine_identity
  | At_online nat authenticate_msg machine_identity
  | At_offline_again nat ident
  | At_reconnect nat authenticate_msg machine_identity
  | At_heartbeat nat ident
  | At_message nat client_message ident ident ident
  | At_offline nat ident
  | At_disconnected nat ident ident
  | At_revoke_list ident ident ident
  | At_revoke_sessions ident ident ident
  | At_revoke_machine ident ident ident

datatype db_result =
    R_unit
  | R_bool bool
  | R_identity "machine_identity option"
  | R_organization "mcp_organization option"
  | R_reconnect "session list \<times> command list"
  | R_command "command option"
  | R_machines "machine list"
  | R_revoked "(session \<times> ident list) list"
  | R_throw exn

datatype phase = Queued lifecycle_op | Waiting point | Resuming point db_result

datatype task_id = Message_of nat | Close_of nat | Request nat

record task =
  tk_phase :: phase
  tk_queue :: "ident option"

record server =
  sv_control :: control_db
  sv_sessions :: session_db
  sv_sockets :: "nat \<Rightarrow> socket option"
  sv_connections :: "ident \<Rightarrow> nat option"
  sv_queues :: "ident \<Rightarrow> task_id list"
  sv_tasks :: "task_id \<Rightarrow> task option"
  sv_events :: "string list"

record gateway_env =
  ge_uuid :: "string \<Rightarrow> bool"
  ge_verify :: "string \<Rightarrow> string \<Rightarrow> byte list \<Rightarrow> bool option"
  ge_outputRetention :: int

section \<open>Sockets and connections\<close>

definition upd_socket :: "nat \<Rightarrow> (socket \<Rightarrow> socket) \<Rightarrow> server \<Rightarrow> server" where
  "upd_socket i f sv = sv\<lparr>sv_sockets := (sv_sockets sv)(i := map_option f (sv_sockets sv i))\<rparr>"

definition socketReadyForAuthentication :: "nat \<Rightarrow> server \<Rightarrow> bool" where
  "socketReadyForAuthentication i sv \<longleftrightarrow>
     (case sv_sockets sv i of None \<Rightarrow> False | Some s \<Rightarrow> sk_ready s)"

text \<open>A message for a socket that is closing is dropped by the ws package.\<close>

definition sendSocket :: "nat \<Rightarrow> server_message \<Rightarrow> server \<Rightarrow> server" where
  "sendSocket i m = upd_socket i (\<lambda>s. if sk_ready s then s\<lparr>sk_sent := sk_sent s @ [m]\<rparr> else s)"

definition closeSocket :: "nat \<Rightarrow> int \<Rightarrow> string \<Rightarrow> server \<Rightarrow> server" where
  "closeSocket i code reason =
     upd_socket i (\<lambda>s. if sk_ready s then s\<lparr>sk_ready := False, sk_closeCode := Some (code, reason)\<rparr> else s)"

definition isOnline :: "ident \<Rightarrow> server \<Rightarrow> bool" where
  "isOnline mid sv \<longleftrightarrow>
     (case sv_connections sv mid of None \<Rightarrow> False | Some i \<Rightarrow> socketReadyForAuthentication i sv)"

definition gateway_send :: "ident \<Rightarrow> server_message \<Rightarrow> server \<Rightarrow> bool \<times> server" where
  "gateway_send mid m sv =
     (case sv_connections sv mid of
        None \<Rightarrow> (False, sv)
      | Some i \<Rightarrow> if socketReadyForAuthentication i sv then (True, sendSocket i m sv) else (False, sv))"

definition gateway_disconnect :: "ident \<Rightarrow> string \<Rightarrow> server \<Rightarrow> bool \<times> server" where
  "gateway_disconnect mid reason sv =
     (case sv_connections sv mid of
        None \<Rightarrow> (False, sv)
      | Some i \<Rightarrow> (True, closeSocket i 4004 reason (sv\<lparr>sv_connections := (sv_connections sv)(mid := None)\<rparr>)))"

definition emit :: "string \<Rightarrow> server \<Rightarrow> server" where
  "emit e sv = sv\<lparr>sv_events := sv_events sv @ [e]\<rparr>"

definition notifyOrganization :: "ident \<Rightarrow> server \<Rightarrow> server" where
  "notifyOrganization org = emit (''organization:'' @ org)"

definition closeRevokedSessions :: "(session \<times> ident list) list \<Rightarrow> string \<Rightarrow> server \<Rightarrow> server" where
  "closeRevokedSessions revoked reason sv =
     fold (\<lambda>(s, ids) v.
         snd (gateway_send (ses_machineId s) (SM_session_close (ses_id s) reason)
           (fold (\<lambda>i v. snd (gateway_send (ses_machineId s) (SM_command_cancel i) v)) ids v)))
       revoked sv"

text \<open>\<open>register\<close>: a new WebSocket is challenged at once.\<close>

definition new_socket :: "ident \<Rightarrow> string \<Rightarrow> socket" where
  "new_socket connectionId nonce =
     \<lparr>sk_ready = True, sk_sent = [], sk_closeCode = None, sk_inbox = [], sk_gone = False,
      as_connectionId = connectionId, as_nonce = nonce, as_machineId = None,
      as_controlOrganizationId = None, as_organizationId = None, as_authenticated = False,
      as_lastHeartbeatPersistedAt = None\<rparr>"

definition accept_socket :: "nat \<Rightarrow> ident \<Rightarrow> string \<Rightarrow> server \<Rightarrow> server" where
  "accept_socket i connectionId nonce sv =
     sendSocket i (SM_challenge connectionId nonce)
       (sv\<lparr>sv_sockets := (sv_sockets sv)(i \<mapsto> new_socket connectionId nonce)\<rparr>)"

definition auth_timeout :: "nat \<Rightarrow> server \<Rightarrow> server" where
  "auth_timeout i sv =
     (case sv_sockets sv i of
        Some s \<Rightarrow> if \<not> as_authenticated s then closeSocket i 4001 ''Authentication timeout'' sv else sv
      | None \<Rightarrow> sv)"

text \<open>The text a Client signs, and what it proves.\<close>

definition challenge_text :: "socket \<Rightarrow> string" where
  "challenge_text s = ''odyshell:'' @ as_connectionId s @ '':'' @ as_nonce s"

section \<open>Handling a message\<close>

datatype outcome = Await point | Enqueue ident lifecycle_op | Done | Throw exn

definition present :: "ident option \<Rightarrow> bool" where
  "present x \<longleftrightarrow> x \<noteq> None \<and> x \<noteq> Some []"

definition message_machine :: "client_message \<Rightarrow> ident option" where
  "message_machine m = (case m of
       CM_authenticate a \<Rightarrow> Some (au_machineId a) | CM_heartbeat i _ \<Rightarrow> Some i
     | CM_pong i _ \<Rightarrow> Some i | _ \<Rightarrow> None)"

definition HEARTBEAT_PERSISTENCE :: int where
  "HEARTBEAT_PERSISTENCE = 5 * 60000"

definition handleMessage :: "gateway_env \<Rightarrow> nat \<Rightarrow> socket \<Rightarrow> client_message option \<Rightarrow> instant \<Rightarrow> server \<Rightarrow> outcome \<times> server" where
  "handleMessage env i s raw now sv =
     (case Option.bind raw (clientMessageSchema (ge_uuid env)) of
        None \<Rightarrow> (Throw (Exn ''Invalid message''), sv)
      | Some m \<Rightarrow>
          if \<not> as_authenticated s
          then (case m of
                  CM_authenticate a \<Rightarrow> (Await (At_key i a), sv)
                | _ \<Rightarrow> (Throw (Exn ''Expected authenticate message''), sv))
          else if message_machine m \<noteq> None \<and> message_machine m \<noteq> as_machineId s
          then (Throw (Exn ''Machine identity mismatch''), sv)
          else if \<not> (present (as_machineId s) \<and> present (as_controlOrganizationId s) \<and> present (as_organizationId s))
          then (Throw (Exn ''Authenticated Machine has no Session authority context''), sv)
          else
            (case m of
               CM_authenticate _ \<Rightarrow> (Throw (Exn ''Unsupported Machine message: authenticate''), sv)
             | CM_heartbeat mid _ \<Rightarrow>
                 (if (case as_lastHeartbeatPersistedAt s of None \<Rightarrow> True
                      | Some t \<Rightarrow> now - t \<ge> HEARTBEAT_PERSISTENCE)
                  then (Await (At_heartbeat i mid), sv) else (Done, sv))
             | CM_pong _ p \<Rightarrow> (Done, emit (''ping:'' @ p) sv)
             | CM_command_output c \<Rightarrow>
                 (case decodeCommandOutput (co_dataBase64 c) of
                    Inl e \<Rightarrow> (Throw e, sv)
                  | Inr _ \<Rightarrow> (Await (At_message i m (the (as_machineId s)) (the (as_organizationId s))
                                (the (as_controlOrganizationId s))), sv))
             | _ \<Rightarrow> (Await (At_message i m (the (as_machineId s)) (the (as_organizationId s))
                        (the (as_controlOrganizationId s))), sv)))"

section \<open>The database calls\<close>

text \<open>The calls of the \<open>message\<close> hook.\<close>

definition hook_message ::
    "gateway_env \<Rightarrow> client_message \<Rightarrow> ident \<Rightarrow> ident \<Rightarrow> instant \<Rightarrow> session_db \<Rightarrow> db_result \<times> session_db" where
  "hook_message env m mid org now db = (case m of
       CM_session_opened sessionId profile user \<Rightarrow>
         map_prod (\<lambda>_. R_unit) id (markSessionOpened org mid sessionId profile user now db)
     | CM_session_open_failed sessionId err \<Rightarrow>
         map_prod (\<lambda>_. R_unit) id (markSessionFailed org mid sessionId err now db)
     | CM_session_closed sessionId reason \<Rightarrow>
         map_prod (\<lambda>_. R_unit) id (markSessionClosed org mid sessionId reason now db)
     | CM_command_started commandId at \<Rightarrow>
         map_prod (\<lambda>_. R_unit) id (markCommandStarted org mid commandId at db)
     | CM_command_output c \<Rightarrow>
         (case decodeCommandOutput (co_dataBase64 c) of
            Inl e \<Rightarrow> (R_throw e, db)
          | Inr data \<Rightarrow> map_prod R_bool id
              (addCommandOutput org mid (co_commandId c) (co_stream c) (co_sequence c) data
                 (ge_outputRetention env) now db))
     | CM_command_completed c \<Rightarrow>
         map_prod R_command id
           (markCommandCompleted org mid (cc_commandId c) (cc_status c) (cc_exitCode c)
              (if cc_error c = Some [] then None else cc_error c) (cc_outputTruncated c) (cc_at c) now db)
     | _ \<Rightarrow> (R_unit, db))"

definition profile_authority :: "authenticate_msg \<Rightarrow> machine_authority" where
  "profile_authority a = (let p = au_sessionProfile a in
     \<lparr>ma_organizationId = lp_organizationId (csp_localPolicy p), ma_machineId = au_machineId a,
      ma_clientProfileId = csp_id p, ma_operatingSystemUser = csp_operatingSystemUser p,
      ma_online = True, ma_localPolicy = csp_localPolicy p\<rparr>)"

definition incompatible_runtime :: "authenticate_msg \<Rightarrow> machine_runtime" where
  "incompatible_runtime a = (case au_runtime a of
       None \<Rightarrow> Only_version (au_protocolVersion a)
     | Some r \<Rightarrow> Reported (r\<lparr>ri_protocolVersion := Some (au_protocolVersion a)\<rparr>))"

text \<open>The call a task awaits at a point.\<close>

definition perform :: "gateway_env \<Rightarrow> point \<Rightarrow> instant \<Rightarrow> server \<Rightarrow> db_result \<times> server" where
  "perform env p now sv =
     (let control = sv_control sv; sessions = sv_sessions sv;
          on_control = map_prod id (\<lambda>c. sv\<lparr>sv_control := c\<rparr>);
          on_sessions = map_prod id (\<lambda>d. sv\<lparr>sv_sessions := d\<rparr>) in
      case p of
        At_key _ a \<Rightarrow> (R_identity (machinePublicKey (au_machineId a) control), sv)
      | At_incompatible _ a _ \<Rightarrow>
          on_control (map_prod R_bool id
            (setMachineIncompatible (au_machineId a) (incompatible_runtime a) now control))
      | At_check _ a _ \<Rightarrow> (R_identity (machinePublicKey (au_machineId a) control), sv)
      | At_organization _ _ machine \<Rightarrow> (R_organization (mcpOrganization (mid_organizationId machine) control), sv)
      | At_authority _ a _ \<Rightarrow> on_sessions (R_unit, putMachineAuthority (profile_authority a) sessions)
      | At_online _ a _ \<Rightarrow>
          on_control (map_prod R_bool id (control_setMachineOnline (au_machineId a) (au_runtime a) now control))
      | At_offline_again _ mid \<Rightarrow> on_control (R_unit, setMachineOffline mid control)
      | At_reconnect i a _ \<Rightarrow>
          (R_reconnect (reconnectState (lp_organizationId (csp_localPolicy (au_sessionProfile a)))
             (au_machineId a) sessions), sv)
      | At_heartbeat _ mid \<Rightarrow> on_control (R_unit, heartbeat mid now control)
      | At_message _ m mid org _ \<Rightarrow> on_sessions (hook_message env m mid org now sessions)
      | At_offline _ mid \<Rightarrow> on_control (R_unit, setMachineOffline mid control)
      | At_disconnected _ mid org \<Rightarrow> on_sessions (map_prod R_bool id (setMachineOnline org mid False sessions))
      | At_revoke_list org _ _ \<Rightarrow> (R_machines (listMachines org control), sv)
      | At_revoke_sessions _ ext mid \<Rightarrow>
          on_sessions (map_prod (\<lambda>r. case r of Inl e \<Rightarrow> R_throw e | Inr rs \<Rightarrow> R_revoked rs) id
            (revokeSessions ext None (Some mid) now sessions))
      | At_revoke_machine org _ mid \<Rightarrow>
          on_control (map_prod (\<lambda>r. R_bool (r \<noteq> None)) id (revokeMachine org mid now control)))"

section \<open>After a call\<close>

definition result_identity :: "db_result \<Rightarrow> machine_identity option" where
  "result_identity r = (case r of R_identity x \<Rightarrow> x | _ \<Rightarrow> None)"

definition result_organization :: "db_result \<Rightarrow> mcp_organization option" where
  "result_organization r = (case r of R_organization x \<Rightarrow> x | _ \<Rightarrow> None)"

definition result_true :: "db_result \<Rightarrow> bool" where
  "result_true r \<longleftrightarrow> r = R_bool True"

definition result_reconnect :: "db_result \<Rightarrow> session list \<times> command list" where
  "result_reconnect r = (case r of R_reconnect x \<Rightarrow> x | _ \<Rightarrow> ([], []))"

definition upgrade_notice :: "int \<Rightarrow> string" where
  "upgrade_notice reported =
     ''This Server requires protocol '' @ json_int PROTOCOL_VERSION
     @ ''; the Client reported '' @ json_int reported @ ''. Update the Odyshell Client and reconnect.''"

text \<open>The head of \<open>authenticate\<close>, once the Machine's key is there.\<close>

definition authenticate_key ::
    "gateway_env \<Rightarrow> nat \<Rightarrow> authenticate_msg \<Rightarrow> machine_identity option \<Rightarrow> server \<Rightarrow> outcome \<times> server" where
  "authenticate_key env i a found sv =
     (case (found, sv_sockets sv i) of
        (Some machine, Some s) \<Rightarrow>
          (case ge_verify env (challenge_text s) (mid_publicKey machine) (base64url_decode (au_signature a)) of
             None \<Rightarrow> (Throw (Exn ''Invalid public key''), sv)
           | Some False \<Rightarrow> (Throw (Exn ''Invalid client signature''), sv)
           | Some True \<Rightarrow>
               if au_protocolVersion a \<noteq> PROTOCOL_VERSION
               then (Await (At_incompatible i a machine), sv)
               else (Enqueue (au_machineId a) (Op_authenticate i a machine),
                     upd_socket i (\<lambda>s. s\<lparr>as_machineId := Some (au_machineId a),
                         as_controlOrganizationId := Some (mid_organizationId machine),
                         as_organizationId := Some (lp_organizationId (csp_localPolicy (au_sessionProfile a)))\<rparr>) sv))
      | _ \<Rightarrow> (Throw (Exn ''Unknown Machine''), sv))"

text \<open>The first statements of a lifecycle operation, up to its first \<open>await\<close>.\<close>

definition start_operation :: "lifecycle_op \<Rightarrow> server \<Rightarrow> outcome \<times> server" where
  "start_operation op sv = (case op of
       Op_authenticate i a machine \<Rightarrow>
         (if \<not> socketReadyForAuthentication i sv then (Done, sv) else (Await (At_check i a machine), sv))
     | Op_close i \<Rightarrow>
         (case Option.bind (sv_sockets sv i) as_machineId of
            None \<Rightarrow> (Done, sv)
          | Some mid \<Rightarrow>
              if sv_connections sv mid \<noteq> Some i then (Done, sv)
              else (Await (At_offline i mid), sv\<lparr>sv_connections := (sv_connections sv)(mid := None)\<rparr>)))"

definition notify_closed :: "nat \<Rightarrow> server \<Rightarrow> server" where
  "notify_closed i sv = (case Option.bind (sv_sockets sv i) as_controlOrganizationId of
       None \<Rightarrow> sv | Some org \<Rightarrow> if org = [] then sv else notifyOrganization org sv)"

definition supersede :: "nat \<Rightarrow> ident \<Rightarrow> server \<Rightarrow> server" where
  "supersede i mid sv = (case sv_connections sv mid of
       Some previous \<Rightarrow> if previous \<noteq> i then closeSocket previous 4003 ''Superseded connection'' sv else sv
     | None \<Rightarrow> sv)"

definition register_connection :: "nat \<Rightarrow> ident \<Rightarrow> instant \<Rightarrow> server \<Rightarrow> server" where
  "register_connection i mid now sv =
     sendSocket i (SM_authenticated mid)
       (upd_socket i (\<lambda>s. s\<lparr>as_authenticated := True, as_lastHeartbeatPersistedAt := Some now\<rparr>)
         (sv\<lparr>sv_connections := (sv_connections sv)(mid \<mapsto> i)\<rparr>))"

definition send_all :: "nat \<Rightarrow> server_message list \<Rightarrow> server \<Rightarrow> server" where
  "send_all i ms sv = fold (sendSocket i) ms sv"

definition after_message :: "client_message \<Rightarrow> ident \<Rightarrow> ident \<Rightarrow> db_result \<Rightarrow> server \<Rightarrow> outcome \<times> server" where
  "after_message m mid controlOrg r sv = (case (m, r) of
       (CM_command_output _, R_bool False) \<Rightarrow>
         (Throw (Exn ''Command output exceeded its server-side authority''), sv)
     | (CM_command_completed _, R_command (Some c)) \<Rightarrow>
         (Done, notifyOrganization controlOrg (snd (gateway_send mid (SM_command_acknowledged (cmd_id c)) sv)))
     | _ \<Rightarrow> (Done, notifyOrganization controlOrg sv))"

definition resume :: "gateway_env \<Rightarrow> point \<Rightarrow> db_result \<Rightarrow> instant \<Rightarrow> server \<Rightarrow> outcome \<times> server" where
  "resume env p r now sv = (case r of R_throw e \<Rightarrow> (Throw e, sv) | _ \<Rightarrow> (case p of
       At_key i a \<Rightarrow> authenticate_key env i a (result_identity r) sv
     | At_incompatible i a machine \<Rightarrow>
         (Done, notifyOrganization (mid_organizationId machine)
            (closeSocket i 4005 ''client_upgrade_required'' (sendSocket i (SM_error (upgrade_notice (au_protocolVersion a))) sv)))
     | At_check i a machine \<Rightarrow>
         (case result_identity r of
            None \<Rightarrow> (Throw (Exn ''Machine identity changed during authentication''), sv)
          | Some current \<Rightarrow>
              if mid_publicKey current \<noteq> mid_publicKey machine
                 \<or> mid_organizationId current \<noteq> mid_organizationId machine
              then (Throw (Exn ''Machine identity changed during authentication''), sv)
              else if mid_revoked current then (Done, closeSocket i 4004 ''Machine access revoked'' sv)
              else (Await (At_organization i a machine), sv))
     | At_organization i a machine \<Rightarrow>
         (case result_organization r of
            None \<Rightarrow> (Throw (Exn ''Session Profile Organization does not own this Machine''), sv)
          | Some o' \<Rightarrow>
              if mo_organizationExternalId o' \<noteq> lp_organizationId (csp_localPolicy (au_sessionProfile a))
              then (Throw (Exn ''Session Profile Organization does not own this Machine''), sv)
              else (Await (At_authority i a machine), sv))
     | At_authority i a machine \<Rightarrow> (Await (At_online i a machine), supersede i (au_machineId a) sv)
     | At_online i a machine \<Rightarrow>
         (if \<not> result_true r then (Done, closeSocket i 4004 ''Machine access revoked'' sv)
          else if \<not> socketReadyForAuthentication i sv then (Await (At_offline_again i (au_machineId a)), sv)
          else (Await (At_reconnect i a machine), register_connection i (au_machineId a) now sv))
     | At_offline_again _ _ \<Rightarrow> (Done, sv)
     | At_reconnect i a machine \<Rightarrow>
         (Done, notifyOrganization (mid_organizationId machine)
            (emit ''machine.online'' (send_all i (sessionReconnectMessages (result_reconnect r) now) sv)))
     | At_heartbeat i _ \<Rightarrow>
         (Done, upd_socket i (\<lambda>s. s\<lparr>as_lastHeartbeatPersistedAt := Some now\<rparr>) sv)
     | At_message _ m mid _ controlOrg \<Rightarrow> after_message m mid controlOrg r sv
     | At_offline i mid \<Rightarrow>
         (case Option.bind (sv_sockets sv i) as_organizationId of
            Some org \<Rightarrow> if org = [] then (Done, notify_closed i sv) else (Await (At_disconnected i mid org), sv)
          | None \<Rightarrow> (Done, notify_closed i sv))
     | At_disconnected i _ _ \<Rightarrow> (Done, notify_closed i sv)
     | At_revoke_list org ext mid \<Rightarrow>
         (if (case r of R_machines ms \<Rightarrow> list_ex (\<lambda>m. mc_id m = mid) ms | _ \<Rightarrow> False)
          then (Await (At_revoke_sessions org ext mid), sv) else (Done, sv))
     | At_revoke_sessions org ext mid \<Rightarrow>
         (let revoked = (case r of R_revoked rs \<Rightarrow> rs | _ \<Rightarrow> []) in
          (Await (At_revoke_machine org ext mid),
           snd (gateway_disconnect mid ''Machine access revoked''
                  (closeRevokedSessions revoked ''machine_revoked'' sv))))
     | At_revoke_machine org _ _ \<Rightarrow> (Done, if result_true r then notifyOrganization org sv else sv)))"

section \<open>Tasks and queues\<close>

text \<open>
  The end of a task: it leaves its lifecycle queue, and a thrown error of a message closes the socket
  (\<open>socket.close(4002, "Protocol error")\<close>).
\<close>

definition finish_task :: "task_id \<Rightarrow> server \<Rightarrow> server" where
  "finish_task t sv =
     sv\<lparr>sv_queues := (\<lambda>mid. filter (\<lambda>u. u \<noteq> t) (sv_queues sv mid)), sv_tasks := (sv_tasks sv)(t := None)\<rparr>"

definition settle :: "task_id \<Rightarrow> ident option \<Rightarrow> outcome \<times> server \<Rightarrow> server" where
  "settle t queue res = (case res of
       (Await p, sv) \<Rightarrow> sv\<lparr>sv_tasks := (sv_tasks sv)(t \<mapsto> \<lparr>tk_phase = Waiting p, tk_queue = queue\<rparr>)\<rparr>
     | (Enqueue mid op, sv) \<Rightarrow>
         sv\<lparr>sv_queues := (sv_queues sv)(mid := sv_queues sv mid @ [t]),
            sv_tasks := (sv_tasks sv)(t \<mapsto> \<lparr>tk_phase = Queued op, tk_queue = Some mid\<rparr>)\<rparr>
     | (Done, sv) \<Rightarrow> finish_task t sv
     | (Throw _, sv) \<Rightarrow>
         (case t of
            Message_of i \<Rightarrow> closeSocket i 4002 ''Protocol error'' (finish_task t sv)
          | _ \<Rightarrow> finish_task t sv))"

datatype gateway_event =
    Connected nat ident string
  | Received nat "client_message option"
  | Timed_out nat
  | Closed nat
  | Handle nat
  | Begin task_id
  | Commit task_id
  | Resume task_id
  | Revoke_request nat ident ident ident

definition head_of :: "task_id \<Rightarrow> task_id list \<Rightarrow> bool" where
  "head_of t q \<longleftrightarrow> (case q of [] \<Rightarrow> False | u # _ \<Rightarrow> u = t)"

definition idle :: "task_id \<Rightarrow> server \<Rightarrow> bool" where
  "idle t sv \<longleftrightarrow> sv_tasks sv t = None"

definition close_event :: "nat \<Rightarrow> server \<Rightarrow> server" where
  "close_event i sv =
     (case sv_sockets sv i of
        None \<Rightarrow> sv
      | Some s \<Rightarrow>
          if sk_gone s \<or> \<not> idle (Close_of i) sv then sv
          else
            let sv' = upd_socket i (\<lambda>s. s\<lparr>sk_ready := False, sk_gone := True\<rparr>) sv in
            if present (as_machineId s)
            then settle (Close_of i) None (Enqueue (the (as_machineId s)) (Op_close i), sv') else sv')"

definition gateway_step :: "gateway_env \<Rightarrow> gateway_event \<times> instant \<Rightarrow> server \<Rightarrow> server" where
  "gateway_step env ev sv = (let now = snd ev in case fst ev of
       Connected i connectionId nonce \<Rightarrow>
         (if sv_sockets sv i = None then accept_socket i connectionId nonce sv else sv)
     | Received i raw \<Rightarrow> upd_socket i (\<lambda>s. s\<lparr>sk_inbox := sk_inbox s @ [raw]\<rparr>) sv
     | Timed_out i \<Rightarrow> auth_timeout i sv
     | Closed i \<Rightarrow> close_event i sv
     | Handle i \<Rightarrow>
         (case sv_sockets sv i of
            Some s \<Rightarrow>
              (case sk_inbox s of
                 raw # rest \<Rightarrow>
                   if idle (Message_of i) sv
                   then settle (Message_of i) None
                          (handleMessage env i s raw now (upd_socket i (\<lambda>s. s\<lparr>sk_inbox := rest\<rparr>) sv))
                   else sv
               | [] \<Rightarrow> sv)
          | None \<Rightarrow> sv)
     | Begin t \<Rightarrow>
         (case sv_tasks sv t of
            Some k \<Rightarrow>
              (case (tk_phase k, tk_queue k) of
                 (Queued op, Some mid) \<Rightarrow>
                   if head_of t (sv_queues sv mid) then settle t (Some mid) (start_operation op sv) else sv
               | _ \<Rightarrow> sv)
          | None \<Rightarrow> sv)
     | Commit t \<Rightarrow>
         (case sv_tasks sv t of
            Some k \<Rightarrow>
              (case tk_phase k of
                 Waiting p \<Rightarrow>
                   (let (r, sv') = perform env p now sv in
                    sv'\<lparr>sv_tasks := (sv_tasks sv')(t \<mapsto> k\<lparr>tk_phase := Resuming p r\<rparr>)\<rparr>)
               | _ \<Rightarrow> sv)
          | None \<Rightarrow> sv)
     | Resume t \<Rightarrow>
         (case sv_tasks sv t of
            Some k \<Rightarrow>
              (case tk_phase k of Resuming p r \<Rightarrow> settle t (tk_queue k) (resume env p r now sv) | _ \<Rightarrow> sv)
          | None \<Rightarrow> sv)
     | Revoke_request n org ext mid \<Rightarrow>
         (if idle (Request n) sv
          then settle (Request n) None (Await (At_revoke_list org ext mid), sv) else sv))"

definition start_server :: "control_db \<Rightarrow> session_db \<Rightarrow> server" where
  "start_server control sessions =
     \<lparr>sv_control = control_initialize control, sv_sessions = sessions, sv_sockets = (\<lambda>_. None),
      sv_connections = (\<lambda>_. None), sv_queues = (\<lambda>_. []), sv_tasks = (\<lambda>_. None), sv_events = []\<rparr>"

text \<open>The states a server reaches from databases that satisfy their invariants.\<close>

inductive gateway_reachable :: "gateway_env \<Rightarrow> server \<Rightarrow> bool" for env where
  start: "control_wf control \<Longrightarrow> db_wf sessions \<Longrightarrow> gateway_reachable env (start_server control sessions)"
| step: "gateway_reachable env sv \<Longrightarrow> gateway_reachable env (gateway_step env ev sv)"

end
