(* ===== verification/Gateway_Invariants.thy ===== *)
theory Gateway_Invariants
  imports Gateway
begin

text \<open>
  The invariant of the gateway under every interleaving of tasks: who an authenticated WebSocket is,
  which WebSocket a Machine is reached by, and what each task in flight may rely on.
\<close>

section \<open>What a socket and a task claim\<close>

text \<open>The Machine row under an id, with the key and the owner that \<open>machinePublicKey\<close> reported.\<close>

definition known :: "server \<Rightarrow> ident \<Rightarrow> string \<Rightarrow> ident \<Rightarrow> bool" where
  "known sv mid pk org \<longleftrightarrow>
     (\<exists>m \<in> set (cdb_machines (sv_control sv)). mc_id m = mid \<and> mc_publicKey m = pk \<and> mc_organizationId m = org)"

definition owns :: "server \<Rightarrow> ident \<Rightarrow> ident \<Rightarrow> bool" where
  "owns sv org ext \<longleftrightarrow>
     (\<exists>o' \<in> set (cdb_organizations (sv_control sv)). org_id o' = org \<and> org_externalId o' = ext)"

definition signed :: "gateway_env \<Rightarrow> socket \<Rightarrow> string \<Rightarrow> byte list \<Rightarrow> bool" where
  "signed env s pk sig \<longleftrightarrow> ge_verify env (challenge_text s) pk sig = Some True"

definition proven :: "gateway_env \<Rightarrow> server \<Rightarrow> socket \<Rightarrow> bool" where
  "proven env sv s \<longleftrightarrow> (\<exists>mid ext pk org sig. as_machineId s = Some mid \<and> as_organizationId s = Some ext
     \<and> known sv mid pk org \<and> owns sv org ext \<and> signed env s pk sig)"

definition live :: "server \<Rightarrow> ident \<Rightarrow> nat \<Rightarrow> bool" where
  "live sv mid i \<longleftrightarrow> (\<exists>s. sv_sockets sv i = Some s \<and> sk_ready s \<and> as_authenticated s \<and> as_machineId s = Some mid)"

text \<open>A socket whose signature was checked and that is not authenticated yet.\<close>

definition claims :: "gateway_env \<Rightarrow> server \<Rightarrow> nat \<Rightarrow> authenticate_msg \<Rightarrow> machine_identity \<Rightarrow> bool" where
  "claims env sv i a machine \<longleftrightarrow> (\<exists>s. sv_sockets sv i = Some s \<and> \<not> as_authenticated s
     \<and> as_machineId s = Some (au_machineId a)
     \<and> as_organizationId s = Some (lp_organizationId (csp_localPolicy (au_sessionProfile a)))
     \<and> known sv (au_machineId a) (mid_publicKey machine) (mid_organizationId machine)
     \<and> signed env s (mid_publicKey machine) (base64url_decode (au_signature a)))"

definition owned :: "server \<Rightarrow> authenticate_msg \<Rightarrow> machine_identity \<Rightarrow> bool" where
  "owned sv a machine \<longleftrightarrow>
     owns sv (mid_organizationId machine) (lp_organizationId (csp_localPolicy (au_sessionProfile a)))"

definition unauthenticated :: "server \<Rightarrow> nat \<Rightarrow> bool" where
  "unauthenticated sv i \<longleftrightarrow> (\<exists>s. sv_sockets sv i = Some s \<and> \<not> as_authenticated s)"

definition acts_for :: "server \<Rightarrow> nat \<Rightarrow> ident \<Rightarrow> ident \<Rightarrow> bool" where
  "acts_for sv i mid org \<longleftrightarrow> (\<exists>s. sv_sockets sv i = Some s \<and> as_authenticated s
     \<and> as_machineId s = Some mid \<and> as_organizationId s = Some org)"

definition point_ok :: "gateway_env \<Rightarrow> server \<Rightarrow> task_id \<Rightarrow> ident option \<Rightarrow> point \<Rightarrow> bool" where
  "point_ok env sv t q p = (case p of
       At_key i a \<Rightarrow> t = Message_of i \<and> q = None \<and> unauthenticated sv i
     | At_check i a machine \<Rightarrow> t = Message_of i \<and> q = Some (au_machineId a) \<and> claims env sv i a machine
     | At_organization i a machine \<Rightarrow> t = Message_of i \<and> q = Some (au_machineId a) \<and> claims env sv i a machine
     | At_authority i a machine \<Rightarrow>
         t = Message_of i \<and> q = Some (au_machineId a) \<and> claims env sv i a machine \<and> owned sv a machine
     | At_online i a machine \<Rightarrow>
         t = Message_of i \<and> q = Some (au_machineId a) \<and> claims env sv i a machine \<and> owned sv a machine
         \<and> (\<forall>j. \<not> live sv (au_machineId a) j)
     | At_message i m mid org ctl \<Rightarrow> t = Message_of i \<and> acts_for sv i mid org
         \<and> (case m of CM_command_completed c \<Rightarrow> completion_status (cc_status c) | _ \<Rightarrow> True)
     | _ \<Rightarrow> True)"

definition result_ok :: "server \<Rightarrow> point \<Rightarrow> db_result \<Rightarrow> bool" where
  "result_ok sv p r = (case p of
       At_key i a \<Rightarrow> (\<forall>m. result_identity r = Some m \<longrightarrow> known sv (au_machineId a) (mid_publicKey m) (mid_organizationId m))
     | At_organization i a machine \<Rightarrow>
         (\<forall>o'. result_organization r = Some o' \<longrightarrow> owns sv (mid_organizationId machine) (mo_organizationExternalId o'))
     | _ \<Rightarrow> True)"

definition phase_ok :: "gateway_env \<Rightarrow> server \<Rightarrow> task_id \<Rightarrow> ident option \<Rightarrow> phase \<Rightarrow> bool" where
  "phase_ok env sv t q ph = (case ph of
       Queued (Op_authenticate i a machine) \<Rightarrow>
         t = Message_of i \<and> q = Some (au_machineId a) \<and> claims env sv i a machine
     | Queued (Op_close i) \<Rightarrow> (\<exists>s. sv_sockets sv i = Some s \<and> \<not> sk_ready s)
     | Waiting p \<Rightarrow> point_ok env sv t q p
     | Resuming p r \<Rightarrow> point_ok env sv t q p \<and> result_ok sv p r)"

definition started :: "phase \<Rightarrow> bool" where
  "started ph = (case ph of Queued _ \<Rightarrow> False | _ \<Rightarrow> True)"

section \<open>The invariant\<close>

definition dbs_ok :: "server \<Rightarrow> bool" where
  "dbs_ok sv \<longleftrightarrow> control_wf (sv_control sv) \<and> db_wf (sv_sessions sv)"

definition sockets_ok :: "gateway_env \<Rightarrow> server \<Rightarrow> bool" where
  "sockets_ok env sv \<longleftrightarrow> (\<forall>i s. sv_sockets sv i = Some s \<and> as_authenticated s \<longrightarrow> proven env sv s)"

definition connections_ok :: "server \<Rightarrow> bool" where
  "connections_ok sv \<longleftrightarrow> (\<forall>mid i. sv_connections sv mid = Some i \<longrightarrow>
     (\<exists>s. sv_sockets sv i = Some s \<and> as_authenticated s \<and> as_machineId s = Some mid))"

definition single_ok :: "server \<Rightarrow> bool" where
  "single_ok sv \<longleftrightarrow> (\<forall>mid i. live sv mid i \<longrightarrow> sv_connections sv mid = Some i)"

definition tasks_ok :: "gateway_env \<Rightarrow> server \<Rightarrow> bool" where
  "tasks_ok env sv \<longleftrightarrow> (\<forall>t k. sv_tasks sv t = Some k \<longrightarrow> phase_ok env sv t (tk_queue k) (tk_phase k)
     \<and> (\<forall>mid. tk_queue k = Some mid \<and> started (tk_phase k) \<longrightarrow> head_of t (sv_queues sv mid)))"

definition gateway_inv :: "gateway_env \<Rightarrow> server \<Rightarrow> bool" where
  "gateway_inv env sv \<longleftrightarrow> dbs_ok sv \<and> sockets_ok env sv \<and> connections_ok sv \<and> single_ok sv \<and> tasks_ok env sv"

section \<open>Quiet steps\<close>

text \<open>
  A step is quiet when it leaves every \<open>AuthState\<close> alone, opens no socket again and drops a connection
  only when its socket is closing.
\<close>

definition auth_ident :: "socket \<Rightarrow> ident \<times> string \<times> ident option \<times> ident option \<times> bool" where
  "auth_ident s = (as_connectionId s, as_nonce s, as_machineId s, as_organizationId s, as_authenticated s)"

fun same_socket :: "socket option \<Rightarrow> socket option \<Rightarrow> bool" where
  "same_socket None s' = (s' = None)"
| "same_socket (Some s) (Some s') = (auth_ident s' = auth_ident s \<and> (sk_ready s' \<longrightarrow> sk_ready s))"
| "same_socket (Some s) None = False"

definition shrink :: "server \<Rightarrow> server \<Rightarrow> bool" where
  "shrink sv sv' \<longleftrightarrow> (\<forall>mid. sv_connections sv' mid = sv_connections sv mid
     \<or> (sv_connections sv' mid = None
        \<and> (\<forall>i s. sv_connections sv mid = Some i \<and> sv_sockets sv' i = Some s \<longrightarrow> \<not> sk_ready s)))"

definition quiet :: "server \<Rightarrow> server \<Rightarrow> bool" where
  "quiet sv sv' \<longleftrightarrow> (\<forall>i. same_socket (sv_sockets sv i) (sv_sockets sv' i)) \<and> shrink sv sv'
     \<and> sv_queues sv' = sv_queues sv \<and> sv_tasks sv' = sv_tasks sv
     \<and> cdb_organizations (sv_control sv') = cdb_organizations (sv_control sv)
     \<and> evolves machine_step (cdb_machines (sv_control sv)) (cdb_machines (sv_control sv'))
     \<and> (dbs_ok sv \<longrightarrow> dbs_ok sv')"

lemma same_socket_refl [simp]: "same_socket s s"
  by (cases s) simp_all

lemma same_socket_trans: "same_socket a b \<Longrightarrow> same_socket b c \<Longrightarrow> same_socket a c"
  by (cases a; cases b; cases c) (auto simp: auth_ident_def)

lemma same_socket_closing:
  "same_socket a b \<Longrightarrow> (\<And>s. a = Some s \<Longrightarrow> \<not> sk_ready s) \<Longrightarrow> b = Some s \<Longrightarrow> \<not> sk_ready s"
  by (cases a) auto

lemma quiet_refl [simp]: "quiet sv sv"
  by (simp add: quiet_def shrink_def machines.evolves_refl)

lemma shrink_trans:
  assumes "shrink a b" "shrink b c" "\<And>i. same_socket (sv_sockets b i) (sv_sockets c i)"
  shows "shrink a c"
  unfolding shrink_def
proof
  fix mid
  show "sv_connections c mid = sv_connections a mid
     \<or> (sv_connections c mid = None
        \<and> (\<forall>i s. sv_connections a mid = Some i \<and> sv_sockets c i = Some s \<longrightarrow> \<not> sk_ready s))"
  proof (cases "sv_connections b mid = sv_connections a mid")
    case True
    with assms(2) show ?thesis unfolding shrink_def by metis
  next
    case False
    then have b: "sv_connections b mid = None"
        "\<And>i s. sv_connections a mid = Some i \<Longrightarrow> sv_sockets b i = Some s \<Longrightarrow> \<not> sk_ready s"
      using assms(1) unfolding shrink_def by blast+
    have "sv_connections c mid = None" using assms(2) b(1) unfolding shrink_def by metis
    moreover have "\<not> sk_ready s" if "sv_connections a mid = Some i" "sv_sockets c i = Some s" for i s
      using same_socket_closing[OF assms(3)[of i] _ that(2)] b(2)[OF that(1)] by blast
    ultimately show ?thesis by blast
  qed
qed

lemma quiet_trans [trans]: "quiet a b \<Longrightarrow> quiet b c \<Longrightarrow> quiet a c"
  unfolding quiet_def using same_socket_trans shrink_trans machines.evolves_trans by (metis (no_types, lifting))

lemma quiet_fold: "(\<And>x v. x \<in> set xs \<Longrightarrow> quiet v (f x v)) \<Longrightarrow> quiet sv (fold f xs sv)"
proof (induction xs arbitrary: sv)
  case (Cons x xs)
  have "quiet (f x sv) (fold f xs (f x sv))" by (rule Cons.IH) (use Cons.prems in simp)
  with Cons.prems[of x sv] show ?case using quiet_trans by simp
qed simp

lemma quiet_upd_socket:
  assumes "\<And>s. auth_ident (f s) = auth_ident s \<and> (sk_ready (f s) \<longrightarrow> sk_ready s)"
  shows "quiet sv (upd_socket i f sv)"
proof -
  have "same_socket (sv_sockets sv j) (sv_sockets (upd_socket i f sv) j)" for j
    using assms by (cases "sv_sockets sv i") (auto simp: upd_socket_def)
  then show ?thesis by (simp add: quiet_def shrink_def upd_socket_def machines.evolves_refl dbs_ok_def)
qed

lemma quiet_sendSocket [simp, intro]: "quiet sv (sendSocket i m sv)"
  unfolding sendSocket_def by (rule quiet_upd_socket) (simp add: auth_ident_def)

lemma quiet_closeSocket [simp, intro]: "quiet sv (closeSocket i c r sv)"
  unfolding closeSocket_def by (rule quiet_upd_socket) (simp add: auth_ident_def)

lemma closeSocket_closed: "sv_sockets (closeSocket i c r sv) i = Some s \<Longrightarrow> \<not> sk_ready s"
  by (cases "sv_sockets sv i"; cases "sk_ready (the (sv_sockets sv i))")
    (auto simp: closeSocket_def upd_socket_def)

lemma quiet_emit [simp, intro]: "quiet sv (emit e sv)"
  by (simp add: quiet_def emit_def shrink_def machines.evolves_refl dbs_ok_def)

lemma quiet_notify [simp, intro]: "quiet sv (notifyOrganization org sv)"
  by (simp add: notifyOrganization_def)

lemma quiet_send [simp, intro]: "quiet sv (snd (gateway_send mid m sv))"
  by (auto simp: gateway_send_def split: option.split)

lemma upd_socket_frame [simp]:
  "sv_connections (upd_socket i f sv) = sv_connections sv" "sv_queues (upd_socket i f sv) = sv_queues sv"
  "sv_tasks (upd_socket i f sv) = sv_tasks sv" "sv_control (upd_socket i f sv) = sv_control sv"
  "sv_sessions (upd_socket i f sv) = sv_sessions sv"
  by (simp_all add: upd_socket_def)

lemma closeSocket_frame [simp]:
  "sv_connections (closeSocket i c r sv) = sv_connections sv" "sv_queues (closeSocket i c r sv) = sv_queues sv"
  "sv_tasks (closeSocket i c r sv) = sv_tasks sv" "sv_control (closeSocket i c r sv) = sv_control sv"
  "sv_sessions (closeSocket i c r sv) = sv_sessions sv"
  by (simp_all add: closeSocket_def)

lemma quiet_drop:
  assumes "sv_connections sv mid = Some i" "\<And>s. sv_sockets sv i = Some s \<Longrightarrow> \<not> sk_ready s"
  shows "quiet sv (sv\<lparr>sv_connections := (sv_connections sv)(mid := None)\<rparr>)"
  using assms by (auto simp: quiet_def shrink_def machines.evolves_refl dbs_ok_def)

lemma quiet_disconnect [simp, intro]: "quiet sv (snd (gateway_disconnect mid r sv))"
proof (cases "sv_connections sv mid")
  case (Some i)
  let ?v = "closeSocket i 4004 r sv"
  have "quiet ?v (?v\<lparr>sv_connections := (sv_connections ?v)(mid := None)\<rparr>)"
    by (rule quiet_drop[where i = i]) (use Some closeSocket_closed in auto)
  moreover have "snd (gateway_disconnect mid r sv) = ?v\<lparr>sv_connections := (sv_connections ?v)(mid := None)\<rparr>"
    using Some by (simp add: gateway_disconnect_def closeSocket_def upd_socket_def)
  ultimately show ?thesis using quiet_trans[OF quiet_closeSocket] by metis
qed (simp add: gateway_disconnect_def)

lemma quiet_closeRevoked [simp, intro]: "quiet sv (closeRevokedSessions revoked reason sv)"
  unfolding closeRevokedSessions_def
  by (intro quiet_fold) (auto split: prod.split intro!: quiet_trans[OF quiet_fold quiet_send])

lemma quiet_send_all [simp, intro]: "quiet sv (send_all i ms sv)"
  unfolding send_all_def by (intro quiet_fold quiet_sendSocket)

lemma quiet_supersede [simp, intro]: "quiet sv (supersede i mid sv)"
  by (auto simp: supersede_def split: option.split)

lemma quiet_notify_closed [simp, intro]: "quiet sv (notify_closed i sv)"
  by (auto simp: notify_closed_def split: option.split)

lemma quiet_after_message: "quiet sv (snd (after_message m mid org r sv))"
  by (auto simp: after_message_def split: client_message.split db_result.split option.split bool.split
      intro: quiet_trans[OF quiet_send quiet_notify])

section \<open>What a quiet step preserves\<close>

lemma quiet_forward:
  assumes "quiet sv sv'" "sv_sockets sv i = Some s"
  shows "\<exists>s'. sv_sockets sv' i = Some s' \<and> auth_ident s' = auth_ident s \<and> (sk_ready s' \<longrightarrow> sk_ready s)"
proof -
  have "same_socket (sv_sockets sv i) (sv_sockets sv' i)" using assms(1) by (simp add: quiet_def)
  with assms(2) show ?thesis by (cases "sv_sockets sv' i") auto
qed

lemma quiet_backward:
  assumes "quiet sv sv'" "sv_sockets sv' i = Some s'"
  shows "\<exists>s. sv_sockets sv i = Some s \<and> auth_ident s' = auth_ident s \<and> (sk_ready s' \<longrightarrow> sk_ready s)"
proof -
  have "same_socket (sv_sockets sv i) (sv_sockets sv' i)" using assms(1) by (simp add: quiet_def)
  with assms(2) show ?thesis by (cases "sv_sockets sv i") auto
qed

lemma auth_ident_sel:
  assumes "auth_ident s' = auth_ident s"
  shows "as_machineId s' = as_machineId s" "as_organizationId s' = as_organizationId s"
    "as_authenticated s' = as_authenticated s" "challenge_text s' = challenge_text s"
    "signed env s' = signed env s"
  using assms by (auto simp: auth_ident_def challenge_text_def signed_def fun_eq_iff)

lemma known_evolves:
  assumes "evolves machine_step (cdb_machines (sv_control sv)) (cdb_machines (sv_control sv'))" "known sv mid pk org"
  shows "known sv' mid pk org"
proof -
  obtain m where m: "m \<in> set (cdb_machines (sv_control sv))" "mc_id m = mid" "mc_publicKey m = pk" "mc_organizationId m = org"
    using assms(2) unfolding known_def by blast
  obtain m' where "m' \<in> set (cdb_machines (sv_control sv'))" "machine_step m m'"
    using evolves_mem[OF assms(1) m(1)] by blast
  with m show ?thesis unfolding known_def machine_step_def by metis
qed

lemma known_quiet: "quiet sv sv' \<Longrightarrow> known sv mid pk org \<Longrightarrow> known sv' mid pk org"
  using known_evolves unfolding quiet_def by blast

lemma owns_quiet: "quiet sv sv' \<Longrightarrow> owns sv' org ext = owns sv org ext"
  by (simp add: quiet_def owns_def)

lemma live_quiet: "quiet sv sv' \<Longrightarrow> live sv' mid i \<Longrightarrow> live sv mid i"
  unfolding live_def
proof (elim exE conjE)
  fix s' assume q: "quiet sv sv'" and s': "sv_sockets sv' i = Some s'" "sk_ready s'" "as_authenticated s'" "as_machineId s' = Some mid"
  obtain s where s: "sv_sockets sv i = Some s" "auth_ident s' = auth_ident s" "sk_ready s' \<longrightarrow> sk_ready s"
    using quiet_backward[OF q s'(1)] by blast
  then show "\<exists>s. sv_sockets sv i = Some s \<and> sk_ready s \<and> as_authenticated s \<and> as_machineId s = Some mid"
    using s' auth_ident_sel[OF s(2)] by (intro exI[of _ s]) simp
qed

lemma claims_quiet:
  assumes "quiet sv sv'" "claims env sv i a machine"
  shows "claims env sv' i a machine"
proof -
  obtain s where s: "sv_sockets sv i = Some s" "\<not> as_authenticated s" "as_machineId s = Some (au_machineId a)"
     "as_organizationId s = Some (lp_organizationId (csp_localPolicy (au_sessionProfile a)))"
     "known sv (au_machineId a) (mid_publicKey machine) (mid_organizationId machine)"
     "signed env s (mid_publicKey machine) (base64url_decode (au_signature a))"
    using assms(2) unfolding claims_def by blast
  obtain s' where s': "sv_sockets sv' i = Some s'" "auth_ident s' = auth_ident s"
    using quiet_forward[OF assms(1) s(1)] by blast
  show ?thesis unfolding claims_def
    using s s' known_quiet[OF assms(1) s(5)] auth_ident_sel[OF s'(2)] by auto
qed

lemma unauthenticated_quiet: "quiet sv sv' \<Longrightarrow> unauthenticated sv i \<Longrightarrow> unauthenticated sv' i"
  unfolding unauthenticated_def
proof (elim exE conjE)
  fix s assume q: "quiet sv sv'" and s: "sv_sockets sv i = Some s" "\<not> as_authenticated s"
  obtain s' where s': "sv_sockets sv' i = Some s'" "auth_ident s' = auth_ident s" using quiet_forward[OF q s(1)] by blast
  then show "\<exists>s. sv_sockets sv' i = Some s \<and> \<not> as_authenticated s"
    using s auth_ident_sel[OF s'(2)] by (intro exI[of _ s']) simp
qed

lemma acts_for_quiet: "quiet sv sv' \<Longrightarrow> acts_for sv i mid org \<Longrightarrow> acts_for sv' i mid org"
  unfolding acts_for_def
proof (elim exE conjE)
  fix s assume q: "quiet sv sv'" and s: "sv_sockets sv i = Some s" "as_authenticated s" "as_machineId s = Some mid"
    "as_organizationId s = Some org"
  obtain s' where s': "sv_sockets sv' i = Some s'" "auth_ident s' = auth_ident s" using quiet_forward[OF q s(1)] by blast
  then show "\<exists>s. sv_sockets sv' i = Some s \<and> as_authenticated s \<and> as_machineId s = Some mid \<and> as_organizationId s = Some org"
    using s auth_ident_sel[OF s'(2)] by (intro exI[of _ s']) simp
qed

lemma owned_quiet: "quiet sv sv' \<Longrightarrow> owned sv a machine \<Longrightarrow> owned sv' a machine"
  unfolding owned_def by (simp only: owns_quiet)

lemma point_ok_quiet:
  assumes q: "quiet sv sv'" and ok: "point_ok env sv t c p"
  shows "point_ok env sv' t c p"
proof -
  note keep = claims_quiet[OF q] owned_quiet[OF q] acts_for_quiet[OF q] unauthenticated_quiet[OF q]
  have "\<not> live sv' mid j" if "\<not> live sv mid j" for mid j using live_quiet[OF q] that by blast
  then show ?thesis using ok keep by (cases p) (simp_all add: point_ok_def)
qed

lemma result_ok_quiet:
  assumes q: "quiet sv sv'" and ok: "result_ok sv p r"
  shows "result_ok sv' p r"
proof -
  have "owns sv' = owns sv" using owns_quiet[OF q] by (intro ext)
  then show ?thesis using ok known_quiet[OF q] by (cases p) (simp_all add: result_ok_def)
qed

lemma phase_ok_quiet:
  assumes "quiet sv sv'" "phase_ok env sv t q ph"
  shows "phase_ok env sv' t q ph"
proof (cases ph)
  case (Queued op)
  show ?thesis
  proof (cases op)
    case (Op_close i)
    then obtain s where "sv_sockets sv i = Some s" "\<not> sk_ready s" using assms(2) Queued by (auto simp: phase_ok_def)
    with quiet_forward[OF assms(1)] show ?thesis using Queued Op_close by (auto simp: phase_ok_def)
  qed (use assms Queued claims_quiet in \<open>auto simp: phase_ok_def\<close>)
qed (use assms point_ok_quiet result_ok_quiet in \<open>auto simp: phase_ok_def\<close>)

text \<open>All of the invariant but the tasks.\<close>

definition core_ok :: "gateway_env \<Rightarrow> server \<Rightarrow> bool" where
  "core_ok env sv \<longleftrightarrow> dbs_ok sv \<and> sockets_ok env sv \<and> connections_ok sv \<and> single_ok sv"

lemma proven_quiet:
  assumes "quiet sv sv'" "proven env sv s" "auth_ident s' = auth_ident s"
  shows "proven env sv' s'"
proof -
  obtain mid ext pk org sig where "as_machineId s = Some mid" "as_organizationId s = Some ext"
      "known sv mid pk org" "owns sv org ext" "signed env s pk sig"
    using assms(2) unfolding proven_def by blast
  then show ?thesis unfolding proven_def
    by (intro exI[of _ mid] exI[of _ ext] exI[of _ pk] exI[of _ org] exI[of _ sig])
      (simp add: known_quiet[OF assms(1)] owns_quiet[OF assms(1)] auth_ident_sel[OF assms(3)])
qed

lemma core_ok_quiet:
  assumes q: "quiet sv sv'" and ok: "core_ok env sv"
  shows "core_ok env sv'"
proof -
  have "dbs_ok sv'" using q ok by (simp add: quiet_def core_ok_def)
  moreover have "sockets_ok env sv'"
    unfolding sockets_ok_def
  proof (intro allI impI, elim conjE)
    fix i s' assume s': "sv_sockets sv' i = Some s'" "as_authenticated s'"
    obtain s where s: "sv_sockets sv i = Some s" "auth_ident s' = auth_ident s" using quiet_backward[OF q s'(1)] by blast
    then have "proven env sv s" using ok s' auth_ident_sel[OF s(2)] by (simp add: core_ok_def sockets_ok_def)
    then show "proven env sv' s'" by (rule proven_quiet[OF q _ s(2)])
  qed
  moreover have "connections_ok sv'"
    unfolding connections_ok_def
  proof (intro allI impI)
    fix mid i assume c: "sv_connections sv' mid = Some i"
    then have "sv_connections sv mid = Some i" using q unfolding quiet_def shrink_def by (metis option.distinct(1))
    then obtain s where s: "sv_sockets sv i = Some s" "as_authenticated s" "as_machineId s = Some mid"
      using ok unfolding core_ok_def connections_ok_def by blast
    obtain s' where s': "sv_sockets sv' i = Some s'" "auth_ident s' = auth_ident s" using quiet_forward[OF q s(1)] by blast
    then show "\<exists>s. sv_sockets sv' i = Some s \<and> as_authenticated s \<and> as_machineId s = Some mid"
      using s auth_ident_sel[OF s'(2)] by (intro exI[of _ s']) simp
  qed
  moreover have "single_ok sv'"
    unfolding single_ok_def
  proof (intro allI impI)
    fix mid i assume l: "live sv' mid i"
    then have c: "sv_connections sv mid = Some i" using live_quiet[OF q] ok unfolding core_ok_def single_ok_def by blast
    show "sv_connections sv' mid = Some i"
    proof (rule ccontr)
      assume "sv_connections sv' mid \<noteq> Some i"
      then have "\<forall>s. sv_sockets sv' i = Some s \<longrightarrow> \<not> sk_ready s"
        using q c unfolding quiet_def shrink_def by metis
      with l show False by (auto simp: live_def)
    qed
  qed
  ultimately show ?thesis by (simp add: core_ok_def)
qed

text \<open>The tasks other than the one that moves.\<close>

definition others_ok :: "gateway_env \<Rightarrow> task_id \<Rightarrow> server \<Rightarrow> bool" where
  "others_ok env t sv \<longleftrightarrow> (\<forall>u k. sv_tasks sv u = Some k \<and> u \<noteq> t \<longrightarrow> phase_ok env sv u (tk_queue k) (tk_phase k)
     \<and> (\<forall>mid. tk_queue k = Some mid \<and> started (tk_phase k) \<longrightarrow> head_of u (sv_queues sv mid)))"

lemma others_ok_all: "tasks_ok env sv \<Longrightarrow> others_ok env t sv"
  by (simp add: tasks_ok_def others_ok_def)

lemma others_ok_quiet:
  assumes q: "quiet sv sv'" and "others_ok env t sv"
  shows "others_ok env t sv'"
proof -
  have "sv_tasks sv' = sv_tasks sv" "sv_queues sv' = sv_queues sv" using q by (simp_all add: quiet_def)
  with assms(2) phase_ok_quiet[OF q] show ?thesis unfolding others_ok_def by metis
qed

lemma tasks_ok_quiet:
  assumes q: "quiet sv sv'" and "tasks_ok env sv"
  shows "tasks_ok env sv'"
proof -
  have "sv_tasks sv' = sv_tasks sv" "sv_queues sv' = sv_queues sv" using q by (simp_all add: quiet_def)
  with assms(2) phase_ok_quiet[OF q] show ?thesis unfolding tasks_ok_def by metis
qed

lemma inv_quiet: "quiet sv sv' \<Longrightarrow> gateway_inv env sv \<Longrightarrow> gateway_inv env sv'"
  using core_ok_quiet tasks_ok_quiet unfolding gateway_inv_def core_ok_def by blast

section \<open>Settling a task\<close>

text \<open>The invariant reads tasks and queues in \<open>tasks_ok\<close> only.\<close>

lemma reads_cong:
  assumes "sv_control a = sv_control b" "sv_sockets a = sv_sockets b"
  shows "phase_ok env a t q ph = phase_ok env b t q ph" "known a = known b" "owns a = owns b"
    "live a = live b" "proven env a = proven env b" "claims env a = claims env b" "owned a = owned b"
proof -
  show k: "known a = known b" and o': "owns a = owns b" and l: "live a = live b"
    using assms by (auto simp: known_def owns_def live_def fun_eq_iff)
  show p: "proven env a = proven env b" using k o' by (simp add: proven_def fun_eq_iff)
  show c: "claims env a = claims env b" using k assms(2) by (simp add: claims_def fun_eq_iff)
  show w: "owned a = owned b" using o' by (simp add: owned_def fun_eq_iff)
  have "unauthenticated a = unauthenticated b" using assms(2) by (simp add: unauthenticated_def fun_eq_iff)
  moreover have "acts_for a = acts_for b" using assms(2) by (simp add: acts_for_def fun_eq_iff)
  ultimately have "point_ok env a t q p = point_ok env b t q p" for p
    using c w l by (cases p) (simp_all add: point_ok_def)
  moreover have "result_ok a p r = result_ok b p r" for p r
    using k o' by (cases p) (simp_all add: result_ok_def)
  ultimately show "phase_ok env a t q ph = phase_ok env b t q ph"
    using c assms(2) by (cases ph) (simp_all add: phase_ok_def split: lifecycle_op.split)
qed

lemma core_ok_cong:
  assumes "sv_control a = sv_control b" "sv_sockets a = sv_sockets b" "sv_sessions a = sv_sessions b"
    "sv_connections a = sv_connections b"
  shows "core_ok env a = core_ok env b"
  using assms reads_cong[OF assms(1,2)]
  by (simp add: core_ok_def dbs_ok_def sockets_ok_def connections_ok_def single_ok_def)

lemma head_of_filter: "head_of u q \<Longrightarrow> u \<noteq> t \<Longrightarrow> head_of u (filter (\<lambda>v. v \<noteq> t) q)"
  by (cases q) (auto simp: head_of_def)

lemma head_of_append: "head_of u q \<Longrightarrow> head_of u (q @ [t])"
  by (cases q) (auto simp: head_of_def)

lemma finish_inv:
  assumes "core_ok env sv" "others_ok env t sv"
  shows "gateway_inv env (finish_task t sv)"
proof -
  let ?v = "finish_task t sv"
  have eq: "sv_control ?v = sv_control sv" "sv_sockets ?v = sv_sockets sv" "sv_sessions ?v = sv_sessions sv"
    "sv_connections ?v = sv_connections sv" by (simp_all add: finish_task_def)
  have "tasks_ok env ?v"
    using assms(2) head_of_filter unfolding tasks_ok_def others_ok_def reads_cong(1)[OF eq(1,2)]
    by (simp add: finish_task_def)
  then show ?thesis using core_ok_cong[OF eq] assms(1) by (simp add: gateway_inv_def core_ok_def)
qed

lemma settle_inv:
  assumes core: "core_ok env sv" and others: "others_ok env t sv"
    and out: "\<And>p. o' = Await p \<Longrightarrow> point_ok env sv t q p \<and> (\<forall>mid. q = Some mid \<longrightarrow> head_of t (sv_queues sv mid))"
      "\<And>mid op. o' = Enqueue mid op \<Longrightarrow> phase_ok env sv t (Some mid) (Queued op)"
  shows "gateway_inv env (settle t q (o', sv))"
proof (cases o')
  case (Await p)
  let ?v = "sv\<lparr>sv_tasks := (sv_tasks sv)(t \<mapsto> \<lparr>tk_phase = Waiting p, tk_queue = q\<rparr>)\<rparr>"
  have eq: "sv_control ?v = sv_control sv" "sv_sockets ?v = sv_sockets sv" "sv_sessions ?v = sv_sessions sv"
    "sv_connections ?v = sv_connections sv" by simp_all
  have "tasks_ok env ?v"
    using others out(1)[OF Await] unfolding tasks_ok_def others_ok_def reads_cong(1)[OF eq(1,2)]
    by (simp add: phase_ok_def)
  then show ?thesis using core_ok_cong[OF eq] core Await by (simp add: gateway_inv_def core_ok_def settle_def)
next
  case (Enqueue mid op)
  let ?v = "sv\<lparr>sv_queues := (sv_queues sv)(mid := sv_queues sv mid @ [t]),
            sv_tasks := (sv_tasks sv)(t \<mapsto> \<lparr>tk_phase = Queued op, tk_queue = Some mid\<rparr>)\<rparr>"
  have eq: "sv_control ?v = sv_control sv" "sv_sockets ?v = sv_sockets sv" "sv_sessions ?v = sv_sessions sv"
    "sv_connections ?v = sv_connections sv" by simp_all
  have "tasks_ok env ?v"
    using others out(2)[OF Enqueue] head_of_append
    unfolding tasks_ok_def others_ok_def reads_cong(1)[OF eq(1,2)]
    by (simp add: started_def)
  then show ?thesis using core_ok_cong[OF eq] core Enqueue by (simp add: gateway_inv_def core_ok_def settle_def)
next
  case Done
  then show ?thesis using finish_inv[OF core others] by (simp add: settle_def)
next
  case (Throw e)
  note fin = finish_inv[OF core others]
  show ?thesis
    using Throw fin inv_quiet[OF quiet_closeSocket fin] by (cases t) (simp_all add: settle_def)
qed

section \<open>The database calls\<close>

lemma control_quiet:
  assumes "keeps (sv_control sv) c" "cdb_organizations c = cdb_organizations (sv_control sv)"
  shows "quiet sv (sv\<lparr>sv_control := c\<rparr>)"
  using assms by (simp add: quiet_def shrink_def control_step_def dbs_ok_def)

lemma sessions_quiet: "db_wf d \<Longrightarrow> quiet sv (sv\<lparr>sv_sessions := d\<rparr>)"
  by (simp add: quiet_def shrink_def machines.evolves_refl dbs_ok_def)

lemma hook_message_wf:
  assumes "db_wf db" "case m of CM_command_completed c \<Rightarrow> completion_status (cc_status c) | _ \<Rightarrow> True"
  shows "db_wf (snd (hook_message env m mid org now db))"
  using assms
  by (cases m) (auto simp: hook_message_def markSessionOpened_wf markSessionFailed_wf markSessionClosed_wf
      markCommandStarted_wf addCommandOutput_wf markCommandCompleted_wf split: sum.split)

lemmas organizations_kept = setMachineIncompatible_def control_setMachineOnline_def setMachineOffline_def
  heartbeat_def revokeMachine_def Let_def

lemma perform_quiet:
  assumes "dbs_ok sv" "point_ok env sv t q p"
  shows "quiet sv (snd (perform env p now sv))"
proof -
  have wf: "control_wf (sv_control sv)" "db_wf (sv_sessions sv)" using assms(1) by (simp_all add: dbs_ok_def)
  note kept = setMachineIncompatible_keeps[OF wf(1)] control_setMachineOnline_keeps[OF wf(1)]
    setMachineOffline_keeps[OF wf(1)] heartbeat_keeps[OF wf(1)] revokeMachine_keeps[OF wf(1)]
  note stored = putMachineAuthority_wf[OF wf(2), THEN conjunct1] setMachineOnline_wf[OF wf(2), THEN conjunct1]
    revokeSessions_wf[OF wf(2), THEN conjunct1]
  show ?thesis
  proof (cases p)
    case (At_message i m mid org ctl)
    then have "db_wf (snd (hook_message env m mid org now (sv_sessions sv)))"
      using hook_message_wf[OF wf(2)] assms(2) by (simp add: point_ok_def)
    from sessions_quiet[OF this] show ?thesis using At_message by (simp add: perform_def)
  qed (use kept stored in \<open>auto simp: perform_def organizations_kept intro!: control_quiet sessions_quiet\<close>)
qed

lemma machinePublicKey_known:
  "machinePublicKey mid (sv_control sv) = Some m \<Longrightarrow> known sv mid (mid_publicKey m) (mid_organizationId m)"
  by (auto simp: machinePublicKey_def known_def dest!: sql_first_SomeD)

lemma mcpOrganization_owns:
  "mcpOrganization org (sv_control sv) = Some o' \<Longrightarrow> owns sv org (mo_organizationExternalId o')"
  by (auto simp: mcpOrganization_def mcpOrganizationRecord_def owns_def dest!: sql_first_SomeD)

lemma perform_result: "result_ok sv p (fst (perform env p now sv))"
  by (cases p) (auto simp: result_ok_def perform_def result_identity_def result_organization_def
      machinePublicKey_known mcpOrganization_owns)

lemma task_phase: "gateway_inv env sv \<Longrightarrow> sv_tasks sv t = Some k \<Longrightarrow> phase_ok env sv t (tk_queue k) (tk_phase k)"
  by (simp add: gateway_inv_def tasks_ok_def)

lemma task_head:
  "gateway_inv env sv \<Longrightarrow> sv_tasks sv t = Some k \<Longrightarrow> tk_queue k = Some mid \<Longrightarrow> started (tk_phase k) \<Longrightarrow>
   head_of t (sv_queues sv mid)"
  by (simp add: gateway_inv_def tasks_ok_def)

lemma commit_inv:
  assumes inv: "gateway_inv env sv" and k: "sv_tasks sv t = Some k" "tk_phase k = Waiting p"
  shows "gateway_inv env (gateway_step env (Commit t, now) sv)"
proof -
  define sv' where "sv' = snd (perform env p now sv)"
  define r where "r = fst (perform env p now sv)"
  have pt: "point_ok env sv t (tk_queue k) p" 
    using task_phase[OF inv k(1)] k(2) by (simp add: phase_ok_def)
  have q: "quiet sv sv'" unfolding sv'_def by (rule perform_quiet[OF _ pt]) (use inv in \<open>simp add: gateway_inv_def\<close>)
  then have inv': "gateway_inv env sv'" by (rule inv_quiet[OF _ inv])
  have k': "sv_tasks sv' t = Some k" using q k by (simp add: quiet_def)
  let ?v = "sv'\<lparr>sv_tasks := (sv_tasks sv')(t \<mapsto> k\<lparr>tk_phase := Resuming p r\<rparr>)\<rparr>"
  have eq: "sv_control ?v = sv_control sv'" "sv_sockets ?v = sv_sockets sv'" "sv_sessions ?v = sv_sessions sv'"
    "sv_connections ?v = sv_connections sv'" by simp_all
  have head: "\<forall>mid. tk_queue k = Some mid \<longrightarrow> head_of t (sv_queues sv' mid)"
    using task_head[OF inv' k'] k(2) by (simp add: started_def)
  have "phase_ok env sv' t (tk_queue k) (Resuming p r)"
    using point_ok_quiet[OF q pt] result_ok_quiet[OF q perform_result] by (simp add: phase_ok_def r_def)
  then have "tasks_ok env ?v"
    using inv' head unfolding gateway_inv_def tasks_ok_def reads_cong(1)[OF eq(1,2)] by simp
  moreover have "gateway_step env (Commit t, now) sv = ?v"
    using k by (simp add: gateway_step_def sv'_def r_def case_prod_unfold Let_def)
  ultimately show ?thesis using inv' core_ok_cong[OF eq] by (simp add: gateway_inv_def core_ok_def)
qed

section \<open>The two steps that change who a socket is\<close>

lemma core_inv: "gateway_inv env sv \<longleftrightarrow> core_ok env sv \<and> tasks_ok env sv"
  by (simp add: gateway_inv_def core_ok_def)

text \<open>Steps that change one unauthenticated socket.\<close>

lemma claims_other:
  assumes "\<And>j. j \<noteq> i \<Longrightarrow> sv_sockets sv' j = sv_sockets sv j" "sv_control sv' = sv_control sv" "j \<noteq> i"
  shows "claims env sv' j a machine = claims env sv j a machine"
  using assms by (simp add: claims_def known_def)

lemma others_ok_one_socket:
  assumes "others_ok env (Message_of i) sv"
    and same: "\<And>j. j \<noteq> i \<Longrightarrow> sv_sockets sv' j = sv_sockets sv j" "sv_control sv' = sv_control sv"
      "sv_tasks sv' = sv_tasks sv" "sv_queues sv' = sv_queues sv"
    and ready: "\<And>s. sv_sockets sv i = Some s \<Longrightarrow> \<not> sk_ready s \<Longrightarrow> \<exists>s'. sv_sockets sv' i = Some s' \<and> \<not> sk_ready s'"
    and calm: "\<And>u k mid j. sv_tasks sv u = Some k \<Longrightarrow> u \<noteq> Message_of i \<Longrightarrow> tk_queue k = Some mid \<Longrightarrow> started (tk_phase k)
      \<Longrightarrow> live sv' mid j \<Longrightarrow> live sv mid j"
  shows "others_ok env (Message_of i) sv'"
  unfolding others_ok_def
proof (intro allI impI, elim conjE)
  fix u k assume u: "sv_tasks sv' u = Some k" "u \<noteq> Message_of i"
  then have old: "phase_ok env sv u (tk_queue k) (tk_phase k)"
      "\<forall>mid. tk_queue k = Some mid \<and> started (tk_phase k) \<longrightarrow> head_of u (sv_queues sv mid)"
    using assms(1) same(3) unfolding others_ok_def by metis+
  have at: "point_ok env sv' u (tk_queue k) p"
    if "point_ok env sv u (tk_queue k) p" "started (tk_phase k)" for p
  proof -
    have cl: "claims env sv' j a machine = claims env sv j a machine" if "u = Message_of j" for j a machine
      using claims_other[OF same(1,2)] that u(2) by blast
    have un: "unauthenticated sv' j = unauthenticated sv j" if "u = Message_of j" for j
      using same(1)[of j] that u(2) by (auto simp: unauthenticated_def)
    have ac: "acts_for sv' j = acts_for sv j" if "u = Message_of j" for j
      using same(1)[of j] that u(2) by (auto simp: acts_for_def fun_eq_iff)
    have ow: "owned sv' = owned sv" using same(2) by (simp add: owned_def owns_def fun_eq_iff)
    have li: "\<not> live sv' mid j" if "tk_queue k = Some mid" "\<not> live sv mid j" for mid j
      using calm[OF _ u(2)] u(1) same(3) that \<open>started (tk_phase k)\<close> by metis
    show ?thesis using that(1) cl un ow li ac by (cases p) (simp_all add: point_ok_def)
  qed
  have re: "result_ok sv' p r = result_ok sv p r" for p r
    using same(2) by (cases p) (simp_all add: result_ok_def known_def owns_def)
  have "phase_ok env sv' u (tk_queue k) (tk_phase k)"
  proof (cases "tk_phase k")
    case (Queued op)
    show ?thesis
    proof (cases op)
      case (Op_authenticate j a machine)
      then have "u = Message_of j" using old(1) Queued by (simp add: phase_ok_def)
      then have "j \<noteq> i" using u(2) by blast
      then show ?thesis using old(1) Queued Op_authenticate claims_other[OF same(1,2)] by (simp add: phase_ok_def)
    next
      case (Op_close j)
      then show ?thesis using old(1) Queued ready same(1)[of j] by (cases "j = i") (auto simp: phase_ok_def)
    qed
  qed (use old(1) at re in \<open>simp_all add: phase_ok_def started_def\<close>)
  then show "phase_ok env sv' u (tk_queue k) (tk_phase k)
      \<and> (\<forall>mid. tk_queue k = Some mid \<and> started (tk_phase k) \<longrightarrow> head_of u (sv_queues sv' mid))"
    using old(2) same(4) by simp
qed

lemma identify_inv:
  assumes core: "core_ok env sv" and others: "others_ok env (Message_of i) sv"
    and s: "sv_sockets sv i = Some s" "\<not> as_authenticated s"
    and f: "\<not> as_authenticated (f s)" "sk_ready (f s) \<longrightarrow> sk_ready s"
  shows "core_ok env (upd_socket i f sv)" "others_ok env (Message_of i) (upd_socket i f sv)"
proof -
  let ?v = "upd_socket i f sv"
  have at: "sv_sockets ?v = (sv_sockets sv)(i \<mapsto> f s)" using s by (simp add: upd_socket_def)
  have kn: "known ?v = known sv" "owns ?v = owns sv" by (simp_all add: known_def owns_def fun_eq_iff)
  have li: "live ?v mid j = live sv mid j" for mid j using s f by (auto simp: live_def at)
  have pr: "proven env ?v = proven env sv" using kn by (simp add: proven_def fun_eq_iff)
  have "sv_connections sv mid \<noteq> Some i" for mid
    using core s unfolding core_ok_def connections_ok_def by (metis option.inject)
  then show "core_ok env ?v"
    using core f(1) s unfolding core_ok_def dbs_ok_def sockets_ok_def connections_ok_def single_ok_def pr
    by (auto simp: at li split: if_splits)
  show "others_ok env (Message_of i) ?v"
    by (rule others_ok_one_socket[OF others]) (use s f li in \<open>auto simp: at\<close>)
qed

lemma register_inv:
  assumes inv: "gateway_inv env sv" and k: "sv_tasks sv (Message_of i) = Some k" "started (tk_phase k)"
    and pt: "point_ok env sv (Message_of i) (tk_queue k) (At_online i a machine)"
  shows "core_ok env (register_connection i (au_machineId a) now sv)"
    "others_ok env (Message_of i) (register_connection i (au_machineId a) now sv)"
    "sv_queues (register_connection i (au_machineId a) now sv) = sv_queues sv"
proof -
  let ?mid = "au_machineId a"
  let ?f = "\<lambda>s. s\<lparr>as_authenticated := True, as_lastHeartbeatPersistedAt := Some now\<rparr>"
  let ?v = "upd_socket i ?f (sv\<lparr>sv_connections := (sv_connections sv)(?mid \<mapsto> i)\<rparr>)"
  have reg: "register_connection i ?mid now sv = sendSocket i (SM_authenticated ?mid) ?v"
    by (simp add: register_connection_def)
  have cl: "claims env sv i a machine" "owned sv a machine" and dead: "\<And>j. \<not> live sv ?mid j"
    and lock: "tk_queue k = Some ?mid" using pt by (auto simp: point_ok_def)
  obtain s where s: "sv_sockets sv i = Some s" "\<not> as_authenticated s" "as_machineId s = Some ?mid"
     "as_organizationId s = Some (lp_organizationId (csp_localPolicy (au_sessionProfile a)))"
     "known sv ?mid (mid_publicKey machine) (mid_organizationId machine)"
     "signed env s (mid_publicKey machine) (base64url_decode (au_signature a))"
    using cl(1) unfolding claims_def by blast
  have at: "sv_sockets ?v = (sv_sockets sv)(i \<mapsto> ?f s)" using s(1) by (simp add: upd_socket_def)
  have conn: "sv_connections ?v = (sv_connections sv)(?mid \<mapsto> i)" by simp
  have kn: "known ?v = known sv" "owns ?v = owns sv" by (simp_all add: known_def owns_def fun_eq_iff)
  have pr: "proven env ?v = proven env sv" using kn by (simp add: proven_def fun_eq_iff)
  have li: "mid = ?mid \<and> j = i \<or> live sv mid j" if "live ?v mid j" for mid j
    using that s(3) by (auto simp: live_def at split: if_splits)
  have core: "core_ok env sv" and others: "others_ok env (Message_of i) sv"
    using inv others_ok_all by (simp_all add: core_inv)
  have "proven env sv (?f s)"
    unfolding proven_def using s cl(2)
    by (intro exI[of _ ?mid] exI[of _ "lp_organizationId (csp_localPolicy (au_sessionProfile a))"]
        exI[of _ "mid_publicKey machine"] exI[of _ "mid_organizationId machine"]
        exI[of _ "base64url_decode (au_signature a)"]) (simp add: signed_def challenge_text_def owned_def)
  then have so: "sockets_ok env ?v" using core unfolding core_ok_def sockets_ok_def pr by (auto simp: at)
  have "sv_connections sv mid \<noteq> Some i" for mid
    using core s unfolding core_ok_def connections_ok_def by (metis option.inject)
  then have co: "connections_ok ?v"
    using core s(3) unfolding core_ok_def connections_ok_def by (simp add: at conn)
  have si: "single_ok ?v"
    unfolding single_ok_def
  proof (intro allI impI)
    fix mid j assume l: "live ?v mid j"
    show "sv_connections ?v mid = Some j"
    proof (cases "mid = ?mid \<and> j = i")
      case False
      then have "live sv mid j" using li[OF l] by blast
      moreover from this have "mid \<noteq> ?mid" using dead by blast
      ultimately show ?thesis using core by (simp add: core_ok_def single_ok_def conn)
    qed (simp add: conn)
  qed
  have core': "core_ok env ?v" using core so co si by (simp add: core_ok_def dbs_ok_def)
  have others': "others_ok env (Message_of i) ?v"
  proof (rule others_ok_one_socket[OF others])
    fix u k' mid j
    assume u: "sv_tasks sv u = Some k'" "u \<noteq> Message_of i" "tk_queue k' = Some mid" "started (tk_phase k')"
      and l: "live ?v mid j"
    have "mid \<noteq> ?mid"
    proof
      assume "mid = ?mid"
      then have "head_of u (sv_queues sv ?mid)" "head_of (Message_of i) (sv_queues sv ?mid)"
        using task_head[OF inv u(1,3,4)] task_head[OF inv k(1) lock k(2)] by simp_all
      with u(2) show False by (cases "sv_queues sv ?mid") (simp_all add: head_of_def)
    qed
    with li[OF l] show "live sv mid j" by blast
  qed (use s in \<open>auto simp: at\<close>)
  show "core_ok env (register_connection i ?mid now sv)"
    unfolding reg by (rule core_ok_quiet[OF quiet_sendSocket core'])
  show "others_ok env (Message_of i) (register_connection i ?mid now sv)"
    unfolding reg by (rule others_ok_quiet[OF quiet_sendSocket others'])
  show "sv_queues (register_connection i ?mid now sv) = sv_queues sv"
    by (simp add: reg sendSocket_def)
qed

lemma supersede_dead:
  assumes core: "core_ok env sv" and i: "unauthenticated sv i"
  shows "\<not> live (supersede i mid sv) mid j"
proof
  assume l: "live (supersede i mid sv) mid j"
  then have old: "live sv mid j" using live_quiet[OF quiet_supersede] by blast
  then have c: "sv_connections sv mid = Some j" using core by (simp add: core_ok_def single_ok_def)
  have "j \<noteq> i" using old i by (auto simp: live_def unauthenticated_def)
  then have "supersede i mid sv = closeSocket j 4003 ''Superseded connection'' sv" using c by (simp add: supersede_def)
  with l show False using closeSocket_closed unfolding live_def by metis
qed

section \<open>Every step keeps the invariant\<close>

text \<open>What a synchronous stretch of task \<open>t\<close> owes before it settles.\<close>

definition outcome_ok :: "gateway_env \<Rightarrow> task_id \<Rightarrow> ident option \<Rightarrow> outcome \<times> server \<Rightarrow> bool" where
  "outcome_ok env t q res \<longleftrightarrow> (case res of (o', sv) \<Rightarrow>
     core_ok env sv \<and> others_ok env t sv
     \<and> (case o' of Await p \<Rightarrow> point_ok env sv t q p \<and> (\<forall>mid. q = Some mid \<longrightarrow> head_of t (sv_queues sv mid))
        | Enqueue mid op \<Rightarrow> phase_ok env sv t (Some mid) (Queued op) | _ \<Rightarrow> True))"

lemma settle_ok: "outcome_ok env t q res \<Longrightarrow> gateway_inv env (settle t q res)"
  by (cases res) (auto simp: outcome_ok_def intro!: settle_inv)

lemma quiet_ok:
  assumes inv: "gateway_inv env sv" and q: "quiet sv sv'"
    and head: "\<And>mid. c = Some mid \<Longrightarrow> head_of t (sv_queues sv mid)"
    and out: "\<And>p. o' = Await p \<Longrightarrow> point_ok env sv' t c p" "case o' of Enqueue _ _ \<Rightarrow> False | _ \<Rightarrow> True"
  shows "outcome_ok env t c (o', sv')"
proof -
  have "core_ok env sv'" "others_ok env t sv'"
    using inv q core_ok_quiet others_ok_quiet others_ok_all unfolding core_inv by blast+
  moreover have "sv_queues sv' = sv_queues sv" using q by (simp add: quiet_def)
  ultimately show ?thesis using head out(1) out(2) by (cases o') (simp_all add: outcome_ok_def)
qed

lemma authenticate_key_ok:
  assumes inv: "gateway_inv env sv" and k: "sv_tasks sv t = Some k" "tk_phase k = Resuming (At_key i a) r"
  shows "outcome_ok env t (tk_queue k) (authenticate_key env i a (result_identity r) sv)"
proof -
  have ph: "t = Message_of i" "tk_queue k = None" "unauthenticated sv i" "result_ok sv (At_key i a) r"
    using task_phase[OF inv k(1)] k(2) by (auto simp: phase_ok_def point_ok_def)
  then obtain s where s: "sv_sockets sv i = Some s" "\<not> as_authenticated s" by (auto simp: unauthenticated_def)
  have thrown: "outcome_ok env t (tk_queue k) (Throw e, sv)" for e
    by (rule quiet_ok[OF inv quiet_refl]) (use ph in auto)
  show ?thesis
  proof (cases "result_identity r")
    case (Some machine)
    have kn: "known sv (au_machineId a) (mid_publicKey machine) (mid_organizationId machine)"
      using ph(4) Some by (simp add: result_ok_def)
    let ?f = "\<lambda>s. s\<lparr>as_machineId := Some (au_machineId a), as_controlOrganizationId := Some (mid_organizationId machine),
       as_organizationId := Some (lp_organizationId (csp_localPolicy (au_sessionProfile a)))\<rparr>"
    let ?v = "upd_socket i ?f sv"
    have core: "core_ok env ?v" and others: "others_ok env (Message_of i) ?v"
      using identify_inv[OF _ others_ok_all s, of env ?f] inv s by (simp_all add: core_inv)
    have "claims env ?v i a machine" if "signed env s (mid_publicKey machine) (base64url_decode (au_signature a))"
      using that s kn by (simp add: claims_def upd_socket_def known_def signed_def challenge_text_def)
    then have go: "outcome_ok env t (tk_queue k) (Enqueue (au_machineId a) (Op_authenticate i a machine), ?v)"
      if "signed env s (mid_publicKey machine) (base64url_decode (au_signature a))"
      using that core others ph(1) by (simp add: outcome_ok_def phase_ok_def)
    have old: "outcome_ok env t (tk_queue k) (Await (At_incompatible i a machine), sv)"
      by (rule quiet_ok[OF inv quiet_refl]) (use ph in \<open>auto simp: point_ok_def\<close>)
    show ?thesis
      using thrown go old s Some by (auto simp: authenticate_key_def signed_def split: option.split bool.split)
  qed (use thrown in \<open>simp add: authenticate_key_def\<close>)
qed

lemma resume_ok:
  assumes inv: "gateway_inv env sv" and k: "sv_tasks sv t = Some k" "tk_phase k = Resuming p r"
  shows "outcome_ok env t (tk_queue k) (resume env p r now sv)"
proof -
  have pt: "point_ok env sv t (tk_queue k) p" and re: "result_ok sv p r"
    using task_phase[OF inv k(1)] k(2) by (auto simp: phase_ok_def)
  have head: "head_of t (sv_queues sv mid)" if "tk_queue k = Some mid" for mid
    using task_head[OF inv k(1) that] k(2) by (simp add: started_def)
  have core: "core_ok env sv" using inv by (simp add: core_inv)
  note q = quiet_ok[OF inv _ head]
  have stop: "outcome_ok env t (tk_queue k) (Throw e, sv)" "outcome_ok env t (tk_queue k) (Done, sv)" for e
    by (rule q; simp)+
  have ended: "outcome_ok env t (tk_queue k) (Done, sv')" if "quiet sv sv'" for sv' by (rule q) (use that in simp_all)
  have stays: "outcome_ok env t (tk_queue k) (Await p', sv')"
    if "quiet sv sv'" "point_ok env sv' t (tk_queue k) p'" for p' sv' by (rule q) (use that in simp_all)
  have idle: "point_ok env sv' t (tk_queue k) p'"
    if "(\<exists>i m. p' = At_offline_again i m) \<or> (\<exists>i m o'. p' = At_disconnected i m o') \<or> (\<exists>o' e m. p' = At_revoke_sessions o' e m)
      \<or> (\<exists>o' e m. p' = At_revoke_machine o' e m)" for sv' p'
    using that by (auto simp: point_ok_def)
  show ?thesis
  proof (cases "\<exists>e. r = R_throw e")
    case True
    then show ?thesis using stop by (auto simp: resume_def)
  next
    case False
    then have res: "resume env p r now sv = resume env p r now sv" "\<And>x y. (case r of R_throw e \<Rightarrow> x e | _ \<Rightarrow> y) = y"
      by (auto split: db_result.split)
    show ?thesis
    proof (cases p)
      case (At_key i a)
      then show ?thesis using authenticate_key_ok[OF inv k(1)] k(2) by (simp add: resume_def res(2))
    next
      case (At_incompatible i a machine)
      have "quiet sv (notifyOrganization org (closeSocket i c x (sendSocket i m sv)))" for org c x m
        using quiet_trans quiet_sendSocket quiet_closeSocket quiet_notify by metis
      then show ?thesis using ended At_incompatible by (simp add: resume_def res(2))
    next
      case (At_check i a machine)
      then have "point_ok env sv t (tk_queue k) (At_organization i a machine)" using pt by (simp add: point_ok_def)
      then show ?thesis
        using stop ended[OF quiet_closeSocket] stays[OF quiet_refl] At_check
        by (simp add: resume_def res(2) split: option.split)
    next
      case (At_organization i a machine)
      have "point_ok env sv t (tk_queue k) (At_authority i a machine)"
        if "result_organization r = Some o'"
          "mo_organizationExternalId o' = lp_organizationId (csp_localPolicy (au_sessionProfile a))" for o'
        using that pt re At_organization by (auto simp: point_ok_def result_ok_def owned_def)
      then show ?thesis
        using stop stays[OF quiet_refl] At_organization by (auto simp: resume_def res(2) split: option.split)
    next
      case (At_authority i a machine)
      then have "unauthenticated sv i" using pt by (auto simp: point_ok_def claims_def unauthenticated_def)
      note dead = supersede_dead[OF core this]
      have "point_ok env (supersede i (au_machineId a) sv) t (tk_queue k) (At_authority i a machine)"
        using point_ok_quiet[OF quiet_supersede pt] At_authority by simp
      then have "point_ok env (supersede i (au_machineId a) sv) t (tk_queue k) (At_online i a machine)"
        using dead by (simp add: point_ok_def)
      then show ?thesis using stays[OF quiet_supersede] At_authority by (simp add: resume_def res(2))
    next
      case (At_online i a machine)
      then have t: "t = Message_of i" using pt by (simp add: point_ok_def)
      have reg: "outcome_ok env t (tk_queue k) (Await (At_reconnect i a machine), register_connection i (au_machineId a) now sv)"
        using register_inv[OF inv, of i k a machine now] k pt At_online head t
        by (simp add: outcome_ok_def started_def point_ok_def)
      show ?thesis
        using reg ended[OF quiet_closeSocket] stays[OF quiet_refl idle] At_online by (simp add: resume_def res(2))
    next
      case (At_reconnect i a machine)
      have "quiet sv (notifyOrganization org (emit e (send_all i ms sv)))" for org e ms
        using quiet_trans quiet_send_all quiet_emit quiet_notify by metis
      then show ?thesis using ended At_reconnect by (simp add: resume_def res(2))
    next
      case (At_heartbeat i mid)
      have "quiet sv (upd_socket i (\<lambda>s. s\<lparr>as_lastHeartbeatPersistedAt := Some now\<rparr>) sv)"
        by (rule quiet_upd_socket) (simp add: auth_ident_def)
      then show ?thesis using ended At_heartbeat by (simp add: resume_def res(2))
    next
      case (At_message i m mid org ctl)
      obtain o' sv' where am: "after_message m mid ctl r sv = (o', sv')" by force
      have "quiet sv sv'" using quiet_after_message[of sv m mid ctl r] am by simp
      moreover have "(\<exists>e. o' = Throw e) \<and> sv' = sv \<or> o' = Done"
        using am by (auto simp: after_message_def split: client_message.splits db_result.splits option.splits bool.splits)
      ultimately show ?thesis using stop ended At_message am by (auto simp: resume_def res(2))
    next
      case (At_offline i mid)
      then show ?thesis
        using ended[OF quiet_notify_closed] stays[OF quiet_refl idle] by (auto simp: resume_def res(2) split: option.split)
    next
      case (At_revoke_sessions org ext mid)
      have "quiet sv (snd (gateway_disconnect m x (closeRevokedSessions rs y sv)))" for m x rs y
        using quiet_trans quiet_closeRevoked quiet_disconnect by metis
      then show ?thesis using stays[OF _ idle] At_revoke_sessions by (simp add: resume_def res(2) Let_def)
    qed (use stop ended stays[OF quiet_refl idle] in \<open>simp_all add: resume_def res(2)\<close>)
  qed
qed

lemma handle_ok:
  assumes inv: "gateway_inv env sv" and s: "sv_sockets sv i = Some s" and t: "sv_tasks sv (Message_of i) = None"
  shows "outcome_ok env (Message_of i) None
    (handleMessage env i s raw now (upd_socket i (\<lambda>s. s\<lparr>sk_inbox := rest\<rparr>) sv))"
proof -
  let ?v = "upd_socket i (\<lambda>s. s\<lparr>sk_inbox := rest\<rparr>) sv"
  have q: "quiet sv ?v" by (rule quiet_upd_socket) (simp add: auth_ident_def)
  have un: "unauthenticated ?v i" if "\<not> as_authenticated s"
    using that s by (simp add: unauthenticated_def upd_socket_def)
  have comp: "completion_status (cc_status c)" if parsed: "Option.bind raw (clientMessageSchema (ge_uuid env)) = Some (CM_command_completed c)" for c
  proof -
    obtain x where "clientMessageSchema (ge_uuid env) x = Some (CM_command_completed c)"
      using parsed by (cases raw) auto
    then show ?thesis by (cases x) (auto simp: message_schema_defs split: option.splits if_splits)
  qed
  obtain o' v where h: "handleMessage env i s raw now ?v = (o', v)" by force
  let ?R = "(\<exists>e. o' = Throw e) \<or> o' = Done \<or> (\<exists>a. o' = Await (At_key i a) \<and> v = ?v \<and> \<not> as_authenticated s)
      \<or> (\<exists>mid. o' = Await (At_heartbeat i mid))
      \<or> (\<exists>m mid org ctl. o' = Await (At_message i m mid org ctl) \<and> v = ?v \<and> as_authenticated s
           \<and> as_machineId s = Some mid \<and> as_organizationId s = Some org
           \<and> Option.bind raw (clientMessageSchema (ge_uuid env)) = Some m)"
  have both: "(v = ?v \<or> (\<exists>e. v = emit e ?v)) \<and> ?R"
  proof (cases "Option.bind raw (clientMessageSchema (ge_uuid env))")
    case (Some m)
    show ?thesis
    proof (cases "as_authenticated s \<and> present (as_machineId s) \<and> present (as_organizationId s)")
      case True
      then show ?thesis using h Some
        by (cases m) (auto simp: handleMessage_def present_def split: if_splits sum.splits)
    next
      case False
      then show ?thesis using h Some
        by (cases m) (auto simp: handleMessage_def split: if_splits)
    qed
  qed (use h in \<open>auto simp: handleMessage_def\<close>)
  then have qv: "quiet sv v" using q quiet_trans[OF q quiet_emit] by auto
  have ?R using both by blast
  moreover have "acts_for ?v i mid org"
    if "as_authenticated s" "as_machineId s = Some mid" "as_organizationId s = Some org" for mid org
    using that s by (simp add: acts_for_def upd_socket_def)
  ultimately show ?thesis
    unfolding h using un comp
    by (intro quiet_ok[OF inv qv]) (auto simp: point_ok_def split: client_message.split)
qed

lemma start_ok:
  assumes inv: "gateway_inv env sv" and k: "sv_tasks sv t = Some k" "tk_phase k = Queued op" "tk_queue k = Some mid"
    and head: "head_of t (sv_queues sv mid)"
  shows "outcome_ok env t (Some mid) (start_operation op sv)"
proof -
  have ph: "phase_ok env sv t (Some mid) (Queued op)" using task_phase[OF inv k(1)] k(2,3) by simp
  note q = quiet_ok[OF inv, of _ "Some mid" t]
  show ?thesis
  proof (cases op)
    case (Op_authenticate i a machine)
    then have "point_ok env sv t (Some mid) (At_check i a machine)" using ph by (simp add: phase_ok_def point_ok_def)
    then have "outcome_ok env t (Some mid) (Await (At_check i a machine), sv)"
      by (intro q) (use head in simp_all)
    moreover have "outcome_ok env t (Some mid) (Done, sv)" by (intro q) (use head in simp_all)
    ultimately show ?thesis using Op_authenticate by (simp add: start_operation_def)
  next
    case (Op_close i)
    then obtain s where s: "sv_sockets sv i = Some s" "\<not> sk_ready s" using ph by (auto simp: phase_ok_def)
    have "quiet sv (sv\<lparr>sv_connections := (sv_connections sv)(m := None)\<rparr>)" if "sv_connections sv m = Some i" for m
      by (rule quiet_drop[OF that]) (use s in simp)
    then have "outcome_ok env t (Some mid) (Await (At_offline i m), sv\<lparr>sv_connections := (sv_connections sv)(m := None)\<rparr>)"
      if "sv_connections sv m = Some i" for m
      by (intro q) (use that head in \<open>auto simp: point_ok_def\<close>)
    moreover have "outcome_ok env t (Some mid) (Done, sv)" by (intro q) (use head in simp_all)
    ultimately show ?thesis using Op_close by (simp add: start_operation_def split: option.split)
  qed
qed

lemma accept_inv:
  assumes inv: "gateway_inv env sv" and fresh: "sv_sockets sv i = None"
  shows "gateway_inv env (accept_socket i c n sv)"
proof -
  let ?v = "sv\<lparr>sv_sockets := (sv_sockets sv)(i \<mapsto> new_socket c n)\<rparr>"
  have at: "sv_sockets ?v = (sv_sockets sv)(i \<mapsto> new_socket c n)" by simp
  have old: "j \<noteq> i" if "sv_sockets sv j = Some s" for j s using that fresh by auto
  have kn: "known ?v = known sv" "owns ?v = owns sv" "owned ?v = owned sv"
    by (simp_all add: known_def owns_def owned_def fun_eq_iff)
  have pr: "proven env ?v = proven env sv" using kn by (simp add: proven_def fun_eq_iff)
  have li: "live ?v = live sv" using fresh by (auto simp: live_def new_socket_def fun_eq_iff)
  have cl: "claims env sv j a m \<Longrightarrow> claims env ?v j a m" for j a m
    unfolding claims_def kn using old by auto
  have un: "unauthenticated sv j \<Longrightarrow> unauthenticated ?v j" for j
    unfolding unauthenticated_def using old by auto
  have ac: "acts_for sv j mid org \<Longrightarrow> acts_for ?v j mid org" for j mid org
    unfolding acts_for_def using old by auto
  have pt: "point_ok env sv t q p \<Longrightarrow> point_ok env ?v t q p" for t q p
    using cl un ac by (cases p) (simp_all add: point_ok_def kn li)
  have ph: "phase_ok env ?v t q ph" if ok: "phase_ok env sv t q ph" for t q ph
  proof (cases ph)
    case (Queued op)
    show ?thesis
    proof (cases op)
      case (Op_close j)
      then obtain s where "sv_sockets sv j = Some s" "\<not> sk_ready s" using ok Queued by (auto simp: phase_ok_def)
      with old show ?thesis using Queued Op_close by (auto simp: phase_ok_def)
    qed (use ok cl Queued in \<open>simp add: phase_ok_def\<close>)
  next
    case (Resuming p r)
    have "result_ok ?v p r = result_ok sv p r" by (cases p) (simp_all add: result_ok_def kn)
    then show ?thesis using ok pt Resuming by (simp add: phase_ok_def)
  qed (use ok pt in \<open>simp add: phase_ok_def\<close>)
  have "sv_connections sv mid \<noteq> Some i" for mid
    using inv fresh unfolding core_inv core_ok_def connections_ok_def by (metis option.distinct(1))
  then have "core_ok env ?v"
    using inv old unfolding core_inv core_ok_def dbs_ok_def sockets_ok_def connections_ok_def single_ok_def pr li
    by (auto simp: new_socket_def)
  moreover have "tasks_ok env ?v" using inv ph unfolding core_inv tasks_ok_def by simp
  ultimately have "gateway_inv env ?v" by (simp add: core_inv)
  then show ?thesis unfolding accept_socket_def by (rule inv_quiet[OF quiet_sendSocket])
qed

lemma close_event_inv:
  assumes inv: "gateway_inv env sv"
  shows "gateway_inv env (close_event i sv)"
proof (cases "sv_sockets sv i")
  case (Some s)
  let ?v = "upd_socket i (\<lambda>s. s\<lparr>sk_ready := False, sk_gone := True\<rparr>) sv"
  have q: "quiet sv ?v" by (rule quiet_upd_socket) (simp add: auth_ident_def)
  have inv': "gateway_inv env ?v" by (rule inv_quiet[OF q inv])
  have "outcome_ok env (Close_of i) None (Enqueue mid (Op_close i), ?v)" for mid
    using inv' others_ok_all Some by (simp add: outcome_ok_def core_inv phase_ok_def upd_socket_def)
  then show ?thesis using inv inv' Some by (auto simp: close_event_def Let_def intro: settle_ok)
qed (use inv in \<open>simp add: close_event_def\<close>)

lemma gateway_step_inv:
  assumes inv: "gateway_inv env sv"
  shows "gateway_inv env (gateway_step env ev sv)"
proof -
  obtain e now where ev: "ev = (e, now)" by force
  show ?thesis
  proof (cases e)
    case (Connected i c n)
    then show ?thesis using inv accept_inv[OF inv] ev by (simp add: gateway_step_def)
  next
    case (Received i raw)
    have "quiet sv (upd_socket i (\<lambda>s. s\<lparr>sk_inbox := sk_inbox s @ [raw]\<rparr>) sv)"
      by (rule quiet_upd_socket) (simp add: auth_ident_def)
    from inv_quiet[OF this inv] show ?thesis using Received ev by (simp add: gateway_step_def)
  next
    case (Timed_out i)
    then show ?thesis using inv inv_quiet[OF quiet_closeSocket inv] ev
      by (simp add: gateway_step_def auth_timeout_def split: option.split)
  next
    case (Closed i)
    then show ?thesis using close_event_inv[OF inv] ev by (simp add: gateway_step_def)
  next
    case (Handle i)
    then show ?thesis using inv settle_ok[OF handle_ok[OF inv]] ev
      by (simp add: gateway_step_def idle_def split: option.split list.split)
  next
    case (Begin t)
    show ?thesis
    proof (cases "sv_tasks sv t")
      case (Some k)
      then show ?thesis using inv settle_ok[OF start_ok[OF inv Some]] ev Begin
        by (simp add: gateway_step_def split: phase.split option.split)
    qed (use inv ev Begin in \<open>simp add: gateway_step_def\<close>)
  next
    case (Commit t)
    show ?thesis
    proof (cases "\<exists>k p. sv_tasks sv t = Some k \<and> tk_phase k = Waiting p")
      case True
      then show ?thesis using commit_inv[OF inv] ev Commit by blast
    qed (use inv ev Commit in \<open>auto simp: gateway_step_def split: option.split phase.split\<close>)
  next
    case (Resume t)
    show ?thesis
    proof (cases "sv_tasks sv t")
      case (Some k)
      then show ?thesis using inv settle_ok[OF resume_ok[OF inv Some]] ev Resume
        by (simp add: gateway_step_def split: phase.split)
    qed (use inv ev Resume in \<open>simp add: gateway_step_def\<close>)
  next
    case (Revoke_request n org ext mid)
    have "outcome_ok env (Request n) None (Await (At_revoke_list org ext mid), sv)"
      by (rule quiet_ok[OF inv quiet_refl]) (auto simp: point_ok_def)
    then show ?thesis using inv settle_ok ev Revoke_request by (simp add: gateway_step_def)
  qed
qed

lemma gateway_start_inv: "control_wf control \<Longrightarrow> db_wf sessions \<Longrightarrow> gateway_inv env (start_server control sessions)"
  using initialize_keeps by (simp add: gateway_inv_def start_server_def dbs_ok_def sockets_ok_def connections_ok_def
      single_ok_def tasks_ok_def live_def)

lemma gateway_reachable_inv: "gateway_reachable env sv \<Longrightarrow> gateway_inv env sv"
  by (induction rule: gateway_reachable.induct) (simp_all add: gateway_start_inv gateway_step_inv)

end
