(* ===== verification/Gateway_Properties.thy ===== *)
theory Gateway_Properties
  imports Gateway_Invariants Control_Properties
begin

text \<open>
  The properties of the gateway: what an authenticated WebSocket has proven, that a Machine is reached
  by one WebSocket, how far its messages reach, a run of the handshake, and the interleaving in which
  a revocation misses a Machine.
\<close>

section \<open>Runs of a task\<close>

abbreviation steps :: "gateway_env \<Rightarrow> instant \<Rightarrow> gateway_event list \<Rightarrow> server \<Rightarrow> server" where
  "steps env now es sv \<equiv> fold (\<lambda>e. gateway_step env (e, now)) es sv"

lemma upd_tasks: "upd_socket i f (sv\<lparr>sv_tasks := T\<rparr>) = (upd_socket i f sv)\<lparr>sv_tasks := T\<rparr>"
  by (simp add: upd_socket_def)

lemma sendSocket_tasks: "sendSocket i m (sv\<lparr>sv_tasks := T\<rparr>) = (sendSocket i m sv)\<lparr>sv_tasks := T\<rparr>"
  "closeSocket i c x (sv\<lparr>sv_tasks := T\<rparr>) = (closeSocket i c x sv)\<lparr>sv_tasks := T\<rparr>"
  "emit e (sv\<lparr>sv_tasks := T\<rparr>) = (emit e sv)\<lparr>sv_tasks := T\<rparr>"
  "notifyOrganization org (sv\<lparr>sv_tasks := T\<rparr>) = (notifyOrganization org sv)\<lparr>sv_tasks := T\<rparr>"
  "socketReadyForAuthentication i (sv\<lparr>sv_tasks := T\<rparr>) = socketReadyForAuthentication i sv"
  by (simp_all add: sendSocket_def closeSocket_def emit_def notifyOrganization_def upd_tasks socketReadyForAuthentication_def)

lemma gateway_send_tasks:
  "gateway_send mid m (sv\<lparr>sv_tasks := T\<rparr>) = map_prod id (\<lambda>v. v\<lparr>sv_tasks := T\<rparr>) (gateway_send mid m sv)"
  "gateway_disconnect mid x (sv\<lparr>sv_tasks := T\<rparr>) = map_prod id (\<lambda>v. v\<lparr>sv_tasks := T\<rparr>) (gateway_disconnect mid x sv)"
  by (simp_all add: gateway_send_def gateway_disconnect_def sendSocket_tasks split: option.split)
    (simp_all add: closeSocket_def upd_socket_def)

lemma fold_tasks: "(\<And>x v. f x (v\<lparr>sv_tasks := T\<rparr>) = (f x v)\<lparr>sv_tasks := T\<rparr>) \<Longrightarrow>
  fold f xs (sv\<lparr>sv_tasks := T\<rparr>) = (fold f xs sv)\<lparr>sv_tasks := T\<rparr>"
  by (induction xs arbitrary: sv) simp_all

lemma closeRevoked_tasks:
  "closeRevokedSessions rs x (sv\<lparr>sv_tasks := T\<rparr>) = (closeRevokedSessions rs x sv)\<lparr>sv_tasks := T\<rparr>"
  "send_all i ms (sv\<lparr>sv_tasks := T\<rparr>) = (send_all i ms sv)\<lparr>sv_tasks := T\<rparr>"
  "supersede i mid (sv\<lparr>sv_tasks := T\<rparr>) = (supersede i mid sv)\<lparr>sv_tasks := T\<rparr>"
  "notify_closed i (sv\<lparr>sv_tasks := T\<rparr>) = (notify_closed i sv)\<lparr>sv_tasks := T\<rparr>"
  "register_connection i mid now (sv\<lparr>sv_tasks := T\<rparr>) = (register_connection i mid now sv)\<lparr>sv_tasks := T\<rparr>"
proof -
  show "closeRevokedSessions rs x (sv\<lparr>sv_tasks := T\<rparr>) = (closeRevokedSessions rs x sv)\<lparr>sv_tasks := T\<rparr>"
    unfolding closeRevokedSessions_def
    by (rule fold_tasks) (simp add: case_prod_unfold fold_tasks gateway_send_tasks)
qed (simp_all add: send_all_def supersede_def notify_closed_def register_connection_def fold_tasks sendSocket_tasks
  upd_socket_def sendSocket_def split: option.split)

lemmas tasks_simps = upd_tasks sendSocket_tasks gateway_send_tasks closeRevoked_tasks

lemma perform_tasks:
  "perform env p now (sv\<lparr>sv_tasks := T\<rparr>) = map_prod id (\<lambda>v. v\<lparr>sv_tasks := T\<rparr>) (perform env p now sv)"
  by (cases p) (simp_all add: perform_def Let_def map_prod_def case_prod_unfold)


lemma commit_at:
  assumes "T t = Some \<lparr>tk_phase = Waiting p, tk_queue = q\<rparr>"
  shows "gateway_step env (Commit t, now) (sv\<lparr>sv_tasks := T\<rparr>) =
    (snd (perform env p now sv))\<lparr>sv_tasks := T(t \<mapsto> \<lparr>tk_phase = Resuming p (fst (perform env p now sv)), tk_queue = q\<rparr>)\<rparr>"
  using assms by (simp add: gateway_step_def perform_tasks map_prod_def case_prod_unfold Let_def)

lemma resume_at:
  assumes "T t = Some \<lparr>tk_phase = Resuming p r, tk_queue = q\<rparr>"
  shows "gateway_step env (Resume t, now) (sv\<lparr>sv_tasks := T\<rparr>) = settle t q (resume env p r now (sv\<lparr>sv_tasks := T\<rparr>))"
  using assms by (simp add: gateway_step_def)

lemma settle_await:
  "settle t q (Await p, sv\<lparr>sv_tasks := T\<rparr>) = sv\<lparr>sv_tasks := T(t \<mapsto> \<lparr>tk_phase = Waiting p, tk_queue = q\<rparr>)\<rparr>"
  by (simp add: settle_def)

lemma turn_key:
  assumes "T (Message_of i) = Some \<lparr>tk_phase = Waiting (At_key i a), tk_queue = q\<rparr>" "sv_sockets sv i = Some s"
    "machinePublicKey (au_machineId a) (sv_control sv) = Some machine"
    "signed env s (mid_publicKey machine) (base64url_decode (au_signature a))"
    "au_protocolVersion a = PROTOCOL_VERSION"
  shows "gateway_step env (Resume (Message_of i), now) (gateway_step env (Commit (Message_of i), now) (sv\<lparr>sv_tasks := T\<rparr>))
    = (upd_socket i (\<lambda>s. s\<lparr>as_machineId := Some (au_machineId a), as_controlOrganizationId := Some (mid_organizationId machine),
         as_organizationId := Some (lp_organizationId (csp_localPolicy (au_sessionProfile a)))\<rparr>) sv)
       \<lparr>sv_queues := (sv_queues sv)(au_machineId a := sv_queues sv (au_machineId a) @ [Message_of i]),
        sv_tasks := T(Message_of i \<mapsto> \<lparr>tk_phase = Queued (Op_authenticate i a machine), tk_queue = Some (au_machineId a)\<rparr>)\<rparr>"
proof -
  have "ge_verify env (challenge_text s) (mid_publicKey machine) (base64url_decode (au_signature a)) = Some True"
    using assms(4) by (simp add: signed_def)
  then show ?thesis
    by (simp add: commit_at assms(1) resume_at perform_def resume_def assms(2,3,5) result_identity_def
      authenticate_key_def settle_def) (simp add: upd_socket_def)
qed

lemma turn_check:
  assumes "T t = Some \<lparr>tk_phase = Waiting (At_check i a machine), tk_queue = q\<rparr>"
    "machinePublicKey (au_machineId a) (sv_control sv) = Some machine" "\<not> mid_revoked machine"
  shows "gateway_step env (Resume t, now) (gateway_step env (Commit t, now) (sv\<lparr>sv_tasks := T\<rparr>))
    = sv\<lparr>sv_tasks := T(t \<mapsto> \<lparr>tk_phase = Waiting (At_organization i a machine), tk_queue = q\<rparr>)\<rparr>"
  by (simp add: commit_at assms(1) resume_at perform_def resume_def assms(2,3) result_identity_def settle_def)

lemma turn_organization:
  assumes "T t = Some \<lparr>tk_phase = Waiting (At_organization i a machine), tk_queue = q\<rparr>"
    "mcpOrganization (mid_organizationId machine) (sv_control sv) = Some o'"
    "mo_organizationExternalId o' = lp_organizationId (csp_localPolicy (au_sessionProfile a))"
  shows "gateway_step env (Resume t, now) (gateway_step env (Commit t, now) (sv\<lparr>sv_tasks := T\<rparr>))
    = sv\<lparr>sv_tasks := T(t \<mapsto> \<lparr>tk_phase = Waiting (At_authority i a machine), tk_queue = q\<rparr>)\<rparr>"
  by (simp add: commit_at assms(1) resume_at perform_def resume_def assms(2,3) result_organization_def settle_def)

lemma turn_authority:
  assumes "T t = Some \<lparr>tk_phase = Waiting (At_authority i a machine), tk_queue = q\<rparr>"
  shows "gateway_step env (Resume t, now) (gateway_step env (Commit t, now) (sv\<lparr>sv_tasks := T\<rparr>))
    = (supersede i (au_machineId a) (sv\<lparr>sv_sessions := putMachineAuthority (profile_authority a) (sv_sessions sv)\<rparr>))
        \<lparr>sv_tasks := T(t \<mapsto> \<lparr>tk_phase = Waiting (At_online i a machine), tk_queue = q\<rparr>)\<rparr>"
  by (simp add: commit_at assms(1) resume_at perform_def resume_def tasks_simps settle_def)

lemma turn_online:
  assumes "T t = Some \<lparr>tk_phase = Resuming (At_online i a machine) (R_bool True), tk_queue = q\<rparr>"
    "socketReadyForAuthentication i sv"
  shows "gateway_step env (Resume t, now) (sv\<lparr>sv_tasks := T\<rparr>)
    = (register_connection i (au_machineId a) now sv)
        \<lparr>sv_tasks := T(t \<mapsto> \<lparr>tk_phase = Waiting (At_reconnect i a machine), tk_queue = q\<rparr>)\<rparr>"
  using assms by (simp add: resume_at resume_def tasks_simps result_true_def settle_def)

lemma turn_reconnect:
  assumes "T t = Some \<lparr>tk_phase = Waiting (At_reconnect i a machine), tk_queue = q\<rparr>"
  shows "gateway_step env (Resume t, now) (gateway_step env (Commit t, now) (sv\<lparr>sv_tasks := T\<rparr>))
    = finish_task t ((notifyOrganization (mid_organizationId machine) (emit ''machine.online''
        (send_all i (sessionReconnectMessages (reconnectState (lp_organizationId (csp_localPolicy (au_sessionProfile a)))
             (au_machineId a) (sv_sessions sv)) now) sv)))\<lparr>sv_tasks := T(t := None)\<rparr>)"
  by (simp add: commit_at assms(1) resume_at perform_def resume_def result_reconnect_def tasks_simps settle_def finish_task_def)


section \<open>The handshake\<close>

definition handshake :: "nat \<Rightarrow> gateway_event list" where
  "handshake i = (let t = Message_of i in
     [Handle i, Commit t, Resume t, Begin t, Commit t, Resume t, Commit t, Resume t, Commit t, Resume t,
      Commit t, Resume t, Commit t, Resume t])"

text \<open>A socket whose first message authenticates a Machine, in a server where nobody else does.\<close>

definition ready_to_authenticate ::
    "gateway_env \<Rightarrow> server \<Rightarrow> nat \<Rightarrow> socket \<Rightarrow> authenticate_msg \<Rightarrow> machine \<Rightarrow> bool" where
  "ready_to_authenticate env sv i s a m \<longleftrightarrow>
     sv_sockets sv i = Some s \<and> sk_ready s \<and> \<not> as_authenticated s
     \<and> (\<exists>raw. sk_inbox s = [raw] \<and> Option.bind raw (clientMessageSchema (ge_uuid env)) = Some (CM_authenticate a))
     \<and> sv_tasks sv (Message_of i) = None \<and> sv_queues sv (au_machineId a) = []
     \<and> m \<in> set (cdb_machines (sv_control sv)) \<and> mc_id m = au_machineId a \<and> mc_revokedAt m = None
     \<and> ge_verify env (challenge_text s) (mc_publicKey m) (base64url_decode (au_signature a)) = Some True
     \<and> au_protocolVersion a = PROTOCOL_VERSION
     \<and> owns sv (mc_organizationId m) (lp_organizationId (csp_localPolicy (au_sessionProfile a)))"

definition identity_of :: "machine \<Rightarrow> machine_identity" where
  "identity_of m = \<lparr>mid_publicKey = mc_publicKey m, mid_organizationId = mc_organizationId m, mid_revoked = (mc_revokedAt m \<noteq> None)\<rparr>"

lemma machine_row:
  assumes "control_wf c" "m \<in> set (cdb_machines c)"
  shows "machinePublicKey (mc_id m) c = Some (identity_of m)"
    and "mc_revokedAt m = None \<Longrightarrow> fst (control_setMachineOnline (mc_id m) rt now c) = True"
proof -
  have d: "distinct (map mc_id (cdb_machines c))" using assms(1) by (simp add: control_wf_def machines_wf_def)
  have "sql_first (\<lambda>x. mc_id x = mc_id m) (cdb_machines c) = Some m"
    by (rule sql_first_key[OF d assms(2)]) simp_all
  then show "machinePublicKey (mc_id m) c = Some (identity_of m)" by (simp add: machinePublicKey_def identity_of_def)
  assume active: "mc_revokedAt m = None"
  have "filter (connectable (mc_id m)) (cdb_machines c) = [m]"
  proof -
    obtain xs ys where t: "cdb_machines c = xs @ m # ys" using split_list[OF assms(2)] by blast
    then have "\<forall>x \<in> set xs \<union> set ys. mc_id x \<noteq> mc_id m" using d by (auto simp: image_iff)
    then have "filter (connectable (mc_id m)) xs = []" "filter (connectable (mc_id m)) ys = []"
      by (auto simp: filter_empty_conv connectable_def)
    then show ?thesis using active t by (simp add: connectable_def)
  qed
  then show "fst (control_setMachineOnline (mc_id m) rt now c) = True"
    by (simp add: control_setMachineOnline_def sql_count_def)
qed

lemma sql_update_hit: "r \<in> set t \<Longrightarrow> P r \<Longrightarrow> f r \<in> set (sql_update P f t)"
  by force

lemma machines_of: "cdb_machines (c\<lparr>cdb_machines := t\<rparr>) = t"
  by simp

lemma online_row:
  assumes "m \<in> set (cdb_machines c)" "mc_revokedAt m = None"
  shows "\<exists>m' \<in> set (cdb_machines (snd (control_setMachineOnline (mc_id m) rt now c))).
    mc_id m' = mc_id m \<and> mc_organizationId m' = mc_organizationId m \<and> mc_status m' = machine_online \<and> mc_revokedAt m' = None"
proof -
  have "connectable (mc_id m) m" using assms(2) by (simp add: connectable_def)
  from sql_update_hit[of m "cdb_machines c" "connectable (mc_id m)" "\<lambda>m. m\<lparr>mc_status := machine_online, mc_lastSeenAt := Some now,
    mc_runtime := (case rt of None \<Rightarrow> mc_runtime m | Some r \<Rightarrow> Some (Reported r))\<rparr>", OF assms(1) this]
  have "m\<lparr>mc_status := machine_online, mc_lastSeenAt := Some now,
      mc_runtime := (case rt of None \<Rightarrow> mc_runtime m | Some r \<Rightarrow> Some (Reported r))\<rparr>
    \<in> set (cdb_machines (snd (control_setMachineOnline (mc_id m) rt now c)))"
    by (simp only: control_setMachineOnline_def snd_conv machines_of)
  then show ?thesis by (rule bexI[rotated]) (use assms(2) in simp)
qed

lemma revoke_row:
  assumes "m \<in> set (cdb_machines c)" "mc_revokedAt m = None"
  shows "fst (revokeMachine (mc_organizationId m) (mc_id m) now c) \<noteq> None"
    and "\<exists>m' \<in> set (cdb_machines (snd (revokeMachine (mc_organizationId m) (mc_id m) now c))).
      mc_id m' = mc_id m \<and> mc_revokedAt m' = Some now"
proof -
  let ?P = "\<lambda>x. mc_id x = mc_id m \<and> active_machine_of (mc_organizationId m) x"
  have hit: "?P m" using assms(2) by (simp add: active_machine_of_def)
  then obtain x where "sql_first ?P (cdb_machines c) = Some x" 
    using sql_first_cong_ex[of "cdb_machines c" ?P] assms(1) by blast
  then show "fst (revokeMachine (mc_organizationId m) (mc_id m) now c) \<noteq> None" by (simp add: revokeMachine_def Let_def)
  from sql_update_hit[of m "cdb_machines c" ?P "\<lambda>m. m\<lparr>mc_status := machine_offline, mc_revokedAt := Some now\<rparr>", OF assms(1) hit]
  show "\<exists>m' \<in> set (cdb_machines (snd (revokeMachine (mc_organizationId m) (mc_id m) now c))).
      mc_id m' = mc_id m \<and> mc_revokedAt m' = Some now"
    unfolding revokeMachine_def Let_def snd_conv machines_of by (rule bexI[rotated]) simp
qed

lemma owner_row:
  assumes "control_wf (sv_control sv)" "owns sv org ext"
  shows "\<exists>o'. mcpOrganization org (sv_control sv) = Some o' \<and> mo_organizationExternalId o' = ext"
proof -
  obtain o' where o': "o' \<in> set (cdb_organizations (sv_control sv))" "org_id o' = org" "org_externalId o' = ext"
    using assms(2) by (auto simp: owns_def)
  with organization_by_id[OF assms(1) o'(1)] show ?thesis
    by (simp add: mcpOrganization_def mcpOrganizationRecord_def)
qed

text \<open>The socket once its signature is checked.\<close>

definition identified :: "authenticate_msg \<Rightarrow> machine \<Rightarrow> socket \<Rightarrow> socket" where
  "identified a m s = s\<lparr>sk_inbox := [], as_machineId := Some (au_machineId a),
     as_controlOrganizationId := Some (mc_organizationId m),
     as_organizationId := Some (lp_organizationId (csp_localPolicy (au_sessionProfile a)))\<rparr>"

lemma handshake_to_check:
  assumes ready: "ready_to_authenticate env sv i s a m" and wf: "control_wf (sv_control sv)"
  shows "steps env now [Handle i, Commit (Message_of i), Resume (Message_of i), Begin (Message_of i)] sv
    = (upd_socket i (identified a m) sv)
      \<lparr>sv_queues := (sv_queues sv)(au_machineId a := [Message_of i]),
       sv_tasks := (sv_tasks sv)(Message_of i \<mapsto>
         \<lparr>tk_phase = Waiting (At_check i a (identity_of m)), tk_queue = Some (au_machineId a)\<rparr>)\<rparr>"
proof -
  let ?t = "Message_of i" and ?mid = "au_machineId a"
  obtain raw where r: "sv_sockets sv i = Some s" "sk_ready s" "\<not> as_authenticated s" "sk_inbox s = [raw]"
      "Option.bind raw (clientMessageSchema (ge_uuid env)) = Some (CM_authenticate a)"
      "sv_tasks sv ?t = None" "sv_queues sv ?mid = []"
      "m \<in> set (cdb_machines (sv_control sv))" "mc_id m = ?mid" "au_protocolVersion a = PROTOCOL_VERSION"
      "ge_verify env (challenge_text s) (mc_publicKey m) (base64url_decode (au_signature a)) = Some True"
    using ready unfolding ready_to_authenticate_def by blast
  let ?v = "upd_socket i (\<lambda>s. s\<lparr>sk_inbox := []\<rparr>) sv"
  let ?T = "(sv_tasks sv)(?t \<mapsto> \<lparr>tk_phase = Waiting (At_key i a), tk_queue = None\<rparr>)"
  have one: "gateway_step env (Handle i, now) sv = ?v\<lparr>sv_tasks := ?T\<rparr>"
    by (simp add: gateway_step_def r idle_def handleMessage_def settle_def)
  have key: "machinePublicKey ?mid (sv_control ?v) = Some (identity_of m)"
    using machine_row(1)[OF wf r(8)] r(9) by simp
  have two: "gateway_step env (Resume ?t, now) (gateway_step env (Commit ?t, now) (?v\<lparr>sv_tasks := ?T\<rparr>))
    = (upd_socket i (identified a m) sv)
      \<lparr>sv_queues := (sv_queues sv)(?mid := [?t]),
       sv_tasks := (sv_tasks sv)(?t \<mapsto> \<lparr>tk_phase = Queued (Op_authenticate i a (identity_of m)), tk_queue = Some ?mid\<rparr>)\<rparr>"
    by (subst turn_key[where s = "s\<lparr>sk_inbox := []\<rparr>" and machine = "identity_of m" and a = a and q = None])
      (use r key in \<open>simp_all add: signed_def challenge_text_def identity_of_def identified_def\<close>,
       simp_all add: upd_socket_def r identified_def)
  show ?thesis
    unfolding fold_simps one two
    by (simp add: gateway_step_def head_of_def start_operation_def socketReadyForAuthentication_def settle_def r)
      (simp add: upd_socket_def r identified_def settle_def)
qed

lemma handshake_to_online:
  assumes ready: "ready_to_authenticate env sv0 i s a m" and wf: "control_wf (sv_control sv)"
    and same: "sv_control sv = sv_control sv0"
    and T: "T (Message_of i) = Some \<lparr>tk_phase = Waiting (At_check i a (identity_of m)), tk_queue = q\<rparr>"
  shows "steps env now [Commit (Message_of i), Resume (Message_of i), Commit (Message_of i), Resume (Message_of i),
       Commit (Message_of i), Resume (Message_of i)] (sv\<lparr>sv_tasks := T\<rparr>)
    = (supersede i (au_machineId a) (sv\<lparr>sv_sessions := putMachineAuthority (profile_authority a) (sv_sessions sv)\<rparr>))
        \<lparr>sv_tasks := T(Message_of i \<mapsto> \<lparr>tk_phase = Waiting (At_online i a (identity_of m)), tk_queue = q\<rparr>)\<rparr>"
proof -
  have m: "m \<in> set (cdb_machines (sv_control sv))" "mc_id m = au_machineId a" "mc_revokedAt m = None"
    and own: "owns sv (mc_organizationId m) (lp_organizationId (csp_localPolicy (au_sessionProfile a)))"
    using ready same by (auto simp: ready_to_authenticate_def owns_def)
  have key: "machinePublicKey (au_machineId a) (sv_control sv) = Some (identity_of m)" "\<not> mid_revoked (identity_of m)"
    using machine_row(1)[OF wf m(1)] m by (simp_all add: identity_of_def)
  obtain o' where o': "mcpOrganization (mc_organizationId m) (sv_control sv) = Some o'"
      "mo_organizationExternalId o' = lp_organizationId (csp_localPolicy (au_sessionProfile a))"
    using owner_row[OF wf own] by blast
  let ?t = "Message_of i"
  have e1: "gateway_step env (Resume ?t, now) (gateway_step env (Commit ?t, now) (sv\<lparr>sv_tasks := T\<rparr>))
      = sv\<lparr>sv_tasks := T(?t \<mapsto> \<lparr>tk_phase = Waiting (At_organization i a (identity_of m)), tk_queue = q\<rparr>)\<rparr>"
    by (rule turn_check) (use T key in simp_all)
  have e2: "gateway_step env (Resume ?t, now) (gateway_step env (Commit ?t, now)
        (sv\<lparr>sv_tasks := T(?t \<mapsto> \<lparr>tk_phase = Waiting (At_organization i a (identity_of m)), tk_queue = q\<rparr>)\<rparr>))
      = sv\<lparr>sv_tasks := T(?t \<mapsto> \<lparr>tk_phase = Waiting (At_authority i a (identity_of m)), tk_queue = q\<rparr>)\<rparr>"
    by (subst turn_organization[where machine = "identity_of m" and a = a and i = i and q = q and o' = o'])
      (use o' in \<open>simp_all add: identity_of_def\<close>)
  have e3: "gateway_step env (Resume ?t, now) (gateway_step env (Commit ?t, now)
        (sv\<lparr>sv_tasks := T(?t \<mapsto> \<lparr>tk_phase = Waiting (At_authority i a (identity_of m)), tk_queue = q\<rparr>)\<rparr>))
      = (supersede i (au_machineId a) (sv\<lparr>sv_sessions := putMachineAuthority (profile_authority a) (sv_sessions sv)\<rparr>))
        \<lparr>sv_tasks := T(?t \<mapsto> \<lparr>tk_phase = Waiting (At_online i a (identity_of m)), tk_queue = q\<rparr>)\<rparr>"
    by (subst turn_authority[where machine = "identity_of m" and a = a and i = i and q = q]) simp_all
  show ?thesis by (simp only: fold_simps e1 e2 e3)
qed

text \<open>What the rest of the handshake does to a server whose socket awaits \<open>setMachineOnline\<close>.\<close>

definition registered :: "nat \<Rightarrow> authenticate_msg \<Rightarrow> machine \<Rightarrow> instant \<Rightarrow> server \<Rightarrow> server" where
  "registered i a m now sv = notifyOrganization (mc_organizationId m) (emit ''machine.online''
     (send_all i (sessionReconnectMessages (reconnectState (lp_organizationId (csp_localPolicy (au_sessionProfile a)))
         (au_machineId a) (sv_sessions sv)) now) (register_connection i (au_machineId a) now sv)))"

lemma handshake_to_end:
  assumes T: "T (Message_of i) = Some \<lparr>tk_phase = Resuming (At_online i a (identity_of m)) (R_bool True), tk_queue = q\<rparr>"
    and r: "socketReadyForAuthentication i sv"
  shows "steps env now [Resume (Message_of i), Commit (Message_of i), Resume (Message_of i)] (sv\<lparr>sv_tasks := T\<rparr>)
    = finish_task (Message_of i) ((registered i a m now sv)\<lparr>sv_tasks := T(Message_of i := None)\<rparr>)"
proof -
  let ?t = "Message_of i"
  have e1: "gateway_step env (Resume ?t, now) (sv\<lparr>sv_tasks := T\<rparr>)
      = (register_connection i (au_machineId a) now sv)
        \<lparr>sv_tasks := T(?t \<mapsto> \<lparr>tk_phase = Waiting (At_reconnect i a (identity_of m)), tk_queue = q\<rparr>)\<rparr>"
    by (rule turn_online) (use T r in simp_all)
  have s: "sv_sessions (register_connection i (au_machineId a) now sv) = sv_sessions sv"
    by (simp add: register_connection_def sendSocket_def)
  show ?thesis
    unfolding fold_simps e1
    by (subst turn_reconnect[where machine = "identity_of m" and a = a and i = i and q = q])
      (simp_all add: registered_def s identity_of_def)
qed

lemma supersede_frame [simp]:
  "sv_control (supersede i mid sv) = sv_control sv" "sv_sessions (supersede i mid sv) = sv_sessions sv"
  "sv_connections (supersede i mid sv) = sv_connections sv" "sv_queues (supersede i mid sv) = sv_queues sv"
  by (simp_all add: supersede_def split: option.split)

lemma supersede_other: "j \<noteq> i \<Longrightarrow> sv_connections sv mid = Some j \<Longrightarrow> sv_sockets (supersede i mid sv) j = Some s \<Longrightarrow> \<not> sk_ready s"
  by (simp add: supersede_def closeSocket_closed)

lemma supersede_self [simp]: "sv_sockets (supersede i mid sv) i = sv_sockets sv i"
  by (auto simp: supersede_def closeSocket_def upd_socket_def split: option.split)

lemma fold_send:
  "sv_sockets sv i = Some s \<Longrightarrow> sk_ready s \<Longrightarrow>
   sv_sockets (send_all i ms sv) = (sv_sockets sv)(i \<mapsto> s\<lparr>sk_sent := sk_sent s @ ms\<rparr>)"
proof (induction ms arbitrary: sv s)
  case Nil
  then show ?case by (auto simp: send_all_def)
next
  case (Cons x ms)
  have "sv_sockets (sendSocket i x sv) i = Some (s\<lparr>sk_sent := sk_sent s @ [x]\<rparr>)"
    using Cons.prems by (simp add: sendSocket_def upd_socket_def)
  from Cons.IH[OF this] show ?case using Cons.prems by (auto simp: send_all_def sendSocket_def upd_socket_def)
qed

lemma send_all_frame [simp]:
  "sv_connections (send_all i ms sv) = sv_connections sv" "sv_control (send_all i ms sv) = sv_control sv"
  "sv_sessions (send_all i ms sv) = sv_sessions sv"
  by (induction ms arbitrary: sv) (simp_all add: send_all_def sendSocket_def)

lemma registered_state:
  assumes "sv_sockets sv i = Some s" "sk_ready s"
  shows "sv_connections (registered i a m now sv) = (sv_connections sv)(au_machineId a \<mapsto> i)"
    "sv_control (registered i a m now sv) = sv_control sv" "sv_sessions (registered i a m now sv) = sv_sessions sv"
    "sv_sockets (registered i a m now sv) = (sv_sockets sv)(i \<mapsto>
       s\<lparr>as_authenticated := True, as_lastHeartbeatPersistedAt := Some now,
         sk_sent := sk_sent s @ SM_authenticated (au_machineId a) # sessionReconnectMessages
          (reconnectState (lp_organizationId (csp_localPolicy (au_sessionProfile a))) (au_machineId a) (sv_sessions sv)) now\<rparr>)"
proof -
  let ?r = "register_connection i (au_machineId a) now sv"
  have r: "sv_sockets ?r = (sv_sockets sv)(i \<mapsto> s\<lparr>as_authenticated := True, as_lastHeartbeatPersistedAt := Some now,
      sk_sent := sk_sent s @ [SM_authenticated (au_machineId a)]\<rparr>)"
    using assms by (simp add: register_connection_def sendSocket_def upd_socket_def)
  show "sv_sockets (registered i a m now sv) = (sv_sockets sv)(i \<mapsto>
       s\<lparr>as_authenticated := True, as_lastHeartbeatPersistedAt := Some now,
         sk_sent := sk_sent s @ SM_authenticated (au_machineId a) # sessionReconnectMessages
          (reconnectState (lp_organizationId (csp_localPolicy (au_sessionProfile a))) (au_machineId a) (sv_sessions sv)) now\<rparr>)"
    using assms r
    by (simp add: registered_def notifyOrganization_def emit_def
        fold_send[where s = "s\<lparr>as_authenticated := True, as_lastHeartbeatPersistedAt := Some now,
      sk_sent := sk_sent s @ [SM_authenticated (au_machineId a)]\<rparr>"])
qed (simp_all add: registered_def notifyOrganization_def emit_def register_connection_def sendSocket_def)

lemma reconnectState_put: "reconnectState org mid (putMachineAuthority a db) = reconnectState org mid db"
  by (simp add: reconnectState_def putMachineAuthority_def Let_def)

lemma machineAuthority_put:
  "machineAuthority (ma_organizationId a) (ma_machineId a) (putMachineAuthority a db) = Some a"
proof (cases "sql_first (machine_key (ma_organizationId a) (ma_machineId a)) (db_machineAuthorities db)")
  case None
  then show ?thesis by (simp add: machineAuthority_def putMachineAuthority_def Let_def sql_first_append machine_key_def)
next
  case (Some b)
  have "sql_first P (sql_update P f t) = Some a"
    if "sql_first P t = Some b" "\<And>x. P x \<Longrightarrow> f x = a" "P a" for P f b and t :: "machine_authority list"
    using that by (induction t) (auto split: if_splits)
  from this[OF Some] show ?thesis using Some
    by (simp add: machineAuthority_def putMachineAuthority_def Let_def machine_key_def)
qed

lemma profile_authority_key:
  "ma_organizationId (profile_authority a) = lp_organizationId (csp_localPolicy (au_sessionProfile a))"
  "ma_machineId (profile_authority a) = au_machineId a" "ma_online (profile_authority a) = True"
  by (simp_all add: profile_authority_def Let_def)

lemma handshake_result:
  assumes reach: "gateway_reachable env sv" and ready: "ready_to_authenticate env sv i s a m"
    and sv': "sv' = steps env now (handshake i) sv"
    and org: "org = lp_organizationId (csp_localPolicy (au_sessionProfile a))"
  shows "sv_connections sv' (au_machineId a) = Some i \<and> isOnline (au_machineId a) sv'
    \<and> sv_tasks sv' (Message_of i) = None
    \<and> (\<exists>s'. sv_sockets sv' i = Some s' \<and> as_authenticated s' \<and> sk_inbox s' = []
         \<and> as_machineId s' = Some (au_machineId a) \<and> as_organizationId s' = Some org
         \<and> as_controlOrganizationId s' = Some (mc_organizationId m)
         \<and> sk_sent s' = sk_sent s @ SM_authenticated (au_machineId a) #
              sessionReconnectMessages (reconnectState org (au_machineId a) (sv_sessions sv)) now)
    \<and> machineAuthority org (au_machineId a) (sv_sessions sv') = Some (profile_authority a)
    \<and> ma_online (profile_authority a)
    \<and> (\<exists>m' \<in> set (cdb_machines (sv_control sv')). mc_id m' = au_machineId a \<and> mc_status m' = machine_online)
    \<and> (\<forall>j. sv_connections sv (au_machineId a) = Some j \<longrightarrow> j \<noteq> i \<longrightarrow> \<not> socketReadyForAuthentication j sv')"
proof -
  let ?t = "Message_of i" and ?mid = "au_machineId a"
  have inv: "gateway_inv env sv" by (rule gateway_reachable_inv[OF reach])
  then have wf: "control_wf (sv_control sv)" by (simp add: gateway_inv_def dbs_ok_def)
  have sock: "sv_sockets sv i = Some s" "sk_ready s"
    and m: "m \<in> set (cdb_machines (sv_control sv))" "mc_id m = ?mid" "mc_revokedAt m = None"
    using ready by (auto simp: ready_to_authenticate_def)
  define v where "v = (upd_socket i (identified a m) sv)\<lparr>sv_queues := (sv_queues sv)(?mid := [?t])\<rparr>"
  define T where "T = (sv_tasks sv)(?t \<mapsto> \<lparr>tk_phase = Waiting (At_check i a (identity_of m)), tk_queue = Some ?mid\<rparr>)"
  define w where "w = supersede i ?mid (v\<lparr>sv_sessions := putMachineAuthority (profile_authority a) (sv_sessions v)\<rparr>)"
  define w' where "w' = w\<lparr>sv_control := snd (control_setMachineOnline ?mid (au_runtime a) now (sv_control w))\<rparr>"
  have ctl: "sv_control v = sv_control sv" "sv_sessions v = sv_sessions sv" "sv_connections v = sv_connections sv"
    by (simp_all add: v_def)
  have check: "steps env now [Handle i, Commit ?t, Resume ?t, Begin ?t] sv = v\<lparr>sv_tasks := T\<rparr>"
    using handshake_to_check[OF ready wf] by (simp add: v_def T_def)
  have online: "steps env now [Commit ?t, Resume ?t, Commit ?t, Resume ?t, Commit ?t, Resume ?t] (v\<lparr>sv_tasks := T\<rparr>)
      = w\<lparr>sv_tasks := T(?t \<mapsto> \<lparr>tk_phase = Waiting (At_online i a (identity_of m)), tk_queue = Some ?mid\<rparr>)\<rparr>"
    unfolding w_def by (rule handshake_to_online[OF ready]) (simp_all add: ctl wf T_def)
  have wctl: "sv_control w = sv_control sv" by (simp add: w_def ctl)
  have "fst (control_setMachineOnline ?mid (au_runtime a) now (sv_control w)) = True"
    using machine_row(2)[OF wf m(1) m(3)] m(2) wctl by simp
  then have commit: "gateway_step env (Commit ?t, now)
       (w\<lparr>sv_tasks := T(?t \<mapsto> \<lparr>tk_phase = Waiting (At_online i a (identity_of m)), tk_queue = Some ?mid\<rparr>)\<rparr>)
      = w'\<lparr>sv_tasks := T(?t \<mapsto> \<lparr>tk_phase = Resuming (At_online i a (identity_of m)) (R_bool True), tk_queue = Some ?mid\<rparr>)\<rparr>"
    by (subst commit_at[where p = "At_online i a (identity_of m)" and q = "Some ?mid"])
      (simp_all add: perform_def Let_def w'_def)
  have wsock: "sv_sockets w' i = Some (identified a m s)" "sk_ready (identified a m s)"
    using sock by (simp_all add: w'_def w_def v_def upd_socket_def identified_def)
  then have "steps env now [Resume ?t, Commit ?t, Resume ?t]
       (w'\<lparr>sv_tasks := T(?t \<mapsto> \<lparr>tk_phase = Resuming (At_online i a (identity_of m)) (R_bool True), tk_queue = Some ?mid\<rparr>)\<rparr>)
      = finish_task ?t ((registered i a m now w')\<lparr>sv_tasks := (T(?t \<mapsto> \<lparr>tk_phase = Resuming (At_online i a (identity_of m)) (R_bool True), tk_queue = Some ?mid\<rparr>))(?t := None)\<rparr>)"
    by (intro handshake_to_end) (simp_all add: socketReadyForAuthentication_def)
  moreover have "steps env now (handshake i) sv = steps env now [Resume ?t, Commit ?t, Resume ?t] (gateway_step env (Commit ?t, now)
      (steps env now [Commit ?t, Resume ?t, Commit ?t, Resume ?t, Commit ?t, Resume ?t]
        (steps env now [Handle i, Commit ?t, Resume ?t, Begin ?t] sv)))"
    by (simp add: handshake_def Let_def)
  ultimately have final: "sv' = finish_task ?t ((registered i a m now w')\<lparr>sv_tasks := T(?t := None)\<rparr>)"
    by (simp only: sv' check online commit fun_upd_upd)
  note reg = registered_state[OF wsock, of a m now]
  have sess: "sv_sessions w' = putMachineAuthority (profile_authority a) (sv_sessions sv)"
    by (simp add: w'_def w_def ctl)
  have fin: "sv_connections sv' = (sv_connections w')(?mid \<mapsto> i)" "sv_sessions sv' = sv_sessions w'"
     "sv_control sv' = sv_control w'" "sv_tasks sv' ?t = None" "sv_sockets sv' = sv_sockets (registered i a m now w')"
    by (simp_all add: final finish_task_def reg)
  have "\<exists>m' \<in> set (cdb_machines (sv_control w')). mc_id m' = ?mid \<and> mc_status m' = machine_online"
    using online_row[OF m(1,3)] m(2) by (simp add: w'_def wctl) blast
  moreover have "\<not> socketReadyForAuthentication j sv'" if j: "sv_connections sv ?mid = Some j" "j \<noteq> i" for j
  proof -
    have "sv_sockets sv' j = sv_sockets w j" using j(2) by (simp add: fin(5) reg(4)) (simp add: w'_def)
    then show ?thesis
      using supersede_other[OF j(2), of "v\<lparr>sv_sessions := putMachineAuthority (profile_authority a) (sv_sessions v)\<rparr>" ?mid] j(1) ctl(3)
      by (simp add: socketReadyForAuthentication_def w_def split: option.split)
  qed
  moreover have "machineAuthority org ?mid (sv_sessions sv') = Some (profile_authority a)"
    using machineAuthority_put[of "profile_authority a" "sv_sessions sv"] by (simp add: fin(2) sess org profile_authority_key)
  moreover have "\<exists>s'. sv_sockets sv' i = Some s' \<and> as_authenticated s' \<and> sk_ready s' \<and> sk_inbox s' = []
         \<and> as_machineId s' = Some ?mid \<and> as_organizationId s' = Some org
         \<and> as_controlOrganizationId s' = Some (mc_organizationId m)
         \<and> sk_sent s' = sk_sent s @ SM_authenticated ?mid #
              sessionReconnectMessages (reconnectState org ?mid (sv_sessions sv)) now"
    using sock(2) by (simp add: fin(5) reg(4) sess reconnectState_put org identified_def)
  ultimately show ?thesis
    using fin by (auto simp: isOnline_def socketReadyForAuthentication_def profile_authority_key)
qed

text \<open>
  C20: An honest handshake succeeds.  When a WebSocket's first message authenticates a Machine with a
  signature that verifies over the socket's own challenge under the stored key of an enrolled,
  unrevoked Machine, with the current protocol version and a Session Profile of the Organization that
  owns the Machine, and no lifecycle operation of the Machine is pending, the task runs to its end:
  the socket becomes the Machine's one connection, is told that it is authenticated and then exactly
  the reconciliation messages of the session database, the Machine is online in both databases under
  the authority its profile describes, and a superseded socket is closed.
\<close>

theorem handshake_registers:
  assumes reach: "gateway_reachable env sv" and ready: "ready_to_authenticate env sv i s a m"
    and sv': "sv' = steps env now (handshake i) sv"
    and org: "org = lp_organizationId (csp_localPolicy (au_sessionProfile a))"
  shows "sv_connections sv' (au_machineId a) = Some i \<and> isOnline (au_machineId a) sv'
    \<and> sv_tasks sv' (Message_of i) = None
    \<and> (\<exists>s'. sv_sockets sv' i = Some s' \<and> as_authenticated s'
         \<and> sk_sent s' = sk_sent s @ SM_authenticated (au_machineId a) #
              sessionReconnectMessages (reconnectState org (au_machineId a) (sv_sessions sv)) now)
    \<and> machineAuthority org (au_machineId a) (sv_sessions sv') = Some (profile_authority a)
    \<and> ma_online (profile_authority a)
    \<and> (\<exists>m' \<in> set (cdb_machines (sv_control sv')). mc_id m' = au_machineId a \<and> mc_status m' = machine_online)
    \<and> (\<forall>j. sv_connections sv (au_machineId a) = Some j \<longrightarrow> j \<noteq> i \<longrightarrow> \<not> socketReadyForAuthentication j sv')"
  using handshake_result[OF assms] by blast

subsection \<open>A sample run\<close>

definition demo_env :: gateway_env where
  "demo_env = \<lparr>ge_uuid = (\<lambda>_. True), ge_verify = (\<lambda>text pk sig. Some (text = ''odyshell:c:n'' \<and> pk = ''key'')),
     ge_outputRetention = 86400000\<rparr>"

definition demo_profile :: client_session_profile where
  "demo_profile = \<lparr>csp_id = ''p'', csp_operatingSystemUser = ''u'',
     csp_localPolicy = \<lparr>lp_organizationId = ''ext'', lp_maxSessionDurationSeconds = 3600,
       lp_maxConcurrentSessions = 4, lp_maxConcurrentCommands = 2, lp_maxCommandTimeoutSeconds = 3600,
       lp_maxCommandOutputBytes = 2048, lp_allowRemoteApproval = True\<rparr>\<rparr>"

definition demo_authenticate :: authenticate_msg where
  "demo_authenticate = \<lparr>au_machineId = ''m'', au_protocolVersion = PROTOCOL_VERSION,
     au_signature = ''AQID'', au_runtime = None, au_sessionProfile = demo_profile\<rparr>"

definition demo_server :: server where
  "demo_server = start_server control_example example_db"

definition demo_connected :: server where
  "demo_connected = steps demo_env 4000 [Connected 0 ''c'' ''n'', Received 0 (Some (CM_authenticate demo_authenticate))] demo_server"

definition demo_online :: server where
  "demo_online = steps demo_env 5000 (handshake 0) demo_connected"

definition demo_row :: machine where
  "demo_row = \<lparr>mc_organizationId = ''org'', mc_id = ''m'', mc_name = ''box'', mc_description = None,
     mc_publicKey = ''key'', mc_status = machine_offline, mc_runtime = None, mc_lastSeenAt = Some 300,
     mc_revokedAt = None, mc_createdByHumanId = Some ''human'', mc_enrolledAt = 200\<rparr>"

lemma reachable_steps: "gateway_reachable env sv \<Longrightarrow> gateway_reachable env (steps env now es sv)"
  by (induction es arbitrary: sv) (simp_all add: gateway_reachable.step)

lemma demo_server_reachable: "gateway_reachable env demo_server"
  unfolding demo_server_def by (rule gateway_reachable.start[OF control_example_wf example_wf])

lemma demo_connected_reachable: "gateway_reachable demo_env demo_connected"
  unfolding demo_connected_def by (rule reachable_steps[OF demo_server_reachable])

lemma demo_control: "cdb_machines (control_initialize control_example) = [demo_row]"
    "map org_id (cdb_organizations (control_initialize control_example)) = [''org'']"
    "map org_externalId (cdb_organizations (control_initialize control_example)) = [''ext'']"
  by code_simp+

lemma demo_parse: "clientMessageSchema (ge_uuid demo_env) (CM_authenticate demo_authenticate) = Some (CM_authenticate demo_authenticate)"
  by code_simp

definition demo_socket :: socket where
  "demo_socket = (new_socket ''c'' ''n'')\<lparr>sk_sent := [SM_challenge ''c'' ''n''],
     sk_inbox := [Some (CM_authenticate demo_authenticate)]\<rparr>"

lemma demo_connected_state:
  "sv_sockets demo_connected 0 = Some demo_socket" "sv_tasks demo_connected t = None" "sv_queues demo_connected q = []"
  "sv_connections demo_connected mid = None" "sv_control demo_connected = control_initialize control_example"
  "sv_sessions demo_connected = example_db"
  by (simp_all add: demo_connected_def gateway_step_def accept_socket_def sendSocket_def upd_socket_def demo_server_def
      start_server_def demo_socket_def new_socket_def)

lemma demo_ids: "au_machineId demo_authenticate = ''m''"
    "lp_organizationId (csp_localPolicy (au_sessionProfile demo_authenticate)) = ''ext''" "mc_organizationId demo_row = ''org''"
  by (simp_all add: demo_authenticate_def demo_profile_def demo_row_def)

lemma demo_version: "au_protocolVersion demo_authenticate = PROTOCOL_VERSION"
  by (simp add: demo_authenticate_def)

lemma demo_ready: "ready_to_authenticate demo_env demo_connected 0 demo_socket demo_authenticate demo_row"
proof -
  obtain o' where o': "cdb_organizations (control_initialize control_example) = [o']" "org_id o' = ''org''" "org_externalId o' = ''ext''"
    using demo_control(2,3) by auto
  have "owns demo_connected ''org'' ''ext''" using o' by (simp add: owns_def demo_connected_state)
  then show ?thesis
    unfolding ready_to_authenticate_def demo_connected_state demo_control(1)
    using demo_parse
    by (intro conjI exI[of _ "Some (CM_authenticate demo_authenticate)"])
      (simp_all add: demo_socket_def new_socket_def demo_ids demo_version demo_row_def demo_env_def challenge_text_def)
qed

theorem handshake_registers_witness:
  "isOnline ''m'' demo_online \<and> sv_connections demo_online ''m'' = Some 0 \<and> sv_tasks demo_online (Message_of 0) = None"
  using handshake_registers[OF demo_connected_reachable demo_ready demo_online_def refl] by (simp add: demo_ids)

section \<open>A revocation that misses its Machine\<close>

definition race :: "nat \<Rightarrow> nat \<Rightarrow> ident \<Rightarrow> ident \<Rightarrow> ident \<Rightarrow> gateway_event list" where
  "race i n org ext mid = (let t = Message_of i; r = Request n in
     [Handle i, Commit t, Resume t, Begin t]
     @ [Revoke_request n org ext mid, Commit r, Resume r, Commit r]
     @ [Commit t, Resume t, Commit t, Resume t, Commit t, Resume t]
     @ [Resume r, Commit t, Commit r, Resume t, Commit t, Resume t, Resume r])"

lemma gateway_send_none: "sv_connections sv mid = None \<Longrightarrow> gateway_send mid m sv = (False, sv)"
  by (simp add: gateway_send_def)

lemma closeRevoked_offline:
  "(\<And>x. x \<in> set rs \<Longrightarrow> sv_connections sv (ses_machineId (fst x)) = None) \<Longrightarrow> closeRevokedSessions rs reason sv = sv"
proof (induction rs)
  case (Cons x rs)
  have f: "fold (\<lambda>c v. snd (gateway_send mid (SM_command_cancel c) v)) ids sv = sv" if "sv_connections sv mid = None" for mid ids
    using that by (induction ids) (simp_all add: gateway_send_none)
  have "sv_connections sv (ses_machineId (fst x)) = None" using Cons.prems by simp
  then have "closeRevokedSessions (x # rs) reason sv = closeRevokedSessions rs reason sv"
    by (simp add: closeRevokedSessions_def case_prod_unfold f gateway_send_none)
  with Cons show ?case by simp
qed (simp add: closeRevokedSessions_def)

text \<open>
  C32: The revocation in control-http.ts does not wait for the Machine's lifecycle queue.  Here it looks
  for a connection while the handshake awaits \<open>setMachineOnline\<close>, and revokes the Machine before the
  handshake resumes: no task is left, the Machine is revoked, and its WebSocket is registered and open,
  under an authority that \<open>revokeSessions\<close> had deleted and the handshake has written again.
\<close>

theorem revocation_misses_handshake:
  assumes reach: "gateway_reachable env sv" and ready: "ready_to_authenticate env sv i s a m"
    and alone: "sv_connections sv mid = None" "sv_tasks sv (Request n) = None"
    and mid: "mid = au_machineId a" and ext: "ext = lp_organizationId (csp_localPolicy (au_sessionProfile a))"
    and sv': "sv' = steps env now (race i n (mc_organizationId m) ext mid) sv"
  shows "isOnline mid sv' \<and> sv_tasks sv' (Message_of i) = None \<and> sv_tasks sv' (Request n) = None
    \<and> (\<exists>m' \<in> set (cdb_machines (sv_control sv')). mc_id m' = mid \<and> mc_revokedAt m' = Some now)
    \<and> machineAuthority ext mid (sv_sessions sv') = Some (profile_authority a) \<and> ma_online (profile_authority a)"
proof -
  let ?t = "Message_of i" and ?r = "Request n" and ?org = "mc_organizationId m"
  have inv: "gateway_inv env sv" by (rule gateway_reachable_inv[OF reach])
  then have wf: "control_wf (sv_control sv)" and dwf: "db_wf (sv_sessions sv)" by (simp_all add: gateway_inv_def dbs_ok_def)
  have sock: "sv_sockets sv i = Some s" "sk_ready s"
    and m: "m \<in> set (cdb_machines (sv_control sv))" "mc_id m = mid" "mc_revokedAt m = None"
    using ready mid by (auto simp: ready_to_authenticate_def)
  define v where "v = (upd_socket i (identified a m) sv)\<lparr>sv_queues := (sv_queues sv)(mid := [?t])\<rparr>"
  define T where "T = (sv_tasks sv)(?t \<mapsto> \<lparr>tk_phase = Waiting (At_check i a (identity_of m)), tk_queue = Some mid\<rparr>)"
  have ctl: "sv_control v = sv_control sv" "sv_sessions v = sv_sessions sv" "sv_connections v = sv_connections sv"
    by (simp_all add: v_def)
  have check: "steps env now [Handle i, Commit ?t, Resume ?t, Begin ?t] sv = v\<lparr>sv_tasks := T\<rparr>"
    using handshake_to_check[OF ready wf] by (simp add: v_def T_def mid)
  obtain rs where rs: "fst (revokeSessions ext None (Some mid) now (sv_sessions sv)) = Inr rs"
      and of: "map fst rs = map (\<lambda>s. sessionRecord (revoked_session now s))
         (sql_where (revocable ext None (Some mid)) (db_sessions (sv_sessions sv)))"
    using revokeSessions_result by blast
  have "ses_machineId (fst x) = mid" if "x \<in> set rs" for x
  proof -
    have "fst x \<in> set (map fst rs)" using that by simp
    then show ?thesis unfolding of by (auto simp: revocable_def revoked_session_def)
  qed
  then have quiet: "closeRevokedSessions rs reason u = u" if "sv_connections u mid = None" for u reason
    using that by (intro closeRevoked_offline) simp
  have listed: "list_ex (\<lambda>x. mc_id x = mid) (listMachines ?org (sv_control v))"
    using m by (auto simp: listMachines_def list_ex_iff active_machine_of_def ctl)
  define v1 where "v1 = v\<lparr>sv_sessions := snd (revokeSessions ext None (Some mid) now (sv_sessions v))\<rparr>"
  define T1 where "T1 = T(?r \<mapsto> \<lparr>tk_phase = Resuming (At_revoke_sessions ?org ext mid) (R_revoked rs), tk_queue = None\<rparr>)"
  have request: "steps env now [Revoke_request n ?org ext mid, Commit ?r, Resume ?r, Commit ?r] (v\<lparr>sv_tasks := T\<rparr>) = v1\<lparr>sv_tasks := T1\<rparr>"
    using alone(2) listed rs
    by (simp add: gateway_step_def idle_def T_def settle_def perform_def resume_def v1_def T1_def ctl Let_def case_prod_unfold)
  define w where "w = v1\<lparr>sv_sessions := putMachineAuthority (profile_authority a) (sv_sessions v1)\<rparr>"
  have none: "sv_connections w mid = None" using alone(1) by (simp add: w_def v1_def ctl)
  then have "supersede i mid w = w" by (simp add: supersede_def)
  then have online: "steps env now [Commit ?t, Resume ?t, Commit ?t, Resume ?t, Commit ?t, Resume ?t] (v1\<lparr>sv_tasks := T1\<rparr>)
      = w\<lparr>sv_tasks := T1(?t \<mapsto> \<lparr>tk_phase = Waiting (At_online i a (identity_of m)), tk_queue = Some mid\<rparr>)\<rparr>"
    using handshake_to_online[OF ready, of v1 T1 "Some mid" now] wf
    by (simp add: v1_def ctl T1_def T_def w_def mid)
  have race_run: "steps env now (race i n ?org ext mid) sv = steps env now [Resume ?r]
      (steps env now [Resume ?t, Commit ?t, Resume ?t] (steps env now [Resume ?r, Commit ?t, Commit ?r]
      (w\<lparr>sv_tasks := T1(?t \<mapsto> \<lparr>tk_phase = Waiting (At_online i a (identity_of m)), tk_queue = Some mid\<rparr>)\<rparr>)))"
    unfolding race_def Let_def fold_append comp_def check request online by simp
  define c1 where "c1 = snd (control_setMachineOnline mid (au_runtime a) now (sv_control sv))"
  define c2 where "c2 = snd (revokeMachine ?org mid now c1)"
  obtain m1 where m1: "m1 \<in> set (cdb_machines c1)" "mc_id m1 = mid" "mc_organizationId m1 = ?org" "mc_revokedAt m1 = None"
    using online_row[OF m(1,3)] m(2) unfolding c1_def by blast
  have done1: "fst (control_setMachineOnline mid (au_runtime a) now (sv_control sv)) = True"
    using machine_row(2)[OF wf m(1,3)] m(2) by simp
  have done2: "fst (revokeMachine ?org mid now c1) \<noteq> None" using revoke_row(1)[OF m1(1,4)] m1(2,3) by simp
  define u where "u = w\<lparr>sv_control := c2\<rparr>"
  define T2 where "T2 = T1(?t \<mapsto> \<lparr>tk_phase = Resuming (At_online i a (identity_of m)) (R_bool True), tk_queue = Some mid\<rparr>,
      ?r \<mapsto> \<lparr>tk_phase = Resuming (At_revoke_machine ?org ext mid) (R_bool True), tk_queue = None\<rparr>)"
  have wctl: "sv_control w = sv_control sv" by (simp add: w_def v1_def ctl)
  have missed: "steps env now [Resume ?r, Commit ?t, Commit ?r]
      (w\<lparr>sv_tasks := T1(?t \<mapsto> \<lparr>tk_phase = Waiting (At_online i a (identity_of m)), tk_queue = Some mid\<rparr>)\<rparr>)
      = u\<lparr>sv_tasks := T2\<rparr>"
    using done2 by (simp add: gateway_step_def settle_def resume_def perform_def T1_def closeRevoked_tasks quiet none
      gateway_disconnect_def wctl done1 Let_def case_prod_unfold c1_def[symmetric] c2_def[symmetric] u_def T2_def mid[symmetric] fun_upd_twist)
  have usock: "sv_sockets u i = Some (identified a m s)" "sk_ready (identified a m s)"
    using sock by (simp_all add: u_def w_def v1_def v_def upd_socket_def identified_def)
  note reg = registered_state[OF usock, of a m now]
  have "steps env now [Resume ?t, Commit ?t, Resume ?t] (u\<lparr>sv_tasks := T2\<rparr>)
      = finish_task ?t ((registered i a m now u)\<lparr>sv_tasks := T2(?t := None)\<rparr>)"
    by (rule handshake_to_end[where q = "Some mid"]) (use usock in \<open>simp_all add: T2_def socketReadyForAuthentication_def\<close>)
  then have "sv' = gateway_step env (Resume ?r, now) (finish_task ?t ((registered i a m now u)\<lparr>sv_tasks := T2(?t := None)\<rparr>))"
    using race_run[unfolded missed] by (simp only: sv' fold_simps)
  then have final: "sv_connections sv' = (sv_connections u)(mid \<mapsto> i)" "sv_sessions sv' = sv_sessions u"
      "sv_control sv' = c2" "sv_tasks sv' ?t = None" "sv_tasks sv' ?r = None"
      "sv_sockets sv' = sv_sockets (registered i a m now u)"
    by (simp_all add: gateway_step_def finish_task_def T2_def resume_def settle_def result_true_def notifyOrganization_def emit_def reg mid)
      (simp_all add: u_def)
  have "\<exists>m' \<in> set (cdb_machines c2). mc_id m' = mid \<and> mc_revokedAt m' = Some now"
    using revoke_row(2)[OF m1(1,4)] m1(2,3) by (simp add: c2_def)
  moreover have "machineAuthority ext mid (sv_sessions sv') = Some (profile_authority a)"
    using machineAuthority_put[of "profile_authority a" "sv_sessions v1"]
    by (simp add: final u_def w_def ext mid profile_authority_key)
  ultimately show ?thesis
    using usock by (simp add: final isOnline_def socketReadyForAuthentication_def reg profile_authority_key)
qed

theorem revocation_misses_handshake_witness:
  "isOnline ''m'' (steps demo_env 5000 (race 0 1 ''org'' ''ext'' ''m'') demo_connected)
   \<and> machineAuthority ''ext'' ''m'' (sv_sessions (steps demo_env 5000 (race 0 1 ''org'' ''ext'' ''m'') demo_connected)) \<noteq> None"
proof -
  have "sv_connections demo_connected ''m'' = None" "sv_tasks demo_connected (Request 1) = None" "''m'' = au_machineId demo_authenticate"
    "''ext'' = lp_organizationId (csp_localPolicy (au_sessionProfile demo_authenticate))"
    by (simp_all only: demo_connected_state demo_ids)
  note missed = revocation_misses_handshake[OF demo_connected_reachable demo_ready this refl, of 5000, unfolded demo_ids(3)]
  from missed show ?thesis by (simp only: option.distinct not_False_eq_True simp_thms)
qed

section \<open>Who a socket is\<close>

text \<open>
  C6: Whatever the interleaving of handshakes, messages, closings and revocations, an authenticated
  WebSocket acts for an enrolled Machine whose stored public key verifies a signature over the very
  challenge of that socket, under the Organization that owns the Machine; and a Machine is reached by
  at most one WebSocket: every open authenticated socket of a Machine is the one its connection names.
\<close>

theorem authenticated_sockets:
  assumes reach: "gateway_reachable env sv" and s: "sv_sockets sv i = Some s" "as_authenticated s"
  shows "\<exists>m \<in> set (cdb_machines (sv_control sv)). \<exists>o' \<in> set (cdb_organizations (sv_control sv)). \<exists>sig.
      as_machineId s = Some (mc_id m) \<and> mc_organizationId m = org_id o' \<and> as_organizationId s = Some (org_externalId o')
      \<and> ge_verify env (challenge_text s) (mc_publicKey m) sig = Some True
      \<and> (sk_ready s \<longrightarrow> sv_connections sv (mc_id m) = Some i)"
proof -
  have inv: "gateway_inv env sv" by (rule gateway_reachable_inv[OF reach])
  then have "proven env sv s" using s by (simp add: gateway_inv_def sockets_ok_def)
  then obtain mid ext pk org sig where p: "as_machineId s = Some mid" "as_organizationId s = Some ext"
      "known sv mid pk org" "owns sv org ext" "signed env s pk sig"
    unfolding proven_def by blast
  have "sk_ready s \<longrightarrow> sv_connections sv mid = Some i"
    using inv s p(1) by (auto simp: gateway_inv_def single_ok_def live_def)
  moreover obtain m where m: "m \<in> set (cdb_machines (sv_control sv))" "mc_id m = mid" "mc_publicKey m = pk" "mc_organizationId m = org"
    using p(3) unfolding known_def by blast
  moreover obtain o' where o': "o' \<in> set (cdb_organizations (sv_control sv))" "org_id o' = org" "org_externalId o' = ext"
    using p(4) unfolding owns_def by blast
  ultimately show ?thesis
    by (intro bexI[OF _ m(1)] bexI[OF _ o'(1)] exI[of _ sig]) (use p in \<open>simp add: signed_def\<close>)
qed

text \<open>
  C40: Nothing is done for a socket that has not authenticated.  A first message that is not a
  well-formed \<open>authenticate\<close> closes the socket and touches neither database, no connection and no other
  socket; and when the signature does not verify under the Machine's stored key, so does the
  continuation of the handshake.
\<close>

theorem unauthenticated_is_inert:
  assumes s: "sv_sockets sv i = Some s" "\<not> as_authenticated s"
    and stage: "(sv_tasks sv (Message_of i) = None \<and> sk_inbox s = raw # rest \<and> e = Handle i
         \<and> (\<forall>a. Option.bind raw (clientMessageSchema (ge_uuid env)) \<noteq> Some (CM_authenticate a)))
      \<or> (sv_tasks sv (Message_of i) = Some \<lparr>tk_phase = Resuming (At_key i a) (R_identity (Some machine)), tk_queue = None\<rparr>
         \<and> e = Resume (Message_of i)
         \<and> ge_verify env (challenge_text s) (mid_publicKey machine) (base64url_decode (au_signature a)) \<noteq> Some True)"
    and sv': "sv' = gateway_step env (e, now) sv"
  shows "sv_control sv' = sv_control sv \<and> sv_sessions sv' = sv_sessions sv \<and> sv_connections sv' = sv_connections sv
    \<and> sv_tasks sv' (Message_of i) = None \<and> \<not> socketReadyForAuthentication i sv'
    \<and> (\<exists>s'. sv_sockets sv' i = Some s' \<and> \<not> as_authenticated s' \<and> sk_sent s' = sk_sent s)
    \<and> (\<forall>j. j \<noteq> i \<longrightarrow> sv_sockets sv' j = sv_sockets sv j)"
proof -
  have close: "sv_control v' = sv_control sv \<and> sv_sessions v' = sv_sessions sv \<and> sv_connections v' = sv_connections sv
      \<and> sv_tasks v' (Message_of i) = None \<and> \<not> socketReadyForAuthentication i v'
      \<and> (\<exists>s'. sv_sockets v' i = Some s' \<and> \<not> as_authenticated s' \<and> sk_sent s' = sk_sent s)
      \<and> (\<forall>j. j \<noteq> i \<longrightarrow> sv_sockets v' j = sv_sockets sv j)"
    if "v' = settle (Message_of i) None (Throw x, upd_socket i f sv)" "\<And>s. as_authenticated (f s) = as_authenticated s"
      "\<And>s. sk_sent (f s) = sk_sent s" for v' x f
    using that s by (auto simp: settle_def finish_task_def closeSocket_def upd_socket_def socketReadyForAuthentication_def)
  show ?thesis
    using stage
  proof (elim disjE conjE)
    assume h: "sv_tasks sv (Message_of i) = None" "sk_inbox s = raw # rest" "e = Handle i"
      and no: "\<forall>a. Option.bind raw (clientMessageSchema (ge_uuid env)) \<noteq> Some (CM_authenticate a)"
    have "\<exists>x. handleMessage env i s raw now v = (Throw x, v)" for v
      using no s(2) by (auto simp: handleMessage_def split: option.split client_message.split)
    then obtain x where "handleMessage env i s raw now (upd_socket i (\<lambda>s. s\<lparr>sk_inbox := rest\<rparr>) sv)
        = (Throw x, upd_socket i (\<lambda>s. s\<lparr>sk_inbox := rest\<rparr>) sv)" by blast
    then have "sv' = settle (Message_of i) None (Throw x, upd_socket i (\<lambda>s. s\<lparr>sk_inbox := rest\<rparr>) sv)"
      using h s sv' by (simp add: gateway_step_def idle_def)
    then show ?thesis by (rule close) simp_all
  next
    assume h: "sv_tasks sv (Message_of i) = Some \<lparr>tk_phase = Resuming (At_key i a) (R_identity (Some machine)), tk_queue = None\<rparr>"
      "e = Resume (Message_of i)"
      "ge_verify env (challenge_text s) (mid_publicKey machine) (base64url_decode (au_signature a)) \<noteq> Some True"
    have "upd_socket i (\<lambda>s. s) sv = sv" by (simp add: upd_socket_def s(1) fun_upd_idem)
    moreover have "ge_verify env (challenge_text s) (mid_publicKey machine) (base64url_decode (au_signature a)) \<in> {None, Some False}"
      using h(3) by (cases "ge_verify env (challenge_text s) (mid_publicKey machine) (base64url_decode (au_signature a))") auto
    then obtain x where "authenticate_key env i a (Some machine) sv = (Throw x, sv)"
      using s(1) by (auto simp: authenticate_key_def)
    ultimately have "sv' = settle (Message_of i) None (Throw x, upd_socket i (\<lambda>s. s) sv)"
      using h(1,2) sv' by (simp add: gateway_step_def resume_def result_identity_def)
    then show ?thesis by (rule close) simp_all
  qed
qed

text \<open>The rows of the other Machines.\<close>

definition foreign_rows :: "ident \<Rightarrow> ident \<Rightarrow> session_db \<Rightarrow> session_row list \<times> command_row list \<times> machine_authority list" where
  "foreign_rows org mid db =
     (sql_where (\<lambda>r. \<not> (ses_organizationId r = org \<and> ses_machineId r = mid)) (db_sessions db),
      sql_where (\<lambda>r. \<not> (cmd_organizationId r = org \<and> cmd_machineId r = mid)) (db_commands db),
      db_machineAuthorities db)"

lemma foreign_sessions:
  "(\<And>r. P r \<Longrightarrow> ses_organizationId r = org \<and> ses_machineId r = mid) \<Longrightarrow>
   (\<And>r. ses_organizationId (f r) = ses_organizationId r \<and> ses_machineId (f r) = ses_machineId r) \<Longrightarrow>
   foreign_rows org mid (db\<lparr>db_sessions := sql_update P f (db_sessions db)\<rparr>) = foreign_rows org mid db"
  by (simp add: foreign_rows_def where_update_other)

lemma foreign_commands:
  "(\<And>r. P r \<Longrightarrow> cmd_organizationId r = org \<and> cmd_machineId r = mid) \<Longrightarrow>
   (\<And>r. cmd_organizationId (f r) = cmd_organizationId r \<and> cmd_machineId (f r) = cmd_machineId r) \<Longrightarrow>
   foreign_rows org mid (db\<lparr>db_commands := sql_update P f (db_commands db)\<rparr>) = foreign_rows org mid db"
  by (simp add: foreign_rows_def where_update_other)

lemma foreign_event [simp]: "foreign_rows org mid (append_event e now db) = foreign_rows org mid db"
  by (simp add: foreign_rows_def append_event_def)

lemma foreign_marks:
  "foreign_rows org mid (snd (markSessionOpened org mid s p u t db)) = foreign_rows org mid db"
  "foreign_rows org mid (snd (markSessionFailed org mid s e' t db)) = foreign_rows org mid db"
  "foreign_rows org mid (snd (markSessionClosed org mid s r t db)) = foreign_rows org mid db"
  "foreign_rows org mid (snd (markCommandStarted org mid c t db)) = foreign_rows org mid db"
  "foreign_rows org mid (snd (markCommandCompleted org mid c st x e tr fin t db)) = foreign_rows org mid db"
  unfolding markSessionOpened_def markSessionFailed_def markSessionClosed_def markCommandStarted_def
    markCommandCompleted_def Let_def
  by (auto simp: machine_command_def split: option.split intro!: foreign_sessions foreign_commands)

lemma where_update_other_in:
  "(\<And>r. r \<in> set t \<Longrightarrow> P r \<Longrightarrow> \<not> Q r \<and> \<not> Q (f r)) \<Longrightarrow> sql_where Q (sql_update P f t) = sql_where Q t"
  by (induction t) (auto simp: sql_where_def)

lemma foreign_output:
  assumes wf: "db_wf db"
  shows "foreign_rows org mid (snd (addCommandOutput org mid c st n d ret t db)) = foreign_rows org mid db"
proof (cases "sql_first (\<lambda>r. machine_command org mid c r \<and> command_active r) (db_commands db)")
  case (Some x)
  then have x: "x \<in> set (db_commands db)" "cmd_organizationId x = org" "cmd_machineId x = mid" "cmd_id x = c"
    by (auto dest!: sql_first_SomeD simp: machine_command_def)
  have same: "r = x" if "r \<in> set (db_commands db)" "command_key org c r" for r
    using command_by_id[OF wf that(1) x(1)] that(2) x(4) by (simp add: command_key_def)
  have "sql_where (\<lambda>r. \<not> (cmd_organizationId r = org \<and> cmd_machineId r = mid)) (sql_update (command_key org c) f (db_commands db))
      = sql_where (\<lambda>r. \<not> (cmd_organizationId r = org \<and> cmd_machineId r = mid)) (db_commands db)"
    if "\<And>r. cmd_organizationId (f r) = cmd_organizationId r \<and> cmd_machineId (f r) = cmd_machineId r" for f
  proof (rule where_update_other_in)
    fix r assume "r \<in> set (db_commands db)" "command_key org c r"
    then have "r = x" by (rule same)
    then show "\<not> \<not> (cmd_organizationId r = org \<and> cmd_machineId r = mid)
        \<and> \<not> \<not> (cmd_organizationId (f r) = org \<and> cmd_machineId (f r) = mid)" using that x by simp
  qed
  then show ?thesis using Some by (auto simp: addCommandOutput_def foreign_rows_def)
qed (simp add: addCommandOutput_def)

lemma output_chunks:
  assumes "k \<in> set (db_outputChunks (snd (addCommandOutput org mid c st n d ret t db)))"
  shows "k \<in> set (db_outputChunks db)
    \<or> chk_organizationId k = org \<and> (\<exists>x \<in> set (db_commands db). machine_command org mid (chk_commandId k) x \<and> command_active x)"
  using assms by (auto simp: addCommandOutput_def split: option.splits if_splits dest!: sql_first_SomeD)

text \<open>
  C17: A Machine reaches no further than its own rows.  The database call made for a message comes from
  a socket authenticated as the Machine and the Organization the call is made for; it leaves every
  Session and Command of another Machine or Organization, every Machine authority and the whole control
  database as they were, and a new output chunk belongs to an active Command of this Machine.
\<close>

theorem message_isolation:
  assumes reach: "gateway_reachable env sv"
    and task: "sv_tasks sv t = Some k" "tk_phase k = Waiting (At_message i m mid org ctl)"
    and sv': "sv' = gateway_step env (Commit t, now) sv"
  shows "(\<exists>s. sv_sockets sv i = Some s \<and> as_authenticated s \<and> as_machineId s = Some mid \<and> as_organizationId s = Some org)
    \<and> foreign_rows org mid (sv_sessions sv') = foreign_rows org mid (sv_sessions sv)
    \<and> sv_control sv' = sv_control sv
    \<and> (\<forall>c \<in> set (db_outputChunks (sv_sessions sv')). c \<in> set (db_outputChunks (sv_sessions sv))
         \<or> (\<exists>x \<in> set (db_commands (sv_sessions sv)). machine_command org mid (chk_commandId c) x \<and> command_active x))"
proof -
  have inv: "gateway_inv env sv" by (rule gateway_reachable_inv[OF reach])
  then have wf: "db_wf (sv_sessions sv)" by (simp add: gateway_inv_def dbs_ok_def)
  have who: "\<exists>s. sv_sockets sv i = Some s \<and> as_authenticated s \<and> as_machineId s = Some mid \<and> as_organizationId s = Some org"
    using task_phase[OF inv task(1)] task(2) by (auto simp: phase_ok_def point_ok_def acts_for_def)
  let ?db = "sv_sessions sv"
  have after: "sv_control sv' = sv_control sv" "sv_sessions sv' = snd (hook_message env m mid org now ?db)"
    using task sv' by (simp_all add: gateway_step_def perform_def Let_def case_prod_unfold)
  have rows: "foreign_rows org mid (snd (hook_message env m mid org now ?db)) = foreign_rows org mid ?db"
    by (cases m) (auto simp: hook_message_def foreign_marks foreign_output[OF wf] split: sum.split)
  have chunks: "c \<in> set (db_outputChunks ?db)
      \<or> (\<exists>x \<in> set (db_commands ?db). machine_command org mid (chk_commandId c) x \<and> command_active x)"
    if c: "c \<in> set (db_outputChunks (snd (hook_message env m mid org now ?db)))" for c
  proof (cases "\<exists>o'. m = CM_command_output o'")
    case True
    then show ?thesis using c output_chunks by (fastforce simp: hook_message_def split: sum.splits)
  next
    case False
    have "db_outputChunks (snd (hook_message env m mid org now ?db)) = db_outputChunks ?db"
      using False by (cases m)
        (simp_all add: hook_message_def markSessionOpened_def markSessionFailed_def markSessionClosed_def
          markCommandStarted_def markCommandCompleted_def append_event_def Let_def split: option.split)
    with c show ?thesis by simp
  qed
  show ?thesis using who rows chunks after by auto
qed

subsection \<open>Samples\<close>

lemma demo_online_socket:
  "\<exists>s. sv_sockets demo_online 0 = Some s \<and> as_authenticated s \<and> sk_inbox s = [] \<and> as_machineId s = Some ''m''
     \<and> as_organizationId s = Some ''ext'' \<and> as_controlOrganizationId s = Some ''org'' \<and> sv_tasks demo_online (Message_of 0) = None"
  using handshake_result[OF demo_connected_reachable demo_ready demo_online_def refl] by (auto simp: demo_ids)

lemma demo_online_reachable: "gateway_reachable demo_env demo_online"
  unfolding demo_online_def by (rule reachable_steps[OF demo_connected_reachable])

theorem authenticated_sockets_witness:
  "\<exists>m \<in> set (cdb_machines (sv_control demo_online)). mc_id m = ''m''"
proof -
  obtain s where "sv_sockets demo_online 0 = Some s" "as_authenticated s" "as_machineId s = Some ''m''"
    using demo_online_socket by blast
  with authenticated_sockets[OF demo_online_reachable] show ?thesis by fastforce
qed

theorem unauthenticated_is_inert_witness:
  "\<not> socketReadyForAuthentication 0
     (gateway_step demo_env (Handle 0, 0) (steps demo_env 4000 [Connected 0 ''c'' ''n'', Received 0 None] demo_server))"
proof -
  let ?sv = "steps demo_env 4000 [Connected 0 ''c'' ''n'', Received 0 None] demo_server"
  have "sv_sockets ?sv 0 = Some ((new_socket ''c'' ''n'')\<lparr>sk_sent := [SM_challenge ''c'' ''n''], sk_inbox := [None]\<rparr>)"
    "sv_tasks ?sv (Message_of 0) = None"
    by (simp_all add: gateway_step_def accept_socket_def sendSocket_def upd_socket_def demo_server_def start_server_def new_socket_def)
  from unauthenticated_is_inert[OF this(1) _ _ refl, of None "[]" "Handle 0" demo_env _ _ 0] this(2)
  show ?thesis by (simp add: new_socket_def)
qed

definition demo_message :: server where
  "demo_message = steps demo_env 6000 [Received 0 (Some (CM_session_opened ''s'' ''p'' ''u'')), Handle 0] demo_online"

theorem message_isolation_witness:
  "foreign_rows ''ext'' ''m'' (sv_sessions (gateway_step demo_env (Commit (Message_of 0), 6100) demo_message))
     = foreign_rows ''ext'' ''m'' (sv_sessions demo_message)"
proof -
  obtain s where s: "sv_sockets demo_online 0 = Some s" "as_authenticated s" "sk_inbox s = []" "as_machineId s = Some ''m''"
      "as_organizationId s = Some ''ext''" "as_controlOrganizationId s = Some ''org''" "sv_tasks demo_online (Message_of 0) = None"
    using demo_online_socket by blast
  have parse: "clientMessageSchema (ge_uuid demo_env) (CM_session_opened ''s'' ''p'' ''u'') = Some (CM_session_opened ''s'' ''p'' ''u'')"
    by code_simp
  have "sv_tasks demo_message (Message_of 0) = Some \<lparr>tk_phase = Waiting (At_message 0 (CM_session_opened ''s'' ''p'' ''u'')
      ''m'' ''ext'' ''org''), tk_queue = None\<rparr>"
    using s by (simp add: demo_message_def gateway_step_def upd_socket_def idle_def handleMessage_def parse present_def
        message_machine_def settle_def)
  moreover have "gateway_reachable demo_env demo_message"
    unfolding demo_message_def by (rule reachable_steps[OF demo_online_reachable])
  ultimately show ?thesis using message_isolation[OF _ _ _ refl] by fastforce
qed

end
