(* ===== verification/Journal.thy ===== *)
theory Journal
  imports Protocol
begin

text \<open>
  The durable journal of the client, apps/client/src/journal.ts: one SQLite table of
  Commands, in rowid order.  A row is entered when a Command is first seen and leaves when
  the server acknowledged its result.  The column \<open>updated_at\<close> is written and never read,
  so it has no field; \<open>result_json\<close> is the stored result.  The last section gives the
  contract of the journal as a finite map, which the table implements.
\<close>

section \<open>The table\<close>

record command_result =
  res_status :: command_status
  res_exitCode :: "int option"
  res_error :: "string option"
  res_outputTruncated :: bool

datatype journal_state = J_received | J_running | J_completed

datatype receipt = R_new | R_running | R_completed

record journal_row =
  jr_id :: ident
  jr_state :: journal_state
  jr_result :: "command_result option"
  jr_output_truncated :: bool
  jr_output_unconfirmed :: bool

type_synonym journal = "journal_row list"

definition incomplete_output :: "string option \<Rightarrow> string" where
  "incomplete_output e = (case e of None \<Rightarrow> ''Command output is incomplete'' | Some m \<Rightarrow> m)"

definition truncatedResult :: "command_result \<Rightarrow> command_result" where
  "truncatedResult r =
     (if res_outputTruncated r then r
      else r\<lparr>res_error := Some (incomplete_output (res_error r)), res_outputTruncated := True\<rparr>)"

section \<open>Operations\<close>

definition journal_row_of :: "ident \<Rightarrow> journal \<Rightarrow> journal_row option" where
  "journal_row_of i = sql_first (\<lambda>r. jr_id r = i)"

definition unknown_outcome :: "bool \<Rightarrow> command_result" where
  "unknown_outcome incompleteOutput =
     \<lparr>res_status = C_execution_unknown, res_exitCode = None,
      res_error = Some ''Client restarted before it could prove the Command outcome'',
      res_outputTruncated = incompleteOutput\<rparr>"

definition recoverable :: "journal_row \<Rightarrow> bool" where
  "recoverable r \<longleftrightarrow> jr_state r \<noteq> J_completed \<or> jr_output_unconfirmed r"

definition recovered_result :: "journal_row \<Rightarrow> command_result" where
  "recovered_result r =
     (let incompleteOutput = jr_output_truncated r \<or> jr_output_unconfirmed r in
      case (if jr_state r = J_completed then jr_result r else None) of
        Some res \<Rightarrow> if incompleteOutput then truncatedResult res else res
      | None \<Rightarrow> unknown_outcome incompleteOutput)"

definition recovered_row :: "journal_row \<Rightarrow> journal_row" where
  "recovered_row r =
     r\<lparr>jr_state := J_completed, jr_result := Some (recovered_result r),
       jr_output_truncated := res_outputTruncated (recovered_result r),
       jr_output_unconfirmed := False\<rparr>"

text \<open>The transaction updates each selected row by its primary key, in rowid order.\<close>

definition recoverInterrupted :: "journal \<Rightarrow> nat \<times> journal" where
  "recoverInterrupted j =
     (let rows = sql_where recoverable j in
      (sql_count (\<lambda>r. jr_state r \<noteq> J_completed) rows,
       fold (\<lambda>row. sql_update (\<lambda>r. jr_id r = jr_id row) (\<lambda>_. recovered_row row)) rows j))"

definition new_row :: "ident \<Rightarrow> journal_row" where
  "new_row i = \<lparr>jr_id = i, jr_state = J_received, jr_result = None,
                jr_output_truncated = False, jr_output_unconfirmed = False\<rparr>"

definition receive :: "ident \<Rightarrow> journal \<Rightarrow> receipt \<times> journal" where
  "receive i j =
     (case journal_row_of i j of
        None \<Rightarrow> (R_new, j @ [new_row i])
      | Some r \<Rightarrow> (if jr_state r = J_completed then R_completed else R_running, j))"

definition markRunning :: "ident \<Rightarrow> journal \<Rightarrow> journal" where
  "markRunning i = sql_update (\<lambda>r. jr_id r = i) (\<lambda>r. r\<lparr>jr_state := J_running\<rparr>)"

definition markOutputUnconfirmed :: "ident \<Rightarrow> journal \<Rightarrow> journal" where
  "markOutputUnconfirmed i =
     sql_update (\<lambda>r. jr_id r = i \<and> \<not> jr_output_truncated r) (\<lambda>r. r\<lparr>jr_output_unconfirmed := True\<rparr>)"

definition journal_complete :: "ident \<Rightarrow> command_result \<Rightarrow> journal \<Rightarrow> journal" where
  "journal_complete i result j =
     (let durableResult = (case journal_row_of i j of
            Some r \<Rightarrow> if jr_output_truncated r then truncatedResult result else result
          | None \<Rightarrow> result)
      in sql_update (\<lambda>r. jr_id r = i)
           (\<lambda>r. r\<lparr>jr_state := J_completed, jr_result := Some durableResult,
                  jr_output_truncated := res_outputTruncated durableResult\<rparr>) j)"

definition journal_markOutputTruncated :: "ident \<Rightarrow> journal \<Rightarrow> journal" where
  "journal_markOutputTruncated i j =
     (case journal_row_of i j of
        None \<Rightarrow> j
      | Some row \<Rightarrow>
          let result = map_option truncatedResult (jr_result row) in
          sql_update (\<lambda>r. jr_id r = i)
            (\<lambda>r. r\<lparr>jr_result := result, jr_output_truncated := True, jr_output_unconfirmed := False\<rparr>) j)"

definition journal_result :: "ident \<Rightarrow> journal \<Rightarrow> command_result option" where
  "journal_result i j = Option.bind (journal_row_of i j) jr_result"

definition resultsForReconciliation :: "journal \<Rightarrow> (ident \<times> command_result) list" where
  "resultsForReconciliation j =
     List.map_filter (\<lambda>r. if jr_state r = J_completed then map_option (Pair (jr_id r)) (jr_result r) else None) j"

definition acknowledge :: "ident \<Rightarrow> journal \<Rightarrow> journal" where
  "acknowledge i = sql_delete (\<lambda>r. jr_id r = i \<and> jr_state r = J_completed)"

section \<open>Well-formed journals\<close>

definition row_wf :: "journal_row \<Rightarrow> bool" where
  "row_wf r \<longleftrightarrow>
     (jr_state r = J_completed \<longleftrightarrow> jr_result r \<noteq> None)
     \<and> (case jr_result r of None \<Rightarrow> True | Some res \<Rightarrow> res_outputTruncated res = jr_output_truncated r)"

definition journal_wf :: "journal \<Rightarrow> bool" where
  "journal_wf j \<longleftrightarrow> distinct (map jr_id j) \<and> (\<forall>r \<in> set j. row_wf r)"

text \<open>The calls of the journal; the client marks a Command running only before its result is stored.\<close>

datatype journal_op =
    J_receive ident
  | J_markRunning ident
  | J_unconfirm ident
  | J_truncate ident
  | J_complete ident command_result
  | J_acknowledge ident
  | J_restart

definition journal_call :: "journal_op \<Rightarrow> journal \<Rightarrow> journal" where
  "journal_call c j =
     (case c of
        J_receive i \<Rightarrow> snd (receive i j)
      | J_markRunning i \<Rightarrow> markRunning i j
      | J_unconfirm i \<Rightarrow> markOutputUnconfirmed i j
      | J_truncate i \<Rightarrow> journal_markOutputTruncated i j
      | J_complete i result \<Rightarrow> journal_complete i result j
      | J_acknowledge i \<Rightarrow> acknowledge i j
      | J_restart \<Rightarrow> snd (recoverInterrupted j))"

definition call_allowed :: "journal_op \<Rightarrow> journal \<Rightarrow> bool" where
  "call_allowed c j = (case c of J_markRunning i \<Rightarrow> journal_result i j = None | _ \<Rightarrow> True)"

section \<open>The contract: a finite map\<close>

text \<open>
  What a caller can rely on.  A Command is pending or has an outcome; its output is intact,
  unconfirmed (sent, but perhaps lost in a socket buffer) or lost.
\<close>

datatype trust = Intact | Unconfirmed | Lost

datatype entry = Pending trust | Outcome command_status "int option" "string option" trust

type_synonym book = "ident \<rightharpoonup> entry"

definition row_trust :: "journal_row \<Rightarrow> trust" where
  "row_trust r = (if jr_output_truncated r then Lost else if jr_output_unconfirmed r then Unconfirmed else Intact)"

definition row_entry :: "journal_row \<Rightarrow> entry" where
  "row_entry r = (case jr_result r of
       None \<Rightarrow> Pending (row_trust r)
     | Some res \<Rightarrow> Outcome (res_status res) (res_exitCode res) (res_error res) (row_trust r))"

definition book_of :: "journal \<Rightarrow> book" where
  "book_of j i = map_option row_entry (journal_row_of i j)"

definition entry_trust :: "entry \<Rightarrow> trust" where
  "entry_trust e = (case e of Pending t \<Rightarrow> t | Outcome _ _ _ t \<Rightarrow> t)"

definition lose :: "entry \<Rightarrow> entry" where
  "lose e = (case e of
       Pending _ \<Rightarrow> Pending Lost
     | Outcome s x m t \<Rightarrow> Outcome s x (if t = Lost then m else Some (incomplete_output m)) Lost)"

definition unconfirm :: "entry \<Rightarrow> entry" where
  "unconfirm e = (if entry_trust e \<noteq> Intact then e else case e of
       Pending _ \<Rightarrow> Pending Unconfirmed | Outcome s x m _ \<Rightarrow> Outcome s x m Unconfirmed)"

definition conclude :: "command_result \<Rightarrow> trust \<Rightarrow> entry" where
  "conclude r t =
     (let kept = Outcome (res_status r) (res_exitCode r) in
      if res_outputTruncated r then kept (res_error r) Lost
      else if t = Lost then kept (Some (incomplete_output (res_error r))) Lost
      else kept (res_error r) t)"

definition restart_entry :: "entry \<Rightarrow> entry" where
  "restart_entry e = (case e of
       Pending t \<Rightarrow> Outcome C_execution_unknown None
         (Some ''Client restarted before it could prove the Command outcome'') (if t = Intact then Intact else Lost)
     | Outcome s x m t \<Rightarrow> if t = Unconfirmed then lose e else e)"

definition book_call :: "journal_op \<Rightarrow> book \<Rightarrow> book" where
  "book_call c b =
     (case c of
        J_receive i \<Rightarrow> (if b i = None then b(i \<mapsto> Pending Intact) else b)
      | J_markRunning i \<Rightarrow> b
      | J_unconfirm i \<Rightarrow> b(i := map_option unconfirm (b i))
      | J_truncate i \<Rightarrow> b(i := map_option lose (b i))
      | J_complete i result \<Rightarrow> b(i := map_option (\<lambda>e. conclude result (entry_trust e)) (b i))
      | J_acknowledge i \<Rightarrow> (case b i of Some (Outcome _ _ _ _) \<Rightarrow> b(i := None) | _ \<Rightarrow> b)
      | J_restart \<Rightarrow> (\<lambda>i. map_option restart_entry (b i)))"

section \<open>The recovery transaction\<close>

lemma fold_key_updates:
  assumes "\<And>row. k (g row) = k row" "distinct (map k rows)"
  shows "fold (\<lambda>row. sql_update (\<lambda>r. k r = k row) (\<lambda>_. g row)) rows t =
         map (\<lambda>r. case find (\<lambda>row. k row = k r) rows of None \<Rightarrow> r | Some row \<Rightarrow> g row) t"
  using assms(2)
proof (induction rows arbitrary: t)
  case Nil
  show ?case by simp
next
  case (Cons a rows)
  have none: "find (\<lambda>row. k row = k a) rows = None"
    using Cons.prems by (auto simp: find_None_iff) (metis image_eqI)
  have step: "(\<lambda>r. case find (\<lambda>row. k row = k r) rows of None \<Rightarrow> r | Some row \<Rightarrow> g row)
      \<circ> (\<lambda>r. if k r = k a then g a else r) =
    (\<lambda>r. case find (\<lambda>row. k row = k r) (a # rows) of None \<Rightarrow> r | Some row \<Rightarrow> g row)"
  proof
    fix r
    show "((\<lambda>r. case find (\<lambda>row. k row = k r) rows of None \<Rightarrow> r | Some row \<Rightarrow> g row)
      \<circ> (\<lambda>r. if k r = k a then g a else r)) r =
      (case find (\<lambda>row. k row = k r) (a # rows) of None \<Rightarrow> r | Some row \<Rightarrow> g row)"
      using none by (cases "k r = k a") (simp_all add: assms(1) eq_commute[of "k a"])
  qed
  show ?case using Cons by (simp add: sql_update_def step)
qed

lemma find_own_key:
  assumes "distinct (map k t)" "r \<in> set t"
  shows "find (\<lambda>row. k row = k r) (filter P t) = (if P r then Some r else None)"
proof (cases "P r")
  case True
  have "sql_first (\<lambda>row. k row = k r) (filter P t) = Some r"
    by (rule sql_first_key[where k = k]) (use assms True in \<open>auto simp: distinct_map_filter\<close>)
  with True show ?thesis by (simp add: sql_first_def)
next
  case False
  with assms have "\<forall>row \<in> set (filter P t). k row \<noteq> k r" by (auto dest: distinct_key_eq)
  then show ?thesis using False by (auto simp: find_None_iff)
qed

lemma jr_id_simps [simp]:
  "jr_id (recovered_row r) = jr_id r" "jr_id (new_row i) = i"
  by (simp_all add: recovered_row_def new_row_def)

lemma recoverInterrupted_rows:
  assumes "distinct (map jr_id j)"
  shows "snd (recoverInterrupted j) = map (\<lambda>r. if recoverable r then recovered_row r else r) j"
proof -
  have "distinct (map jr_id (filter recoverable j))" using assms by (rule distinct_map_filter)
  then have "snd (recoverInterrupted j) =
    map (\<lambda>r. case find (\<lambda>row. jr_id row = jr_id r) (filter recoverable j) of
      None \<Rightarrow> r | Some row \<Rightarrow> recovered_row row) j"
    by (simp add: recoverInterrupted_def Let_def sql_where_def fold_key_updates)
  also have "\<dots> = map (\<lambda>r. if recoverable r then recovered_row r else r) j"
    by (rule map_cong) (simp_all add: find_own_key[OF assms])
  finally show ?thesis .
qed

lemma recoverInterrupted_count:
  "fst (recoverInterrupted j) = sql_count (\<lambda>r. jr_state r \<noteq> J_completed) j"
  by (simp add: recoverInterrupted_def Let_def sql_where_def sql_count_def recoverable_def)
     (metis (mono_tags, lifting) filter_cong)

section \<open>Rows by identifier\<close>

lemma journal_row_of_update:
  assumes "\<And>r. jr_id (f r) = jr_id r"
  shows "journal_row_of i (sql_update P f j) = map_option (\<lambda>r. if P r then f r else r) (journal_row_of i j)"
  by (induction j) (auto simp: journal_row_of_def assms)

lemma journal_row_of_map:
  assumes "\<And>r. jr_id (f r) = jr_id r"
  shows "journal_row_of i (map f j) = map_option f (journal_row_of i j)"
  by (induction j) (auto simp: journal_row_of_def assms)

lemma journal_row_of_append:
  "journal_row_of i (j @ [r]) = (case journal_row_of i j of None \<Rightarrow> (if jr_id r = i then Some r else None) | Some x \<Rightarrow> Some x)"
  by (simp add: journal_row_of_def sql_first_append split: option.splits)

lemma journal_row_ofD: "journal_row_of i j = Some r \<Longrightarrow> r \<in> set j \<and> jr_id r = i"
  by (auto simp: journal_row_of_def dest: sql_first_SomeD)

lemma journal_row_of_None: "journal_row_of i j = None \<longleftrightarrow> i \<notin> jr_id ` set j"
  by (auto simp: journal_row_of_def sql_first_None_iff)

lemma journal_row_of_delete:
  assumes "distinct (map jr_id j)"
  shows "journal_row_of i (sql_delete P j) =
    (case journal_row_of i j of None \<Rightarrow> None | Some r \<Rightarrow> if P r then None else Some r)"
  using assms
proof (induction j)
  case (Cons a j)
  have "jr_id a = i \<Longrightarrow> journal_row_of i (sql_delete P j) = None"
    using Cons.prems by (auto simp: journal_row_of_None)
  with Cons show ?case by (simp add: journal_row_of_def sql_delete_def)
qed (simp add: journal_row_of_def sql_delete_def)

lemma journal_row_of_member: "journal_wf j \<Longrightarrow> r \<in> set j \<Longrightarrow> journal_row_of (jr_id r) j = Some r"
  unfolding journal_row_of_def journal_wf_def by (rule sql_first_key[where k = jr_id]) auto

lemma journal_wf_row: "journal_wf j \<Longrightarrow> journal_row_of i j = Some r \<Longrightarrow> row_wf r"
  by (auto simp: journal_wf_def dest: journal_row_ofD)

section \<open>The table implements the contract\<close>

lemmas row_defs = row_wf_def row_entry_def row_trust_def

lemma sql_where_wf: "row_wf r \<Longrightarrow> jr_state r = J_completed \<longleftrightarrow> jr_result r \<noteq> None"
  by (simp add: row_wf_def)

lemma new_row_entry [simp]: "row_wf (new_row i)" "row_entry (new_row i) = Pending Intact"
  by (simp_all add: new_row_def row_defs)

lemma recovered_row_entry:
  assumes "row_wf r"
  shows "row_wf (if recoverable r then recovered_row r else r)"
    and "row_entry (if recoverable r then recovered_row r else r) = restart_entry (row_entry r)"
  using assms
  by (cases "jr_result r";
      auto simp: recovered_row_def recoverable_def recovered_result_def row_defs restart_entry_def lose_def
        truncatedResult_def unknown_outcome_def Let_def split: if_splits)+

lemma unconfirm_row_entry:
  "row_wf (r\<lparr>jr_output_unconfirmed := u\<rparr>) = row_wf r"
  "\<not> jr_output_truncated r \<Longrightarrow> row_entry (r\<lparr>jr_output_unconfirmed := True\<rparr>) = unconfirm (row_entry r)"
  "jr_output_truncated r \<Longrightarrow> unconfirm (row_entry r) = row_entry r"
  by (cases "jr_result r"; simp add: row_defs unconfirm_def entry_trust_def)+

lemma truncate_row_entry:
  assumes "row_wf r"
  shows "row_wf (r\<lparr>jr_result := map_option truncatedResult (jr_result r), jr_output_truncated := True,
      jr_output_unconfirmed := False\<rparr>)"
    and "row_entry (r\<lparr>jr_result := map_option truncatedResult (jr_result r), jr_output_truncated := True,
      jr_output_unconfirmed := False\<rparr>) = lose (row_entry r)"
  using assms by (cases "jr_result r"; auto simp: row_defs lose_def truncatedResult_def)+

lemma complete_row_entry:
  assumes "row_wf r" "d = (if jr_output_truncated r then truncatedResult result else result)"
  shows "row_wf (r\<lparr>jr_state := J_completed, jr_result := Some d, jr_output_truncated := res_outputTruncated d\<rparr>)"
    and "row_entry (r\<lparr>jr_state := J_completed, jr_result := Some d, jr_output_truncated := res_outputTruncated d\<rparr>)
      = conclude result (entry_trust (row_entry r))"
  using assms
  by (cases "jr_result r"; auto simp: row_defs conclude_def truncatedResult_def entry_trust_def Let_def)+

lemma book_of_eqI:
  assumes "\<And>x. map_option row_entry (journal_row_of x j') = b x"
  shows "book_of j' = b"
  using assms by (auto simp: book_of_def)

lemma journal_wf_update:
  assumes "journal_wf j" "\<And>r. jr_id (f r) = jr_id r" "\<And>r. r \<in> set j \<Longrightarrow> P r \<Longrightarrow> row_wf (f r)"
  shows "journal_wf (sql_update P f j)"
  using assms by (auto simp: journal_wf_def map_sql_update)

lemma markRunning_refines:
  assumes "journal_wf j" "journal_result i j = None"
  shows "journal_wf (markRunning i j)" "book_of (markRunning i j) = book_of j"
proof -
  have none: "r \<in> set j \<Longrightarrow> jr_id r = i \<Longrightarrow> jr_result r = None" for r
    using assms sql_first_key[of jr_id j r "\<lambda>r. jr_id r = i"]
    by (auto simp: journal_result_def journal_row_of_def journal_wf_def)
  show "journal_wf (markRunning i j)" unfolding markRunning_def
    by (rule journal_wf_update) (use assms none in \<open>auto simp: row_wf_def\<close>)
  show "book_of (markRunning i j) = book_of j"
  proof (rule ext)
    fix x
    show "book_of (markRunning i j) x = book_of j x"
      by (simp add: book_of_def markRunning_def journal_row_of_update)
        (auto simp: option.map_comp row_defs split: option.splits intro!: option.map_cong)
  qed
qed

lemma book_of_row_update:
  assumes "\<And>r. jr_id (f r) = jr_id r"
    and "\<And>r. journal_row_of i j = Some r \<Longrightarrow> row_entry (if Q r then f r else r) = g (row_entry r)"
  shows "book_of (sql_update (\<lambda>r. jr_id r = i \<and> Q r) f j) = (book_of j)(i := map_option g (book_of j i))"
proof (rule ext)
  fix x
  show "book_of (sql_update (\<lambda>r. jr_id r = i \<and> Q r) f j) x = ((book_of j)(i := map_option g (book_of j i))) x"
  proof (cases "journal_row_of x j")
    case None
    then show ?thesis by (auto simp: book_of_def journal_row_of_update[OF assms(1)])
  next
    case (Some r)
    then have "jr_id r = x" by (simp add: journal_row_ofD)
    with Some assms(2)[of r] show ?thesis
      by (auto simp: book_of_def journal_row_of_update[OF assms(1)])
  qed
qed

lemmas book_of_id_update = book_of_row_update[where Q = "\<lambda>_. True", simplified]

lemma receive_refines:
  assumes "journal_wf j"
  shows "journal_wf (snd (receive i j))" "book_of (snd (receive i j)) = book_call (J_receive i) (book_of j)"
proof -
  show "journal_wf (snd (receive i j))"
    using assms by (auto simp: receive_def journal_wf_def journal_row_of_None split: option.splits)
  show "book_of (snd (receive i j)) = book_call (J_receive i) (book_of j)"
    by (rule ext) (auto simp: receive_def book_of_def book_call_def journal_row_of_append split: option.splits)
qed

lemma unconfirm_refines:
  assumes "journal_wf j"
  shows "journal_wf (markOutputUnconfirmed i j)"
    "book_of (markOutputUnconfirmed i j) = book_call (J_unconfirm i) (book_of j)"
proof -
  show "journal_wf (markOutputUnconfirmed i j)" unfolding markOutputUnconfirmed_def
    by (rule journal_wf_update) (use assms in \<open>auto simp: unconfirm_row_entry journal_wf_def\<close>)
  show "book_of (markOutputUnconfirmed i j) = book_call (J_unconfirm i) (book_of j)"
    unfolding markOutputUnconfirmed_def book_call_def journal_op.case
    by (rule book_of_row_update) (auto simp: unconfirm_row_entry)
qed

lemma truncate_refines:
  assumes "journal_wf j"
  shows "journal_wf (journal_markOutputTruncated i j)"
    "book_of (journal_markOutputTruncated i j) = book_call (J_truncate i) (book_of j)"
proof (atomize (full), cases "journal_row_of i j")
  case None
  then have "book_of j i = None" by (simp add: book_of_def)
  with None assms show "journal_wf (journal_markOutputTruncated i j)
      \<and> book_of (journal_markOutputTruncated i j) = book_call (J_truncate i) (book_of j)"
    by (auto simp: journal_markOutputTruncated_def book_call_def)
next
  case (Some r)
  let ?f = "\<lambda>q. q\<lparr>jr_result := map_option truncatedResult (jr_result r), jr_output_truncated := True,
    jr_output_unconfirmed := False\<rparr>"
  have j: "journal_markOutputTruncated i j = sql_update (\<lambda>r. jr_id r = i) ?f j"
    using Some by (simp add: journal_markOutputTruncated_def)
  have wf: "row_wf r" using assms Some by (rule journal_wf_row)
  have own: "q \<in> set j \<Longrightarrow> jr_id q = i \<Longrightarrow> q = r" for q
    using assms Some by (auto simp: journal_wf_def dest!: journal_row_ofD dest: distinct_key_eq)
  have "journal_wf (sql_update (\<lambda>r. jr_id r = i) ?f j)"
    by (rule journal_wf_update) (use assms own truncate_row_entry(1)[OF wf] in auto)
  moreover have "book_of (sql_update (\<lambda>r. jr_id r = i) ?f j) = book_call (J_truncate i) (book_of j)"
    unfolding book_call_def journal_op.case
    by (rule book_of_id_update) (use Some truncate_row_entry(2)[OF wf] in auto)
  ultimately show "journal_wf (journal_markOutputTruncated i j)
      \<and> book_of (journal_markOutputTruncated i j) = book_call (J_truncate i) (book_of j)"
    by (simp add: j)
qed

lemma complete_refines:
  assumes "journal_wf j"
  shows "journal_wf (journal_complete i result j)"
    "book_of (journal_complete i result j) = book_call (J_complete i result) (book_of j)"
proof (atomize (full), cases "journal_row_of i j")
  case None
  then have "book_of j i = None" "\<And>r. r \<in> set j \<Longrightarrow> jr_id r \<noteq> i"
    by (auto simp: book_of_def journal_row_of_None)
  with None assms show "journal_wf (journal_complete i result j)
      \<and> book_of (journal_complete i result j) = book_call (J_complete i result) (book_of j)"
    by (auto simp: journal_complete_def book_call_def Let_def)
next
  case (Some r)
  define d where "d = (if jr_output_truncated r then truncatedResult result else result)"
  let ?f = "\<lambda>q. q\<lparr>jr_state := J_completed, jr_result := Some d, jr_output_truncated := res_outputTruncated d\<rparr>"
  have j: "journal_complete i result j = sql_update (\<lambda>r. jr_id r = i) ?f j"
    using Some by (simp add: journal_complete_def d_def Let_def)
  have wf: "row_wf r" using assms Some by (rule journal_wf_row)
  have own: "q \<in> set j \<Longrightarrow> jr_id q = i \<Longrightarrow> q = r" for q
    using assms Some by (auto simp: journal_wf_def dest!: journal_row_ofD dest: distinct_key_eq)
  have "journal_wf (sql_update (\<lambda>r. jr_id r = i) ?f j)"
    by (rule journal_wf_update) (use assms own complete_row_entry(1)[OF wf d_def] in auto)
  moreover have "book_of (sql_update (\<lambda>r. jr_id r = i) ?f j) = book_call (J_complete i result) (book_of j)"
    unfolding book_call_def journal_op.case
    by (rule book_of_id_update) (use Some complete_row_entry(2)[OF wf d_def] in auto)
  ultimately show "journal_wf (journal_complete i result j)
      \<and> book_of (journal_complete i result j) = book_call (J_complete i result) (book_of j)"
    by (simp add: j)
qed

lemma acknowledge_refines:
  assumes "journal_wf j"
  shows "journal_wf (acknowledge i j)" "book_of (acknowledge i j) = book_call (J_acknowledge i) (book_of j)"
proof -
  show "journal_wf (acknowledge i j)"
    using assms by (auto simp: acknowledge_def journal_wf_def sql_delete_def distinct_map_filter)
  have d: "distinct (map jr_id j)" using assms by (simp add: journal_wf_def)
  show "book_of (acknowledge i j) = book_call (J_acknowledge i) (book_of j)"
  proof (rule ext)
    fix x
    show "book_of (acknowledge i j) x = book_call (J_acknowledge i) (book_of j) x"
    proof (cases "journal_row_of x j")
      case None
      then show ?thesis
        by (auto simp: book_of_def acknowledge_def journal_row_of_delete[OF d] book_call_def
          split: option.splits entry.splits)
    next
      case (Some r)
      then have r: "row_wf r" "jr_id r = x" using assms by (auto dest: journal_wf_row journal_row_ofD)
      then show ?thesis using Some
        by (cases "jr_result r")
          (auto simp: book_of_def acknowledge_def journal_row_of_delete[OF d] book_call_def row_wf_def
            row_entry_def split: option.splits entry.splits)
    qed
  qed
qed

lemma recover_refines:
  assumes "journal_wf j"
  shows "journal_wf (snd (recoverInterrupted j))"
    "book_of (snd (recoverInterrupted j)) = book_call J_restart (book_of j)"
proof -
  have rows: "snd (recoverInterrupted j) = map (\<lambda>r. if recoverable r then recovered_row r else r) j"
    using assms by (simp add: journal_wf_def recoverInterrupted_rows)
  have ids: "map jr_id (map (\<lambda>r. if recoverable r then recovered_row r else r) j) = map jr_id j"
    by simp
  have "row_wf r \<Longrightarrow> recoverable r \<Longrightarrow> row_wf (recovered_row r)" for r
    using recovered_row_entry(1)[of r] by simp
  then show "journal_wf (snd (recoverInterrupted j))"
    unfolding rows journal_wf_def ids using assms by (auto simp: journal_wf_def)
  show "book_of (snd (recoverInterrupted j)) = book_call J_restart (book_of j)"
  proof (rule ext)
    fix x
    have "\<And>r. jr_id (if recoverable r then recovered_row r else r) = jr_id r" by simp
    note at = journal_row_of_map[OF this, of x j]
    show "book_of (snd (recoverInterrupted j)) x = book_call J_restart (book_of j) x"
    proof (cases "journal_row_of x j")
      case None
      then show ?thesis using at by (simp add: book_of_def rows book_call_def)
    next
      case (Some r)
      then have "row_wf r" using assms by (auto dest: journal_wf_row)
      then show ?thesis using at Some recovered_row_entry(2)[of r]
        by (simp add: book_of_def rows book_call_def)
    qed
  qed
qed

section \<open>Reading the journal\<close>

lemma resultsForReconciliation_iff:
  assumes "journal_wf j"
  shows "(i, res) \<in> set (resultsForReconciliation j) \<longleftrightarrow> journal_result i j = Some res"
proof -
  have "(i, res) \<in> set (resultsForReconciliation j) \<longleftrightarrow> (\<exists>r \<in> set j. jr_id r = i \<and> jr_result r = Some res)"
    using assms by (force simp: resultsForReconciliation_def map_filter_def journal_wf_def row_wf_def)
  also have "\<dots> \<longleftrightarrow> journal_result i j = Some res"
    using journal_row_of_member[OF assms]
    by (force simp: journal_result_def bind_eq_Some_conv dest: journal_row_ofD)
  finally show ?thesis .
qed

lemma journal_result_book:
  assumes "journal_wf j"
  shows "journal_result i j = Some res \<longleftrightarrow> (\<exists>t. book_of j i = Some (Outcome (res_status res) (res_exitCode res) (res_error res) t)
    \<and> (res_outputTruncated res \<longleftrightarrow> t = Lost))"
proof (cases "journal_row_of i j")
  case (Some r)
  with assms have "row_wf r" by (rule journal_wf_row)
  with Some show ?thesis
    by (cases "jr_result r") (auto simp: journal_result_def book_of_def row_defs)
qed (simp add: journal_result_def book_of_def)

lemma receive_book:
  assumes "journal_wf j"
  shows "fst (receive i j) = (case book_of j i of None \<Rightarrow> R_new | Some (Pending _) \<Rightarrow> R_running
    | Some (Outcome _ _ _ _) \<Rightarrow> R_completed)"
  using assms by (auto simp: receive_def book_of_def row_entry_def row_wf_def dest!: journal_wf_row split: option.splits)

lemma journal_call_refines:
  assumes "journal_wf j" "call_allowed c j"
  shows "journal_wf (journal_call c j) \<and> book_of (journal_call c j) = book_call c (book_of j)"
  using assms
  by (cases c)
    (simp_all add: journal_call_def call_allowed_def receive_refines markRunning_refines unconfirm_refines
      truncate_refines complete_refines acknowledge_refines recover_refines, simp add: book_call_def)

text \<open>
  C10: The client's journal implements a finite map from Commands to entries.  Every call keeps
  the table well formed (one row per Command, a result exactly when completed, the truncation
  column equal to the stored flag) and changes the map as its contract says, including
  the recovery transaction after a restart, which turns every pending Command into an
  unknown outcome and every unconfirmed output into a lost one; the receipt, the stored result and
  the list sent at reconciliation are what the map says.
\<close>

theorem journal_refines_map:
  assumes "journal_wf j" "call_allowed c j"
  shows "journal_wf (journal_call c j)
    \<and> book_of (journal_call c j) = book_call c (book_of j)
    \<and> fst (receive i j) = (case book_of j i of None \<Rightarrow> R_new | Some (Pending _) \<Rightarrow> R_running
         | Some (Outcome _ _ _ _) \<Rightarrow> R_completed)
    \<and> ((i, res) \<in> set (resultsForReconciliation j) \<longleftrightarrow>
         (\<exists>t. book_of j i = Some (Outcome (res_status res) (res_exitCode res) (res_error res) t)
            \<and> (res_outputTruncated res \<longleftrightarrow> t = Lost)))
    \<and> (journal_result i j = Some res \<longleftrightarrow> (i, res) \<in> set (resultsForReconciliation j))"
  using assms by (simp add: journal_call_refines receive_book resultsForReconciliation_iff journal_result_book)

definition demo_journal :: journal where
  "demo_journal =
     journal_complete ''c2'' \<lparr>res_status = C_succeeded, res_exitCode = Some 0, res_error = None, res_outputTruncated = False\<rparr>
       (markOutputUnconfirmed ''c2'' (snd (receive ''c2'' (markRunning ''c1'' (snd (receive ''c1'' []))))))"

lemma demo_journal_rows [simp]:
  "demo_journal =
     [\<lparr>jr_id = ''c1'', jr_state = J_running, jr_result = None, jr_output_truncated = False, jr_output_unconfirmed = False\<rparr>,
      \<lparr>jr_id = ''c2'', jr_state = J_completed,
       jr_result = Some \<lparr>res_status = C_succeeded, res_exitCode = Some 0, res_error = None, res_outputTruncated = False\<rparr>,
       jr_output_truncated = False, jr_output_unconfirmed = True\<rparr>]"
  by code_simp

theorem journal_refines_map_witness:
  "book_of (snd (recoverInterrupted demo_journal)) ''c1'' =
     Some (Outcome C_execution_unknown None (Some ''Client restarted before it could prove the Command outcome'') Intact)
   \<and> book_of (snd (recoverInterrupted demo_journal)) ''c2'' =
     Some (Outcome C_succeeded (Some 0) (Some ''Command output is incomplete'') Lost)
   \<and> fst (receive ''c2'' demo_journal) = R_completed"
proof -
  have wf: "journal_wf demo_journal" by (simp add: journal_wf_def row_wf_def)
  have call: "call_allowed J_restart demo_journal" by (simp add: call_allowed_def)
  note P = journal_refines_map[OF wf call, of "''c2''" "unknown_outcome False"]
  have b: "book_of demo_journal ''c1'' = Some (Pending Intact)"
    "book_of demo_journal ''c2'' = Some (Outcome C_succeeded (Some 0) None Unconfirmed)"
    by (simp_all add: book_of_def journal_row_of_def row_defs)
  from P b show ?thesis
    by (simp add: journal_call_def book_call_def restart_entry_def lose_def incomplete_output_def del: demo_journal_rows)
qed

end
