(* ===== verification/Client_Buffer.thy ===== *)
theory Client_Buffer
  imports Protocol Base64
begin

text \<open>
  The buffer of messages the client could not send, \<open>ClientMessageBuffer\<close> of
  apps/client/src/index.ts.  The callback \<open>beforeOutputDiscard\<close> may itself change the buffer
  (the client marks the completions in it), so an operation that calls it works on a pair
  of the world the callback sees and the buffer.  The locale states what a callback has to respect; the
  bounds of the buffer are proved once for all such callbacks.
\<close>

section \<open>State\<close>

record buffered =
  bm_message :: client_message
  bm_outputBytes :: int

record client_buffer =
  cb_messages :: "buffered list"
  cb_outputBytes :: int
  cb_maximumMessages :: nat
  cb_maximumOutputBytes :: int

datatype enqueue_result = Rejected | Accepted "ident option"

definition outputMessage :: "client_message \<Rightarrow> (ident \<times> string) option" where
  "outputMessage m = (case m of
       CM_command_output c \<Rightarrow> Some (co_commandId c, co_dataBase64 c) | _ \<Rightarrow> None)"

text \<open>\<open>Buffer.byteLength(s, "base64")\<close>: the length without the padding, times three quarters.\<close>

definition base64_byteLength :: "string \<Rightarrow> nat" where
  "base64_byteLength s =
     (let n = length s;
          n = (if 0 < n \<and> s ! (n - 1) = CHR ''='' then n - 1 else n);
          n = (if 1 < n \<and> s ! (n - 1) = CHR ''='' then n - 1 else n)
      in n * 3 div 4)"

definition message_bytes :: "client_message \<Rightarrow> int" where
  "message_bytes m = (case outputMessage m of Some (_, d) \<Rightarrow> int (base64_byteLength d) | None \<Rightarrow> 0)"

section \<open>Operations\<close>

definition completion_truncated :: "ident \<Rightarrow> client_message \<Rightarrow> client_message" where
  "completion_truncated commandId m = (case m of
       CM_command_completed c \<Rightarrow>
         if cc_commandId c = commandId \<and> \<not> cc_outputTruncated c
         then CM_command_completed
           (c\<lparr>cc_error := Some (case cc_error c of None \<Rightarrow> ''Command output is incomplete'' | Some e \<Rightarrow> e),
             cc_outputTruncated := True\<rparr>)
         else m
     | _ \<Rightarrow> m)"

definition buffer_markOutputTruncated :: "ident \<Rightarrow> client_buffer \<Rightarrow> client_buffer" where
  "buffer_markOutputTruncated commandId b =
     b\<lparr>cb_messages := map (\<lambda>e. e\<lparr>bm_message := completion_truncated commandId (bm_message e)\<rparr>) (cb_messages b)\<rparr>"

definition is_output :: "buffered \<Rightarrow> bool" where
  "is_output e \<longleftrightarrow> outputMessage (bm_message e) \<noteq> None"

text \<open>\<open>findIndex\<close>, and 0 when there is none.\<close>

definition discard_index :: "buffered list \<Rightarrow> nat" where
  "discard_index ms = (let k = length (takeWhile (\<lambda>e. \<not> is_output e) ms) in if k < length ms then k else 0)"

definition entry_at :: "nat \<Rightarrow> buffered list \<Rightarrow> buffered option" where
  "entry_at k ms = (if k < length ms then Some (ms ! k) else None)"

definition output_of_entry :: "buffered option \<Rightarrow> ident option" where
  "output_of_entry e = Option.bind e (\<lambda>e. map_option fst (outputMessage (bm_message e)))"

definition splice_at :: "nat \<Rightarrow> client_buffer \<Rightarrow> client_buffer" where
  "splice_at k b =
     b\<lparr>cb_messages := take k (cb_messages b) @ drop (Suc k) (cb_messages b),
       cb_outputBytes := cb_outputBytes b - (case entry_at k (cb_messages b) of Some e \<Rightarrow> bm_outputBytes e | None \<Rightarrow> 0)\<rparr>"

definition push_message :: "client_message \<Rightarrow> client_buffer \<Rightarrow> client_buffer" where
  "push_message m b =
     b\<lparr>cb_messages := cb_messages b @ [\<lparr>bm_message = m, bm_outputBytes = message_bytes m\<rparr>],
       cb_outputBytes := cb_outputBytes b + message_bytes m\<rparr>"

text \<open>An empty identifier is a falsy string.\<close>

definition truthy_id :: "ident option \<Rightarrow> ident option" where
  "truthy_id i = (if i = Some [] then None else i)"

type_synonym 'w discard_hook = "ident \<Rightarrow> 'w \<times> client_buffer \<Rightarrow> 'w \<times> client_buffer"

definition make_room :: "'w discard_hook \<Rightarrow> 'w \<times> client_buffer \<Rightarrow> ident option \<times> 'w \<times> client_buffer" where
  "make_room hook s =
     (let removeAt = discard_index (cb_messages (snd s));
          s = (case output_of_entry (entry_at removeAt (cb_messages (snd s))) of Some i \<Rightarrow> hook i s | None \<Rightarrow> s);
          removed = entry_at removeAt (cb_messages (snd s))
      in (output_of_entry removed, fst s, splice_at removeAt (snd s)))"

definition enqueue :: "'w discard_hook \<Rightarrow> client_message \<Rightarrow> 'w \<times> client_buffer \<Rightarrow> enqueue_result \<times> 'w \<times> client_buffer" where
  "enqueue hook m s =
     (case outputMessage m of
        Some (i, _) \<Rightarrow>
          if cb_outputBytes (snd s) + message_bytes m > cb_maximumOutputBytes (snd s) then (Rejected, hook i s)
          else if length (cb_messages (snd s)) \<ge> cb_maximumMessages (snd s) then (Rejected, hook i s)
          else (Accepted None, fst s, push_message m (snd s))
      | None \<Rightarrow>
          let (truncatedCommandId, s) =
                (if length (cb_messages (snd s)) \<ge> cb_maximumMessages (snd s) then make_room hook s else (None, s));
              truncatedCommandId = truthy_id truncatedCommandId;
              b = push_message m (snd s);
              b = (case truncatedCommandId of Some i \<Rightarrow> buffer_markOutputTruncated i b | None \<Rightarrow> b)
          in (Accepted truncatedCommandId, fst s, b))"

definition buffer_peek :: "client_buffer \<Rightarrow> client_message option" where
  "buffer_peek b = map_option bm_message (entry_at 0 (cb_messages b))"

definition buffer_shift :: "client_buffer \<Rightarrow> client_message option \<times> client_buffer" where
  "buffer_shift b = (case cb_messages b of
       [] \<Rightarrow> (None, b)
     | e # ms \<Rightarrow> (Some (bm_message e), b\<lparr>cb_messages := ms, cb_outputBytes := cb_outputBytes b - bm_outputBytes e\<rparr>))"

definition buffer_drain :: "client_buffer \<Rightarrow> client_message list \<times> client_buffer" where
  "buffer_drain b = (map bm_message (cb_messages b), b\<lparr>cb_messages := [], cb_outputBytes := 0\<rparr>)"

definition new_buffer :: "nat \<Rightarrow> int \<Rightarrow> client_buffer" where
  "new_buffer maximumMessages maximumOutputBytes =
     \<lparr>cb_messages = [], cb_outputBytes = 0, cb_maximumMessages = maximumMessages,
      cb_maximumOutputBytes = maximumOutputBytes\<rparr>"

section \<open>Bounds\<close>

definition buffer_ok :: "client_buffer \<Rightarrow> bool" where
  "buffer_ok b \<longleftrightarrow>
     length (cb_messages b) \<le> cb_maximumMessages b
     \<and> cb_outputBytes b \<le> cb_maximumOutputBytes b
     \<and> cb_outputBytes b = (\<Sum>e \<leftarrow> cb_messages b. bm_outputBytes e)
     \<and> (\<forall>e \<in> set (cb_messages b). bm_outputBytes e = message_bytes (bm_message e))"

lemma outputMessage_completion [simp]: "outputMessage (completion_truncated i m) = outputMessage m"
  by (auto simp: outputMessage_def completion_truncated_def split: client_message.splits)

lemma message_bytes_completion [simp]: "message_bytes (completion_truncated i m) = message_bytes m"
  by (simp add: message_bytes_def)

lemma message_bytes_nonneg: "0 \<le> message_bytes m"
  by (auto simp: message_bytes_def split: option.splits)

lemma message_bytes_no_output [simp]: "outputMessage m = None \<Longrightarrow> message_bytes m = 0"
  by (simp add: message_bytes_def)

text \<open>What a callback may do to the buffer: replace messages, entry by entry, by ones of the same kind and size.\<close>

definition same_shape :: "client_buffer \<Rightarrow> client_buffer \<Rightarrow> bool" where
  "same_shape b b' \<longleftrightarrow>
     cb_outputBytes b' = cb_outputBytes b \<and> cb_maximumMessages b' = cb_maximumMessages b
     \<and> cb_maximumOutputBytes b' = cb_maximumOutputBytes b
     \<and> map bm_outputBytes (cb_messages b') = map bm_outputBytes (cb_messages b)
     \<and> map (outputMessage \<circ> bm_message) (cb_messages b') = map (outputMessage \<circ> bm_message) (cb_messages b)"

lemma same_shape_refl [simp]: "same_shape b b"
  by (simp add: same_shape_def)

lemma same_shape_trans: "same_shape b c \<Longrightarrow> same_shape c d \<Longrightarrow> same_shape b d"
  by (simp add: same_shape_def)

lemma same_shape_mark [simp]: "same_shape b (buffer_markOutputTruncated i b)"
  by (simp add: same_shape_def buffer_markOutputTruncated_def comp_def)

lemma same_shape_length: "same_shape b b' \<Longrightarrow> length (cb_messages b') = length (cb_messages b)"
  unfolding same_shape_def using map_eq_imp_length_eq by blast

lemma buffer_ok_same_shape:
  assumes "same_shape b b'" "buffer_ok b"
  shows "buffer_ok b'"
proof -
  have size: "message_bytes (bm_message e) = (case (outputMessage \<circ> bm_message) e of
      Some (_, d) \<Rightarrow> int (base64_byteLength d) | None \<Rightarrow> 0)" for e
    by (simp add: message_bytes_def)
  have "map bm_outputBytes (cb_messages b) = map (\<lambda>e. message_bytes (bm_message e)) (cb_messages b)"
    using assms(2) by (auto simp: buffer_ok_def)
  then have "map bm_outputBytes (cb_messages b') =
      map (case_option 0 (\<lambda>(_, d). int (base64_byteLength d))) (map (outputMessage \<circ> bm_message) (cb_messages b'))"
    using assms(1) by (simp add: same_shape_def size comp_def)
  then have "\<forall>e \<in> set (cb_messages b'). bm_outputBytes e = message_bytes (bm_message e)"
    by (simp add: size)
  then show ?thesis
    using assms same_shape_length[OF assms(1)] unfolding buffer_ok_def same_shape_def by simp
qed

lemma buffer_ok_mark [simp]: "buffer_ok (buffer_markOutputTruncated i b) = buffer_ok b"
proof
  have len: "length (cb_messages (buffer_markOutputTruncated i b)) = length (cb_messages b)"
    by (simp add: buffer_markOutputTruncated_def)
  assume "buffer_ok (buffer_markOutputTruncated i b)"
  then show "buffer_ok b"
    by (auto simp: buffer_ok_def buffer_markOutputTruncated_def comp_def)
next
  assume "buffer_ok b"
  then show "buffer_ok (buffer_markOutputTruncated i b)" by (rule buffer_ok_same_shape[OF same_shape_mark])
qed

lemma bytes_nonneg: "\<forall>e \<in> set ms. bm_outputBytes e = message_bytes (bm_message e) \<Longrightarrow> 0 \<le> (\<Sum>e \<leftarrow> ms. bm_outputBytes e)"
  by (rule sum_list_nonneg) (auto simp: message_bytes_nonneg)

lemma sum_splice:
  assumes "k < length ms"
  shows "(\<Sum>e \<leftarrow> take k ms. bm_outputBytes e) + (\<Sum>e \<leftarrow> drop (Suc k) ms. bm_outputBytes e) = (\<Sum>e \<leftarrow> ms. bm_outputBytes e) - bm_outputBytes (ms ! k)"
proof -
  have "(\<Sum>e \<leftarrow> ms. bm_outputBytes e) = (\<Sum>e \<leftarrow> take k ms @ ms ! k # drop (Suc k) ms. bm_outputBytes e)"
    using assms by (simp add: id_take_nth_drop[symmetric])
  then show ?thesis by simp
qed

lemma splice_ok:
  assumes "buffer_ok b" "k < length (cb_messages b)"
  shows "buffer_ok (splice_at k b)" "length (cb_messages (splice_at k b)) < cb_maximumMessages b"
proof -
  have member: "e \<in> set (take k (cb_messages b) @ drop (Suc k) (cb_messages b)) \<Longrightarrow> e \<in> set (cb_messages b)" for e
    by (auto dest: in_set_takeD in_set_dropD)
  show "buffer_ok (splice_at k b)"
    using assms member sum_splice[OF assms(2)] message_bytes_nonneg[of "bm_message (cb_messages b ! k)"]
    unfolding buffer_ok_def splice_at_def entry_at_def by auto
  show "length (cb_messages (splice_at k b)) < cb_maximumMessages b"
    using assms by (auto simp: buffer_ok_def splice_at_def)
qed

lemma push_ok:
  assumes "buffer_ok b" "length (cb_messages b) < cb_maximumMessages b"
    "cb_outputBytes b + message_bytes m \<le> cb_maximumOutputBytes b"
  shows "buffer_ok (push_message m b)"
  using assms by (simp add: buffer_ok_def push_message_def)

lemma discard_index_less: "ms \<noteq> [] \<Longrightarrow> discard_index ms < length ms"
  by (simp add: discard_index_def Let_def)

lemma discard_index_output:
  assumes "\<exists>e \<in> set ms. is_output e"
  shows "is_output (ms ! discard_index ms)"
proof -
  have "length (takeWhile (\<lambda>e. \<not> is_output e) ms) < length ms"
    using assms by (metis length_takeWhile_le nat_less_le takeWhile_eq_all_conv takeWhile_eq_take take_all order_refl)
  then show ?thesis
    using nth_length_takeWhile[of "\<lambda>e. \<not> is_output e" ms] by (simp add: discard_index_def)
qed

lemma shift_ok: "buffer_ok b \<Longrightarrow> buffer_ok (snd (buffer_shift b))"
proof (cases "cb_messages b")
  case (Cons e ms)
  assume ok: "buffer_ok b"
  with Cons have "bm_outputBytes e = message_bytes (bm_message e)" by (simp add: buffer_ok_def)
  with ok Cons message_bytes_nonneg[of "bm_message e"] show ?thesis by (auto simp: buffer_shift_def buffer_ok_def)
qed (simp add: buffer_shift_def)

lemma drain_ok: "buffer_ok b \<Longrightarrow> buffer_ok (snd (buffer_drain b))"
  using bytes_nonneg[of "cb_messages b"] by (auto simp: buffer_drain_def buffer_ok_def)

lemma new_buffer_ok: "0 \<le> n \<Longrightarrow> buffer_ok (new_buffer k n)"
  by (simp add: buffer_ok_def new_buffer_def)

section \<open>Enqueueing under a callback\<close>

locale discard_callback =
  fixes hook :: "'w discard_hook"
  assumes keeps_shape: "same_shape (snd s) (snd (hook i s))"
begin

lemma make_room_shape:
  obtains b where "same_shape (snd s) b"
    and "snd (snd (make_room hook s)) = splice_at (discard_index (cb_messages (snd s))) b"
proof -
  define k where "k = discard_index (cb_messages (snd s))"
  define s' where "s' = (case output_of_entry (entry_at k (cb_messages (snd s))) of Some i \<Rightarrow> hook i s | None \<Rightarrow> s)"
  have "same_shape (snd s) (snd s')" by (auto simp: s'_def keeps_shape split: option.splits)
  moreover have "snd (snd (make_room hook s)) = splice_at k (snd s')"
    by (simp add: make_room_def Let_def s'_def k_def)
  ultimately show ?thesis using that k_def by blast
qed

lemma make_room_ok:
  assumes "buffer_ok (snd s)" "cb_messages (snd s) \<noteq> []"
  shows "buffer_ok (snd (snd (make_room hook s)))"
    and "length (cb_messages (snd (snd (make_room hook s)))) < cb_maximumMessages (snd (snd (make_room hook s)))"
    and "cb_maximumMessages (snd (snd (make_room hook s))) = cb_maximumMessages (snd s)"
    and "cb_maximumOutputBytes (snd (snd (make_room hook s))) = cb_maximumOutputBytes (snd s)"
proof -
  obtain b where b: "same_shape (snd s) b"
    and r: "snd (snd (make_room hook s)) = splice_at (discard_index (cb_messages (snd s))) b"
    by (rule make_room_shape)
  have ok: "buffer_ok b" using b assms(1) by (rule buffer_ok_same_shape)
  have k: "discard_index (cb_messages (snd s)) < length (cb_messages b)"
    using discard_index_less[OF assms(2)] same_shape_length[OF b] by simp
  show "buffer_ok (snd (snd (make_room hook s)))" using splice_ok(1)[OF ok k] by (simp add: r)
  show "length (cb_messages (snd (snd (make_room hook s)))) < cb_maximumMessages (snd (snd (make_room hook s)))"
    using splice_ok(2)[OF ok k] by (simp add: r splice_at_def)
  show "cb_maximumMessages (snd (snd (make_room hook s))) = cb_maximumMessages (snd s)"
    "cb_maximumOutputBytes (snd (snd (make_room hook s))) = cb_maximumOutputBytes (snd s)"
    using b by (simp_all add: r splice_at_def same_shape_def)
qed

lemma enqueue_ok:
  assumes "buffer_ok (snd s)" "0 < cb_maximumMessages (snd s)"
  shows "buffer_ok (snd (snd (enqueue hook m s)))"
proof (cases "outputMessage m")
  case None
  define t where "t = snd (if length (cb_messages (snd s)) \<ge> cb_maximumMessages (snd s) then make_room hook s else (None, s))"
  have t: "buffer_ok (snd t) \<and> length (cb_messages (snd t)) < cb_maximumMessages (snd t)"
  proof (cases "length (cb_messages (snd s)) \<ge> cb_maximumMessages (snd s)")
    case True
    with assms(2) have "cb_messages (snd s) \<noteq> []" by auto
    from make_room_ok[OF assms(1) this] True show ?thesis by (simp add: t_def)
  next
    case False
    with assms show ?thesis by (simp add: t_def)
  qed
  with None have "buffer_ok (push_message m (snd t))"
    by (intro push_ok) (auto simp: buffer_ok_def)
  with None show ?thesis
    by (auto simp: enqueue_def Let_def t_def split: option.splits prod.splits)
next
  case (Some x)
  obtain i d where x: "x = (i, d)" by force
  with Some assms keeps_shape[of s i] show ?thesis
    by (auto simp: enqueue_def push_ok intro: buffer_ok_same_shape)
qed

lemma enqueue_limits:
  shows "cb_maximumMessages (snd (snd (enqueue hook m s))) = cb_maximumMessages (snd s)"
    and "cb_maximumOutputBytes (snd (snd (enqueue hook m s))) = cb_maximumOutputBytes (snd s)"
proof -
  have h: "cb_maximumMessages (snd (hook i s)) = cb_maximumMessages (snd s)"
    "cb_maximumOutputBytes (snd (hook i s)) = cb_maximumOutputBytes (snd s)" for i s
    using keeps_shape[of s i] by (simp_all add: same_shape_def)
  have m: "cb_maximumMessages (snd (snd (make_room hook s))) = cb_maximumMessages (snd s)"
    "cb_maximumOutputBytes (snd (snd (make_room hook s))) = cb_maximumOutputBytes (snd s)" for s
    by (simp_all add: make_room_def Let_def splice_at_def h split: option.splits)
  show "cb_maximumMessages (snd (snd (enqueue hook m s))) = cb_maximumMessages (snd s)"
    "cb_maximumOutputBytes (snd (snd (enqueue hook m s))) = cb_maximumOutputBytes (snd s)"
    using h m[of s]
    by (auto simp: enqueue_def Let_def push_message_def buffer_markOutputTruncated_def split: option.splits prod.splits)
qed

end

end
