(* ===== verification/Command_Control.thy ===== *)
theory Command_Control
  imports Protocol
begin

text \<open>
  \<open>PendingCommand\<close> of apps/client/src/command-control.ts: the object that joins the
  preparation of a process, its cancellation and its end.  Its promises are fields: \<open>ready\<close> is
  settled or not, \<open>cancellation\<close> waits for it, then for the termination of the process tree,
  and settles once; a continuation that only waits for a settled promise runs at once.
\<close>

datatype cancellation =
    Not_requested
  | Waiting_ready
  | Terminating
  | Cancellation_done
  | Cancellation_failed string

record control =
  ct_sessionId :: ident
  ct_cancelRequested :: bool
  ct_running :: bool
  ct_readySettled :: bool
  ct_aborted :: bool
  ct_cancellation :: cancellation
  ct_finished :: bool

definition new_control :: "ident \<Rightarrow> control" where
  "new_control sessionId =
     \<lparr>ct_sessionId = sessionId, ct_cancelRequested = False, ct_running = False, ct_readySettled = False,
      ct_aborted = False, ct_cancellation = Not_requested, ct_finished = False\<rparr>"

definition ready_resolved :: "control \<Rightarrow> control" where
  "ready_resolved c =
     c\<lparr>ct_cancellation := (if ct_cancellation c = Waiting_ready
                             then (if ct_running c then Terminating else Cancellation_done)
                             else ct_cancellation c)\<rparr>"

definition attach :: "control \<Rightarrow> exn + control" where
  "attach c =
     (if ct_readySettled c then Inl (Exn ''Command execution was already registered'')
      else Inr (ready_resolved (c\<lparr>ct_running := True, ct_readySettled := True\<rparr>)))"

definition failStart :: "control \<Rightarrow> control" where
  "failStart c = (if ct_readySettled c then c else ready_resolved (c\<lparr>ct_readySettled := True\<rparr>))"

definition cancel :: "control \<Rightarrow> control" where
  "cancel c =
     (let c = c\<lparr>ct_cancelRequested := True, ct_aborted := True\<rparr> in
      if ct_cancellation c = Not_requested
      then (let c = c\<lparr>ct_cancellation := Waiting_ready\<rparr> in if ct_readySettled c then ready_resolved c else c)
      else c)"

text \<open>\<open>running.cancel()\<close> settles: it resolved, or it was rejected with a message.\<close>

definition termination_settled :: "string option \<Rightarrow> control \<Rightarrow> control" where
  "termination_settled failure c =
     (if ct_cancellation c = Terminating
      then c\<lparr>ct_cancellation := (case failure of None \<Rightarrow> Cancellation_done | Some e \<Rightarrow> Cancellation_failed e)\<rparr>
      else c)"

definition markFinished :: "control \<Rightarrow> control" where
  "markFinished c = (failStart c)\<lparr>ct_finished := True\<rparr>"

definition cancellation_settled :: "control \<Rightarrow> bool" where
  "cancellation_settled c \<longleftrightarrow> ct_cancellation c \<notin> {Not_requested, Waiting_ready, Terminating}"

definition cancellation_failure :: "control \<Rightarrow> bool" where
  "cancellation_failure c = (case ct_cancellation c of Cancellation_failed _ \<Rightarrow> True | _ \<Rightarrow> False)"

lemmas control_defs = new_control_def ready_resolved_def attach_def failStart_def cancel_def
  termination_settled_def markFinished_def cancellation_settled_def cancellation_failure_def

text \<open>
  The control of a Command that its handler still owns: the process is attached exactly when
  its preparation is over, and a cancellation of an attached process is being carried out or is settled.
\<close>

definition control_ok :: "control \<Rightarrow> bool" where
  "control_ok c \<longleftrightarrow>
     (ct_running c \<longrightarrow> ct_readySettled c)
     \<and> (ct_cancellation c = Waiting_ready \<longrightarrow> \<not> ct_readySettled c)
     \<and> (ct_cancellation c = Terminating \<longrightarrow> ct_running c)
     \<and> (ct_cancelRequested c \<longleftrightarrow> ct_cancellation c \<noteq> Not_requested)
     \<and> (ct_cancelRequested c \<longrightarrow> ct_aborted c)
     \<and> (ct_finished c \<longrightarrow> ct_readySettled c)"

lemma control_ok_steps:
  "control_ok (new_control s)"
  "control_ok c \<Longrightarrow> attach c = Inr c' \<Longrightarrow> control_ok c'"
  "control_ok c \<Longrightarrow> control_ok (failStart c)"
  "control_ok c \<Longrightarrow> control_ok (cancel c)"
  "control_ok c \<Longrightarrow> control_ok (termination_settled e c)"
  "control_ok c \<Longrightarrow> control_ok (markFinished c)"
  by (auto simp: control_ok_def control_defs Let_def split: if_splits option.splits)

lemma control_session [simp]:
  "ct_sessionId (failStart c) = ct_sessionId c" "ct_sessionId (cancel c) = ct_sessionId c"
  "ct_sessionId (termination_settled e c) = ct_sessionId c" "ct_sessionId (markFinished c) = ct_sessionId c"
  "ct_sessionId (new_control s) = s"
  by (simp_all add: control_defs Let_def)

lemma attach_session: "attach c = Inr c' \<Longrightarrow> ct_sessionId c' = ct_sessionId c"
  by (auto simp: control_defs split: if_splits)

lemma control_finished [simp]:
  "ct_finished (failStart c) = ct_finished c" "ct_finished (cancel c) = ct_finished c"
  "ct_finished (termination_settled e c) = ct_finished c" "ct_finished (markFinished c)"
  "\<not> ct_finished (new_control s)"
  by (simp_all add: control_defs Let_def)

lemma attach_finished: "attach c = Inr c' \<Longrightarrow> ct_finished c' = ct_finished c"
  by (auto simp: control_defs split: if_splits)

lemma cancel_idempotent: "cancel (cancel c) = cancel c"
  by (simp add: control_defs Let_def)

end
