(* ===== verification/Client.thy ===== *)
theory Client
  imports Journal Client_Buffer Command_Control "HOL-Library.AList"
begin

text \<open>
  The client runtime, the class \<open>Client\<close> of apps/client/src/index.ts.  The process is a state
  and a function on events: a socket opens, delivers a message or closes, the head of the
  message queue is handled, a timer fires, a child process is prepared, writes, exits or is
  terminated, the client is stopped or crashes.  One event is one run of the
  JavaScript event loop up to the next suspension; the clock is read once per event.  A
  handler that is suspended keeps the queue busy until the event that resumes it.  A
  \<open>Map\<close> is an association list and a \<open>Set\<close> a list without repetition, both in insertion
  order; the object of a running Command is an index into \<open>cl_runs\<close>, which the map \<open>commands\<close>
  and the suspended handlers share.  The user name, the signature and \<open>z.uuid\<close> are parameters.
\<close>

section \<open>Deadlines and timeouts\<close>

definition adjustedSessionDeadline :: "instant \<Rightarrow> instant option \<Rightarrow> instant \<Rightarrow> exn + instant" where
  "adjustedSessionDeadline expiresAt serverTime localNow =
     (let serverNow = (case serverTime of None \<Rightarrow> localNow | Some t \<Rightarrow> t) in
      if serverTime \<noteq> None \<and> \<bar>localNow - serverNow\<bar> > MAX_CLIENT_CLOCK_SKEW_MILLISECONDS
      then Inl (Exn ''Client clock is outside the allowed Session skew'')
      else Inr (localNow + (expiresAt - serverNow)))"

definition commandTimeoutMilliseconds :: "int \<Rightarrow> int \<Rightarrow> instant \<Rightarrow> instant \<Rightarrow> int" where
  "commandTimeoutMilliseconds requestedSeconds localMaximumSeconds sessionExpiresAt now =
     (if requestedSeconds \<le> 0 \<or> localMaximumSeconds \<le> 0 \<or> requestedSeconds > localMaximumSeconds then 0
      else max 0 (min (requestedSeconds * 1000) (sessionExpiresAt - now)))"

definition terminalMachineClose :: "int \<Rightarrow> bool" where
  "terminalMachineClose code \<longleftrightarrow> code = 4004"

text \<open>\<open>Math.ceil(x / 1000)\<close>\<close>

definition ceil_seconds :: "int \<Rightarrow> int" where
  "ceil_seconds x = - ((- x) div 1000)"

section \<open>State\<close>

record client_config =
  cfg_machineId :: ident
  cfg_privateKeyPem :: string
  cfg_profileId :: ident
  cfg_localPolicy :: local_policy

record active_session =
  as_organizationId :: ident
  as_agentId :: ident
  as_clientProfileId :: ident
  as_contractExpiresAt :: instant
  as_expiresAt :: instant
  as_maxConcurrentCommands :: int
  as_closing :: bool

text \<open>The variables of one call of \<open>startCommand\<close> and its \<open>PendingCommand\<close>.\<close>

record run =
  ru_start :: command_start_msg
  ru_control :: control
  ru_maximumOutputBytes :: int
  ru_deadline :: instant
  ru_sequence :: int
  ru_outputBytes :: int
  ru_outputTruncated :: bool
  ru_timedOut :: bool
  ru_closed :: bool

abbreviation ru_commandId :: "run \<Rightarrow> ident" where
  "ru_commandId u \<equiv> cs_commandId (ru_start u)"

datatype waiter = W_queue | W_expiry

record closing =
  cg_session :: bool
  cg_reason :: string
  cg_runs :: "nat list"
  cg_waiters :: "waiter list"

datatype busy = Busy_close nat ident | Busy_cancel nat nat

datatype shutdown = Not_shut_down | Draining | Dropped

record client =
  cl_config :: client_config
  cl_runtime :: "runtime_info option"
  cl_socket :: "nat option"
  cl_open :: "nat list"
  cl_connections :: nat
  cl_authenticated :: bool
  cl_stopped :: bool
  cl_heartbeat :: bool
  cl_reconnectTimer :: bool
  cl_reconnectDelay :: int
  cl_sessions :: "(ident \<times> active_session) list"
  cl_timers :: "ident list"
  cl_closedSessions :: "ident list"
  cl_closingSessions :: "(ident \<times> closing) list"
  cl_commands :: "(ident \<times> nat) list"
  cl_runs :: "run list"
  cl_outputTruncated :: "ident list"
  cl_unconfirmed :: "ident list"
  cl_buffer :: client_buffer
  cl_journal :: journal
  cl_queue :: "(nat \<times> server_message option) list"
  cl_busy :: "busy option"
  cl_shutdown :: shutdown
  cl_quarantined :: bool
  cl_sent :: "(nat \<times> client_message) list"
  cl_closes :: "(nat \<times> int) list"
  cl_spawned :: "ident list"

record client_env =
  ce_uuid :: "string \<Rightarrow> bool"
  ce_sign :: "string \<Rightarrow> string \<Rightarrow> string"
  ce_username :: string

definition set_add :: "'a \<Rightarrow> 'a list \<Rightarrow> 'a list" where
  "set_add x xs = (if x \<in> set xs then xs else xs @ [x])"

definition upd_run :: "nat \<Rightarrow> (run \<Rightarrow> run) \<Rightarrow> client \<Rightarrow> client" where
  "upd_run r f c = c\<lparr>cl_runs := (cl_runs c)[r := f (cl_runs c ! r)]\<rparr>"

definition upd_control :: "nat \<Rightarrow> (control \<Rightarrow> control) \<Rightarrow> client \<Rightarrow> client" where
  "upd_control r f = upd_run r (\<lambda>u. u\<lparr>ru_control := f (ru_control u)\<rparr>)"

section \<open>Sending\<close>

definition connected :: "client \<Rightarrow> bool" where
  "connected c = (case cl_socket c of None \<Rightarrow> False | Some s \<Rightarrow> s \<in> set (cl_open c))"

definition client_send :: "client_message \<Rightarrow> client \<Rightarrow> exn + client" where
  "client_send m c = (case cl_socket c of
       None \<Rightarrow> Inl (Exn ''Server is disconnected'')
     | Some s \<Rightarrow> if s \<in> set (cl_open c) then Inr (c\<lparr>cl_sent := cl_sent c @ [(s, m)]\<rparr>)
                 else Inl (Exn ''Server is disconnected''))"

definition client_closeSocket :: "nat \<Rightarrow> int \<Rightarrow> client \<Rightarrow> client" where
  "client_closeSocket s code c = c\<lparr>cl_open := removeAll s (cl_open c), cl_closes := cl_closes c @ [(s, code)]\<rparr>"

text \<open>\<open>markCommandOutputTruncated\<close>, as the callback of the buffer.\<close>

definition discard_output :: "client discard_hook" where
  "discard_output i s =
     (let c = fst s in
      (c\<lparr>cl_journal := journal_markOutputTruncated i (cl_journal c),
         cl_unconfirmed := removeAll i (cl_unconfirmed c),
         cl_outputTruncated := set_add i (cl_outputTruncated c)\<rparr>,
       buffer_markOutputTruncated i (snd s)))"

definition with_buffer :: "client \<times> client_buffer \<Rightarrow> client" where
  "with_buffer s = (fst s)\<lparr>cl_buffer := snd s\<rparr>"

definition markCommandOutputTruncated :: "ident \<Rightarrow> client \<Rightarrow> client" where
  "markCommandOutputTruncated i c = with_buffer (discard_output i (c, cl_buffer c))"

definition markCommandOutputUnconfirmed :: "ident \<Rightarrow> client \<Rightarrow> client" where
  "markCommandOutputUnconfirmed i c =
     (if i \<in> set (cl_unconfirmed c) then c
      else c\<lparr>cl_journal := markOutputUnconfirmed i (cl_journal c), cl_unconfirmed := cl_unconfirmed c @ [i]\<rparr>)"

definition markUnconfirmedOutputTruncated :: "client \<Rightarrow> client" where
  "markUnconfirmedOutputTruncated c = fold markCommandOutputTruncated (cl_unconfirmed c) c"

definition buffer_message :: "client_message \<Rightarrow> client \<Rightarrow> bool \<times> client" where
  "buffer_message m c =
     (let (result, s) = enqueue discard_output m (c, cl_buffer c) in (result \<noteq> Rejected, with_buffer s))"

definition deliver :: "client_message \<Rightarrow> client \<Rightarrow> bool \<times> client" where
  "deliver m c =
     (let c = (case outputMessage m of Some (i, _) \<Rightarrow> markCommandOutputUnconfirmed i c | None \<Rightarrow> c) in
      if cl_authenticated c \<and> connected c
      then (case client_send m c of
              Inr c' \<Rightarrow> (True, c')
            | Inl _ \<Rightarrow> buffer_message m (c\<lparr>cl_authenticated := False\<rparr>))
      else buffer_message m c)"

function flushBufferedMessages :: "client \<Rightarrow> client" where
  "flushBufferedMessages c =
     (if cl_authenticated c \<and> connected c
      then (case cb_messages (cl_buffer c) of
              [] \<Rightarrow> c
            | e # _ \<Rightarrow>
                (case client_send (bm_message e) c of
                   Inl _ \<Rightarrow> c\<lparr>cl_authenticated := False\<rparr>
                 | Inr c' \<Rightarrow> flushBufferedMessages (c'\<lparr>cl_buffer := snd (buffer_shift (cl_buffer c'))\<rparr>)))
      else c)"
  by pat_completeness auto

termination
  by (relation "measure (\<lambda>c. length (cb_messages (cl_buffer c)))")
    (auto simp: client_send_def buffer_shift_def split: option.splits if_splits list.splits)

declare flushBufferedMessages.simps [simp del]

definition completion_message :: "ident \<Rightarrow> command_result \<Rightarrow> instant \<Rightarrow> client \<Rightarrow> client_message" where
  "completion_message commandId result now c =
     (let outputTruncated = res_outputTruncated result \<or> commandId \<in> set (cl_outputTruncated c);
          error = (case res_error result of
                     Some e \<Rightarrow> Some e
                   | None \<Rightarrow> if outputTruncated then Some ''Command output is incomplete'' else None)
      in CM_command_completed
           \<lparr>cc_commandId = commandId, cc_status = res_status result, cc_exitCode = res_exitCode result,
            cc_error = (if error = Some [] then None else error),
            cc_outputTruncated = outputTruncated, cc_at = now\<rparr>)"

definition sendCompletion :: "ident \<Rightarrow> command_result \<Rightarrow> instant \<Rightarrow> client \<Rightarrow> client" where
  "sendCompletion commandId result now c = snd (deliver (completion_message commandId result now c) c)"

definition reconcileJournalResults :: "instant \<Rightarrow> client \<Rightarrow> client" where
  "reconcileJournalResults now c =
     fold (\<lambda>(i, result). sendCompletion i result now) (resultsForReconciliation (cl_journal c)) c"

definition failed_result :: "string \<Rightarrow> command_result" where
  "failed_result error = \<lparr>res_status = C_failed, res_exitCode = None, res_error = Some error, res_outputTruncated = False\<rparr>"

definition complete_command :: "ident \<Rightarrow> command_result \<Rightarrow> instant \<Rightarrow> client \<Rightarrow> client" where
  "complete_command i result now c =
     sendCompletion i result now (c\<lparr>cl_journal := journal_complete i result (cl_journal c)\<rparr>)"

definition failCommand :: "ident \<Rightarrow> string \<Rightarrow> instant \<Rightarrow> client \<Rightarrow> client" where
  "failCommand i error = complete_command i (failed_result error)"

section \<open>Shutting down\<close>

definition beginTerminalShutdown :: "client \<Rightarrow> client" where
  "beginTerminalShutdown c =
     (if cl_shutdown c \<noteq> Not_shut_down then c
      else
        let c = markUnconfirmedOutputTruncated c;
            socket = cl_socket c;
            c = c\<lparr>cl_stopped := True, cl_authenticated := False, cl_heartbeat := False,
                  cl_reconnectTimer := False, cl_socket := None, cl_shutdown := Draining\<rparr>
        in case socket of None \<Rightarrow> c | Some s \<Rightarrow> client_closeSocket s 1011 c)"

definition beginTerminalFailure :: "client \<Rightarrow> client" where
  "beginTerminalFailure c = beginTerminalShutdown (c\<lparr>cl_quarantined := True\<rparr>)"

definition client_stop :: "client \<Rightarrow> client" where
  "client_stop c =
     (if cl_shutdown c \<noteq> Not_shut_down then c
      else
        let c = markUnconfirmedOutputTruncated
                  (c\<lparr>cl_stopped := True, cl_authenticated := False, cl_heartbeat := False,
                     cl_reconnectTimer := False, cl_shutdown := Draining\<rparr>)
        in case cl_socket c of None \<Rightarrow> c | Some s \<Rightarrow> client_closeSocket s 1005 c)"

section \<open>The end of a Command\<close>

definition observe_truncation :: "nat \<Rightarrow> client \<Rightarrow> client" where
  "observe_truncation r c =
     upd_run r (\<lambda>u. u\<lparr>ru_outputTruncated := ru_outputTruncated u \<or> ru_commandId u \<in> set (cl_outputTruncated c)\<rparr>) c"

text \<open>Storing and sending the result, and the \<open>finally\<close> block.\<close>

definition finish_run :: "nat \<Rightarrow> command_result \<Rightarrow> instant \<Rightarrow> client \<Rightarrow> client" where
  "finish_run r result now c =
     (let i = ru_commandId (cl_runs c ! r);
          c = complete_command i result now c;
          c = c\<lparr>cl_commands := (if map_of (cl_commands c) i = Some r then AList.delete i (cl_commands c)
                                  else cl_commands c)\<rparr>
      in upd_control r markFinished c)"

definition exit_result :: "run \<Rightarrow> int option \<Rightarrow> command_result" where
  "exit_result u exitCode =
     \<lparr>res_status = (if ru_timedOut u then C_timed_out
                    else if ct_cancelRequested (ru_control u) then C_cancelled
                    else if exitCode = Some 0 then C_succeeded
                    else C_failed),
      res_exitCode = exitCode,
      res_error = (if ru_outputTruncated u then Some ''Output limit reached'' else None),
      res_outputTruncated = ru_outputTruncated u\<rparr>"

definition catch_result :: "run \<Rightarrow> bool \<Rightarrow> string \<Rightarrow> command_result" where
  "catch_result u terminationUnconfirmed message =
     \<lparr>res_status = (if terminationUnconfirmed then C_execution_unknown
                    else if ru_timedOut u then C_timed_out
                    else if ct_cancelRequested (ru_control u) then C_cancelled
                    else C_failed),
      res_exitCode = None,
      res_error = Some (if terminationUnconfirmed
                        then ''Unable to confirm process-tree termination: '' @ message else message),
      res_outputTruncated = ru_outputTruncated u\<rparr>"

definition run_exited :: "nat \<Rightarrow> int option \<Rightarrow> instant \<Rightarrow> client \<Rightarrow> client" where
  "run_exited r exitCode now c =
     (let c = observe_truncation r c in finish_run r (exit_result (cl_runs c ! r) exitCode) now c)"

definition run_catch :: "nat \<Rightarrow> bool \<Rightarrow> string \<Rightarrow> instant \<Rightarrow> client \<Rightarrow> client" where
  "run_catch r terminationUnconfirmed message now c =
     (let c = observe_truncation r (upd_control r failStart c);
          c = finish_run r (catch_result (cl_runs c ! r) terminationUnconfirmed message) now c
      in if terminationUnconfirmed then beginTerminalFailure c else c)"

text \<open>
  \<open>control.cancel()\<close>.  A Command whose process is not attached yet wins the race with its own
  abort signal: its handler throws and is done at once.
\<close>

definition cancel_run :: "nat \<Rightarrow> instant \<Rightarrow> client \<Rightarrow> client" where
  "cancel_run r now c =
     (let preparing = \<not> ct_readySettled (ru_control (cl_runs c ! r));
          c = upd_control r cancel c
      in if preparing
         then run_catch r False
           (if ru_timedOut (cl_runs c ! r) then ''Command deadline elapsed before process start''
            else ''Command was cancelled before process start'') now c
         else c)"

section \<open>Starting a Command\<close>

definition commands_of_session :: "ident \<Rightarrow> client \<Rightarrow> nat list" where
  "commands_of_session sessionId c =
     filter (\<lambda>r. ct_sessionId (ru_control (cl_runs c ! r)) = sessionId) (map snd (cl_commands c))"

definition start_admission :: "command_start_msg \<Rightarrow> instant \<Rightarrow> client \<Rightarrow> string + int \<times> int" where
  "start_admission m now c =
     (case map_of (cl_sessions c) (cs_sessionId m) of
        None \<Rightarrow> Inl ''Session is not active on this Client''
      | Some session \<Rightarrow>
          if as_closing session \<or> as_expiresAt session \<le> now then Inl ''Session is not active on this Client''
          else if int (length (commands_of_session (cs_sessionId m) c)) \<ge> as_maxConcurrentCommands session
          then Inl ''Local concurrent Command limit reached''
          else
            let policy = cfg_localPolicy (cl_config c);
                maximumOutputBytes = min (cs_maxOutputBytes m) (lp_maxCommandOutputBytes policy);
                timeoutMilliseconds = commandTimeoutMilliseconds (cs_timeoutSeconds m)
                  (lp_maxCommandTimeoutSeconds policy) (as_expiresAt session) now
            in if maximumOutputBytes < 1 \<or> timeoutMilliseconds \<le> 0
               then Inl ''Command exceeds Local Policy or Session expiry''
               else Inr (maximumOutputBytes, timeoutMilliseconds))"

definition new_run :: "command_start_msg \<Rightarrow> int \<Rightarrow> instant \<Rightarrow> run" where
  "new_run m maximumOutputBytes deadline =
     \<lparr>ru_start = m, ru_control = new_control (cs_sessionId m), ru_maximumOutputBytes = maximumOutputBytes,
      ru_deadline = deadline, ru_sequence = 0, ru_outputBytes = 0, ru_outputTruncated = False,
      ru_timedOut = False, ru_closed = False\<rparr>"

definition launch :: "command_start_msg \<Rightarrow> int \<Rightarrow> int \<Rightarrow> instant \<Rightarrow> client \<Rightarrow> client" where
  "launch m maximumOutputBytes timeoutMilliseconds now c =
     (let i = cs_commandId m;
          c = c\<lparr>cl_commands := AList.update i (length (cl_runs c)) (cl_commands c),
                cl_runs := cl_runs c @ [new_run m maximumOutputBytes (now + timeoutMilliseconds)],
                cl_journal := markRunning i (cl_journal c)\<rparr>
      in snd (deliver (CM_command_started i now) c))"

definition startCommand :: "command_start_msg \<Rightarrow> instant \<Rightarrow> client \<Rightarrow> client" where
  "startCommand m now c =
     (let i = cs_commandId m; (receipt, j) = receive i (cl_journal c); c = c\<lparr>cl_journal := j\<rparr> in
      case receipt of
        R_completed \<Rightarrow> (case journal_result i j of Some previous \<Rightarrow> sendCompletion i previous now c | None \<Rightarrow> c)
      | R_running \<Rightarrow> c
      | R_new \<Rightarrow>
          (case start_admission m now c of
             Inl error \<Rightarrow> failCommand i error now c
           | Inr (maximumOutputBytes, timeoutMilliseconds) \<Rightarrow>
               launch m maximumOutputBytes timeoutMilliseconds now c))"

section \<open>Output of a process\<close>

text \<open>The slices of 256 KiB the loop of \<open>emit\<close> takes.\<close>

function output_chunks :: "nat \<Rightarrow> 'a list \<Rightarrow> 'a list list" where
  "output_chunks n data = (if data = [] \<or> n = 0 then [] else take n data # output_chunks n (drop n data))"
  by pat_completeness auto

termination by (relation "measure (\<lambda>(n, data). length data)") auto

declare output_chunks.simps [simp del]

definition run_markOutputTruncated :: "nat \<Rightarrow> client \<Rightarrow> client" where
  "run_markOutputTruncated r c =
     (let u = cl_runs c ! r in
      if ru_outputTruncated u then c
      else
        let c = (if ru_commandId u \<in> set (cl_outputTruncated c) then c
                 else markCommandOutputTruncated (ru_commandId u) c)
        in upd_run r (\<lambda>u. u\<lparr>ru_outputTruncated := True\<rparr>) c)"

definition chunk_message :: "run \<Rightarrow> stream \<Rightarrow> byte list \<Rightarrow> client_message" where
  "chunk_message u stream chunk = CM_command_output
     \<lparr>co_commandId = ru_commandId u, co_sequence = ru_sequence u, co_stream = stream,
      co_dataBase64 = base64_encode chunk\<rparr>"

text \<open>The loop over the chunks; \<open>True\<close> when it ran to its end.\<close>

primrec emit_chunks :: "nat \<Rightarrow> stream \<Rightarrow> byte list list \<Rightarrow> client \<Rightarrow> bool \<times> client" where
  "emit_chunks r stream [] c = (True, c)"
| "emit_chunks r stream (chunk # chunks) c =
     (let (delivered, c') = deliver (chunk_message (cl_runs c ! r) stream chunk) c in
      if delivered
      then emit_chunks r stream chunks
        (upd_run r (\<lambda>u. u\<lparr>ru_sequence := ru_sequence u + 1,
                          ru_outputBytes := ru_outputBytes u + int (length chunk)\<rparr>) c')
      else (False, run_markOutputTruncated r c'))"

definition emit_output :: "nat \<Rightarrow> stream \<Rightarrow> byte list \<Rightarrow> client \<Rightarrow> client" where
  "emit_output r stream data c =
     (let c = observe_truncation r c; u = cl_runs c ! r in
      if ru_outputTruncated u then c
      else
        let remaining = ru_maximumOutputBytes u - ru_outputBytes u in
        if remaining \<le> 0 then run_markOutputTruncated r c
        else
          let accepted = take (nat remaining) data;
              (completed, c) = emit_chunks r stream (output_chunks (256 * 1024) accepted) c
          in if completed \<and> length accepted < length data then run_markOutputTruncated r c else c)"

section \<open>Sessions\<close>

definition denial_code :: "local_session_denial \<Rightarrow> string" where
  "denial_code d = (case d of
       organization_denied \<Rightarrow> ''organization_denied''
     | duration_denied \<Rightarrow> ''duration_denied''
     | session_concurrency_denied \<Rightarrow> ''session_concurrency_denied''
     | command_concurrency_denied \<Rightarrow> ''command_concurrency_denied'')"

definition open_failed :: "ident \<Rightarrow> string \<Rightarrow> client \<Rightarrow> client" where
  "open_failed sessionId error c = snd (deliver (CM_session_open_failed sessionId error) c)"

definition sendSessionOpened :: "client_env \<Rightarrow> ident \<Rightarrow> client \<Rightarrow> client" where
  "sendSessionOpened env sessionId c =
     snd (deliver (CM_session_opened sessionId (cfg_profileId (cl_config c)) (ce_username env)) c)"

definition retry_matches :: "session_open_msg \<Rightarrow> active_session \<Rightarrow> bool" where
  "retry_matches m e \<longleftrightarrow> \<not> as_closing e \<and> as_organizationId e = so_organizationId m
     \<and> as_agentId e = so_agentId m \<and> as_clientProfileId e = so_clientProfileId m
     \<and> as_contractExpiresAt e = so_expiresAt m \<and> as_maxConcurrentCommands e = so_maxConcurrentCommands m"

definition new_session :: "session_open_msg \<Rightarrow> instant \<Rightarrow> active_session" where
  "new_session m deadline =
     \<lparr>as_organizationId = so_organizationId m, as_agentId = so_agentId m,
      as_clientProfileId = so_clientProfileId m, as_contractExpiresAt = so_expiresAt m,
      as_expiresAt = deadline, as_maxConcurrentCommands = so_maxConcurrentCommands m,
      as_closing = False\<rparr>"

definition openSession :: "client_env \<Rightarrow> session_open_msg \<Rightarrow> instant \<Rightarrow> client \<Rightarrow> client" where
  "openSession env m now c =
     (let sid = so_sessionId m; policy = cfg_localPolicy (cl_config c) in
      if cfg_profileId (cl_config c) \<noteq> so_clientProfileId m
      then open_failed sid ''Session Client Profile is not configured locally'' c
      else if sid \<in> set (cl_closedSessions c)
      then snd (deliver (CM_session_closed sid ''already_closed'') c)
      else
        (case map_of (cl_sessions c) sid of
           Some existing \<Rightarrow>
             (if retry_matches m existing then sendSessionOpened env sid c
              else open_failed sid ''Session retry does not match active local authority'' c)
         | None \<Rightarrow>
             (case adjustedSessionDeadline (so_expiresAt m) (Some (so_serverTime m)) now of
                Inl e \<Rightarrow> open_failed sid (case e of Exn t \<Rightarrow> t | _ \<Rightarrow> []) c
              | Inr deadline \<Rightarrow>
                  let durationSeconds = ceil_seconds (deadline - now) in
                  (case localSessionDecision policy (so_organizationId m) durationSeconds
                          (int (length (cl_sessions c))) (so_maxConcurrentCommands m) of
                     Some denial \<Rightarrow>
                       open_failed sid (''Session violates Local Policy: '' @ denial_code denial) c
                   | None \<Rightarrow>
                       if durationSeconds \<le> 0
                       then open_failed sid ''Session expired before local authority opened'' c
                       else sendSessionOpened env sid
                         (c\<lparr>cl_sessions := AList.update sid (new_session m deadline) (cl_sessions c),
                            cl_timers := set_add sid (cl_timers c)\<rparr>)))))"

definition mark_closing :: "ident \<Rightarrow> (ident \<times> active_session) list \<Rightarrow> (ident \<times> active_session) list" where
  "mark_closing sid = AList.map_entry sid (\<lambda>s. s\<lparr>as_closing := True\<rparr>)"

definition remember_closed :: "ident \<Rightarrow> ident list \<Rightarrow> ident list" where
  "remember_closed sid xs = (let ys = set_add sid xs in if length ys > 1000 then tl ys else ys)"

text \<open>\<open>closeSession\<close> up to its suspension; the caller is the queue or the expiry timer.\<close>

definition closeSession :: "ident \<Rightarrow> string \<Rightarrow> waiter \<Rightarrow> instant \<Rightarrow> client \<Rightarrow> client" where
  "closeSession sid reason w now c =
     (case map_of (cl_closingSessions c) sid of
        Some pending \<Rightarrow>
          c\<lparr>cl_closingSessions :=
             AList.update sid (pending\<lparr>cg_waiters := cg_waiters pending @ [w]\<rparr>) (cl_closingSessions c)\<rparr>
      | None \<Rightarrow>
          let runs = commands_of_session sid c;
              present = (map_of (cl_sessions c) sid \<noteq> None);
              c = c\<lparr>cl_closedSessions := remember_closed sid (cl_closedSessions c),
                    cl_sessions := mark_closing sid (cl_sessions c)\<rparr>;
              c = fold (\<lambda>r. cancel_run r now) runs c
          in c\<lparr>cl_closingSessions :=
                AList.update sid \<lparr>cg_session = present, cg_reason = reason, cg_runs = runs, cg_waiters = [w]\<rparr> (cl_closingSessions c)\<rparr>)"

text \<open>The rest of \<open>closeSession\<close>, when the cancellations are settled.\<close>

definition closing_failed :: "closing \<Rightarrow> client \<Rightarrow> bool" where
  "closing_failed g c \<longleftrightarrow> (\<exists>r \<in> set (cg_runs g). cancellation_failure (ru_control (cl_runs c ! r)))"

definition closing_settled :: "closing \<Rightarrow> client \<Rightarrow> bool" where
  "closing_settled g c \<longleftrightarrow>
     (\<forall>r \<in> set (cg_runs g). cancellation_settled (ru_control (cl_runs c ! r)))
     \<and> (closing_failed g c \<or> (\<forall>r \<in> set (cg_runs g). ct_finished (ru_control (cl_runs c ! r))))"

definition busy_socket :: "busy \<Rightarrow> nat" where
  "busy_socket b = (case b of Busy_close s _ \<Rightarrow> s | Busy_cancel s _ \<Rightarrow> s)"

text \<open>The \<open>catch\<close> of the message queue closes the socket of the message.\<close>

definition queue_failed :: "client \<Rightarrow> client" where
  "queue_failed c = (case cl_busy c of
       None \<Rightarrow> c
     | Some b \<Rightarrow> client_closeSocket (busy_socket b) 4002 (c\<lparr>cl_busy := None\<rparr>))"

definition resume_waiter :: "bool \<Rightarrow> waiter \<Rightarrow> client \<Rightarrow> client" where
  "resume_waiter failed w c = (case w of
       W_queue \<Rightarrow> if failed then queue_failed c else c\<lparr>cl_busy := None\<rparr>
     | W_expiry \<Rightarrow> if failed then beginTerminalFailure c else c)"

definition finish_closing :: "ident \<Rightarrow> closing \<Rightarrow> client \<Rightarrow> client" where
  "finish_closing sid g c =
     (let failed = closing_failed g c;
          c = (if failed then c else snd (deliver (CM_session_closed sid (cg_reason g)) c));
          c = c\<lparr>cl_sessions := (if cg_session g then AList.delete sid (cl_sessions c) else cl_sessions c),
                cl_timers := (if cg_session g then removeAll sid (cl_timers c) else cl_timers c),
                cl_closingSessions := AList.delete sid (cl_closingSessions c)\<rparr>
      in fold (resume_waiter failed) (cg_waiters g) c)"

definition cancelCommand :: "ident \<Rightarrow> nat \<Rightarrow> instant \<Rightarrow> client \<Rightarrow> client" where
  "cancelCommand i s now c =
     (case map_of (cl_commands c) i of
        Some r \<Rightarrow>
          let c = cancel_run r now c in
          if cancellation_settled (ru_control (cl_runs c ! r)) then c
          else c\<lparr>cl_busy := Some (Busy_cancel s r)\<rparr>
      | None \<Rightarrow>
          (case journal_result i (cl_journal c) of
             Some previous \<Rightarrow> sendCompletion i previous now c
           | None \<Rightarrow>
               let (receipt, j) = receive i (cl_journal c);
                   fresh = (receipt = R_new);
                   result = \<lparr>res_status = (if fresh then C_cancelled else C_execution_unknown), res_exitCode = None,
                     res_error = Some (if fresh then ''Command was cancelled before execution started''
                       else ''Command execution state was unavailable when cancellation arrived''),
                     res_outputTruncated = False\<rparr>
               in complete_command i result now (c\<lparr>cl_journal := j\<rparr>)))"

section \<open>The messages of the server\<close>

definition authenticate_message :: "client_env \<Rightarrow> ident \<Rightarrow> string \<Rightarrow> client \<Rightarrow> client_message" where
  "authenticate_message env connectionId nonce c =
     (let cfg = cl_config c in
      CM_authenticate
        \<lparr>au_machineId = cfg_machineId cfg, au_protocolVersion = PROTOCOL_VERSION,
         au_signature = ce_sign env (cfg_privateKeyPem cfg) (''odyshell:'' @ connectionId @ '':'' @ nonce),
         au_runtime = cl_runtime c,
         au_sessionProfile = \<lparr>csp_id = cfg_profileId cfg, csp_operatingSystemUser = ce_username env,
                              csp_localPolicy = cfg_localPolicy cfg\<rparr>\<rparr>)"

text \<open>\<open>case "authenticated"\<close>\<close>

definition handshake_done :: "instant \<Rightarrow> client \<Rightarrow> client" where
  "handshake_done now c =
     (let c = flushBufferedMessages (c\<lparr>cl_authenticated := True, cl_reconnectDelay := 1000\<rparr>);
          c = reconcileJournalResults now c
      in c\<lparr>cl_heartbeat := True\<rparr>)"

definition acknowledged :: "ident \<Rightarrow> client \<Rightarrow> client" where
  "acknowledged i c =
     c\<lparr>cl_journal := acknowledge i (cl_journal c), cl_unconfirmed := removeAll i (cl_unconfirmed c),
       cl_outputTruncated := removeAll i (cl_outputTruncated c)\<rparr>"

definition client_handle :: "client_env \<Rightarrow> nat \<Rightarrow> server_message \<Rightarrow> instant \<Rightarrow> client \<Rightarrow> exn + client" where
  "client_handle env s m now c =
     (if cl_stopped c then Inr c
      else (case m of
        SM_challenge connectionId nonce \<Rightarrow> client_send (authenticate_message env connectionId nonce c) c
      | SM_authenticated _ \<Rightarrow> Inr (handshake_done now c)
      | SM_error _ \<Rightarrow> Inr (case cl_socket c of None \<Rightarrow> c | Some s \<Rightarrow> client_closeSocket s 4005 c)
      | SM_ping pingId \<Rightarrow> client_send (CM_pong (cfg_machineId (cl_config c)) pingId) c
      | SM_session_open m \<Rightarrow> Inr (if cl_authenticated c then openSession env m now c else c)
      | SM_session_close sid reason \<Rightarrow>
          Inr (if cl_authenticated c
               then (closeSession sid reason W_queue now c)\<lparr>cl_busy := Some (Busy_close s sid)\<rparr> else c)
      | SM_command_start m \<Rightarrow> Inr (if cl_authenticated c then startCommand m now c else c)
      | SM_command_acknowledged i \<Rightarrow> Inr (if cl_authenticated c then acknowledged i c else c)
      | SM_command_cancel i \<Rightarrow> Inr (if cl_authenticated c then cancelCommand i s now c else c)))"

text \<open>\<open>parseServerMessage\<close> on what the socket received; \<open>None\<close> is a text that is no message at all.\<close>

definition next_message :: "client_env \<Rightarrow> instant \<Rightarrow> client \<Rightarrow> client" where
  "next_message env now c =
     (case (cl_busy c, cl_queue c) of
        (None, (s, m) # rest) \<Rightarrow>
          let c = c\<lparr>cl_queue := rest\<rparr> in
          if cl_socket c \<noteq> Some s \<or> cl_stopped c then c
          else (case Option.bind m (serverMessageSchema (ce_uuid env)) of
                  None \<Rightarrow> client_closeSocket s 4002 c
                | Some m' \<Rightarrow>
                    (case client_handle env s m' now c of
                       Inr c' \<Rightarrow> c'
                     | Inl _ \<Rightarrow> client_closeSocket s 4002 c))
      | _ \<Rightarrow> c)"

section \<open>Events\<close>

definition client_connect :: "client \<Rightarrow> client" where
  "client_connect c =
     (if \<not> cl_reconnectTimer c then c
      else
        let c = c\<lparr>cl_reconnectTimer := False\<rparr> in
        if cl_stopped c then c
        else c\<lparr>cl_socket := Some (cl_connections c), cl_connections := Suc (cl_connections c),
               cl_authenticated := False\<rparr>)"

definition socket_closed :: "nat \<Rightarrow> int \<Rightarrow> client \<Rightarrow> client" where
  "socket_closed s code c =
     (let c = markUnconfirmedOutputTruncated (c\<lparr>cl_heartbeat := False, cl_open := removeAll s (cl_open c)\<rparr>) in
      if cl_socket c \<noteq> Some s then c
      else
        let c = c\<lparr>cl_socket := None, cl_authenticated := False\<rparr> in
        if terminalMachineClose code then beginTerminalShutdown c
        else if cl_stopped c then c
        else c\<lparr>cl_reconnectTimer := True, cl_reconnectDelay := min (cl_reconnectDelay c * 2) 30000\<rparr>)"

definition heartbeat_tick :: "instant \<Rightarrow> client \<Rightarrow> client" where
  "heartbeat_tick now c =
     (if \<not> cl_heartbeat c then c
      else case client_send (CM_heartbeat (cfg_machineId (cl_config c)) now) c of Inr c' \<Rightarrow> c' | Inl _ \<Rightarrow> c)"

text \<open>
  \<open>executor.execute\<close> settles: the working directory was resolved and the process spawned, or
  it failed with a message.  After the abort signal the executor throws instead of spawning.
\<close>

definition preparation_settled :: "nat \<Rightarrow> string option \<Rightarrow> instant \<Rightarrow> client \<Rightarrow> client" where
  "preparation_settled r failure now c =
     (let ct = ru_control (cl_runs c ! r) in
      if ct_aborted ct \<or> ct_finished ct then c
      else (case failure of
              Some message \<Rightarrow> run_catch r False message now c
            | None \<Rightarrow>
                (case attach ct of
                   Inl e \<Rightarrow> run_catch r False (case e of Exn t \<Rightarrow> t | _ \<Rightarrow> []) now c
                 | Inr ct' \<Rightarrow> upd_control r (\<lambda>_. ct')
                     (c\<lparr>cl_spawned := cl_spawned c @ [ru_commandId (cl_runs c ! r)]\<rparr>))))"

definition process_live :: "nat \<Rightarrow> client \<Rightarrow> bool" where
  "process_live r c \<longleftrightarrow> ct_running (ru_control (cl_runs c ! r)) \<and> \<not> ru_closed (cl_runs c ! r)"

definition process_done :: "nat \<Rightarrow> string + int option \<Rightarrow> instant \<Rightarrow> client \<Rightarrow> client" where
  "process_done r outcome now c =
     (if \<not> process_live r c then c
      else
        let c = upd_run r (\<lambda>u. u\<lparr>ru_closed := True\<rparr>) c in
        if ct_finished (ru_control (cl_runs c ! r)) then c
        else (case outcome of Inr exitCode \<Rightarrow> run_exited r exitCode now c
                            | Inl message \<Rightarrow> run_catch r False message now c))"

text \<open>\<open>running.cancel()\<close> settles.  Its failure ends a Command that is still waiting for its process.\<close>

definition termination_done :: "nat \<Rightarrow> string option \<Rightarrow> instant \<Rightarrow> client \<Rightarrow> client" where
  "termination_done r failure now c =
     (let ct = ru_control (cl_runs c ! r) in
      if ct_cancellation ct \<noteq> Terminating then c
      else
        let c = upd_control r (termination_settled failure) c in
        (case failure of
           None \<Rightarrow> c
         | Some message \<Rightarrow> if ct_finished ct then c else run_catch r True message now c))"

definition deadline_reached :: "nat \<Rightarrow> instant \<Rightarrow> client \<Rightarrow> client" where
  "deadline_reached r now c =
     (if ct_finished (ru_control (cl_runs c ! r)) \<or> now < ru_deadline (cl_runs c ! r) then c
      else cancel_run r now (upd_run r (\<lambda>u. u\<lparr>ru_timedOut := True\<rparr>) c))"

definition session_expired_timer :: "ident \<Rightarrow> instant \<Rightarrow> client \<Rightarrow> client" where
  "session_expired_timer sid now c =
     (if sid \<notin> set (cl_timers c) then c
      else closeSession sid ''expired'' W_expiry now (c\<lparr>cl_timers := removeAll sid (cl_timers c)\<rparr>))"

definition closing_event :: "ident \<Rightarrow> client \<Rightarrow> client" where
  "closing_event sid c = (case map_of (cl_closingSessions c) sid of
       Some g \<Rightarrow> if closing_settled g c then finish_closing sid g c else c
     | None \<Rightarrow> c)"

definition cancel_event :: "client \<Rightarrow> client" where
  "cancel_event c = (case cl_busy c of
       Some (Busy_cancel s r) \<Rightarrow>
         let ct = ru_control (cl_runs c ! r) in
         if \<not> cancellation_settled ct then c
         else if cancellation_failure ct then queue_failed c
         else c\<lparr>cl_busy := None\<rparr>
     | _ \<Rightarrow> c)"

text \<open>
  \<open>dropLocalAuthority\<close>, once the queue is idle.  The expiry timers are cleared after the
  cancellations; here they may still fire.
\<close>

definition dropLocalAuthority :: "instant \<Rightarrow> client \<Rightarrow> client" where
  "dropLocalAuthority now c =
     (if cl_shutdown c \<noteq> Draining \<or> cl_busy c \<noteq> None then c
      else
        let runs = map snd (cl_commands c) in
        fold (\<lambda>r. cancel_run r now) runs (c\<lparr>cl_sessions := [], cl_shutdown := Dropped\<rparr>))"

text \<open>The constructor and \<open>start\<close>: what survives a crash is the state directory.\<close>

definition boot :: "client \<Rightarrow> client" where
  "boot c =
     (if cl_quarantined c
      then c\<lparr>cl_stopped := True, cl_authenticated := False, cl_socket := None, cl_open := [],
             cl_heartbeat := False, cl_reconnectTimer := False,
             cl_sessions := [], cl_timers := [], cl_closingSessions := [], cl_commands := [], cl_runs := [],
             cl_outputTruncated := [], cl_unconfirmed := [], cl_queue := [], cl_busy := None,
             cl_shutdown := Dropped\<rparr>
      else c\<lparr>cl_stopped := False, cl_authenticated := False, cl_socket := None, cl_open := [],
             cl_heartbeat := False, cl_reconnectTimer := True, cl_reconnectDelay := 1000,
             cl_sessions := [], cl_timers := [], cl_closedSessions := [], cl_closingSessions := [],
             cl_commands := [], cl_runs := [], cl_outputTruncated := [], cl_unconfirmed := [],
             cl_buffer := new_buffer 4096 (16 * 1024 * 1024),
             cl_journal := snd (recoverInterrupted (cl_journal c)),
             cl_queue := [], cl_busy := None, cl_shutdown := Not_shut_down\<rparr>)"

datatype client_event =
    CE_connect
  | CE_open nat
  | CE_message nat "server_message option"
  | CE_next
  | CE_close nat int
  | CE_heartbeat
  | CE_prepared nat "string option"
  | CE_output nat stream "byte list"
  | CE_done nat "string + int option"
  | CE_terminated nat "string option"
  | CE_deadline nat
  | CE_expiry ident
  | CE_closing ident
  | CE_cancelled
  | CE_stop
  | CE_drop
  | CE_restart

definition client_step :: "client_env \<Rightarrow> client_event \<times> instant \<Rightarrow> client \<Rightarrow> client" where
  "client_step env e c =
     (let now = snd e in case fst e of
        CE_connect \<Rightarrow> client_connect c
      | CE_open s \<Rightarrow> (if cl_socket c = Some s then c\<lparr>cl_open := set_add s (cl_open c)\<rparr> else c)
      | CE_message s m \<Rightarrow> c\<lparr>cl_queue := cl_queue c @ [(s, m)]\<rparr>
      | CE_next \<Rightarrow> next_message env now c
      | CE_close s code \<Rightarrow> socket_closed s code c
      | CE_heartbeat \<Rightarrow> heartbeat_tick now c
      | CE_prepared r failure \<Rightarrow>
          (if r < length (cl_runs c) \<and> \<not> ct_readySettled (ru_control (cl_runs c ! r))
           then preparation_settled r failure now c else c)
      | CE_output r stream data \<Rightarrow>
          (if r < length (cl_runs c) \<and> process_live r c then emit_output r stream data c else c)
      | CE_done r outcome \<Rightarrow> (if r < length (cl_runs c) then process_done r outcome now c else c)
      | CE_terminated r failure \<Rightarrow> (if r < length (cl_runs c) then termination_done r failure now c else c)
      | CE_deadline r \<Rightarrow> (if r < length (cl_runs c) then deadline_reached r now c else c)
      | CE_expiry sid \<Rightarrow> session_expired_timer sid now c
      | CE_closing sid \<Rightarrow> closing_event sid c
      | CE_cancelled \<Rightarrow> cancel_event c
      | CE_stop \<Rightarrow> client_stop c
      | CE_drop \<Rightarrow> dropLocalAuthority now c
      | CE_restart \<Rightarrow> boot c)"

text \<open>A new installation, and what can happen to it.\<close>

definition fresh_client :: "client_config \<Rightarrow> runtime_info option \<Rightarrow> client" where
  "fresh_client cfg runtime =
     boot \<lparr>cl_config = cfg, cl_runtime = runtime, cl_socket = None, cl_open = [], cl_connections = 0,
           cl_authenticated = False, cl_stopped = False, cl_heartbeat = False, cl_reconnectTimer = False,
           cl_reconnectDelay = 1000, cl_sessions = [], cl_timers = [], cl_closedSessions = [],
           cl_closingSessions = [], cl_commands = [], cl_runs = [], cl_outputTruncated = [],
           cl_unconfirmed = [], cl_buffer = new_buffer 4096 (16 * 1024 * 1024), cl_journal = [],
           cl_queue = [], cl_busy = None, cl_shutdown = Not_shut_down, cl_quarantined = False,
           cl_sent = [], cl_closes = [], cl_spawned = []\<rparr>"

definition client_trace :: "client_env \<Rightarrow> client_config \<Rightarrow> runtime_info option \<Rightarrow> (client_event \<times> instant) list \<Rightarrow> client" where
  "client_trace env cfg runtime es = fold (client_step env) es (fresh_client cfg runtime)"

end
