(* ===== verification/Client_Invariants.thy ===== *)
theory Client_Invariants
  imports Client
begin

text \<open>
  What every event of the client keeps.  Sending, buffering and marking output change only
  the bookkeeping of messages (\<open>calm\<close>): the Commands and Sessions stay, the journal knows the same
  Commands and the same ones are pending, and the buffer stays within its bounds.  The
  invariant \<open>client_inv\<close> ties the journal, the map of Commands and their objects
  together and holds the Local Policy; it is kept by every event and by a restart.
\<close>

section \<open>Quiet steps\<close>

definition pending_entry :: "entry \<Rightarrow> bool" where
  "pending_entry e = (case e of Pending _ \<Rightarrow> True | Outcome _ _ _ _ \<Rightarrow> False)"

definition pending_in :: "book \<Rightarrow> ident set" where
  "pending_in b = {i. \<exists>e. b i = Some e \<and> pending_entry e}"

definition pending :: "journal \<Rightarrow> ident set" where
  "pending j = pending_in (book_of j)"

definition known :: "journal \<Rightarrow> ident set" where
  "known j = dom (book_of j)"

definition book_stable :: "journal \<Rightarrow> journal \<Rightarrow> bool" where
  "book_stable j j' \<longleftrightarrow> (journal_wf j \<longrightarrow> journal_wf j' \<and> pending j' = pending j \<and> known j' = known j)"

definition buffer_fine :: "client_buffer \<Rightarrow> bool" where
  "buffer_fine b \<longleftrightarrow> buffer_ok b \<and> cb_maximumMessages b = 4096 \<and> cb_maximumOutputBytes b = 16 * 1024 * 1024"

definition same_frame :: "client \<Rightarrow> client \<Rightarrow> bool" where
  "same_frame c c' \<longleftrightarrow>
     cl_config c' = cl_config c \<and> cl_sessions c' = cl_sessions c \<and> cl_timers c' = cl_timers c
     \<and> cl_closedSessions c' = cl_closedSessions c \<and> cl_closingSessions c' = cl_closingSessions c
     \<and> cl_commands c' = cl_commands c \<and> cl_runs c' = cl_runs c
     \<and> cl_shutdown c' = cl_shutdown c \<and> cl_stopped c' = cl_stopped c
     \<and> cl_quarantined c' = cl_quarantined c \<and> cl_spawned c' = cl_spawned c"

definition calm :: "client \<Rightarrow> client \<Rightarrow> bool" where
  "calm c c' \<longleftrightarrow> same_frame c c' \<and> book_stable (cl_journal c) (cl_journal c')
     \<and> (buffer_fine (cl_buffer c) \<longrightarrow> buffer_fine (cl_buffer c'))
     \<and> (cl_authenticated c' \<longrightarrow> cl_authenticated c)"

lemma book_stable_refl [simp]: "book_stable j j"
  by (simp add: book_stable_def)

lemma book_stable_trans: "book_stable a b \<Longrightarrow> book_stable b c \<Longrightarrow> book_stable a c"
  by (simp add: book_stable_def)

lemma calm_refl [simp]: "calm c c"
  by (simp add: calm_def same_frame_def)

lemma same_frame_trans: "same_frame a b \<Longrightarrow> same_frame b c \<Longrightarrow> same_frame a c"
  by (simp add: same_frame_def)

lemma calm_trans: "calm a b \<Longrightarrow> calm b c \<Longrightarrow> calm a c"
  unfolding calm_def by (meson same_frame_trans book_stable_trans)

lemma calm_fold: "(\<And>x c. calm c (f x c)) \<Longrightarrow> calm c (fold f xs c)"
proof (induction xs arbitrary: c)
  case (Cons x xs)
  then have "calm c (f x c)" "calm (f x c) (fold f xs (f x c))" by simp_all
  then show ?case by (simp add: calm_trans)
qed simp

lemma pending_entry_simps [simp]:
  "pending_entry (unconfirm e) = pending_entry e" "pending_entry (lose e) = pending_entry e"
  "\<not> pending_entry (conclude r t)" "\<not> pending_entry (restart_entry e)" "pending_entry (Pending t)"
  "\<not> pending_entry (Outcome s x m t)"
  by (auto simp: pending_entry_def unconfirm_def lose_def conclude_def restart_entry_def Let_def
      split: entry.splits)

lemma entry_update_keeps:
  "(\<And>e. pending_entry (g e) = pending_entry e) \<Longrightarrow> pending_in (b(i := map_option g (b i))) = pending_in b"
  by (auto simp: pending_in_def)

lemma book_stable_unconfirm: "book_stable j (markOutputUnconfirmed i j)"
  by (auto simp: book_stable_def unconfirm_refines pending_def known_def book_call_def entry_update_keeps)

lemma book_stable_truncate: "book_stable j (journal_markOutputTruncated i j)"
  by (auto simp: book_stable_def truncate_refines pending_def known_def book_call_def entry_update_keeps)

interpretation discard: discard_callback discard_output
  by unfold_locales (simp add: discard_output_def Let_def)

text \<open>The callback and the buffer work on pairs; a calm pair makes a calm client.\<close>

definition calm_pair :: "client \<times> client_buffer \<Rightarrow> client \<times> client_buffer \<Rightarrow> bool" where
  "calm_pair s s' \<longleftrightarrow> same_frame (fst s) (fst s') \<and> book_stable (cl_journal (fst s)) (cl_journal (fst s'))
     \<and> cl_authenticated (fst s') = cl_authenticated (fst s)"

lemma calm_pair_discard: "calm_pair s (discard_output i s)"
  by (simp add: calm_pair_def discard_output_def Let_def same_frame_def book_stable_truncate)

lemma calm_pair_same_client: "fst s' = fst s \<Longrightarrow> calm_pair s s'"
  by (simp add: calm_pair_def same_frame_def)

lemma make_room_client:
  "fst (snd (make_room discard_output s)) = fst s
   \<or> (\<exists>i. fst (snd (make_room discard_output s)) = fst (discard_output i s))"
  by (auto simp: make_room_def Let_def split: option.splits)

lemma enqueue_client:
  "fst (snd (enqueue discard_output m s)) = fst s
   \<or> (\<exists>i. fst (snd (enqueue discard_output m s)) = fst (discard_output i s))"
  using make_room_client[of s]
  by (auto simp: enqueue_def Let_def split: option.splits prod.splits if_splits)

lemma calm_pair_enqueue: "calm_pair s (snd (enqueue discard_output m s))"
  using enqueue_client[of m s] calm_pair_discard[of s]
  by (auto simp: calm_pair_def same_frame_def)

lemma calm_with_buffer:
  assumes "calm_pair (c, cl_buffer c) s" "buffer_fine (cl_buffer c) \<Longrightarrow> buffer_fine (snd s)"
  shows "calm c (with_buffer s)"
  using assms by (simp add: calm_def calm_pair_def with_buffer_def same_frame_def)

lemma calm_markTruncated: "calm c (markCommandOutputTruncated i c)"
  unfolding markCommandOutputTruncated_def
  by (rule calm_with_buffer[OF calm_pair_discard])
    (simp add: discard_output_def Let_def buffer_fine_def, simp add: buffer_markOutputTruncated_def)

lemma calm_markUnconfirmed: "calm c (markCommandOutputUnconfirmed i c)"
  by (simp add: calm_def markCommandOutputUnconfirmed_def same_frame_def book_stable_unconfirm)

lemma calm_markAll: "calm c (markUnconfirmedOutputTruncated c)"
  unfolding markUnconfirmedOutputTruncated_def by (rule calm_fold) (rule calm_markTruncated)

lemma calm_buffer_message: "calm c (snd (buffer_message m c))"
proof -
  have "buffer_fine (cl_buffer c) \<Longrightarrow> buffer_fine (snd (snd (enqueue discard_output m (c, cl_buffer c))))"
    using discard.enqueue_ok[of "(c, cl_buffer c)" m] discard.enqueue_limits[of m "(c, cl_buffer c)"]
    by (simp add: buffer_fine_def)
  with calm_pair_enqueue have "calm c (with_buffer (snd (enqueue discard_output m (c, cl_buffer c))))"
    by (rule calm_with_buffer)
  then show ?thesis by (simp add: buffer_message_def Let_def case_prod_beta)
qed

lemma calm_unauthenticated: "calm c (c\<lparr>cl_authenticated := False\<rparr>)"
  by (simp add: calm_def same_frame_def)

lemma client_send_Inr: "client_send m c = Inr c' \<Longrightarrow> \<exists>s. cl_socket c = Some s \<and> c' = c\<lparr>cl_sent := cl_sent c @ [(s, m)]\<rparr>"
  by (auto simp: client_send_def split: option.splits if_splits)

lemma calm_send: "client_send m c = Inr c' \<Longrightarrow> calm c c'"
  by (auto dest!: client_send_Inr simp: calm_def same_frame_def)

lemma calm_deliver: "calm c (snd (deliver m c))"
proof -
  define d where "d = (case outputMessage m of Some (i, _) \<Rightarrow> markCommandOutputUnconfirmed i c | None \<Rightarrow> c)"
  have d: "calm c d" by (auto simp: d_def calm_markUnconfirmed split: option.splits)
  have "calm d (snd (deliver m c))"
    using calm_buffer_message calm_trans[OF calm_unauthenticated calm_buffer_message]
    by (auto simp: deliver_def Let_def d_def[symmetric] split: sum.splits dest: calm_send)
  with d show ?thesis by (rule calm_trans)
qed

lemma calm_sendCompletion: "calm c (sendCompletion i result now c)"
  by (simp add: sendCompletion_def calm_deliver)

lemma calm_reconcile: "calm c (reconcileJournalResults now c)"
  unfolding reconcileJournalResults_def by (rule calm_fold) (simp add: case_prod_beta calm_sendCompletion)

lemma calm_flush: "calm c (flushBufferedMessages c)"
proof (induction c rule: flushBufferedMessages.induct)
  case (1 c)
  show ?case
  proof (cases "cl_authenticated c \<and> connected c")
    case False
    then show ?thesis by (subst flushBufferedMessages.simps) auto
  next
    case True
    show ?thesis
    proof (cases "cb_messages (cl_buffer c)")
      case Nil
      with True show ?thesis by (subst flushBufferedMessages.simps) simp
    next
      case (Cons e ms)
      show ?thesis
      proof (cases "client_send (bm_message e) c")
        case (Inl x)
        with True Cons calm_unauthenticated show ?thesis by (subst flushBufferedMessages.simps) simp
      next
        case (Inr c')
        define d where "d = c'\<lparr>cl_buffer := snd (buffer_shift (cl_buffer c'))\<rparr>"
        have "calm c' d"
          using shift_ok[of "cl_buffer c'"]
          by (auto simp: d_def calm_def same_frame_def buffer_fine_def buffer_shift_def split: list.splits)
        with calm_send[OF Inr] have "calm c d" by (rule calm_trans)
        also have "calm d (flushBufferedMessages d)"
          using 1 True Cons Inr by (simp add: d_def)
        finally (calm_trans) have "calm c (flushBufferedMessages d)" .
        moreover have "flushBufferedMessages c = flushBufferedMessages d"
          using True Cons Inr by (subst flushBufferedMessages.simps) (simp add: d_def)
        ultimately show ?thesis by simp
      qed
    qed
  qed
qed

section \<open>The journal, as sets of Commands\<close>

lemma journal_complete_sets:
  assumes "journal_wf j"
  shows "journal_wf (journal_complete i res j)" "pending (journal_complete i res j) = pending j - {i}"
    "known (journal_complete i res j) = known j"
  using assms by (auto simp: complete_refines pending_def pending_in_def known_def book_call_def)

lemma receive_sets:
  assumes "journal_wf j"
  shows "journal_wf (snd (receive i j))" "known (snd (receive i j)) = insert i (known j)"
    "pending (snd (receive i j)) = (if i \<in> known j then pending j else insert i (pending j))"
  using assms by (auto simp: receive_refines pending_def pending_in_def known_def book_call_def)

lemma receipt_sets:
  assumes "journal_wf j"
  shows "fst (receive i j) = R_new \<longleftrightarrow> i \<notin> known j"
    and "fst (receive i j) = R_running \<longleftrightarrow> i \<in> pending j"
  using assms
  by (auto simp: receive_book known_def pending_def pending_in_def pending_entry_def split: option.splits entry.splits)

lemma pending_known: "pending j \<subseteq> known j"
  by (auto simp: pending_def pending_in_def known_def)

lemma journal_result_pending: "journal_wf j \<Longrightarrow> i \<in> pending j \<Longrightarrow> journal_result i j = None"
  by (rule ccontr) (auto simp: pending_def pending_in_def journal_result_book)

lemma markRunning_sets:
  assumes "journal_wf j" "i \<in> pending j"
  shows "journal_wf (markRunning i j)" "pending (markRunning i j) = pending j" "known (markRunning i j) = known j"
  using assms markRunning_refines[OF assms(1) journal_result_pending[OF assms]]
  by (simp_all add: pending_def known_def)

lemma acknowledge_sets:
  assumes "journal_wf j"
  shows "journal_wf (acknowledge i j)" "pending (acknowledge i j) = pending j" "known (acknowledge i j) \<subseteq> known j"
  using assms
  by (auto simp: acknowledge_refines pending_def pending_in_def known_def book_call_def
      split: option.splits entry.splits if_splits)

lemma recover_sets:
  assumes "journal_wf j"
  shows "journal_wf (snd (recoverInterrupted j))" "pending (snd (recoverInterrupted j)) = {}"
    "known (snd (recoverInterrupted j)) = known j"
  using assms by (auto simp: recover_refines pending_def pending_in_def known_def book_call_def)

section \<open>The invariant\<close>

definition run_ok :: "local_policy \<Rightarrow> run \<Rightarrow> bool" where
  "run_ok p u \<longleftrightarrow>
     control_ok (ru_control u) \<and> ct_sessionId (ru_control u) = cs_sessionId (ru_start u)
     \<and> 0 \<le> ru_outputBytes u \<and> ru_outputBytes u \<le> ru_maximumOutputBytes u
     \<and> ru_maximumOutputBytes u \<le> lp_maxCommandOutputBytes p
     \<and> ru_maximumOutputBytes u \<le> cs_maxOutputBytes (ru_start u)"

definition unfinished :: "run list \<Rightarrow> (ident \<times> nat) set" where
  "unfinished us = {(i, r). r < length us \<and> ru_commandId (us ! r) = i \<and> \<not> ct_finished (ru_control (us ! r))}"

definition session_granted :: "client_config \<Rightarrow> active_session \<Rightarrow> bool" where
  "session_granted cfg s \<longleftrightarrow>
     as_organizationId s = lp_organizationId (cfg_localPolicy cfg)
     \<and> as_clientProfileId s = cfg_profileId cfg
     \<and> as_maxConcurrentCommands s \<le> lp_maxConcurrentCommands (cfg_localPolicy cfg)"

text \<open>
  A quarantined client that is started again: \<open>start\<close> throws before it touches the journal, so what
  was pending at the crash stays pending, and nothing ever runs in this process.
\<close>

definition refused_start :: "client \<Rightarrow> bool" where
  "refused_start c \<longleftrightarrow> cl_quarantined c \<and> cl_shutdown c = Dropped \<and> cl_runs c = []"

definition commands_inv :: "client \<Rightarrow> bool" where
  "commands_inv c \<longleftrightarrow>
     journal_wf (cl_journal c)
     \<and> distinct (map fst (cl_commands c))
     \<and> set (cl_commands c) = unfinished (cl_runs c)
     \<and> (\<forall>u \<in> set (cl_runs c). run_ok (cfg_localPolicy (cl_config c)) u)
     \<and> fst ` unfinished (cl_runs c) \<subseteq> pending (cl_journal c)
     \<and> (\<not> refused_start c \<longrightarrow> pending (cl_journal c) = fst ` unfinished (cl_runs c))"

definition sessions_inv :: "client \<Rightarrow> bool" where
  "sessions_inv c \<longleftrightarrow>
     (\<forall>(sid, s) \<in> set (cl_sessions c). session_granted (cl_config c) s)
     \<and> (cl_sessions c \<noteq> [] \<longrightarrow>
          int (length (cl_sessions c)) \<le> lp_maxConcurrentSessions (cfg_localPolicy (cl_config c)))
     \<and> length (cl_closedSessions c) \<le> 1000"

definition limits_inv :: "client \<Rightarrow> bool" where
  "limits_inv c \<longleftrightarrow>
     (\<forall>sid. commands_of_session sid c \<noteq> [] \<longrightarrow>
        int (length (commands_of_session sid c)) \<le> lp_maxConcurrentCommands (cfg_localPolicy (cl_config c)))"

definition flags_inv :: "client \<Rightarrow> bool" where
  "flags_inv c \<longleftrightarrow>
     (cl_stopped c \<longleftrightarrow> cl_shutdown c \<noteq> Not_shut_down)
     \<and> (cl_quarantined c \<longrightarrow> cl_stopped c)
     \<and> (cl_authenticated c \<longrightarrow> \<not> cl_stopped c)"

definition client_inv :: "client \<Rightarrow> bool" where
  "client_inv c \<longleftrightarrow>
     commands_inv c \<and> sessions_inv c \<and> limits_inv c \<and> flags_inv c \<and> buffer_fine (cl_buffer c)"

lemma inv_parts:
  assumes "client_inv c"
  shows "commands_inv c" "sessions_inv c" "limits_inv c" "flags_inv c" "buffer_fine (cl_buffer c)"
    "journal_wf (cl_journal c)"
  using assms by (simp_all add: client_inv_def commands_inv_def)

lemma inv_frame:
  assumes "client_inv c" "same_frame c c'" "journal_wf (cl_journal c')"
    "pending (cl_journal c') = pending (cl_journal c)"
    "buffer_fine (cl_buffer c')" "cl_authenticated c' \<longrightarrow> cl_authenticated c"
  shows "client_inv c'"
proof -
  have s: "commands_of_session sid c' = commands_of_session sid c" for sid
    using assms(2) by (simp add: same_frame_def commands_of_session_def)
  have "commands_inv c'" using assms inv_parts(1)[OF assms(1)] by (simp add: commands_inv_def same_frame_def refused_start_def)
  moreover have "sessions_inv c'" using assms inv_parts(2)[OF assms(1)] by (simp add: sessions_inv_def same_frame_def)
  moreover have "limits_inv c'" using assms inv_parts(3)[OF assms(1)] s by (simp add: limits_inv_def same_frame_def)
  moreover have "flags_inv c'" using assms(2,6) inv_parts(4)[OF assms(1)] by (auto simp: flags_inv_def same_frame_def)
  ultimately show ?thesis using assms(5) by (simp add: client_inv_def)
qed

lemma calm_inv: "calm c c' \<Longrightarrow> client_inv c \<Longrightarrow> client_inv c'"
  by (rule inv_frame) (auto simp: calm_def book_stable_def inv_parts)

lemma inv_run_ok: "client_inv c \<Longrightarrow> r < length (cl_runs c) \<Longrightarrow> run_ok (cfg_localPolicy (cl_config c)) (cl_runs c ! r)"
  by (simp add: client_inv_def commands_inv_def)

section \<open>Changing the object of a Command\<close>

lemma upd_run_frame [simp]:
  "cl_config (upd_run r f c) = cl_config c" "cl_sessions (upd_run r f c) = cl_sessions c"
  "cl_commands (upd_run r f c) = cl_commands c" "cl_journal (upd_run r f c) = cl_journal c"
  "cl_buffer (upd_run r f c) = cl_buffer c" "cl_shutdown (upd_run r f c) = cl_shutdown c"
  "cl_stopped (upd_run r f c) = cl_stopped c" "cl_quarantined (upd_run r f c) = cl_quarantined c"
  "cl_authenticated (upd_run r f c) = cl_authenticated c" "cl_closedSessions (upd_run r f c) = cl_closedSessions c"
  "cl_runs (upd_run r f c) = (cl_runs c)[r := f (cl_runs c ! r)]" "cl_spawned (upd_run r f c) = cl_spawned c"
  "cl_outputTruncated (upd_run r f c) = cl_outputTruncated c" "cl_unconfirmed (upd_run r f c) = cl_unconfirmed c"
  "cl_closingSessions (upd_run r f c) = cl_closingSessions c" "cl_timers (upd_run r f c) = cl_timers c"
  "cl_socket (upd_run r f c) = cl_socket c" "cl_open (upd_run r f c) = cl_open c" "cl_sent (upd_run r f c) = cl_sent c"
  "cl_busy (upd_run r f c) = cl_busy c"
  by (simp_all add: upd_run_def)

lemma run_session_upd:
  assumes "ct_sessionId (ru_control (f (us ! r))) = ct_sessionId (ru_control (us ! r))"
  shows "ct_sessionId (ru_control (us[r := f (us ! r)] ! k)) = ct_sessionId (ru_control (us ! k))"
  using assms by (cases "k = r"; cases "r < length us") (simp_all add: list_update_beyond)

lemma commands_of_session_upd:
  assumes "ct_sessionId (ru_control (f (cl_runs c ! r))) = ct_sessionId (ru_control (cl_runs c ! r))"
  shows "commands_of_session sid (upd_run r f c) = commands_of_session sid c"
  using run_session_upd[of f "cl_runs c" r, OF assms] by (simp add: commands_of_session_def)

lemma unfinished_upd:
  assumes "ru_start (f (us ! r)) = ru_start (us ! r)"
    "ct_finished (ru_control (f (us ! r))) = ct_finished (ru_control (us ! r))"
  shows "unfinished (us[r := f (us ! r)]) = unfinished us"
proof -
  have "ru_start (us[r := f (us ! r)] ! k) = ru_start (us ! k)
      \<and> ct_finished (ru_control (us[r := f (us ! r)] ! k)) = ct_finished (ru_control (us ! k))" for k
    using assms by (cases "k = r"; cases "r < length us") (simp_all add: list_update_beyond)
  then show ?thesis by (simp add: unfinished_def)
qed

lemma inv_upd_run:
  assumes inv: "client_inv c" and r: "r < length (cl_runs c)"
    and start: "ru_start (f (cl_runs c ! r)) = ru_start (cl_runs c ! r)"
    and fin: "ct_finished (ru_control (f (cl_runs c ! r))) = ct_finished (ru_control (cl_runs c ! r))"
    and ok: "run_ok (cfg_localPolicy (cl_config c)) (cl_runs c ! r) \<Longrightarrow>
      run_ok (cfg_localPolicy (cl_config c)) (f (cl_runs c ! r))"
  shows "client_inv (upd_run r f c)"
proof -
  note u = inv_run_ok[OF inv r]
  have "ct_sessionId (ru_control (f (cl_runs c ! r))) = ct_sessionId (ru_control (cl_runs c ! r))"
    using u ok[OF u] start by (simp add: run_ok_def)
  then have s: "commands_of_session sid (upd_run r f c) = commands_of_session sid c" for sid
    by (rule commands_of_session_upd)
  have runs: "\<forall>u \<in> set ((cl_runs c)[r := f (cl_runs c ! r)]). run_ok (cfg_localPolicy (cl_config c)) u"
    using inv ok[OF u] set_update_subset_insert[of "cl_runs c" r "f (cl_runs c ! r)"]
    by (auto simp: client_inv_def commands_inv_def)
  have "commands_inv (upd_run r f c)"
    using inv_parts(1)[OF inv] runs unfinished_upd[of f "cl_runs c" r, OF start fin] by (auto simp: commands_inv_def refused_start_def)
  moreover have "sessions_inv (upd_run r f c)" using inv_parts(2)[OF inv] by (simp add: sessions_inv_def)
  moreover have "limits_inv (upd_run r f c)" using inv_parts(3)[OF inv] s by (simp add: limits_inv_def)
  moreover have "flags_inv (upd_run r f c)" using inv_parts(4)[OF inv] by (auto simp: flags_inv_def)
  ultimately show ?thesis using inv_parts(5)[OF inv] by (simp add: client_inv_def)
qed

section \<open>Safe steps\<close>

text \<open>
  A step is safe when it keeps the invariant, spawns nothing, forgets no Command, and
  prepares a process only for a Command the journal did not know.
\<close>

abbreviation run_ready :: "run \<Rightarrow> bool" where
  "run_ready u \<equiv> ct_readySettled (ru_control u)"

definition fresh_only :: "client \<Rightarrow> client \<Rightarrow> bool" where
  "fresh_only c c' \<longleftrightarrow>
     cl_spawned c' = cl_spawned c \<and> known (cl_journal c) \<subseteq> known (cl_journal c')
     \<and> (\<forall>r < length (cl_runs c'). \<not> run_ready (cl_runs c' ! r) \<longrightarrow>
          (r < length (cl_runs c) \<and> \<not> run_ready (cl_runs c ! r) \<and> ru_start (cl_runs c' ! r) = ru_start (cl_runs c ! r))
          \<or> ru_commandId (cl_runs c' ! r) \<notin> known (cl_journal c))"

definition safe :: "client \<Rightarrow> client \<Rightarrow> bool" where
  "safe c c' \<longleftrightarrow> (client_inv c \<longrightarrow> client_inv c' \<and> fresh_only c c')"

lemma fresh_only_refl [simp]: "fresh_only c c"
  by (simp add: fresh_only_def)

lemma fresh_only_trans: "fresh_only a b \<Longrightarrow> fresh_only b c \<Longrightarrow> fresh_only a c"
  unfolding fresh_only_def by (metis subset_iff)

lemma safe_refl [simp]: "safe c c"
  by (simp add: safe_def)

lemma safe_trans [trans]: "safe a b \<Longrightarrow> safe b c \<Longrightarrow> safe a c"
  unfolding safe_def by (blast intro: fresh_only_trans)

lemma fresh_only_same_runs:
  "cl_runs c' = cl_runs c \<Longrightarrow> cl_spawned c' = cl_spawned c \<Longrightarrow> known (cl_journal c) \<subseteq> known (cl_journal c') \<Longrightarrow> fresh_only c c'"
  by (simp add: fresh_only_def)

lemma calm_safe: "calm c c' \<Longrightarrow> safe c c'"
  unfolding safe_def
  by (auto intro: calm_inv intro!: fresh_only_same_runs simp: calm_def same_frame_def book_stable_def inv_parts)

lemmas calm_fields = calm_def same_frame_def

lemma deliver_fields [simp]:
  "cl_runs (snd (deliver m c)) = cl_runs c" "cl_commands (snd (deliver m c)) = cl_commands c"
  "cl_config (snd (deliver m c)) = cl_config c" "cl_sessions (snd (deliver m c)) = cl_sessions c"
  "cl_closedSessions (snd (deliver m c)) = cl_closedSessions c" "cl_timers (snd (deliver m c)) = cl_timers c"
  "cl_closingSessions (snd (deliver m c)) = cl_closingSessions c" "cl_shutdown (snd (deliver m c)) = cl_shutdown c"
  "cl_stopped (snd (deliver m c)) = cl_stopped c" "cl_quarantined (snd (deliver m c)) = cl_quarantined c"
  "cl_spawned (snd (deliver m c)) = cl_spawned c"
  using calm_deliver[of c m] by (simp_all add: calm_fields)

lemma sendCompletion_fields [simp]:
  "cl_runs (sendCompletion i res now c) = cl_runs c" "cl_commands (sendCompletion i res now c) = cl_commands c"
  by (simp_all add: sendCompletion_def)

lemma safe_upd_run:
  assumes "r < length (cl_runs c)"
    "ru_start (f (cl_runs c ! r)) = ru_start (cl_runs c ! r)"
    "ct_finished (ru_control (f (cl_runs c ! r))) = ct_finished (ru_control (cl_runs c ! r))"
    "run_ok (cfg_localPolicy (cl_config c)) (cl_runs c ! r) \<Longrightarrow>
     run_ok (cfg_localPolicy (cl_config c)) (f (cl_runs c ! r))"
    "run_ready (cl_runs c ! r) \<Longrightarrow> run_ready (f (cl_runs c ! r))"
  shows "safe c (upd_run r f c)"
proof -
  have "fresh_only c (upd_run r f c)"
    using assms(1,2,5) by (auto simp: fresh_only_def nth_list_update)
  then show ?thesis using inv_upd_run[of c r f] assms by (simp add: safe_def)
qed

lemma safe_upd_control:
  assumes "r < length (cl_runs c)"
    "\<And>ct. ct_finished (f ct) = ct_finished ct" "\<And>ct. ct_sessionId (f ct) = ct_sessionId ct"
    "\<And>ct. control_ok ct \<Longrightarrow> control_ok (f ct)" "\<And>ct. ct_readySettled ct \<Longrightarrow> ct_readySettled (f ct)"
  shows "safe c (upd_control r f c)"
  unfolding upd_control_def by (rule safe_upd_run) (use assms in \<open>auto simp: run_ok_def\<close>)

lemma control_ready [simp]:
  "ct_readySettled ct \<Longrightarrow> ct_readySettled (cancel ct)" "ct_readySettled (failStart ct)"
  "ct_readySettled (termination_settled e ct) = ct_readySettled ct" "ct_readySettled (markFinished ct)"
  by (simp_all add: control_defs Let_def)

lemma upd_control_fields [simp]:
  "length (cl_runs (upd_control r f c)) = length (cl_runs c)"
  "cl_commands (upd_control r f c) = cl_commands c"
  "r < length (cl_runs c) \<Longrightarrow> ru_control (cl_runs (upd_control r f c) ! r) = f (ru_control (cl_runs c ! r))"
  "r < length (cl_runs c) \<Longrightarrow> ru_start (cl_runs (upd_control r f c) ! r) = ru_start (cl_runs c ! r)"
  by (simp_all add: upd_control_def)

lemma observe_truncation_fields [simp]:
  "length (cl_runs (observe_truncation r c)) = length (cl_runs c)"
  "r < length (cl_runs c) \<Longrightarrow> ru_control (cl_runs (observe_truncation r c) ! r) = ru_control (cl_runs c ! r)"
  "r < length (cl_runs c) \<Longrightarrow> ru_start (cl_runs (observe_truncation r c) ! r) = ru_start (cl_runs c ! r)"
  by (simp_all add: observe_truncation_def)

lemma safe_observe: "r < length (cl_runs c) \<Longrightarrow> safe c (observe_truncation r c)"
  unfolding observe_truncation_def by (rule safe_upd_run) (auto simp: run_ok_def)

section \<open>Finishing a Command\<close>

lemma unfinished_functional:
  assumes "client_inv c" "(i, r) \<in> unfinished (cl_runs c)" "(i, r') \<in> unfinished (cl_runs c)"
  shows "r = r'"
  using assms by (auto simp: client_inv_def commands_inv_def dest: eq_key_imp_eq_value)

lemma unfinished_finish:
  assumes "r < length us" "ct_finished (ru_control u)"
  shows "unfinished (us[r := u]) = unfinished us - {(ru_commandId (us ! r), r)}"
  using assms by (auto simp: unfinished_def nth_list_update)

lemma complete_command_effect:
  assumes "client_inv c"
  shows "same_frame c (complete_command i res now c)"
    "journal_wf (cl_journal (complete_command i res now c))"
    "pending (cl_journal (complete_command i res now c)) = pending (cl_journal c) - {i}"
    "known (cl_journal (complete_command i res now c)) = known (cl_journal c)"
    "buffer_fine (cl_buffer (complete_command i res now c))"
    "cl_authenticated (complete_command i res now c) \<longrightarrow> cl_authenticated c"
proof -
  define d where "d = c\<lparr>cl_journal := journal_complete i res (cl_journal c)\<rparr>"
  have wf: "journal_wf (cl_journal c)" using assms by (rule inv_parts)
  have "calm d (complete_command i res now c)"
    unfolding complete_command_def d_def by (rule calm_sendCompletion)
  moreover have "same_frame c d" by (simp add: d_def same_frame_def)
  ultimately show "same_frame c (complete_command i res now c)"
    "journal_wf (cl_journal (complete_command i res now c))"
    "pending (cl_journal (complete_command i res now c)) = pending (cl_journal c) - {i}"
    "known (cl_journal (complete_command i res now c)) = known (cl_journal c)"
    "buffer_fine (cl_buffer (complete_command i res now c))"
    "cl_authenticated (complete_command i res now c) \<longrightarrow> cl_authenticated c"
    using inv_parts(5)[OF assms] journal_complete_sets[OF wf, of i res]
    by (auto simp: calm_def book_stable_def d_def intro: same_frame_trans)
qed

lemma image_fst_minus:
  assumes "(i, r) \<in> U" "\<And>k. (i, k) \<in> U \<Longrightarrow> r = k"
  shows "fst ` (U - {(i, r)}) = fst ` U - {i}"
proof (intro set_eqI iffI)
  fix x assume "x \<in> fst ` (U - {(i, r)})"
  then obtain p where p: "p \<in> U" "p \<noteq> (i, r)" "x = fst p" by blast
  then have "x \<noteq> i" using assms(2)[of "snd p"] by (cases p) auto
  with p show "x \<in> fst ` U - {i}" by simp
next
  fix x assume "x \<in> fst ` U - {i}"
  then obtain k where "(x, k) \<in> U" "x \<noteq> i" by auto
  then show "x \<in> fst ` (U - {(i, r)})" by force
qed

lemma length_filter_delete:
  "length (filter P (map snd (AList.delete i xs))) \<le> length (filter P (map snd xs))"
  by (induction xs) (auto simp: AList.delete_eq)

lemma limits_le:
  assumes "limits_inv c" "cl_config d = cl_config c"
    "\<And>sid. length (commands_of_session sid d) \<le> length (commands_of_session sid c)"
  shows "limits_inv d"
  unfolding limits_inv_def
proof (intro allI impI)
  fix sid assume "commands_of_session sid d \<noteq> []"
  with assms(3)[of sid] have "commands_of_session sid c \<noteq> []" by auto
  with assms(1) have "int (length (commands_of_session sid c)) \<le> lp_maxConcurrentCommands (cfg_localPolicy (cl_config c))"
    by (simp add: limits_inv_def)
  with assms(2) assms(3)[of sid]
  show "int (length (commands_of_session sid d)) \<le> lp_maxConcurrentCommands (cfg_localPolicy (cl_config d))"
    by simp
qed

lemma safe_finish_run:
  assumes r: "r < length (cl_runs c)" "\<not> ct_finished (ru_control (cl_runs c ! r))"
  shows "safe c (finish_run r res now c)"
  unfolding safe_def
proof
  assume inv: "client_inv c"
  define i where "i = ru_commandId (cl_runs c ! r)"
  define e where "e = complete_command i res now c"
  define m :: "run \<Rightarrow> run" where "m = (\<lambda>u. u\<lparr>ru_control := markFinished (ru_control u)\<rparr>)"
  define d where "d = upd_run r m (e\<lparr>cl_commands := AList.delete i (cl_commands e)\<rparr>)"
  note eff = complete_command_effect[OF inv, of i res now, folded e_def]
  have f: "cl_runs e = cl_runs c" "cl_commands e = cl_commands c" "cl_config e = cl_config c"
    "cl_shutdown e = cl_shutdown c" "cl_sessions e = cl_sessions c" "cl_closedSessions e = cl_closedSessions c"
    "cl_stopped e = cl_stopped c" "cl_quarantined e = cl_quarantined c" "cl_spawned e = cl_spawned c"
    using eff(1) by (simp_all add: same_frame_def)
  have cmds: "set (cl_commands c) = unfinished (cl_runs c)" "distinct (map fst (cl_commands c))"
    using inv by (simp_all add: client_inv_def commands_inv_def)
  have ir: "(i, r) \<in> unfinished (cl_runs c)" using r by (simp add: unfinished_def i_def)
  then have "map_of (cl_commands c) i = Some r" using cmds by (simp add: map_of_is_SomeI)
  then have fin: "finish_run r res now c = d"
    by (simp add: finish_run_def Let_def d_def e_def i_def[symmetric] f[unfolded e_def] upd_control_def m_def)
  have un: "unfinished ((cl_runs c)[r := m (cl_runs c ! r)]) = unfinished (cl_runs c) - {(i, r)}"
    using r(1) unfinished_finish[of r "cl_runs c" "m (cl_runs c ! r)"] by (simp add: m_def i_def)
  have del: "set (AList.delete i (cl_commands c)) = unfinished (cl_runs c) - {(i, r)}"
    using cmds unfinished_functional[OF inv ir] by (auto simp: AList.delete_eq)
  have firsts: "fst ` (unfinished (cl_runs c) - {(i, r)}) = fst ` unfinished (cl_runs c) - {i}"
    by (rule image_fst_minus[OF ir unfinished_functional[OF inv ir]])
  have runs: "\<forall>u \<in> set ((cl_runs c)[r := m (cl_runs c ! r)]). run_ok (cfg_localPolicy (cl_config c)) u"
    using inv inv_run_ok[OF inv r(1)] set_update_subset_insert[of "cl_runs c" r "m (cl_runs c ! r)"]
    by (auto simp: client_inv_def commands_inv_def run_ok_def m_def control_ok_steps)
  have going: "\<not> refused_start c" "\<not> refused_start d"
    using r(1) by (auto simp: refused_start_def d_def f)
  have pend: "pending (cl_journal c) = fst ` unfinished (cl_runs c)"
    using inv_parts(1)[OF inv] going(1) by (simp add: commands_inv_def)
  have "pending (cl_journal d) = fst ` unfinished (cl_runs d)"
    using eff(3) by (simp add: d_def f un firsts pend)
  then have "commands_inv d"
    using inv_parts(1)[OF inv] eff(2,3) runs going pend
    by (simp add: commands_inv_def d_def f un del firsts distinct_delete)
  moreover have "sessions_inv d" using inv_parts(2)[OF inv] by (simp add: sessions_inv_def d_def f)
  moreover have "limits_inv d"
  proof -
    have "length (commands_of_session sid d) \<le> length (commands_of_session sid c)" for sid
      using run_session_upd[of m "cl_runs c" r] length_filter_delete
      by (simp add: commands_of_session_def d_def f m_def)
    then show ?thesis using inv_parts(3)[OF inv] by (intro limits_le[of c d]) (simp_all add: d_def f)
  qed
  moreover have "flags_inv d" using inv_parts(4)[OF inv] eff(6) by (auto simp: flags_inv_def d_def f)
  moreover have "buffer_fine (cl_buffer d)" using eff(5) by (simp add: d_def)
  moreover have "fresh_only c d" using eff(4) r(1)
    by (auto simp: fresh_only_def d_def f m_def nth_list_update)
  ultimately show "client_inv (finish_run r res now c) \<and> fresh_only c (finish_run r res now c)"
    by (simp add: fin client_inv_def)
qed

end
