(* ===== verification/Client_Steps.thy ===== *)
theory Client_Steps
  imports Client_Invariants
begin

text \<open>
  Every operation of the client is safe (\<open>Client_Invariants\<close>), from the end of a Command to
  the handlers of messages and the events; \<open>client_step_inv\<close> closes the induction.
\<close>

section \<open>Shutting down\<close>

lemma sessions_inv_cong:
  "sessions_inv c \<Longrightarrow> cl_config d = cl_config c \<Longrightarrow> cl_sessions d = cl_sessions c \<Longrightarrow>
   cl_closedSessions d = cl_closedSessions c \<Longrightarrow> sessions_inv d"
  by (simp add: sessions_inv_def)

lemma calm_fields_markAll [simp]:
  "cl_runs (markUnconfirmedOutputTruncated c) = cl_runs c"
  "cl_shutdown (markUnconfirmedOutputTruncated c) = cl_shutdown c"
  "cl_stopped (markUnconfirmedOutputTruncated c) = cl_stopped c"
  using calm_markAll[of c] by (simp_all add: calm_fields)

lemma closeSocket_calm: "calm c (client_closeSocket s code c)"
  by (simp add: client_closeSocket_def calm_fields)

text \<open>A change of the fields the invariant of the Commands does not read, apart from the Sessions and the flags.\<close>

lemma inv_change:
  assumes "client_inv c" "cl_config d = cl_config c" "cl_commands d = cl_commands c" "cl_runs d = cl_runs c"
    "cl_journal d = cl_journal c" "cl_buffer d = cl_buffer c" "cl_spawned d = cl_spawned c"
    "refused_start c \<longrightarrow> refused_start d" "sessions_inv d" "flags_inv d"
  shows "client_inv d \<and> fresh_only c d"
proof -
  have "commands_inv d" using inv_parts(1)[OF assms(1)] assms by (auto simp: commands_inv_def)
  moreover have "limits_inv d"
    using inv_parts(3)[OF assms(1)] assms by (simp add: limits_inv_def commands_of_session_def)
  moreover have "buffer_fine (cl_buffer d)" using inv_parts(5)[OF assms(1)] assms by simp
  ultimately show ?thesis using assms by (simp add: client_inv_def fresh_only_def)
qed

lemma inv_flags:
  assumes "client_inv c" "cl_config d = cl_config c" "cl_sessions d = cl_sessions c"
    "cl_closedSessions d = cl_closedSessions c" "cl_commands d = cl_commands c" "cl_runs d = cl_runs c"
    "cl_journal d = cl_journal c" "cl_buffer d = cl_buffer c" "cl_spawned d = cl_spawned c"
    "refused_start c \<longrightarrow> refused_start d" "flags_inv d"
  shows "client_inv d \<and> fresh_only c d"
  by (rule inv_change) (use assms sessions_inv_cong[OF inv_parts(2)[OF assms(1)]] in auto)

lemma mark_truncated_quarantine:
  "markCommandOutputTruncated i (c\<lparr>cl_quarantined := q\<rparr>) = (markCommandOutputTruncated i c)\<lparr>cl_quarantined := q\<rparr>"
  by (simp add: markCommandOutputTruncated_def with_buffer_def discard_output_def Let_def)

lemma safe_terminal_quarantined:
  assumes "client_inv c" "cl_quarantined c \<longrightarrow> q"
  shows "client_inv (beginTerminalShutdown (c\<lparr>cl_quarantined := q\<rparr>)) \<and> fresh_only c (beginTerminalShutdown (c\<lparr>cl_quarantined := q\<rparr>))"
proof (cases "cl_shutdown c = Not_shut_down")
  case False
  then have "beginTerminalShutdown (c\<lparr>cl_quarantined := q\<rparr>) = c\<lparr>cl_quarantined := q\<rparr>"
    by (simp add: beginTerminalShutdown_def)
  moreover have "client_inv (c\<lparr>cl_quarantined := q\<rparr>) \<and> fresh_only c (c\<lparr>cl_quarantined := q\<rparr>)"
    by (rule inv_flags[OF assms(1)]) (use False assms(2) inv_parts(4)[OF assms(1)] in \<open>auto simp: flags_inv_def refused_start_def\<close>)
  ultimately show ?thesis by simp
next
  case True
  define e where "e = markUnconfirmedOutputTruncated c"
  have e: "client_inv e \<and> fresh_only c e"
    using calm_safe[OF calm_markAll[of c]] assms by (simp add: safe_def e_def)
  have comm: "markUnconfirmedOutputTruncated (c\<lparr>cl_quarantined := q\<rparr>) = e\<lparr>cl_quarantined := q\<rparr>"
  proof -
    have "fold markCommandOutputTruncated xs (d\<lparr>cl_quarantined := q\<rparr>) = (fold markCommandOutputTruncated xs d)\<lparr>cl_quarantined := q\<rparr>" for xs d
      by (induction xs arbitrary: d) (simp_all only: fold_simps mark_truncated_quarantine comp_apply)
    from this[of "cl_unconfirmed c" c] show ?thesis by (simp add: e_def markUnconfirmedOutputTruncated_def)
  qed
  define d where "d = e\<lparr>cl_quarantined := q, cl_stopped := True, cl_authenticated := False, cl_heartbeat := False,
    cl_reconnectTimer := False, cl_socket := None, cl_shutdown := Draining\<rparr>"
  have d: "client_inv d \<and> fresh_only e d"
    by (rule inv_flags) (use e True in \<open>auto simp: d_def flags_inv_def e_def refused_start_def\<close>)
  have r: "beginTerminalShutdown (c\<lparr>cl_quarantined := q\<rparr>) = (case cl_socket e of None \<Rightarrow> d | Some s \<Rightarrow> client_closeSocket s 1011 d)"
    using True by (cases "cl_socket e") (simp_all add: beginTerminalShutdown_def Let_def comm d_def)
  have "safe d (beginTerminalShutdown (c\<lparr>cl_quarantined := q\<rparr>))"
    unfolding r by (simp add: calm_safe closeSocket_calm split: option.splits)
  with d e show ?thesis unfolding safe_def by (blast intro: fresh_only_trans)
qed

lemma safe_beginTerminalFailure: "safe c (beginTerminalFailure c)"
  unfolding safe_def beginTerminalFailure_def using safe_terminal_quarantined[of c True] by blast

lemma safe_beginTerminalShutdown: "safe c (beginTerminalShutdown c)"
proof -
  have "c = c\<lparr>cl_quarantined := cl_quarantined c\<rparr>" by simp
  then show ?thesis unfolding safe_def using safe_terminal_quarantined[of c "cl_quarantined c"] by metis
qed

lemma safe_client_stop: "safe c (client_stop c)"
  unfolding safe_def
proof
  assume inv: "client_inv c"
  show "client_inv (client_stop c) \<and> fresh_only c (client_stop c)"
  proof (cases "cl_shutdown c = Not_shut_down")
    case False
    with inv show ?thesis by (simp add: client_stop_def)
  next
    case True
    define d where "d = c\<lparr>cl_stopped := True, cl_authenticated := False, cl_heartbeat := False,
      cl_reconnectTimer := False, cl_shutdown := Draining\<rparr>"
    have d: "client_inv d \<and> fresh_only c d"
      by (rule inv_flags[OF inv]) (use True in \<open>auto simp: d_def flags_inv_def refused_start_def\<close>)
    define e where "e = markUnconfirmedOutputTruncated d"
    have "safe d (case cl_socket e of None \<Rightarrow> e | Some s \<Rightarrow> client_closeSocket s 1005 e)"
      using safe_trans[OF calm_safe[OF calm_markAll[of d]] calm_safe[OF closeSocket_calm]]
        calm_safe[OF calm_markAll[of d]]
      by (auto simp: e_def split: option.splits)
    moreover have "client_stop c = (case cl_socket e of None \<Rightarrow> e | Some s \<Rightarrow> client_closeSocket s 1005 e)"
      using True by (simp add: client_stop_def Let_def d_def[symmetric] e_def[symmetric])
    ultimately show ?thesis using d unfolding safe_def by (metis fresh_only_trans)
  qed
qed

section \<open>The end of a Command\<close>

lemma safe_run_exited:
  assumes "r < length (cl_runs c)" "\<not> ct_finished (ru_control (cl_runs c ! r))"
  shows "safe c (run_exited r code now c)"
  unfolding run_exited_def Let_def
  using safe_trans[OF safe_observe safe_finish_run] assms by simp

lemma safe_run_catch:
  assumes r: "r < length (cl_runs c)" "\<not> ct_finished (ru_control (cl_runs c ! r))"
  shows "safe c (run_catch r unconfirmed message now c)"
proof -
  define d where "d = observe_truncation r (upd_control r failStart c)"
  define e where "e = finish_run r (catch_result (cl_runs d ! r) unconfirmed message) now d"
  have "safe c (upd_control r failStart c)"
    using r by (intro safe_upd_control) (simp_all add: control_ok_steps)
  also have "safe (upd_control r failStart c) d"
    unfolding d_def using r by (intro safe_observe) simp
  also have "safe d e" unfolding e_def using r by (intro safe_finish_run) (simp_all add: d_def)
  finally have "safe c e" .
  moreover have "run_catch r unconfirmed message now c = (if unconfirmed then beginTerminalFailure e else e)"
    by (simp add: run_catch_def Let_def d_def e_def)
  ultimately show ?thesis using safe_trans safe_beginTerminalFailure by auto
qed

lemma length_finish_run [simp]: "length (cl_runs (finish_run r res now c)) = length (cl_runs c)"
  by (simp add: finish_run_def Let_def complete_command_def)

lemma terminal_runs [simp]: "cl_runs (beginTerminalFailure c) = cl_runs c" "cl_runs (beginTerminalShutdown c) = cl_runs c"
  by (auto simp: beginTerminalFailure_def beginTerminalShutdown_def Let_def client_closeSocket_def split: option.splits)

lemma length_run_catch [simp]: "length (cl_runs (run_catch r u m now c)) = length (cl_runs c)"
  by (simp add: run_catch_def Let_def)

lemma length_cancel_run [simp]: "length (cl_runs (cancel_run r now c)) = length (cl_runs c)"
  by (simp add: cancel_run_def Let_def)

lemma safe_cancel_run:
  assumes r: "r < length (cl_runs c)"
  shows "safe c (cancel_run r now c)"
  unfolding safe_def
proof
  assume inv: "client_inv c"
  have ok: "control_ok (ru_control (cl_runs c ! r))" using inv_run_ok[OF inv r] by (simp add: run_ok_def)
  have c1: "safe c (upd_control r cancel c)"
    using r by (intro safe_upd_control) (simp_all add: control_ok_steps)
  show "client_inv (cancel_run r now c) \<and> fresh_only c (cancel_run r now c)"
  proof (cases "run_ready (cl_runs c ! r)")
    case True
    with c1 inv show ?thesis by (simp add: cancel_run_def Let_def safe_def)
  next
    case False
    with ok have "\<not> ct_finished (ru_control (cl_runs c ! r))" by (auto simp: control_ok_def)
    then have "safe (upd_control r cancel c) (cancel_run r now c)"
      using False r by (simp add: cancel_run_def Let_def safe_run_catch)
    with c1 have "safe c (cancel_run r now c)" by (rule safe_trans)
    with inv show ?thesis by (simp add: safe_def)
  qed
qed

lemma safe_cancel_runs:
  "\<forall>r \<in> set rs. r < length (cl_runs c) \<Longrightarrow> safe c (fold (\<lambda>r. cancel_run r now) rs c)"
proof (induction rs arbitrary: c)
  case (Cons r rs)
  have "safe c (cancel_run r now c)" using Cons.prems by (intro safe_cancel_run) simp
  moreover have "safe (cancel_run r now c) (fold (\<lambda>r. cancel_run r now) rs (cancel_run r now c))"
    using Cons by simp
  ultimately show ?case by (simp add: safe_trans)
qed simp

section \<open>Starting a Command\<close>

text \<open>A result for a Command that no handler owns: after \<open>receive\<close> it leaves the pending set as it was.\<close>

lemma safe_receive_complete:
  assumes "i \<notin> fst ` unfinished (cl_runs c)"
  shows "safe c (complete_command i res now (c\<lparr>cl_journal := snd (receive i (cl_journal c))\<rparr>))"
  unfolding safe_def
proof
  assume inv: "client_inv c"
  define j where "j = snd (receive i (cl_journal c))"
  define d where "d = complete_command i res now (c\<lparr>cl_journal := j\<rparr>)"
  note j = receive_sets[OF inv_parts(6)[OF inv], of i, folded j_def]
  have q: "calm (c\<lparr>cl_journal := journal_complete i res j\<rparr>) d"
    using calm_sendCompletion[of "c\<lparr>cl_journal := journal_complete i res j\<rparr>" i res now]
    by (simp add: d_def complete_command_def)
  have dj: "journal_wf (cl_journal d)" "pending (cl_journal d) = pending (cl_journal c) - {i}"
    "known (cl_journal d) = insert i (known (cl_journal c))"
    using q j journal_complete_sets[OF j(1), of i res] by (auto simp: calm_def book_stable_def)
  have f: "same_frame c d" using q by (simp add: calm_fields)
  have "commands_inv d"
    using inv_parts(1)[OF inv] dj assms f by (auto simp: commands_inv_def same_frame_def refused_start_def)
  moreover have "sessions_inv d" "limits_inv d"
    using inv_parts(2,3)[OF inv] f by (simp_all add: sessions_inv_def limits_inv_def same_frame_def commands_of_session_def)
  moreover have "flags_inv d" using inv_parts(4)[OF inv] f q by (auto simp: flags_inv_def calm_fields)
  moreover have "buffer_fine (cl_buffer d)" using inv_parts(5)[OF inv] q by (simp add: calm_def)
  moreover have "fresh_only c d" using f dj by (intro fresh_only_same_runs) (auto simp: same_frame_def)
  ultimately show "client_inv d \<and> fresh_only c d" by (simp add: client_inv_def)
qed

lemma update_new_key: "k \<notin> fst ` set al \<Longrightarrow> AList.update k v al = al @ [(k, v)]"
  by (induction al) auto

lemma unfinished_append:
  "unfinished (us @ [u]) =
     (if ct_finished (ru_control u) then unfinished us else insert (ru_commandId u, length us) (unfinished us))"
  by (auto simp: unfinished_def nth_append less_Suc_eq)

lemma start_admission_InrD:
  assumes "start_admission m now c = Inr (maximum, timeout)"
  obtains s where "map_of (cl_sessions c) (cs_sessionId m) = Some s" "\<not> as_closing s" "now < as_expiresAt s"
    "int (length (commands_of_session (cs_sessionId m) c)) < as_maxConcurrentCommands s"
    "1 \<le> maximum" "maximum \<le> cs_maxOutputBytes m" "maximum \<le> lp_maxCommandOutputBytes (cfg_localPolicy (cl_config c))"
    "0 < timeout" "timeout \<le> cs_timeoutSeconds m * 1000" "timeout \<le> as_expiresAt s - now"
    "cs_timeoutSeconds m \<le> lp_maxCommandTimeoutSeconds (cfg_localPolicy (cl_config c))"
  using assms
  by (auto simp: start_admission_def Let_def commandTimeoutMilliseconds_def split: option.splits if_splits)

lemma safe_launch:
  assumes new: "m' = cs_commandId m" "m' \<notin> known (cl_journal c)"
    and adm: "start_admission m now (c\<lparr>cl_journal := snd (receive m' (cl_journal c))\<rparr>) = Inr (maximum, timeout)"
    and live: "cl_shutdown c \<noteq> Dropped"
  shows "safe c (launch m maximum timeout now (c\<lparr>cl_journal := snd (receive m' (cl_journal c))\<rparr>))"
  unfolding safe_def
proof
  assume inv: "client_inv c"
  define j where "j = snd (receive m' (cl_journal c))"
  define u where "u = new_run m maximum (now + timeout)"
  define d where "d = c\<lparr>cl_commands := AList.update m' (length (cl_runs c)) (cl_commands c),
    cl_runs := cl_runs c @ [u], cl_journal := markRunning m' j\<rparr>"
  note wf = inv_parts(6)[OF inv]
  note C = inv_parts(1)[OF inv, unfolded commands_inv_def]
  note rj = receive_sets[OF wf, of m', folded j_def]
  have "m' \<in> pending j" using rj(3) new by simp
  note mj = markRunning_sets[OF rj(1) this]
  have absent: "m' \<notin> fst ` set (cl_commands c)"
    using C new(2) pending_known by (metis subsetD)
  then have upd: "AList.update m' k (cl_commands c) = cl_commands c @ [(m', k)]" for k
    by (rule update_new_key)
  obtain s where s: "map_of (cl_sessions c) (cs_sessionId m) = Some s"
    "int (length (commands_of_session (cs_sessionId m) c)) < as_maxConcurrentCommands s"
    "maximum \<le> cs_maxOutputBytes m" "maximum \<le> lp_maxCommandOutputBytes (cfg_localPolicy (cl_config c))" "1 \<le> maximum"
    by (rule start_admission_InrD[OF adm]) (simp add: commands_of_session_def)
  have granted: "as_maxConcurrentCommands s \<le> lp_maxConcurrentCommands (cfg_localPolicy (cl_config c))"
    using s(1) inv_parts(2)[OF inv] by (auto simp: sessions_inv_def session_granted_def dest!: map_of_SomeD)
  have runs: "\<forall>r \<in> set (map snd (cl_commands c)). r < length (cl_runs c)"
    using C by (auto simp: unfinished_def)
  have "commands_of_session sid d =
      commands_of_session sid c @ (if sid = cs_sessionId m then [length (cl_runs c)] else [])" for sid
    using runs by (auto simp: commands_of_session_def d_def upd nth_append u_def new_run_def new_control_def
        intro!: filter_cong)
  then have "limits_inv d"
    using inv_parts(3)[OF inv] s(2) granted by (auto simp: limits_inv_def d_def)
  moreover have "commands_inv d"
  proof -
    have "unfinished (cl_runs d) = insert (m', length (cl_runs c)) (unfinished (cl_runs c))"
      by (simp add: d_def unfinished_append u_def new_run_def new(1))
    moreover have "run_ok (cfg_localPolicy (cl_config c)) u"
      using s by (simp add: run_ok_def u_def new_run_def control_ok_steps)
    moreover have "cl_commands d = cl_commands c @ [(m', length (cl_runs c))]"
      "cl_runs d = cl_runs c @ [u]" "cl_journal d = markRunning m' j" "cl_config d = cl_config c"
      "cl_shutdown d = cl_shutdown c"
      by (simp_all add: d_def upd)
    moreover have "pending j = insert m' (pending (cl_journal c))" using rj(3) new(2) by simp
    ultimately show ?thesis using C mj absent live by (auto simp: commands_inv_def refused_start_def)
  qed
  moreover have "sessions_inv d" using inv_parts(2)[OF inv] by (simp add: sessions_inv_def d_def)
  moreover have "flags_inv d" using inv_parts(4)[OF inv] by (auto simp: flags_inv_def d_def)
  moreover have "buffer_fine (cl_buffer d)" using inv_parts(5)[OF inv] by (simp add: d_def)
  moreover have "fresh_only c d" using mj(3) rj(2) new
    by (auto simp: fresh_only_def d_def nth_append u_def new_run_def)
  ultimately have "client_inv d \<and> fresh_only c d" by (simp add: client_inv_def)
  moreover have "safe d (snd (deliver (CM_command_started m' now) d))" by (rule calm_safe[OF calm_deliver])
  moreover have "launch m maximum timeout now (c\<lparr>cl_journal := j\<rparr>) = snd (deliver (CM_command_started m' now) d)"
    by (simp add: launch_def Let_def d_def u_def new(1))
  ultimately show "client_inv (launch m maximum timeout now (c\<lparr>cl_journal := snd (receive m' (cl_journal c))\<rparr>))
      \<and> fresh_only c (launch m maximum timeout now (c\<lparr>cl_journal := snd (receive m' (cl_journal c))\<rparr>))"
    unfolding safe_def j_def[symmetric] by (metis fresh_only_trans)
qed

lemma safe_startCommand:
  assumes "cl_shutdown c \<noteq> Dropped"
  shows "safe c (startCommand m now c)"
  unfolding safe_def
proof
  assume inv: "client_inv c"
  note wf = inv_parts(6)[OF inv]
  define i where "i = cs_commandId m"
  obtain rc j where rec: "receive i (cl_journal c) = (rc, j)" by force
  have j: "j = snd (receive i (cl_journal c))" "rc = fst (receive i (cl_journal c))" by (simp_all add: rec)
  have "safe c (startCommand m now c)"
  proof (cases rc)
    case R_new
    then have new: "i \<notin> known (cl_journal c)" using receipt_sets(1)[OF wf, of i] j by simp
    have nun: "i \<notin> fst ` unfinished (cl_runs c)"
      using inv_parts(1)[OF inv] new pending_known unfolding commands_inv_def by (metis subsetD)
    show ?thesis
    proof (cases "start_admission m now (c\<lparr>cl_journal := j\<rparr>)")
      case (Inl e)
      have "startCommand m now c = complete_command i (failed_result e) now (c\<lparr>cl_journal := j\<rparr>)"
        using R_new Inl rec by (simp add: startCommand_def Let_def i_def failCommand_def)
      with safe_receive_complete[OF nun] show ?thesis by (simp add: j)
    next
      case (Inr x)
      obtain a b where x: "x = (a, b)" by force
      have "startCommand m now c = launch m a b now (c\<lparr>cl_journal := j\<rparr>)"
        using R_new Inr rec by (simp add: startCommand_def Let_def i_def x)
      with safe_launch[of i m c now a b] new Inr assms show ?thesis by (simp add: j x i_def)
    qed
  next
    case R_running
    then have "j = cl_journal c" using rec by (auto simp: receive_def split: option.splits if_splits)
    then have "startCommand m now c = c" using R_running rec by (simp add: startCommand_def Let_def i_def)
    then show ?thesis by simp
  next
    case R_completed
    then have "j = cl_journal c" using rec by (auto simp: receive_def split: option.splits if_splits)
    then have "startCommand m now c = c \<or> (\<exists>res. startCommand m now c = sendCompletion i res now c)"
      using R_completed rec by (auto simp: startCommand_def Let_def i_def split: option.splits)
    then show ?thesis using calm_safe[OF calm_sendCompletion] by auto
  qed
  with inv show "client_inv (startCommand m now c) \<and> fresh_only c (startCommand m now c)" by (simp add: safe_def)
qed

section \<open>Output\<close>

lemma concat_output_chunks: "0 < n \<Longrightarrow> concat (output_chunks n data) = data"
proof (induction n data rule: output_chunks.induct)
  case (1 n data)
  then show ?case by (subst output_chunks.simps) (cases "data = []"; simp)
qed

lemma output_chunks_length: "chunk \<in> set (output_chunks n data) \<Longrightarrow> chunk \<noteq> [] \<and> length chunk \<le> n"
proof (induction n data rule: output_chunks.induct)
  case (1 n data)
  show ?case
  proof (cases "data = [] \<or> n = 0")
    case True
    with "1.prems" show ?thesis by (subst (asm) output_chunks.simps) simp
  next
    case False
    with "1.prems" have "chunk = take n data \<or> chunk \<in> set (output_chunks n (drop n data))"
      by (subst (asm) output_chunks.simps) simp
    with 1 False show ?thesis by auto
  qed
qed

lemma run_markOutputTruncated_runs [simp]: "length (cl_runs (run_markOutputTruncated r c)) = length (cl_runs c)"
  using calm_markTruncated[of c] by (simp add: run_markOutputTruncated_def Let_def calm_fields)

lemma safe_run_markOutputTruncated:
  assumes "r < length (cl_runs c)"
  shows "safe c (run_markOutputTruncated r c)"
proof -
  define d where "d = (if ru_commandId (cl_runs c ! r) \<in> set (cl_outputTruncated c) then c
    else markCommandOutputTruncated (ru_commandId (cl_runs c ! r)) c)"
  have d: "safe c d" "cl_runs d = cl_runs c"
    using calm_markTruncated[of c] by (simp_all add: d_def calm_safe calm_fields)
  have "safe d (upd_run r (\<lambda>u. u\<lparr>ru_outputTruncated := True\<rparr>) d)"
    using assms d(2) by (intro safe_upd_run) (simp_all add: run_ok_def)
  with d(1) have "safe c (upd_run r (\<lambda>u. u\<lparr>ru_outputTruncated := True\<rparr>) d)" by (rule safe_trans)
  then show ?thesis by (simp add: run_markOutputTruncated_def Let_def d_def)
qed

lemma safe_emit_chunks:
  assumes "r < length (cl_runs c)"
    "ru_outputBytes (cl_runs c ! r) + int (length (concat chunks)) \<le> ru_maximumOutputBytes (cl_runs c ! r)"
  shows "safe c (snd (emit_chunks r stream chunks c)) \<and> length (cl_runs (snd (emit_chunks r stream chunks c))) = length (cl_runs c)"
  using assms
proof (induction chunks arbitrary: c)
  case (Cons chunk chunks)
  define d where "d = snd (deliver (chunk_message (cl_runs c ! r) stream chunk) c)"
  define e where "e = upd_run r (\<lambda>u. u\<lparr>ru_sequence := ru_sequence u + 1,
    ru_outputBytes := ru_outputBytes u + int (length chunk)\<rparr>) d"
  have d: "safe c d" "cl_runs d = cl_runs c" by (simp_all add: d_def calm_safe calm_deliver)
  show ?case
  proof (cases "fst (deliver (chunk_message (cl_runs c ! r) stream chunk) c)")
    case False
    have "safe c (run_markOutputTruncated r d)"
      using safe_trans[OF d(1) safe_run_markOutputTruncated[of r d]] Cons.prems(1) d(2) by simp
    with False d(2) show ?thesis by (simp add: case_prod_beta Let_def d_def[symmetric])
  next
    case True
    have "safe d e" unfolding e_def
      using Cons.prems d(2) by (intro safe_upd_run) (simp_all add: run_ok_def)
    with d(1) have ce: "safe c e" by (rule safe_trans)
    have "safe e (snd (emit_chunks r stream chunks e)) \<and> length (cl_runs (snd (emit_chunks r stream chunks e))) = length (cl_runs e)"
      using Cons.prems d(2) by (intro Cons.IH) (simp_all add: e_def)
    moreover have "emit_chunks r stream (chunk # chunks) c = emit_chunks r stream chunks e"
      using True by (simp add: case_prod_beta Let_def d_def[symmetric] e_def)
    ultimately show ?thesis using safe_trans[OF ce] d(2) by (simp add: e_def)
  qed
qed simp

lemma safe_emit_output:
  assumes r: "r < length (cl_runs c)"
  shows "safe c (emit_output r stream data c)"
proof -
  define d where "d = observe_truncation r c"
  have cd: "safe c d" "length (cl_runs d) = length (cl_runs c)" using r by (simp_all add: d_def safe_observe)
  define remaining where "remaining = ru_maximumOutputBytes (cl_runs d ! r) - ru_outputBytes (cl_runs d ! r)"
  define p where "p = emit_chunks r stream (output_chunks (256 * 1024) (take (nat remaining) data)) d"
  have p: "0 < remaining \<Longrightarrow> safe d (snd p) \<and> length (cl_runs (snd p)) = length (cl_runs d)"
    unfolding p_def using r cd(2) by (intro safe_emit_chunks) (simp_all add: concat_output_chunks remaining_def)
  have "emit_output r stream data c =
      (if ru_outputTruncated (cl_runs d ! r) then d
       else if remaining \<le> 0 then run_markOutputTruncated r d
       else if fst p \<and> length (take (nat remaining) data) < length data then run_markOutputTruncated r (snd p)
       else snd p)"
    by (simp only: emit_output_def Let_def d_def remaining_def p_def case_prod_beta)
  moreover have "0 < remaining \<Longrightarrow> safe d (run_markOutputTruncated r (snd p))"
    using p r cd(2) safe_run_markOutputTruncated[of r "snd p"] by (auto intro: safe_trans)
  moreover have "safe d (run_markOutputTruncated r d)"
    using r cd(2) by (intro safe_run_markOutputTruncated) simp
  ultimately have "safe d (emit_output r stream data c)" using p by simp
  with cd(1) show ?thesis by (rule safe_trans)
qed

section \<open>Sessions\<close>

lemma set_map_entry_sessions:
  "(sid, s) \<in> set (mark_closing k xs) \<Longrightarrow> \<exists>s'. (sid, s') \<in> set xs \<and> s = s' \<or> (sid, s') \<in> set xs \<and> s = s'\<lparr>as_closing := True\<rparr>"
  unfolding mark_closing_def by (induction xs) (auto split: if_splits)

lemma length_mark_closing [simp]: "length (mark_closing k xs) = length xs"
  unfolding mark_closing_def by (induction xs) auto

lemma mark_closing_Nil [simp]: "mark_closing k xs = [] \<longleftrightarrow> xs = []"
  by (metis length_0_conv length_mark_closing)

lemma sessions_inv_close:
  assumes "sessions_inv c" "cl_config d = cl_config c" "cl_sessions d = mark_closing sid (cl_sessions c)"
    "cl_closedSessions d = remember_closed sid' (cl_closedSessions c)"
  shows "sessions_inv d"
  using assms
  by (auto simp: sessions_inv_def remember_closed_def set_add_def Let_def session_granted_def
      dest!: set_map_entry_sessions)

lemma safe_open_session:
  assumes "map_of (cl_sessions c) sid = None" "session_granted (cl_config c) s"
    "int (length (cl_sessions c)) < lp_maxConcurrentSessions (cfg_localPolicy (cl_config c))"
  shows "safe c (c\<lparr>cl_sessions := AList.update sid s (cl_sessions c), cl_timers := t\<rparr>)"
  unfolding safe_def
proof
  assume inv: "client_inv c"
  have upd: "AList.update sid s (cl_sessions c) = cl_sessions c @ [(sid, s)]"
    using assms(1) by (intro update_new_key) (simp add: map_of_eq_None_iff)
  have "sessions_inv (c\<lparr>cl_sessions := cl_sessions c @ [(sid, s)], cl_timers := t\<rparr>)"
    using assms(2,3) inv_parts(2)[OF inv] by (auto simp: sessions_inv_def)
  then show "client_inv (c\<lparr>cl_sessions := AList.update sid s (cl_sessions c), cl_timers := t\<rparr>) \<and>
      fresh_only c (c\<lparr>cl_sessions := AList.update sid s (cl_sessions c), cl_timers := t\<rparr>)"
    unfolding upd using inv_parts(4)[OF inv] by (intro inv_change[OF inv]) (auto simp: flags_inv_def refused_start_def)
qed

lemma safe_deliver: "safe c (snd (deliver m c))"
  by (rule calm_safe[OF calm_deliver])

lemma safe_openSession: "safe c (openSession env m now c)"
proof -
  define sid where "sid = so_sessionId m"
  show ?thesis
  proof (cases "cfg_profileId (cl_config c) \<noteq> so_clientProfileId m \<or> sid \<in> set (cl_closedSessions c)
      \<or> map_of (cl_sessions c) sid \<noteq> None")
    case True
    then show ?thesis
      by (cases "map_of (cl_sessions c) sid")
        (simp_all add: openSession_def Let_def open_failed_def sendSessionOpened_def safe_deliver sid_def)
  next
    case False
    then have o: "map_of (cl_sessions c) sid = None" "cfg_profileId (cl_config c) = so_clientProfileId m"
      "sid \<notin> set (cl_closedSessions c)" by auto
    show ?thesis
    proof (cases "adjustedSessionDeadline (so_expiresAt m) (Some (so_serverTime m)) now")
      case (Inl e)
      with o show ?thesis by (simp add: openSession_def Let_def open_failed_def safe_deliver sid_def)
    next
      case (Inr deadline)
      let ?decision = "localSessionDecision (cfg_localPolicy (cl_config c)) (so_organizationId m)
        (ceil_seconds (deadline - now)) (int (length (cl_sessions c))) (so_maxConcurrentCommands m)"
      show ?thesis
      proof (cases "?decision = None \<and> 0 < ceil_seconds (deadline - now)")
        case False
        with o Inr show ?thesis
          by (cases ?decision) (simp_all add: openSession_def Let_def open_failed_def safe_deliver sid_def)
      next
        case True
        then have "session_granted (cl_config c) (new_session m deadline)"
          "int (length (cl_sessions c)) < lp_maxConcurrentSessions (cfg_localPolicy (cl_config c))"
          using o(2) by (auto simp: session_granted_def new_session_def localSessionDecision_None_iff)
        note step = safe_trans[OF safe_open_session[OF o(1) this] safe_deliver]
        from True o Inr show ?thesis
          using step by (simp add: openSession_def Let_def sendSessionOpened_def sid_def)
      qed
    qed
  qed
qed

text \<open>The objects \<open>commands_of_session\<close> finds exist.\<close>

lemma commands_of_session_range:
  assumes "client_inv c" "r \<in> set (commands_of_session sid c)"
  shows "r < length (cl_runs c)"
  using assms by (auto simp: commands_of_session_def client_inv_def commands_inv_def unfinished_def)

lemma safe_other_fields:
  assumes "cl_config d = cl_config c" "cl_sessions d = cl_sessions c"
    "cl_closedSessions d = cl_closedSessions c" "cl_commands d = cl_commands c" "cl_runs d = cl_runs c"
    "cl_journal d = cl_journal c" "cl_buffer d = cl_buffer c" "cl_spawned d = cl_spawned c"
    "cl_shutdown d = cl_shutdown c" "cl_stopped d = cl_stopped c" "cl_quarantined d = cl_quarantined c"
    "cl_authenticated d \<longrightarrow> cl_authenticated c"
  shows "safe c d"
  unfolding safe_def
proof
  assume inv: "client_inv c"
  have "flags_inv d" using inv_parts(4)[OF inv] assms by (auto simp: flags_inv_def)
  then show "client_inv d \<and> fresh_only c d" using assms by (intro inv_flags[OF inv]) (simp_all add: refused_start_def)
qed

lemma safe_closeSession: "safe c (closeSession sid reason w now c)"
proof (cases "map_of (cl_closingSessions c) sid")
  case (Some g)
  then show ?thesis unfolding closeSession_def by (simp add: safe_other_fields)
next
  case None
  define runs where "runs = commands_of_session sid c"
  define d where "d = c\<lparr>cl_closedSessions := remember_closed sid (cl_closedSessions c),
    cl_sessions := mark_closing sid (cl_sessions c)\<rparr>"
  define e where "e = fold (\<lambda>r. cancel_run r now) runs d"
  have "client_inv c \<longrightarrow> safe c e"
  proof
    assume inv: "client_inv c"
    have "sessions_inv d" by (rule sessions_inv_close[OF inv_parts(2)[OF inv]]) (simp_all add: d_def)
    then have "client_inv d \<and> fresh_only c d"
      using inv_parts(4)[OF inv] by (intro inv_change[OF inv]) (auto simp: d_def flags_inv_def refused_start_def)
    then have "safe c d" by (simp add: safe_def)
    moreover have "safe d e"
      unfolding e_def using commands_of_session_range[OF inv] by (intro safe_cancel_runs) (simp add: runs_def d_def)
    ultimately show "safe c e" by (rule safe_trans)
  qed
  then have "safe c e" by (simp add: safe_def)
  moreover have "safe e (closeSession sid reason w now c)"
    using None by (intro safe_other_fields) (simp_all add: closeSession_def Let_def e_def d_def runs_def)
  ultimately show ?thesis by (rule safe_trans)
qed

lemma sessions_inv_sub:
  assumes "sessions_inv c" "cl_config d = cl_config c" "set (cl_sessions d) \<subseteq> set (cl_sessions c)"
    "length (cl_sessions d) \<le> length (cl_sessions c)" "cl_closedSessions d = cl_closedSessions c"
  shows "sessions_inv d"
  using assms by (fastforce simp: sessions_inv_def)

lemma safe_queue_failed: "safe c (queue_failed c)"
proof (cases "cl_busy c")
  case (Some b)
  have "safe c (c\<lparr>cl_busy := None\<rparr>)" by (rule safe_other_fields) simp_all
  then have "safe c (client_closeSocket (busy_socket b) 4002 (c\<lparr>cl_busy := None\<rparr>))"
    using calm_safe[OF closeSocket_calm] by (rule safe_trans)
  with Some show ?thesis by (simp add: queue_failed_def)
qed (simp add: queue_failed_def)

lemma safe_resume_waiter: "safe c (resume_waiter failed w c)"
proof -
  have "safe c (c\<lparr>cl_busy := None\<rparr>)" by (rule safe_other_fields) simp_all
  then show ?thesis
    by (cases w) (simp_all add: resume_waiter_def safe_queue_failed safe_beginTerminalFailure)
qed

lemma safe_fold: "(\<And>x c. safe c (f x c)) \<Longrightarrow> safe c (fold f xs c)"
proof (induction xs arbitrary: c)
  case (Cons x xs)
  have "safe c (f x c)" by (rule Cons.prems)
  moreover have "safe (f x c) (fold f xs (f x c))" using Cons.prems by (rule Cons.IH)
  ultimately show ?case by (simp add: safe_trans)
qed simp

lemma safe_finish_closing: "safe c (finish_closing sid g c)"
proof -
  define d where "d = (if closing_failed g c then c else snd (deliver (CM_session_closed sid (cg_reason g)) c))"
  define e where "e = d\<lparr>cl_sessions := (if cg_session g then AList.delete sid (cl_sessions d) else cl_sessions d),
    cl_timers := (if cg_session g then removeAll sid (cl_timers d) else cl_timers d),
    cl_closingSessions := AList.delete sid (cl_closingSessions d)\<rparr>"
  have cd: "safe c d" by (simp add: d_def safe_deliver)
  have "safe d e" unfolding safe_def
  proof
    assume inv: "client_inv d"
    have "sessions_inv e"
      by (rule sessions_inv_sub[OF inv_parts(2)[OF inv]]) (auto simp: e_def AList.delete_eq)
    then show "client_inv e \<and> fresh_only d e"
      using inv_parts(4)[OF inv] by (intro inv_change[OF inv]) (auto simp: e_def flags_inv_def refused_start_def)
  qed
  with cd have "safe c e" by (rule safe_trans)
  moreover have "finish_closing sid g c = fold (resume_waiter (closing_failed g c)) (cg_waiters g) e"
    by (simp only: finish_closing_def Let_def d_def e_def)
  then have "safe e (finish_closing sid g c)" by (simp add: safe_fold safe_resume_waiter)
  ultimately show ?thesis by (rule safe_trans)
qed

lemma safe_closing_event: "safe c (closing_event sid c)"
  by (simp add: closing_event_def safe_finish_closing split: option.splits)

lemma safe_cancel_event: "safe c (cancel_event c)"
proof -
  have "safe c (c\<lparr>cl_busy := None\<rparr>)" by (rule safe_other_fields) simp_all
  then show ?thesis
    by (simp add: cancel_event_def Let_def safe_queue_failed split: option.splits busy.splits)
qed

lemma safe_cancelCommand: "safe c (cancelCommand i s now c)"
  unfolding safe_def
proof
  assume inv: "client_inv c"
  note C = inv_parts(1)[OF inv, unfolded commands_inv_def]
  have "safe c (cancelCommand i s now c)"
  proof (cases "map_of (cl_commands c) i")
    case (Some r)
    with C have "r < length (cl_runs c)" by (auto simp: unfinished_def dest!: map_of_SomeD)
    then have run: "safe c (cancel_run r now c)" by (rule safe_cancel_run)
    have "safe (cancel_run r now c) ((cancel_run r now c)\<lparr>cl_busy := b\<rparr>)" for b
      by (rule safe_other_fields) simp_all
    with run Some show ?thesis using safe_trans[OF run] by (simp add: cancelCommand_def Let_def)
  next
    case None
    then have "i \<notin> fst ` unfinished (cl_runs c)" using C by (auto simp: map_of_eq_None_iff)
    note rc = safe_receive_complete[OF this]
    show ?thesis
    proof (cases "journal_result i (cl_journal c)")
      case None
      with rc \<open>map_of (cl_commands c) i = None\<close> show ?thesis
        by (simp add: cancelCommand_def Let_def case_prod_beta)
    next
      case (Some res)
      with \<open>map_of (cl_commands c) i = None\<close> show ?thesis
        by (simp add: cancelCommand_def calm_safe[OF calm_sendCompletion])
    qed
  qed
  with inv show "client_inv (cancelCommand i s now c) \<and> fresh_only c (cancelCommand i s now c)"
    by (simp add: safe_def)
qed

section \<open>Messages\<close>

lemma safe_handshake:
  assumes "\<not> cl_stopped c"
  shows "safe c (handshake_done now c)"
proof -
  define d where "d = c\<lparr>cl_authenticated := True, cl_reconnectDelay := 1000\<rparr>"
  have "safe c d" unfolding safe_def
  proof
    assume inv: "client_inv c"
    have "flags_inv d" using inv_parts(4)[OF inv] assms by (auto simp: flags_inv_def d_def)
    then show "client_inv d \<and> fresh_only c d" by (intro inv_flags[OF inv]) (simp_all add: d_def refused_start_def)
  qed
  also have "safe d (reconcileJournalResults now (flushBufferedMessages d))"
    by (rule calm_safe[OF calm_trans[OF calm_flush calm_reconcile]])
  also have "safe (reconcileJournalResults now (flushBufferedMessages d)) (handshake_done now c)"
    by (rule safe_other_fields) (simp_all add: handshake_done_def Let_def d_def)
  finally show ?thesis .
qed

lemma client_handle_safe:
  assumes "client_handle env s m now c = Inr c'" "\<And>i. m \<noteq> SM_command_acknowledged i"
  shows "safe c c'"
proof (cases "cl_stopped c")
  case True
  with assms show ?thesis by (simp add: client_handle_def)
next
  case False
  have busy: "safe c ((closeSession sid reason W_queue now c)\<lparr>cl_busy := b\<rparr>)" for sid reason b
  proof -
    have "safe (closeSession sid reason W_queue now c) ((closeSession sid reason W_queue now c)\<lparr>cl_busy := b\<rparr>)"
      by (rule safe_other_fields) simp_all
    with safe_closeSession show ?thesis by (rule safe_trans)
  qed
  have start: "safe c (startCommand m now c)" for m
  proof (cases "cl_shutdown c = Dropped")
    case True
    then have "\<not> client_inv c" using False by (auto simp: client_inv_def flags_inv_def)
    then show ?thesis by (simp add: safe_def)
  qed (simp add: safe_startCommand)
  show ?thesis
    using assms(1) False
    by (cases m)
      (auto simp: client_handle_def busy start assms(2) safe_openSession safe_cancelCommand safe_handshake
        calm_safe[OF closeSocket_calm] calm_safe[OF calm_send] split: option.splits)
qed

lemma acknowledged_inv:
  assumes "client_inv c"
  shows "client_inv (acknowledged i c)"
proof -
  note a = acknowledge_sets[OF inv_parts(6)[OF assms], of i]
  have "commands_inv (acknowledged i c)"
    using inv_parts(1)[OF assms] a by (simp add: commands_inv_def acknowledged_def refused_start_def)
  moreover have "sessions_inv (acknowledged i c)" "limits_inv (acknowledged i c)"
    using inv_parts(2,3)[OF assms]
    by (simp_all add: sessions_inv_def limits_inv_def acknowledged_def commands_of_session_def)
  moreover have "flags_inv (acknowledged i c)" "buffer_fine (cl_buffer (acknowledged i c))"
    using inv_parts(4,5)[OF assms] by (auto simp: flags_inv_def acknowledged_def)
  ultimately show ?thesis by (simp add: client_inv_def)
qed

text \<open>The message the handler of the event would see.\<close>

definition next_is_ack :: "client_env \<Rightarrow> client \<Rightarrow> ident \<Rightarrow> bool" where
  "next_is_ack env c i =
     (case (cl_busy c, cl_queue c) of
        (None, (s, m) # rest) \<Rightarrow> Option.bind m (serverMessageSchema (ce_uuid env)) = Some (SM_command_acknowledged i)
      | _ \<Rightarrow> False)"

lemma next_is_ack_iff:
  "next_is_ack env c i \<longleftrightarrow> (\<exists>s m rest. cl_busy c = None \<and> cl_queue c = (s, m) # rest
     \<and> Option.bind m (serverMessageSchema (ce_uuid env)) = Some (SM_command_acknowledged i))"
  by (auto simp: next_is_ack_def split: option.splits list.splits)

lemma next_message_cases:
  assumes "\<not> (\<exists>i. next_is_ack env c i)"
  shows "safe c (next_message env now c)"
proof (cases "cl_busy c = None \<and> cl_queue c \<noteq> []")
  case False
  then have "next_message env now c = c" by (auto simp: next_message_def split: option.splits list.splits)
  then show ?thesis by simp
next
  case True
  then obtain s m rest where q: "cl_busy c = None" "cl_queue c = (s, m) # rest" by (cases "cl_queue c") auto
  define d where "d = c\<lparr>cl_queue := rest\<rparr>"
  have cd: "safe c d" by (rule safe_other_fields) (simp_all add: d_def)
  have closed: "safe c (client_closeSocket s 4002 d)"
    using cd calm_safe[OF closeSocket_calm] by (rule safe_trans)
  show ?thesis
  proof (cases "cl_socket d \<noteq> Some s \<or> cl_stopped d")
    case True
    then have "next_message env now c = d" using q by (simp add: next_message_def Let_def d_def)
    with cd show ?thesis by simp
  next
    case False
    show ?thesis
    proof (cases "Option.bind m (serverMessageSchema (ce_uuid env))")
      case None
      with q False closed show ?thesis by (simp add: next_message_def Let_def d_def)
    next
      case (Some m')
      with assms q have nack: "m' \<noteq> SM_command_acknowledged i" for i by (auto simp: next_is_ack_iff)
      show ?thesis
      proof (cases "client_handle env s m' now d")
        case (Inl e)
        with q False Some closed show ?thesis by (simp add: next_message_def Let_def d_def)
      next
        case (Inr c')
        then have "safe d c'" using nack by (rule client_handle_safe)
        with cd have "safe c c'" by (rule safe_trans)
        with q False Some Inr show ?thesis by (simp add: next_message_def Let_def d_def)
      qed
    qed
  qed
qed

lemma next_message_ack:
  assumes "next_is_ack env c i" "client_inv c"
  shows "client_inv (next_message env now c)"
proof -
  from assms(1) obtain s m rest where q: "cl_busy c = None" "cl_queue c = (s, m) # rest"
    "Option.bind m (serverMessageSchema (ce_uuid env)) = Some (SM_command_acknowledged i)"
    by (auto simp: next_is_ack_iff)
  define d where "d = c\<lparr>cl_queue := rest\<rparr>"
  have "safe c d" by (rule safe_other_fields) (simp_all add: d_def)
  with assms(2) have d: "client_inv d" by (simp add: safe_def)
  have "next_message env now c = d \<or> next_message env now c = acknowledged i d"
    using q by (simp add: next_message_def Let_def d_def client_handle_def)
  with d acknowledged_inv[OF d] show ?thesis by auto
qed

section \<open>Events\<close>

lemma safe_connect: "safe c (client_connect c)"
  by (rule safe_other_fields) (simp_all add: client_connect_def Let_def)

lemma safe_socket_closed: "safe c (socket_closed s code c)"
proof -
  define d where "d = c\<lparr>cl_heartbeat := False, cl_open := removeAll s (cl_open c)\<rparr>"
  define e where "e = markUnconfirmedOutputTruncated d"
  define f where "f = e\<lparr>cl_socket := None, cl_authenticated := False\<rparr>"
  have "safe c d" by (rule safe_other_fields) (simp_all add: d_def)
  also have "safe d e" unfolding e_def by (rule calm_safe[OF calm_markAll])
  finally have ce: "safe c e" .
  moreover have "safe e f" by (rule safe_other_fields) (simp_all add: f_def)
  ultimately have cf: "safe c f" by (rule safe_trans)
  have r: "safe f (f\<lparr>cl_reconnectTimer := True, cl_reconnectDelay := k\<rparr>)" for k
    by (rule safe_other_fields) simp_all
  have "socket_closed s code c = (if cl_socket e \<noteq> Some s then e
      else if terminalMachineClose code then beginTerminalShutdown f
      else if cl_stopped f then f
      else f\<lparr>cl_reconnectTimer := True, cl_reconnectDelay := min (cl_reconnectDelay f * 2) 30000\<rparr>)"
    by (simp only: socket_closed_def Let_def d_def e_def f_def)
  then show ?thesis using ce cf safe_trans[OF cf r] safe_trans[OF cf safe_beginTerminalShutdown] by simp
qed

lemma safe_heartbeat: "safe c (heartbeat_tick now c)"
  by (auto simp: heartbeat_tick_def calm_safe[OF calm_send] split: sum.splits)

lemma safe_termination_done:
  assumes r: "r < length (cl_runs c)"
  shows "safe c (termination_done r failure now c)"
proof -
  have c1: "safe c (upd_control r (termination_settled failure) c)"
    using r by (intro safe_upd_control) (simp_all add: control_ok_steps)
  have c2: "\<not> ct_finished (ru_control (cl_runs c ! r)) \<Longrightarrow>
      safe (upd_control r (termination_settled failure) c) (run_catch r True m now (upd_control r (termination_settled failure) c))" for m
    using r by (intro safe_run_catch) simp_all
  show ?thesis using c1 safe_trans[OF c1 c2] by (auto simp: termination_done_def Let_def split: option.splits)
qed

lemma safe_process_done:
  assumes r: "r < length (cl_runs c)"
  shows "safe c (process_done r outcome now c)"
proof -
  define d where "d = upd_run r (\<lambda>u. u\<lparr>ru_closed := True\<rparr>) c"
  have cd: "safe c d" unfolding d_def using r by (intro safe_upd_run) (simp_all add: run_ok_def)
  have d: "r < length (cl_runs d)" using r by (simp add: d_def)
  have fin: "\<not> ct_finished (ru_control (cl_runs d ! r)) \<Longrightarrow> safe c (run_exited r code now d)"
    "\<not> ct_finished (ru_control (cl_runs d ! r)) \<Longrightarrow> safe c (run_catch r False m now d)" for code m
    using safe_trans[OF cd safe_run_exited[OF d]] safe_trans[OF cd safe_run_catch[OF d]] by blast+
  have "process_done r outcome now c = (if \<not> process_live r c then c
      else if ct_finished (ru_control (cl_runs d ! r)) then d
      else (case outcome of Inr exitCode \<Rightarrow> run_exited r exitCode now d | Inl m \<Rightarrow> run_catch r False m now d))"
    by (simp only: process_done_def Let_def d_def)
  then show ?thesis using cd fin by (auto split: sum.splits)
qed

lemma safe_deadline:
  assumes r: "r < length (cl_runs c)"
  shows "safe c (deadline_reached r now c)"
proof -
  have "safe c (upd_run r (\<lambda>u. u\<lparr>ru_timedOut := True\<rparr>) c)"
    using r by (intro safe_upd_run) (simp_all add: run_ok_def)
  also have "safe (upd_run r (\<lambda>u. u\<lparr>ru_timedOut := True\<rparr>) c) (cancel_run r now (upd_run r (\<lambda>u. u\<lparr>ru_timedOut := True\<rparr>) c))"
    using r by (intro safe_cancel_run) simp
  finally show ?thesis by (simp add: deadline_reached_def)
qed

lemma safe_expiry: "safe c (session_expired_timer sid now c)"
proof -
  have "safe c (c\<lparr>cl_timers := removeAll sid (cl_timers c)\<rparr>)" by (rule safe_other_fields) simp_all
  then have "safe c (closeSession sid ''expired'' W_expiry now (c\<lparr>cl_timers := removeAll sid (cl_timers c)\<rparr>))"
    using safe_closeSession by (rule safe_trans)
  then show ?thesis by (simp add: session_expired_timer_def)
qed

lemma safe_drop: "safe c (dropLocalAuthority now c)"
  unfolding safe_def
proof
  assume inv: "client_inv c"
  show "client_inv (dropLocalAuthority now c) \<and> fresh_only c (dropLocalAuthority now c)"
  proof (cases "cl_shutdown c \<noteq> Draining \<or> cl_busy c \<noteq> None")
    case True
    with inv show ?thesis by (simp add: dropLocalAuthority_def)
  next
    case False
    define d where "d = c\<lparr>cl_sessions := [], cl_shutdown := Dropped\<rparr>"
    have "sessions_inv d" by (rule sessions_inv_sub[OF inv_parts(2)[OF inv]]) (simp_all add: d_def)
    then have "client_inv d \<and> fresh_only c d"
      using inv_parts(4)[OF inv] False by (intro inv_change[OF inv]) (auto simp: d_def flags_inv_def refused_start_def)
    then have "safe c d" by (simp add: safe_def)
    moreover have "safe d (fold (\<lambda>r. cancel_run r now) (map snd (cl_commands c)) d)"
      using inv by (intro safe_cancel_runs) (auto simp: d_def client_inv_def commands_inv_def unfinished_def)
    ultimately have "safe c (fold (\<lambda>r. cancel_run r now) (map snd (cl_commands c)) d)" by (rule safe_trans)
    with inv False show ?thesis by (simp add: dropLocalAuthority_def Let_def d_def safe_def)
  qed
qed

lemma safe_boot: "safe c (boot c)"
  unfolding safe_def
proof
  assume inv: "client_inv c"
  note r = recover_sets[OF inv_parts(6)[OF inv]]
  have f: "cl_runs (boot c) = []" "cl_commands (boot c) = []" "cl_sessions (boot c) = []" "cl_spawned (boot c) = cl_spawned c"
    "length (cl_closedSessions (boot c)) \<le> 1000" "\<not> cl_authenticated (boot c)" "cl_quarantined (boot c) = cl_quarantined c"
    "cl_journal (boot c) = (if cl_quarantined c then cl_journal c else snd (recoverInterrupted (cl_journal c)))"
    "cl_shutdown (boot c) = (if cl_quarantined c then Dropped else Not_shut_down)"
    "cl_stopped (boot c) = cl_quarantined c"
    "cl_buffer (boot c) = (if cl_quarantined c then cl_buffer c else new_buffer 4096 (16 * 1024 * 1024))"
    using inv_parts(2)[OF inv] by (simp_all add: boot_def sessions_inv_def)
  have "commands_inv (boot c)" using r inv_parts(6)[OF inv] by (simp add: commands_inv_def f unfinished_def refused_start_def)
  moreover have "sessions_inv (boot c)" by (simp add: sessions_inv_def f)
  moreover have "limits_inv (boot c)" by (simp add: limits_inv_def commands_of_session_def f)
  moreover have "flags_inv (boot c)" by (auto simp: flags_inv_def f)
  moreover have "buffer_fine (cl_buffer (boot c))"
    using inv_parts(5)[OF inv] by (simp add: f buffer_fine_def new_buffer_ok) (simp add: new_buffer_def)
  moreover have "fresh_only c (boot c)" using r by (simp add: fresh_only_def f)
  ultimately show "client_inv (boot c) \<and> fresh_only c (boot c)" by (simp add: client_inv_def)
qed

text \<open>The one event that spawns a process.\<close>

definition spawns :: "client_event \<Rightarrow> client \<Rightarrow> ident option" where
  "spawns e c = (case e of
       CE_prepared r None \<Rightarrow>
         if r < length (cl_runs c) \<and> \<not> run_ready (cl_runs c ! r) \<and> \<not> ct_aborted (ru_control (cl_runs c ! r))
            \<and> \<not> ct_finished (ru_control (cl_runs c ! r))
         then Some (ru_commandId (cl_runs c ! r)) else None
     | _ \<Rightarrow> None)"

lemma safe_preparation_failed:
  assumes "r < length (cl_runs c)" "\<not> run_ready (cl_runs c ! r)"
  shows "safe c (preparation_settled r (Some m) now c)"
  using safe_run_catch[OF assms(1)] by (simp add: preparation_settled_def Let_def)

lemma client_inv_spawned: "client_inv (c\<lparr>cl_spawned := x\<rparr>) = client_inv c"
  by (simp add: client_inv_def commands_inv_def sessions_inv_def limits_inv_def flags_inv_def
      commands_of_session_def refused_start_def)

lemma spawnsD: "spawns e c \<noteq> None \<Longrightarrow> \<exists>r. e = CE_prepared r None"
  by (cases e) (auto simp: spawns_def split: option.splits)

lemma spawn_step:
  assumes "client_inv c" "r < length (cl_runs c)" "\<not> run_ready (cl_runs c ! r)"
    "\<not> ct_aborted (ru_control (cl_runs c ! r))" "\<not> ct_finished (ru_control (cl_runs c ! r))"
  shows "client_inv (preparation_settled r None now c)"
    and "cl_spawned (preparation_settled r None now c) = cl_spawned c @ [ru_commandId (cl_runs c ! r)]"
    and "fresh_only c ((preparation_settled r None now c)\<lparr>cl_spawned := cl_spawned c\<rparr>)"
    and "run_ready (cl_runs (preparation_settled r None now c) ! r)"
proof -
  obtain ct where ct: "attach (ru_control (cl_runs c ! r)) = Inr ct" "ct_readySettled ct"
    using assms(3) by (auto simp: control_defs)
  define u where "u = cl_runs c ! r"
  have p: "preparation_settled r None now c = upd_control r (\<lambda>_. ct) (c\<lparr>cl_spawned := cl_spawned c @ [ru_commandId u]\<rparr>)"
    using assms ct by (simp add: preparation_settled_def Let_def u_def)
  have ok: "control_ok ct" "ct_sessionId ct = ct_sessionId (ru_control u)" "ct_finished ct = ct_finished (ru_control u)"
    using inv_run_ok[OF assms(1,2)] control_ok_steps(2)[OF _ ct(1)] attach_session[OF ct(1)] attach_finished[OF ct(1)]
    by (simp_all add: run_ok_def u_def)
  have s: "safe c (upd_control r (\<lambda>_. ct) c)"
    unfolding upd_control_def using assms(2) ok ct(2) by (intro safe_upd_run) (auto simp: run_ok_def u_def)
  have eq: "(preparation_settled r None now c)\<lparr>cl_spawned := cl_spawned c\<rparr> = upd_control r (\<lambda>_. ct) c"
    by (simp add: p upd_control_def upd_run_def)
  show "fresh_only c ((preparation_settled r None now c)\<lparr>cl_spawned := cl_spawned c\<rparr>)"
    using s assms(1) by (simp add: eq safe_def)
  show "cl_spawned (preparation_settled r None now c) = cl_spawned c @ [ru_commandId (cl_runs c ! r)]"
    by (simp add: p upd_control_def u_def)
  show "run_ready (cl_runs (preparation_settled r None now c) ! r)"
    using assms(2) ct(2) by (simp add: p upd_control_def)
  have "client_inv (upd_control r (\<lambda>_. ct) c)" using s assms(1) by (simp add: safe_def)
  then have "client_inv ((upd_control r (\<lambda>_. ct) c)\<lparr>cl_spawned := cl_spawned c @ [ru_commandId u]\<rparr>)"
    by (simp add: client_inv_spawned)
  moreover have "preparation_settled r None now c = (upd_control r (\<lambda>_. ct) c)\<lparr>cl_spawned := cl_spawned c @ [ru_commandId u]\<rparr>"
    by (simp add: p upd_control_def upd_run_def)
  ultimately show "client_inv (preparation_settled r None now c)" by (simp only:)
qed

lemma client_step_safe:
  assumes "\<not> (\<exists>i. fst e = CE_next \<and> next_is_ack env c i)" "spawns (fst e) c = None"
  shows "safe c (client_step env e c)"
proof -
  obtain ev now where e: "e = (ev, now)" by force
  have plain: "safe c (c\<lparr>cl_queue := q\<rparr>)" "safe c (c\<lparr>cl_open := os\<rparr>)" for q os
    by (rule safe_other_fields, simp_all)+
  show ?thesis
  proof (cases ev)
    case (CE_prepared r failure)
    show ?thesis
    proof (cases failure)
      case None
      with CE_prepared assms(2) have "client_step env e c = c"
        by (auto simp: client_step_def e spawns_def preparation_settled_def Let_def split: if_splits)
      then show ?thesis by simp
    next
      case (Some m)
      with CE_prepared show ?thesis by (simp add: client_step_def e safe_preparation_failed)
    qed
  next
    case CE_next
    with assms(1) e show ?thesis by (simp add: client_step_def next_message_cases)
  qed (simp_all add: client_step_def e plain safe_connect safe_socket_closed safe_heartbeat safe_emit_output
      safe_process_done safe_termination_done safe_deadline safe_expiry safe_closing_event safe_cancel_event
      safe_client_stop safe_drop safe_boot)
qed

lemma client_step_inv: "client_inv c \<Longrightarrow> client_inv (client_step env e c)"
proof -
  assume inv: "client_inv c"
  obtain ev now where e: "e = (ev, now)" by force
  consider (ack) i where "ev = CE_next" "next_is_ack env c i"
    | (spawn) r where "ev = CE_prepared r None" "spawns ev c \<noteq> None"
    | (other) "\<not> (\<exists>i. fst e = CE_next \<and> next_is_ack env c i)" "spawns (fst e) c = None"
    using spawnsD[of ev c] by (auto simp: e)
  then show ?thesis
  proof cases
    case ack
    with inv show ?thesis by (simp add: e client_step_def next_message_ack)
  next
    case spawn
    with spawn_step(1)[OF inv, of r now] show ?thesis
      by (auto simp: e client_step_def spawns_def split: if_splits)
  next
    case other
    with client_step_safe inv show ?thesis by (simp add: safe_def)
  qed
qed

section \<open>A Command is started once\<close>

definition starts_inv :: "ident \<Rightarrow> client \<Rightarrow> bool" where
  "starts_inv i c \<longleftrightarrow>
     count_list (cl_spawned c) i \<le> 1 \<and> (i \<in> set (cl_spawned c) \<longrightarrow> i \<in> known (cl_journal c))
     \<and> (\<forall>r < length (cl_runs c). \<not> run_ready (cl_runs c ! r) \<and> ru_commandId (cl_runs c ! r) = i \<longrightarrow>
          i \<notin> set (cl_spawned c))"

lemma starts_inv_fresh:
  assumes "fresh_only c c'" "starts_inv i c"
  shows "starts_inv i c'"
  using assms unfolding fresh_only_def starts_inv_def by (metis subset_iff)

lemma count_list_zero: "i \<notin> set xs \<Longrightarrow> count_list xs i = 0"
  by (induction xs) auto

lemma starts_inv_spawn:
  assumes inv: "client_inv c" and si: "starts_inv i c" and sp: "spawns (CE_prepared r None) c = Some k"
  shows "starts_inv i (preparation_settled r None now c)"
proof -
  define d where "d = preparation_settled r None now c"
  from sp have r: "r < length (cl_runs c)" "\<not> run_ready (cl_runs c ! r)"
    "\<not> ct_aborted (ru_control (cl_runs c ! r))" "\<not> ct_finished (ru_control (cl_runs c ! r))"
    "k = ru_commandId (cl_runs c ! r)"
    by (auto simp: spawns_def split: if_splits)
  note st = spawn_step[OF inv r(1-4), of now, folded d_def]
  have si': "starts_inv i (d\<lparr>cl_spawned := cl_spawned c\<rparr>)" using st(3) si by (rule starts_inv_fresh)
  show ?thesis
  proof (cases "k = i")
    case False
    with si' st(2) r(5) show ?thesis by (auto simp: starts_inv_def d_def[symmetric])
  next
    case True
    have new: "i \<notin> set (cl_spawned c)" using si r True by (auto simp: starts_inv_def)
    have ir: "(i, r) \<in> unfinished (cl_runs c)" using r True by (simp add: unfinished_def)
    then have "i \<in> known (cl_journal c)"
      using inv_parts(1)[OF inv] pending_known unfolding commands_inv_def by (metis fst_conv image_eqI subsetD)
    moreover have "known (cl_journal c) \<subseteq> known (cl_journal d)" using st(3) by (simp add: fresh_only_def)
    moreover have "m < length (cl_runs d) \<Longrightarrow> \<not> run_ready (cl_runs d ! m) \<Longrightarrow> ru_commandId (cl_runs d ! m) \<noteq> i" for m
    proof
      assume m: "m < length (cl_runs d)" "\<not> run_ready (cl_runs d ! m)" and same: "ru_commandId (cl_runs d ! m) = i"
      from st(4) m have "m \<noteq> r" by auto
      have "control_ok (ru_control (cl_runs d ! m))" using inv_run_ok[OF st(1) m(1)] by (simp add: run_ok_def)
      with m have "(i, m) \<in> unfinished (cl_runs d)" using same by (auto simp: unfinished_def control_ok_def)
      moreover have "unfinished (cl_runs d) = unfinished (cl_runs c)"
        unfolding d_def preparation_settled_def Let_def using r
        by (auto simp: upd_control_def upd_run_def control_defs unfinished_def nth_list_update)
      ultimately show False using unfinished_functional[OF st(1)] ir \<open>m \<noteq> r\<close> by blast
    qed
    ultimately show ?thesis
      using st(2) new r(5) True by (auto simp: starts_inv_def d_def[symmetric] count_list_zero)
  qed
qed

lemma starts_inv_ack:
  assumes "client_inv c" "starts_inv i c" "next_is_ack env c k" "k \<noteq> i"
  shows "starts_inv i (next_message env now c)"
proof -
  from assms(3) obtain s m rest where q: "cl_busy c = None" "cl_queue c = (s, m) # rest"
    "Option.bind m (serverMessageSchema (ce_uuid env)) = Some (SM_command_acknowledged k)"
    by (auto simp: next_is_ack_iff)
  have "next_message env now c = c\<lparr>cl_queue := rest\<rparr> \<or> next_message env now c = acknowledged k (c\<lparr>cl_queue := rest\<rparr>)
      \<or> next_message env now c = client_closeSocket s 4002 (c\<lparr>cl_queue := rest\<rparr>)"
    using q by (simp add: next_message_def Let_def client_handle_def)
  moreover have "known (acknowledge k (cl_journal c)) - {k} = known (cl_journal c) - {k}"
    using acknowledge_refines(2)[OF inv_parts(6)[OF assms(1)], of k]
    by (auto simp: known_def book_call_def split: option.splits entry.splits if_splits)
  ultimately show ?thesis using assms(2,4)
    by (auto simp: starts_inv_def acknowledged_def client_closeSocket_def)
qed

lemma client_step_starts:
  assumes "client_inv c" "starts_inv i c" "\<not> (fst e = CE_next \<and> next_is_ack env c i)"
  shows "starts_inv i (client_step env e c)"
proof (cases "spawns (fst e) c")
  case None
  show ?thesis
  proof (cases "\<exists>k. fst e = CE_next \<and> next_is_ack env c k")
    case True
    with assms show ?thesis by (auto simp: client_step_def Let_def intro: starts_inv_ack)
  next
    case False
    with client_step_safe[OF False None] assms show ?thesis by (auto simp: safe_def intro: starts_inv_fresh)
  qed
next
  case (Some k)
  then obtain r where r: "fst e = CE_prepared r None" using spawnsD by blast
  with Some have "client_step env e c = preparation_settled r None (snd e) c"
    by (auto simp: client_step_def spawns_def split: if_splits)
  with starts_inv_spawn[OF assms(1,2)] Some r show ?thesis by simp
qed

lemma fresh_client_inv: "client_inv (fresh_client cfg runtime)" "starts_inv i (fresh_client cfg runtime)"
proof -
  have "snd (recoverInterrupted []) = []" by (simp add: recoverInterrupted_def sql_where_def)
  then have f: "cl_runs (fresh_client cfg runtime) = []" "cl_commands (fresh_client cfg runtime) = []"
    "cl_sessions (fresh_client cfg runtime) = []" "cl_spawned (fresh_client cfg runtime) = []"
    "cl_closedSessions (fresh_client cfg runtime) = []" "\<not> cl_authenticated (fresh_client cfg runtime)"
    "\<not> cl_quarantined (fresh_client cfg runtime)" "cl_journal (fresh_client cfg runtime) = []"
    "cl_shutdown (fresh_client cfg runtime) = Not_shut_down" "\<not> cl_stopped (fresh_client cfg runtime)"
    "cl_buffer (fresh_client cfg runtime) = new_buffer 4096 (16 * 1024 * 1024)"
    by (simp_all add: fresh_client_def boot_def)
  have nil: "journal_wf []" "pending [] = {}" "known [] = {}"
    by (auto simp: journal_wf_def pending_def pending_in_def known_def book_of_def journal_row_of_def)
  have "buffer_fine (cl_buffer (fresh_client cfg runtime))"
    by (simp add: f buffer_fine_def new_buffer_ok) (simp add: new_buffer_def)
  moreover have "commands_inv (fresh_client cfg runtime)" by (simp add: commands_inv_def f nil unfinished_def)
  ultimately show "client_inv (fresh_client cfg runtime)"
    by (simp add: client_inv_def sessions_inv_def limits_inv_def flags_inv_def commands_of_session_def f)
  show "starts_inv i (fresh_client cfg runtime)" by (simp add: starts_inv_def f)
qed

lemma client_trace_snoc:
  "client_trace env cfg runtime (es @ [e]) = client_step env e (client_trace env cfg runtime es)"
  by (simp add: client_trace_def)

lemma client_trace_inv: "client_inv (client_trace env cfg runtime es)"
  by (induction es rule: rev_induct) (simp_all add: client_trace_snoc client_step_inv, simp add: client_trace_def fresh_client_inv)

end
