(* ===== verification/Client_Demo.thy ===== *)
theory Client_Demo
  imports Client_Steps
begin

text \<open>
  A history of one client, evaluated step by step, on which the properties of the client are
  applied: it connects, opens a Session, starts a Command, crashes while it runs, comes back
  and is asked for the same Command again.
\<close>

section \<open>A history\<close>

definition demo_client_env :: client_env where
  "demo_client_env = \<lparr>ce_uuid = (\<lambda>_. True), ce_sign = (\<lambda>_ _. ''sig''), ce_username = ''odyshell''\<rparr>"

definition demo_client_policy :: local_policy where
  "demo_client_policy =
     \<lparr>lp_organizationId = ''org'', lp_maxSessionDurationSeconds = 3600, lp_maxConcurrentSessions = 1,
      lp_maxConcurrentCommands = 1, lp_maxCommandTimeoutSeconds = 600, lp_maxCommandOutputBytes = 1048576,
      lp_allowRemoteApproval = True\<rparr>"

definition demo_client_config :: client_config where
  "demo_client_config =
     \<lparr>cfg_machineId = ''m'', cfg_privateKeyPem = ''pem'', cfg_profileId = ''default'',
      cfg_localPolicy = demo_client_policy\<rparr>"

definition demo_open :: session_open_msg where
  "demo_open =
     \<lparr>so_sessionId = ''s'', so_organizationId = ''org'', so_agentId = ''agent'', so_clientProfileId = ''default'',
      so_expiresAt = 900000, so_maxConcurrentCommands = 1, so_serverTime = 0\<rparr>"

definition demo_start :: command_start_msg where
  "demo_start =
     \<lparr>cs_commandId = ''c1'', cs_sessionId = ''s'', cs_command = ''true'', cs_cwd = None, cs_timeoutSeconds = 60,
      cs_maxOutputBytes = 1024\<rparr>"

text \<open>A client that is connected, then has the Session open, then starts the Command.\<close>

definition demo_online :: client where
  "demo_online = (fresh_client demo_client_config None)
     \<lparr>cl_socket := Some 0, cl_open := [0], cl_connections := 1, cl_authenticated := True, cl_heartbeat := True,
      cl_reconnectTimer := False\<rparr>"

definition demo_opened :: client where
  "demo_opened = demo_online
     \<lparr>cl_sessions := [(''s'', new_session demo_open 900000)], cl_timers := [''s''],
      cl_sent := [(0, CM_session_opened ''s'' ''default'' ''odyshell'')]\<rparr>"

definition demo_live :: client where
  "demo_live = demo_opened
     \<lparr>cl_commands := [(''c1'', 0)], cl_runs := [new_run demo_start 1024 60001],
      cl_journal := [(new_row ''c1'')\<lparr>jr_state := J_running\<rparr>],
      cl_sent := [(0, CM_session_opened ''s'' ''default'' ''odyshell''), (0, CM_command_started ''c1'' 1)]\<rparr>"

definition demo_running :: client where
  "demo_running = demo_live
     \<lparr>cl_runs := [(new_run demo_start 1024 60001)
        \<lparr>ru_control := (new_control ''s'')\<lparr>ct_running := True, ct_readySettled := True\<rparr>\<rparr>],
      cl_spawned := [''c1'']\<rparr>"

definition demo_restarted :: client where
  "demo_restarted = (fresh_client demo_client_config None)
     \<lparr>cl_connections := 1,
      cl_journal := [(new_row ''c1'')\<lparr>jr_state := J_completed, jr_result := Some (unknown_outcome False)\<rparr>],
      cl_sent := cl_sent demo_live, cl_spawned := [''c1'']\<rparr>"

abbreviation demo_steps :: "(client_event \<times> instant) list \<Rightarrow> client \<Rightarrow> client" where
  "demo_steps es c \<equiv> fold (client_step demo_client_env) es c"

definition connect_events :: "(client_event \<times> instant) list" where
  "connect_events = [(CE_connect, 0), (CE_open 0, 0), (CE_message 0 (Some (SM_authenticated ''m'')), 0), (CE_next, 0)]"

definition open_events :: "(client_event \<times> instant) list" where
  "open_events = [(CE_message 0 (Some (SM_session_open demo_open)), 0), (CE_next, 0)]"

definition start_events :: "(client_event \<times> instant) list" where
  "start_events = [(CE_message 0 (Some (SM_command_start demo_start)), 1), (CE_next, 1)]"

lemma demo_connects: "demo_steps connect_events (fresh_client demo_client_config None) = demo_online"
  by code_simp

lemma demo_opens: "demo_steps open_events demo_online = demo_opened"
  by code_simp

lemma demo_start_parses:
  "serverMessageSchema (ce_uuid demo_client_env) (SM_command_start demo_start) = Some (SM_command_start demo_start)"
proof -
  have "nul \<notin> set ''true''" by code_simp
  then show ?thesis
    by (simp add: message_schema_defs demo_client_env_def demo_start_def length_between_def protocol_constants)
qed

text \<open>What the queue does with a Command for a client that is online.\<close>

lemma queue_start:
  assumes "cl_busy c = None" "cl_queue c = []" "cl_socket c = Some s" "\<not> cl_stopped c" "cl_authenticated c"
    "serverMessageSchema (ce_uuid env) (SM_command_start m) = Some (SM_command_start m)"
  shows "client_step env (CE_next, now) (client_step env (CE_message s (Some (SM_command_start m)), now) c)
    = startCommand m now c"
proof -
  have same: "c\<lparr>cl_queue := []\<rparr> = c" using assms(2) by simp
  have "client_step env (CE_next, now) (client_step env (CE_message s (Some (SM_command_start m)), now) c)
    = startCommand m now (c\<lparr>cl_queue := []\<rparr>)"
    using assms by (simp add: client_step_def next_message_def client_handle_def)
  then show ?thesis by (simp only: same)
qed

lemma demo_opened_fields:
  "cl_busy demo_opened = None" "cl_queue demo_opened = []" "cl_socket demo_opened = Some 0"
  "\<not> cl_stopped demo_opened" "cl_authenticated demo_opened"
  by (simp_all add: demo_opened_def demo_online_def fresh_client_def boot_def)

lemma demo_starts: "demo_steps start_events demo_opened = demo_live"
proof -
  have "demo_steps start_events demo_opened = startCommand demo_start 1 demo_opened"
    using queue_start[OF demo_opened_fields demo_start_parses, of 1] by (simp add: start_events_def)
  also have "\<dots> = demo_live" by code_simp
  finally show ?thesis .
qed

lemma demo_spawns: "client_step demo_client_env (CE_prepared 0 None, 2) demo_live = demo_running"
  by code_simp

lemma demo_restarts: "client_step demo_client_env (CE_restart, 3) demo_running = demo_restarted"
  by code_simp

text \<open>After the restart the client is online again and is asked for the same Command.\<close>

definition demo_again :: client where
  "demo_again = demo_restarted
     \<lparr>cl_socket := Some 1, cl_open := [1], cl_connections := 2, cl_authenticated := True, cl_heartbeat := True,
      cl_reconnectTimer := False,
      cl_sent := cl_sent demo_live @ [(1, completion_message ''c1'' (unknown_outcome False) 3 demo_restarted)]\<rparr>"

definition again_events :: "(client_event \<times> instant) list" where
  "again_events = [(CE_connect, 3), (CE_open 1, 3), (CE_message 1 (Some (SM_authenticated ''m'')), 3), (CE_next, 3)]"

lemma demo_reconnects: "demo_steps again_events demo_restarted = demo_again"
  by code_simp

definition retry_events :: "(client_event \<times> instant) list" where
  "retry_events = [(CE_message 1 (Some (SM_command_start demo_start)), 4), (CE_next, 4)]"

definition demo_history :: "(client_event \<times> instant) list" where
  "demo_history = connect_events @ open_events @ start_events @ [(CE_prepared 0 None, 2), (CE_restart, 3)]
     @ again_events @ retry_events"

lemma demo_again_fields:
  "cl_busy demo_again = None" "cl_queue demo_again = []" "cl_socket demo_again = Some 1"
  "\<not> cl_stopped demo_again" "cl_authenticated demo_again"
  by (simp_all add: demo_again_def demo_restarted_def fresh_client_def boot_def)

lemma demo_retry: "demo_steps retry_events demo_again = startCommand demo_start 4 demo_again"
  using queue_start[OF demo_again_fields demo_start_parses, of 4] by (simp add: retry_events_def)

lemma demo_history_trace:
  "client_trace demo_client_env demo_client_config None demo_history = startCommand demo_start 4 demo_again"
  using demo_connects demo_opens demo_starts demo_spawns demo_restarts demo_reconnects demo_retry
  by (simp add: client_trace_def demo_history_def)

end
