(* ===== verification/Client_Properties.thy ===== *)
theory Client_Properties
  imports Client_Demo
begin

text \<open>
  What the client runtime promises: the invariant over any history with restarts, and that no
  Command is started twice.
\<close>

section \<open>Any history\<close>

text \<open>No event of the history makes the client handle an acknowledgement of the Command.\<close>

fun never_acks :: "client_env \<Rightarrow> ident \<Rightarrow> client \<Rightarrow> (client_event \<times> instant) list \<Rightarrow> bool" where
  "never_acks env i c [] \<longleftrightarrow> True"
| "never_acks env i c (e # es) \<longleftrightarrow>
     \<not> (fst e = CE_next \<and> next_is_ack env c i) \<and> never_acks env i (client_step env e c) es"

lemma never_acks_append:
  "never_acks env i c (es @ fs) \<longleftrightarrow> never_acks env i c es \<and> never_acks env i (fold (client_step env) es c) fs"
  by (induction es arbitrary: c) auto

lemma starts_inv_steps:
  "client_inv c \<Longrightarrow> starts_inv i c \<Longrightarrow> never_acks env i c es \<Longrightarrow> starts_inv i (fold (client_step env) es c)"
  by (induction es arbitrary: c) (auto simp: client_step_inv client_step_starts)


text \<open>
  C5: The client starts the process of a Command at most once, across retries, reconnections,
  cancellations and restarts, as long as the server has not acknowledged its result: the
  journal entry written before the start outlives the process.
\<close>

theorem command_starts_once:
  assumes "never_acks env i (fresh_client cfg runtime) es"
  shows "count_list (cl_spawned (client_trace env cfg runtime es)) i \<le> 1"
  using starts_inv_steps[OF fresh_client_inv assms] by (simp add: starts_inv_def client_trace_def)

section \<open>On the demonstration history\<close>

lemma start_is_no_ack:
  assumes "cl_busy c = None" "cl_queue c = []"
    "serverMessageSchema (ce_uuid env) (SM_command_start m) = Some (SM_command_start m)"
  shows "never_acks env i c [(CE_message s (Some (SM_command_start m)), now), (CE_next, now)]"
  using assms by (simp add: client_step_def next_is_ack_def)

lemma demo_history_acks: "never_acks demo_client_env ''c1'' (fresh_client demo_client_config None) demo_history"
proof -
  have "never_acks demo_client_env ''c1'' (fresh_client demo_client_config None) connect_events" by code_simp
  moreover have "never_acks demo_client_env ''c1'' demo_online open_events" by code_simp
  moreover have "never_acks demo_client_env ''c1'' demo_opened start_events"
    unfolding start_events_def by (rule start_is_no_ack[OF demo_opened_fields(1,2) demo_start_parses])
  moreover have "never_acks demo_client_env ''c1'' demo_live [(CE_prepared 0 None, 2), (CE_restart, 3)]" by simp
  moreover have "never_acks demo_client_env ''c1'' demo_restarted again_events" by code_simp
  moreover have "never_acks demo_client_env ''c1'' demo_again retry_events"
    unfolding retry_events_def by (rule start_is_no_ack[OF demo_again_fields(1,2) demo_start_parses])
  ultimately show ?thesis
    using demo_connects demo_opens demo_starts demo_spawns demo_restarts demo_reconnects
    by (simp add: demo_history_def never_acks_append)
qed

theorem command_starts_once_witness:
  "cl_spawned (client_trace demo_client_env demo_client_config None demo_history) = [''c1'']
   \<and> count_list (cl_spawned (client_trace demo_client_env demo_client_config None demo_history)) ''c1'' \<le> 1"
proof -
  have "cl_spawned (startCommand demo_start 4 demo_again) = [''c1'']" by code_simp
  then have "cl_spawned (client_trace demo_client_env demo_client_config None demo_history) = [''c1'']"
    by (simp only: demo_history_trace)
  with command_starts_once[OF demo_history_acks] show ?thesis by blast
qed


end
