(* ===== verification/Client_Output.thy ===== *)
theory Client_Output
  imports Client_Demo
begin

text \<open>
  The loop that forwards the output of a process against its specification: on a connection
  that stays up the server receives, chunk by chunk, the first bytes of what the process wrote
  on both streams, up to the limit, and the Command is flagged exactly when something was cut.
\<close>

section \<open>The specification\<close>

text \<open>What the process wrote, as bytes with their stream, in the order of the writes.\<close>

definition written :: "(stream \<times> byte list) list \<Rightarrow> (stream \<times> byte) list" where
  "written ws = concat (map (\<lambda>(s, d). map (Pair s) d) ws)"

definition output_bytes :: "ident \<Rightarrow> client_message \<Rightarrow> (stream \<times> byte) list" where
  "output_bytes i m = (case m of
       CM_command_output co \<Rightarrow>
         if co_commandId co = i then map (Pair (co_stream co)) (base64_decode (co_dataBase64 co)) else []
     | _ \<Rightarrow> [])"

definition sent_output :: "ident \<Rightarrow> client \<Rightarrow> (stream \<times> byte) list" where
  "sent_output i c = concat (map (output_bytes i \<circ> snd) (cl_sent c))"

lemma written_Cons: "written ((s, d) # ws) = map (Pair s) d @ written ws"
  by (simp add: written_def)

section \<open>One chunk\<close>

text \<open>The client is authenticated on an open socket, and nothing was cut from the Command yet.\<close>

definition streaming :: "nat \<Rightarrow> nat \<Rightarrow> client \<Rightarrow> bool" where
  "streaming sk r c \<longleftrightarrow>
     cl_authenticated c \<and> cl_socket c = Some sk \<and> sk \<in> set (cl_open c) \<and> r < length (cl_runs c)
     \<and> ru_commandId (cl_runs c ! r) \<notin> set (cl_outputTruncated c) \<and> \<not> ru_outputTruncated (cl_runs c ! r)"

lemma markUnconfirmed_fields [simp]:
  "cl_authenticated (markCommandOutputUnconfirmed i c) = cl_authenticated c"
  "cl_socket (markCommandOutputUnconfirmed i c) = cl_socket c"
  "cl_open (markCommandOutputUnconfirmed i c) = cl_open c"
  "cl_runs (markCommandOutputUnconfirmed i c) = cl_runs c"
  "cl_sent (markCommandOutputUnconfirmed i c) = cl_sent c"
  "cl_outputTruncated (markCommandOutputUnconfirmed i c) = cl_outputTruncated c"
  by (simp_all add: markCommandOutputUnconfirmed_def)

lemma deliver_streaming:
  assumes "streaming sk r c" "outputMessage m = Some (i, d)"
  shows "deliver m c = (True, (markCommandOutputUnconfirmed i c)\<lparr>cl_sent := cl_sent c @ [(sk, m)]\<rparr>)"
  using assms by (simp add: deliver_def Let_def streaming_def connected_def client_send_def)

lemma chunk_output: "outputMessage (chunk_message u s d) = Some (ru_commandId u, base64_encode d)"
  by (simp add: chunk_message_def outputMessage_def)

lemma chunk_bytes: "output_bytes i (chunk_message u s d) = (if ru_commandId u = i then map (Pair s) d else [])"
  by (simp add: output_bytes_def chunk_message_def base64_decode_encode)

section \<open>The loop over the chunks\<close>

definition numbered :: "int \<Rightarrow> ident \<Rightarrow> client_message list \<Rightarrow> bool" where
  "numbered n i ms \<longleftrightarrow> (\<forall>k < length ms. \<exists>co. ms ! k = CM_command_output co \<and> co_commandId co = i
     \<and> co_sequence co = n + int k \<and> (\<exists>bs. decodeCommandOutput (co_dataBase64 co) = Inr bs))"

lemma numbered_Nil [simp]: "numbered n i []"
  by (simp add: numbered_def)

lemma numbered_append: "numbered n i ms \<Longrightarrow> numbered (n + int (length ms)) i ns \<Longrightarrow> numbered n i (ms @ ns)"
  unfolding numbered_def
proof (intro allI impI)
  fix k assume a: "\<forall>k<length ms. \<exists>co. ms ! k = CM_command_output co \<and> co_commandId co = i \<and> co_sequence co = n + int k
      \<and> (\<exists>bs. decodeCommandOutput (co_dataBase64 co) = Inr bs)"
    and b: "\<forall>k<length ns. \<exists>co. ns ! k = CM_command_output co \<and> co_commandId co = i
      \<and> co_sequence co = n + int (length ms) + int k \<and> (\<exists>bs. decodeCommandOutput (co_dataBase64 co) = Inr bs)"
    and k: "k < length (ms @ ns)"
  show "\<exists>co. (ms @ ns) ! k = CM_command_output co \<and> co_commandId co = i \<and> co_sequence co = n + int k
      \<and> (\<exists>bs. decodeCommandOutput (co_dataBase64 co) = Inr bs)"
  proof (cases "k < length ms")
    case True
    with a show ?thesis by (simp add: nth_append)
  next
    case False
    with k have "k - length ms < length ns" "int (length ms) + int (k - length ms) = int k" by auto
    with b False show ?thesis by (metis add.assoc nth_append)
  qed
qed

lemma numbered_chunk:
  assumes "length d \<le> 256 * 1024"
  shows "numbered (ru_sequence u) (ru_commandId u) [chunk_message u s d]"
  using assms
  by (simp add: numbered_def chunk_message_def decodeCommandOutput_encode MAX_COMMAND_OUTPUT_CHUNK_BYTES_def)

text \<open>What a stretch of output does to the client.\<close>

definition streamed :: "nat \<Rightarrow> nat \<Rightarrow> (stream \<times> byte) list \<Rightarrow> client \<Rightarrow> client \<Rightarrow> bool" where
  "streamed sk r bs c c' \<longleftrightarrow>
     streaming sk r c'
     \<and> ru_start (cl_runs c' ! r) = ru_start (cl_runs c ! r)
     \<and> ru_maximumOutputBytes (cl_runs c' ! r) = ru_maximumOutputBytes (cl_runs c ! r)
     \<and> ru_outputBytes (cl_runs c' ! r) = ru_outputBytes (cl_runs c ! r) + int (length bs)
     \<and> (\<exists>ms. cl_sent c' = cl_sent c @ map (Pair sk) ms
          \<and> concat (map (output_bytes (ru_commandId (cl_runs c ! r))) ms) = bs
          \<and> numbered (ru_sequence (cl_runs c ! r)) (ru_commandId (cl_runs c ! r)) ms
          \<and> ru_sequence (cl_runs c' ! r) = ru_sequence (cl_runs c ! r) + int (length ms))"

lemma streamed_refl: "streaming sk r c \<Longrightarrow> streamed sk r [] c c"
  by (auto simp: streamed_def intro: exI[of _ "[]"])

lemma streamed_trans:
  assumes "streamed sk r as a b" "streamed sk r bs b c"
  shows "streamed sk r (as @ bs) a c"
proof -
  from assms obtain ms ns where
    "cl_sent b = cl_sent a @ map (Pair sk) ms" "concat (map (output_bytes (ru_commandId (cl_runs a ! r))) ms) = as"
    "numbered (ru_sequence (cl_runs a ! r)) (ru_commandId (cl_runs a ! r)) ms"
    "ru_sequence (cl_runs b ! r) = ru_sequence (cl_runs a ! r) + int (length ms)"
    "cl_sent c = cl_sent b @ map (Pair sk) ns" "concat (map (output_bytes (ru_commandId (cl_runs b ! r))) ns) = bs"
    "numbered (ru_sequence (cl_runs b ! r)) (ru_commandId (cl_runs b ! r)) ns"
    "ru_sequence (cl_runs c ! r) = ru_sequence (cl_runs b ! r) + int (length ns)"
    "ru_start (cl_runs b ! r) = ru_start (cl_runs a ! r)"
    by (auto simp: streamed_def)
  then have "\<exists>ms. cl_sent c = cl_sent a @ map (Pair sk) ms
      \<and> concat (map (output_bytes (ru_commandId (cl_runs a ! r))) ms) = as @ bs
      \<and> numbered (ru_sequence (cl_runs a ! r)) (ru_commandId (cl_runs a ! r)) ms
      \<and> ru_sequence (cl_runs c ! r) = ru_sequence (cl_runs a ! r) + int (length ms)"
    by (intro exI[of _ "ms @ ns"]) (simp add: numbered_append)
  with assms show ?thesis unfolding streamed_def by simp
qed

lemma emit_chunks_streamed:
  assumes "streaming sk r c" "\<forall>d \<in> set chunks. length d \<le> 256 * 1024"
  shows "fst (emit_chunks r s chunks c)"
    and "streamed sk r (map (Pair s) (concat chunks)) c (snd (emit_chunks r s chunks c))"
proof (atomize (full), use assms in \<open>induction chunks arbitrary: c\<close>)
  case Nil
  then show ?case by (simp add: streamed_refl)
next
  case (Cons d chunks)
  define u where "u = cl_runs c ! r"
  define m where "m = chunk_message u s d"
  define e where "e = upd_run r (\<lambda>u. u\<lparr>ru_sequence := ru_sequence u + 1, ru_outputBytes := ru_outputBytes u + int (length d)\<rparr>)
    ((markCommandOutputUnconfirmed (ru_commandId u) c)\<lparr>cl_sent := cl_sent c @ [(sk, m)]\<rparr>)"
  have r: "r < length (cl_runs c)" using Cons.prems(1) by (simp add: streaming_def)
  have del: "deliver m c = (True, (markCommandOutputUnconfirmed (ru_commandId u) c)\<lparr>cl_sent := cl_sent c @ [(sk, m)]\<rparr>)"
    unfolding m_def by (rule deliver_streaming[OF Cons.prems(1) chunk_output])
  have run: "cl_runs e ! r = u\<lparr>ru_sequence := ru_sequence u + 1, ru_outputBytes := ru_outputBytes u + int (length d)\<rparr>"
    using r by (simp add: e_def u_def)
  have se: "streaming sk r e" using Cons.prems(1) r run by (simp add: streaming_def u_def) (simp add: e_def)
  have "numbered (ru_sequence u) (ru_commandId u) [m]"
    unfolding m_def using Cons.prems(2) by (intro numbered_chunk) simp
  then have "streamed sk r (map (Pair s) d) c e"
    unfolding streamed_def using se run
    by (intro conjI exI[of _ "[m]"]) (simp_all add: u_def[symmetric], simp_all add: e_def m_def chunk_bytes)
  moreover have "fst (emit_chunks r s chunks e) \<and> streamed sk r (map (Pair s) (concat chunks)) e (snd (emit_chunks r s chunks e))"
    using Cons.IH[OF se] Cons.prems(2) by simp
  moreover have "emit_chunks r s (d # chunks) c = emit_chunks r s chunks e"
    by (simp add: del[unfolded m_def u_def] e_def u_def m_def)
  ultimately show ?case using streamed_trans by fastforce
qed

section \<open>Whole writes\<close>

lemma observe_streaming:
  assumes "streaming sk r c"
  shows "observe_truncation r c = c"
proof -
  define f :: "run \<Rightarrow> run" where
    "f = (\<lambda>u. u\<lparr>ru_outputTruncated := ru_outputTruncated u \<or> ru_commandId u \<in> set (cl_outputTruncated c)\<rparr>)"
  have f: "f (cl_runs c ! r) = cl_runs c ! r"
    using assms by (cases "cl_runs c ! r") (simp add: f_def streaming_def)
  have "observe_truncation r c = c\<lparr>cl_runs := (cl_runs c)[r := f (cl_runs c ! r)]\<rparr>"
    by (simp add: observe_truncation_def upd_run_def f_def)
  then show ?thesis by (simp only: f list_update_id) simp
qed

lemma run_markOutputTruncated_effect:
  assumes "r < length (cl_runs c)"
  shows "cl_sent (run_markOutputTruncated r c) = cl_sent c \<and> ru_outputTruncated (cl_runs (run_markOutputTruncated r c) ! r)"
proof -
  have "cl_sent (markCommandOutputTruncated i c) = cl_sent c \<and> cl_runs (markCommandOutputTruncated i c) = cl_runs c" for i
    by (simp add: markCommandOutputTruncated_def with_buffer_def discard_output_def Let_def)
  then show ?thesis using assms by (auto simp: run_markOutputTruncated_def Let_def)
qed

definition room :: "run \<Rightarrow> nat" where
  "room u = nat (ru_maximumOutputBytes u - ru_outputBytes u)"

lemma deliver_runs: "cl_runs (snd (deliver m c)) = cl_runs c"
  by simp

lemma emit_chunks_length:
  "r < length (cl_runs c) \<Longrightarrow> length (cl_runs (snd (emit_chunks r s chunks c))) = length (cl_runs c)"
  by (induction chunks arbitrary: c) (simp_all add: case_prod_beta Let_def)

lemma emit_fits:
  assumes st: "streaming sk r c" and d: "d \<noteq> []" "length d \<le> room (cl_runs c ! r)"
  shows "streamed sk r (map (Pair s) d) c (emit_output r s d c)"
proof -
  define p where "p = emit_chunks r s (output_chunks (256 * 1024) d) c"
  have "\<forall>x \<in> set (output_chunks (256 * 1024) d). length x \<le> 256 * 1024"
    using output_chunks_length by blast
  note p = emit_chunks_streamed[OF st this, of s, folded p_def]
  have "ru_outputBytes (cl_runs c ! r) < ru_maximumOutputBytes (cl_runs c ! r)"
    using d by (cases "ru_outputBytes (cl_runs c ! r) < ru_maximumOutputBytes (cl_runs c ! r)") (simp_all add: room_def)
  then have "emit_output r s d c = snd p"
    using st d p(1) by (simp add: emit_output_def Let_def observe_streaming[OF st] streaming_def room_def
        case_prod_beta p_def[simplified])
  with p(2) show ?thesis by (simp add: concat_output_chunks)
qed

lemma emit_cuts:
  assumes st: "streaming sk r c" and d: "room (cl_runs c ! r) < length d"
  shows "\<exists>e. streamed sk r (map (Pair s) (take (room (cl_runs c ! r)) d)) c e
    \<and> cl_sent (emit_output r s d c) = cl_sent e \<and> ru_outputTruncated (cl_runs (emit_output r s d c) ! r)
    \<and> length (cl_runs (emit_output r s d c)) = length (cl_runs c)"
proof (cases "ru_maximumOutputBytes (cl_runs c ! r) - ru_outputBytes (cl_runs c ! r) \<le> 0")
  case True
  have "emit_output r s d c = run_markOutputTruncated r c"
    using st True by (simp add: emit_output_def Let_def observe_streaming[OF st] streaming_def)
  moreover have "streamed sk r (map (Pair s) (take (room (cl_runs c ! r)) d)) c c"
    using True streamed_refl[OF st] by (simp add: room_def)
  ultimately show ?thesis using run_markOutputTruncated_effect[of r c] st by (auto simp: streaming_def)
next
  case False
  define data where "data = take (room (cl_runs c ! r)) d"
  define p where "p = emit_chunks r s (output_chunks (256 * 1024) data) c"
  have "\<forall>x \<in> set (output_chunks (256 * 1024) data). length x \<le> 256 * 1024"
    using output_chunks_length by blast
  note p = emit_chunks_streamed[OF st this, of s, folded p_def]
  have "emit_output r s d c = run_markOutputTruncated r (snd p)"
    using st False d p(1) by (simp add: emit_output_def Let_def observe_streaming[OF st] streaming_def room_def
        case_prod_beta p_def[simplified] data_def)
  moreover have len: "length (cl_runs (snd p)) = length (cl_runs c)"
    unfolding p_def by (rule emit_chunks_length) (use st in \<open>simp add: streaming_def\<close>)
  moreover have "streamed sk r (map (Pair s) data) c (snd p)" using p(2) by (simp add: concat_output_chunks)
  ultimately show ?thesis using run_markOutputTruncated_effect[of r "snd p"] st data_def by (auto simp: streaming_def)
qed

lemma emit_after_cut:
  assumes "r < length (cl_runs c)" "ru_outputTruncated (cl_runs c ! r)"
  shows "cl_sent (fold (\<lambda>(s, d). emit_output r s d) ws c) = cl_sent c
    \<and> ru_outputTruncated (cl_runs (fold (\<lambda>(s, d). emit_output r s d) ws c) ! r)"
  using assms
proof (induction ws arbitrary: c)
  case (Cons w ws)
  obtain s d where w: "w = (s, d)" by force
  have e: "emit_output r s d c = observe_truncation r c"
    using Cons.prems by (simp add: emit_output_def Let_def observe_truncation_def)
  have "cl_sent (observe_truncation r c) = cl_sent c" "r < length (cl_runs (observe_truncation r c))"
    "ru_outputTruncated (cl_runs (observe_truncation r c) ! r)"
    using Cons.prems by (simp_all add: observe_truncation_def)
  with Cons.IH[of "observe_truncation r c"] show ?case by (simp add: w e)
qed simp

lemma emit_writes:
  assumes "streaming sk r c" "ru_outputBytes (cl_runs c ! r) \<le> ru_maximumOutputBytes (cl_runs c ! r)"
    "\<forall>(s, d) \<in> set ws. d \<noteq> []"
  shows "\<exists>e. streamed sk r (take (room (cl_runs c ! r)) (written ws)) c e
    \<and> cl_sent (fold (\<lambda>(s, d). emit_output r s d) ws c) = cl_sent e
    \<and> (ru_outputTruncated (cl_runs (fold (\<lambda>(s, d). emit_output r s d) ws c) ! r)
         \<longleftrightarrow> room (cl_runs c ! r) < length (written ws))"
  using assms
proof (induction ws arbitrary: c)
  case Nil
  then show ?case by (intro exI[of _ c]) (auto simp: written_def streamed_refl streaming_def)
next
  case (Cons w ws)
  obtain s d where w: "w = (s, d)" by force
  note st = Cons.prems(1)
  define n where "n = room (cl_runs c ! r)"
  define f where "f = emit_output r s d c"
  show ?case
  proof (cases "length d \<le> n")
    case True
    have f: "streamed sk r (map (Pair s) d) c f"
      unfolding f_def using st Cons.prems(3) True by (intro emit_fits) (simp_all add: w n_def)
    have fs: "streaming sk r f" "ru_outputBytes (cl_runs f ! r) \<le> ru_maximumOutputBytes (cl_runs f ! r)"
      "room (cl_runs f ! r) = n - length d"
      using f True Cons.prems(2) by (auto simp: streamed_def room_def n_def)
    obtain e where e: "streamed sk r (take (n - length d) (written ws)) f e"
      "cl_sent (fold (\<lambda>(s, d). emit_output r s d) ws f) = cl_sent e"
      "ru_outputTruncated (cl_runs (fold (\<lambda>(s, d). emit_output r s d) ws f) ! r) \<longleftrightarrow> n - length d < length (written ws)"
      using Cons.IH[OF fs(1,2)] Cons.prems(3) fs(3) by auto
    have "take n (written (w # ws)) = map (Pair s) d @ take (n - length d) (written ws)"
      using True by (simp add: w written_Cons)
    with streamed_trans[OF f e(1)] e(2,3) True show ?thesis
      by (auto simp: n_def[symmetric] w f_def[symmetric] written_Cons)
  next
    case False
    then obtain e where e: "streamed sk r (map (Pair s) (take n d)) c e" "cl_sent f = cl_sent e"
      "ru_outputTruncated (cl_runs f ! r)" "length (cl_runs f) = length (cl_runs c)"
      using emit_cuts[OF st, of d s] by (auto simp: n_def f_def)
    moreover have "take n (written (w # ws)) = map (Pair s) (take n d)"
      using False by (simp add: w written_Cons take_map)
    ultimately show ?thesis using emit_after_cut[of r f ws] st False
      by (auto simp: n_def[symmetric] w f_def[symmetric] written_Cons streaming_def)
  qed
qed

text \<open>
  C9: On a connection that stays up, forwarding the writes of a process equals cutting the
  stream: the server receives, after what was sent before, exactly the first bytes the
  process wrote, in order and each with its stream, up to the room left by the limit; the
  Command is flagged as truncated exactly when the process wrote more; and the messages are
  numbered consecutively and each is one the server's decoder accepts, whatever the sizes of the writes were.
\<close>

theorem output_forwarding:
  assumes "streaming sk r c" "ru_outputBytes (cl_runs c ! r) \<le> ru_maximumOutputBytes (cl_runs c ! r)"
    "\<forall>(s, d) \<in> set ws. d \<noteq> []"
    and "c' = fold (\<lambda>(s, d). emit_output r s d) ws c" "u = cl_runs c ! r"
  shows "sent_output (ru_commandId u) c' =
      sent_output (ru_commandId u) c @ take (nat (ru_maximumOutputBytes u - ru_outputBytes u)) (written ws)
    \<and> (ru_outputTruncated (cl_runs c' ! r) \<longleftrightarrow>
         nat (ru_maximumOutputBytes u - ru_outputBytes u) < length (written ws))
    \<and> (\<exists>ms. cl_sent c' = cl_sent c @ map (Pair sk) ms \<and> numbered (ru_sequence u) (ru_commandId u) ms)"
proof -
  obtain e where e: "streamed sk r (take (room u) (written ws)) c e" "cl_sent c' = cl_sent e"
    "ru_outputTruncated (cl_runs c' ! r) \<longleftrightarrow> room u < length (written ws)"
    using emit_writes[OF assms(1-3)] assms(4,5) by auto
  from e(1) obtain ms where ms: "cl_sent e = cl_sent c @ map (Pair sk) ms"
    "concat (map (output_bytes (ru_commandId u)) ms) = take (room u) (written ws)"
    "numbered (ru_sequence u) (ru_commandId u) ms"
    by (auto simp: streamed_def assms(5))
  then have "sent_output (ru_commandId u) c' = sent_output (ru_commandId u) c @ take (room u) (written ws)"
    by (simp add: sent_output_def e(2) comp_def)
  with e ms show ?thesis by (auto simp: room_def)
qed

text \<open>Two writes of 600 bytes on the two streams, with a limit of 1024.\<close>

theorem output_forwarding_witness:
  "ru_outputTruncated (cl_runs (fold (\<lambda>(s, d). emit_output 0 s d)
      [(stdout, replicate 600 7), (stderr, replicate 600 9)] demo_running) ! 0)
   \<and> sent_output ''c1'' (fold (\<lambda>(s, d). emit_output 0 s d)
      [(stdout, replicate 600 7), (stderr, replicate 600 9)] demo_running) =
      replicate 600 (stdout, 7) @ replicate 424 (stderr, 9)"
proof -
  have f: "cl_runs demo_running = [(new_run demo_start 1024 60001)
        \<lparr>ru_control := (new_control ''s'')\<lparr>ct_running := True, ct_readySettled := True\<rparr>\<rparr>]"
    "cl_authenticated demo_running" "cl_socket demo_running = Some 0" "cl_open demo_running = [0]"
    "cl_outputTruncated demo_running = []"
    "cl_sent demo_running = [(0, CM_session_opened ''s'' ''default'' ''odyshell''), (0, CM_command_started ''c1'' 1)]"
    by (simp_all add: demo_running_def demo_live_def demo_opened_def demo_online_def fresh_client_def boot_def)
  have s: "streaming 0 0 demo_running" by (simp add: streaming_def f new_run_def demo_start_def)
  have w: "written [(stdout, replicate 600 (7::byte)), (stderr, replicate 600 9)] =
      replicate 600 (stdout, 7) @ replicate 600 (stderr, 9)"
    by (simp add: written_def map_replicate)
  have u: "nat (ru_maximumOutputBytes (cl_runs demo_running ! 0) - ru_outputBytes (cl_runs demo_running ! 0)) = 1024"
    "ru_commandId (cl_runs demo_running ! 0) = ''c1''" "sent_output ''c1'' demo_running = []"
    by (simp_all add: f new_run_def demo_start_def sent_output_def output_bytes_def)
  have "ru_outputBytes (cl_runs demo_running ! 0) \<le> ru_maximumOutputBytes (cl_runs demo_running ! 0)"
    by (simp add: f new_run_def)
  from output_forwarding[OF s this, of "[(stdout, replicate 600 7), (stderr, replicate 600 9)]", OF _ refl refl]
  show ?thesis by (simp add: w u)
qed

end
