(* ===== verification/Client_Failures.thy ===== *)
theory Client_Failures
  imports Client_Demo Gateway Control_Properties
begin

text \<open>
  Two error paths of the client whose outcome depends on more than the error: a process tree
  that cannot be terminated, and an error text that the wire contract does not admit.
\<close>

section \<open>The stored outcome survives the bookkeeping of output\<close>




lemma completion_no_output [simp]: "outputMessage (completion_message i res now c) = None"
  by (simp add: completion_message_def outputMessage_def Let_def)



section \<open>A process tree that cannot be terminated\<close>


lemma terminal_quarantined [simp]: "cl_quarantined (beginTerminalFailure c)"
proof -
  have q: "cl_quarantined (fold markCommandOutputTruncated xs d) = cl_quarantined d" for xs d
    by (induction xs arbitrary: d) (simp_all add: markCommandOutputTruncated_def with_buffer_def discard_output_def Let_def)
  show ?thesis
    by (auto simp: beginTerminalFailure_def beginTerminalShutdown_def Let_def markUnconfirmedOutputTruncated_def q
        client_closeSocket_def split: option.splits)
qed











section \<open>An error text the wire contract does not admit\<close>

lemma deliver_connected:
  assumes "cl_authenticated c" "cl_socket c = Some s" "s \<in> set (cl_open c)" "outputMessage m = None"
  shows "deliver m c = (True, c\<lparr>cl_sent := cl_sent c @ [(s, m)]\<rparr>)"
  using assms by (simp add: deliver_def Let_def connected_def client_send_def)

lemma reconcile_connected:
  assumes "cl_authenticated c" "cl_socket c = Some s" "s \<in> set (cl_open c)"
  shows "reconcileJournalResults now c = c\<lparr>cl_sent := cl_sent c
    @ map (\<lambda>(i, res). (s, completion_message i res now c)) (resultsForReconciliation (cl_journal c))\<rparr>"
proof -
  have "fold (\<lambda>(i, res). sendCompletion i res now) rs d = d\<lparr>cl_sent := cl_sent d
      @ map (\<lambda>(i, res). (s, completion_message i res now c)) rs\<rparr>"
    if "cl_authenticated d" "cl_socket d = Some s" "s \<in> set (cl_open d)" "cl_outputTruncated d = cl_outputTruncated c" for rs d
    using that
  proof (induction rs arbitrary: d)
    case (Cons x rs)
    obtain i res where x: "x = (i, res)" by force
    have "sendCompletion i res now d = d\<lparr>cl_sent := cl_sent d @ [(s, completion_message i res now c)]\<rparr>"
      using Cons.prems by (simp add: sendCompletion_def deliver_connected) (simp add: completion_message_def)
    with Cons show ?case by (simp add: x)
  qed simp
  with assms show ?thesis by (simp add: reconcileJournalResults_def)
qed

lemma flush_connected:
  "cl_authenticated c \<Longrightarrow> cl_socket c = Some s \<Longrightarrow> s \<in> set (cl_open c) \<Longrightarrow>
    \<exists>b ms. flushBufferedMessages c = c\<lparr>cl_buffer := b, cl_sent := cl_sent c @ ms\<rparr>"
proof (induction c rule: flushBufferedMessages.induct)
  case (1 c)
  show ?case
  proof (cases "cb_messages (cl_buffer c)")
    case Nil
    with 1 have "flushBufferedMessages c = c" by (subst flushBufferedMessages.simps) (simp add: connected_def)
    then show ?thesis by (intro exI[of _ "cl_buffer c"] exI[of _ "[]"]) simp
  next
    case (Cons e es)
    define c' where "c' = c\<lparr>cl_sent := cl_sent c @ [(s, bm_message e)]\<rparr>"
    define d where "d = c'\<lparr>cl_buffer := snd (buffer_shift (cl_buffer c'))\<rparr>"
    have send: "client_send (bm_message e) c = Inr c'"
      using 1 by (simp add: client_send_def c'_def)
    have con: "cl_authenticated c \<and> connected c" using 1 by (simp add: connected_def)
    have "flushBufferedMessages c = flushBufferedMessages d"
      using con Cons send by (subst flushBufferedMessages.simps) (simp add: d_def)
    moreover obtain b ms where "flushBufferedMessages d = d\<lparr>cl_buffer := b, cl_sent := cl_sent d @ ms\<rparr>"
      using 1(1)[OF con Cons send, folded d_def] 1(2-) by (auto simp: d_def c'_def)
    ultimately show ?thesis by (intro exI[of _ b] exI[of _ "(s, bm_message e) # ms"]) (simp add: d_def c'_def)
  qed
qed

lemma oversized_completion_rejected:
  "res_error res = Some e \<Longrightarrow> 2048 < length e \<Longrightarrow> clientMessageSchema uuid (completion_message i res now c) = None"
  by (auto simp: completion_message_def Let_def message_schema_defs)

text \<open>
  C29: An error text of more than 2048 characters wedges the Machine.  The error of a Command
  that could not be started is stored as it came (a working directory may be 4096 characters
  long, and the error of its lookup quotes it), but a completion with such an error is not
  admitted by the wire contract.  So at every handshake the client sends a completion that the server
  answers, without acknowledging anything or touching its databases, by closing the connection
  with 4002, and the journal still holds the same result for the next handshake.
\<close>

theorem oversized_error_wedges:
  assumes "c = client_trace env cfg runtime es" "cl_socket c = Some s" "s \<in> set (cl_open c)"
    "journal_result i (cl_journal c) = Some res" "res_error res = Some e" "2048 < length e"
    and "c' = handshake_done now c" "m = completion_message i res now c"
    and "sv_sockets sv k = Some sk" "sk_ready sk" "sk_inbox sk = Some m # rest" "idle (Message_of k) sv"
    and "sv' = gateway_step genv (Handle k, t) sv"
  shows "(s, m) \<in> set (drop (length (cl_sent c)) (cl_sent c')) \<and> journal_result i (cl_journal c') = Some res
    \<and> sv_sockets sv' k = Some (sk\<lparr>sk_inbox := rest, sk_ready := False, sk_closeCode := Some (4002, ''Protocol error'')\<rparr>)
    \<and> sv_control sv' = sv_control sv \<and> sv_sessions sv' = sv_sessions sv"
proof -
  have wf: "journal_wf (cl_journal c)" using client_trace_inv[of env cfg runtime es] assms(1) inv_parts(6) by blast
  define a where "a = c\<lparr>cl_authenticated := True, cl_reconnectDelay := 1000\<rparr>"
  obtain b ms where f: "flushBufferedMessages a = a\<lparr>cl_buffer := b, cl_sent := cl_sent a @ ms\<rparr>"
    using flush_connected[of a s] assms(2,3) by (auto simp: a_def)
  define d where "d = a\<lparr>cl_buffer := b, cl_sent := cl_sent a @ ms\<rparr>"
  have d: "completion_message j r now d = completion_message j r now c" "cl_journal d = cl_journal c" for j r
    by (simp_all add: completion_message_def d_def a_def)
  have "c' = (reconcileJournalResults now d)\<lparr>cl_heartbeat := True\<rparr>"
    by (simp add: assms(7) handshake_done_def Let_def a_def[symmetric] f d_def)
  also have "reconcileJournalResults now d = d\<lparr>cl_sent := cl_sent d
      @ map (\<lambda>(j, r). (s, completion_message j r now c)) (resultsForReconciliation (cl_journal c))\<rparr>"
    using reconcile_connected[of d s now] assms(2,3) by (simp add: d) (simp add: d_def a_def)
  finally have c': "cl_sent c' = cl_sent c @ ms
      @ map (\<lambda>(j, r). (s, completion_message j r now c)) (resultsForReconciliation (cl_journal c))" "cl_journal c' = cl_journal c"
    by (simp_all add: d_def a_def)
  have "(i, res) \<in> set (resultsForReconciliation (cl_journal c))"
    using assms(4) resultsForReconciliation_iff[OF wf] by simp
  then have "(s, m) \<in> set (drop (length (cl_sent c)) (cl_sent c'))" by (force simp: c' assms(8))
  moreover have "clientMessageSchema (ge_uuid genv) m = None"
    unfolding assms(8) by (rule oversized_completion_rejected[OF assms(5,6)])
  then have "sv' = closeSocket k 4002 ''Protocol error'' (finish_task (Message_of k)
      (upd_socket k (\<lambda>s. s\<lparr>sk_inbox := rest\<rparr>) sv))"
    using assms(9-12) by (simp add: assms(13) gateway_step_def handleMessage_def settle_def)
  ultimately show ?thesis
    using assms(4,9,10) by (simp add: c' closeSocket_def finish_task_def upd_socket_def)
qed

text \<open>
  The working directory of the demonstration Command cannot be resolved, with an error of 3000
  characters; the client is still connected, and the server meets the completion on a new socket.
\<close>

definition demo_unresolved :: "string \<Rightarrow> client" where
  "demo_unresolved e = client_step demo_client_env (CE_prepared 0 (Some e), 2) demo_live"

definition demo_oversized :: "string \<Rightarrow> command_result" where
  "demo_oversized e = \<lparr>res_status = C_failed, res_exitCode = None, res_error = Some e, res_outputTruncated = False\<rparr>"

lemma demo_unresolved_state:
  "cl_socket (demo_unresolved e) = Some 0" "cl_open (demo_unresolved e) = [0]"
  "journal_result ''c1'' (cl_journal (demo_unresolved e)) = Some (demo_oversized e)"
  by code_simp+

abbreviation demo_error :: string where
  "demo_error \<equiv> replicate 3000 CHR ''x''"

definition demo_completion :: client_message where
  "demo_completion = completion_message ''c1'' (demo_oversized demo_error) 5 (demo_unresolved demo_error)"

definition demo_wire :: gateway_env where
  "demo_wire = \<lparr>ge_uuid = (\<lambda>_. True), ge_verify = (\<lambda>_ _ _. None), ge_outputRetention = 0\<rparr>"

definition demo_wedged :: server where
  "demo_wedged = gateway_step demo_wire (Received 0 (Some demo_completion), 5)
    (gateway_step demo_wire (Connected 0 ''c'' ''n'', 4) (start_server control_example example_db))"

lemma demo_wedged_state:
  "sv_sockets demo_wedged 0 = Some ((new_socket ''c'' ''n'')\<lparr>sk_sent := [SM_challenge ''c'' ''n''], sk_inbox := [Some demo_completion]\<rparr>)"
  "idle t demo_wedged"
  by (simp_all add: demo_wedged_def gateway_step_def accept_socket_def sendSocket_def upd_socket_def start_server_def
      new_socket_def idle_def)

theorem oversized_error_wedges_witness:
  "sk_closeCode (the (sv_sockets (gateway_step demo_wire (Handle 0, 5) demo_wedged) 0)) = Some (4002, ''Protocol error'')
   \<and> journal_result ''c1'' (cl_journal (handshake_done 5 (demo_unresolved demo_error))) = Some (demo_oversized demo_error)"
proof -
  have trace: "demo_unresolved demo_error = client_trace demo_client_env demo_client_config None
      (connect_events @ open_events @ start_events @ [(CE_prepared 0 (Some demo_error), 2)])"
    using demo_connects demo_opens demo_starts by (simp add: client_trace_def demo_unresolved_def)
  have long: "res_error (demo_oversized demo_error) = Some demo_error" "2048 < length demo_error"
    by (simp_all add: demo_oversized_def)
  have "0 \<in> set (cl_open (demo_unresolved demo_error))" by (simp only: demo_unresolved_state) simp
  from oversized_error_wedges[OF trace demo_unresolved_state(1) this demo_unresolved_state(3) long refl
      demo_completion_def demo_wedged_state(1) _ _ demo_wedged_state(2) refl, where rest = "[]" and genv = demo_wire and t = 5]
  show ?thesis by (simp add: new_socket_def)
qed

end
