(* ===== verification/Platform.thy ===== *)
theory Platform
  imports Protocol
begin

text \<open>
  apps/client/src/platform.ts: the host's shell, the names of Client Profiles and the places of
  their configuration files, on Linux and macOS.  The functions of Node's \<open>path.posix\<close> that the code calls are
  modelled on code units; the Windows paths, which go through \<open>path.win32\<close>, are not modelled.
\<close>

section \<open>Paths\<close>

fun split_slash :: "string \<Rightarrow> string list" where
  "split_slash [] = [[]]"
| "split_slash (c # cs) =
     (if c = CHR ''/'' then [] # split_slash cs
      else (case split_slash cs of s # ss \<Rightarrow> (c # s) # ss | [] \<Rightarrow> [[c]]))"

fun slashed :: "string list \<Rightarrow> string" where
  "slashed [] = []"
| "slashed [s] = s"
| "slashed (s # t # ss) = s @ CHR ''/'' # slashed (t # ss)"

text \<open>One segment on the stack of those kept so far, the last one first.\<close>

definition add_segment :: "bool \<Rightarrow> string \<Rightarrow> string list \<Rightarrow> string list" where
  "add_segment climb s kept =
     (if s = [] \<or> s = ''.'' then kept
      else if s = ''..''
      then (case kept of
              t # ts \<Rightarrow> if t \<noteq> ''..'' then ts else if climb then s # kept else kept
            | [] \<Rightarrow> if climb then [s] else [])
      else s # kept)"

definition resolve_segments :: "bool \<Rightarrow> string list \<Rightarrow> string list" where
  "resolve_segments climb ss = rev (fold (add_segment climb) ss [])"

definition is_rooted :: "string \<Rightarrow> bool" where
  "is_rooted p \<longleftrightarrow> p \<noteq> [] \<and> hd p = CHR ''/''"

definition posix_normalize :: "string \<Rightarrow> string" where
  "posix_normalize p =
     (if p = [] then ''.''
      else
        let absolute = is_rooted p;
            trailing = last p = CHR ''/'';
            body = slashed (resolve_segments (\<not> absolute) (split_slash p))
        in if body = [] then (if absolute then ''/'' else if trailing then ''./'' else ''.'')
           else (if absolute then ''/'' else []) @ body @ (if trailing then ''/'' else []))"

definition posix_join :: "string list \<Rightarrow> string" where
  "posix_join parts =
     (let given = filter (\<lambda>s. s \<noteq> []) parts in if given = [] then ''.'' else posix_normalize (slashed given))"

definition posix_dirname :: "string \<Rightarrow> string" where
  "posix_dirname p =
     (if p = [] then ''.''
      else
        let body = rev (dropWhile (\<lambda>c. c \<noteq> CHR ''/'') (dropWhile (\<lambda>c. c = CHR ''/'') (rev (tl p))))
        in if body = [] then (if is_rooted p then ''/'' else ''.'')
           else if is_rooted p \<and> length body = 1 then ''//''
           else take (length body) p)"

section \<open>The platform\<close>

datatype node_platform = Linux | Darwin | Win32 | Other_platform string

record account_shell =
  sh_program :: string
  sh_flags :: "string list"
  sh_windowsVerbatimArguments :: bool

text \<open>\<open>argsForCommand\<close> appends the command to the flags.  The environment is a function from names.\<close>

type_synonym environment = "string \<Rightarrow> string option"

definition argsForCommand :: "account_shell \<Rightarrow> string \<Rightarrow> string list" where
  "argsForCommand sh command = sh_flags sh @ [command]"

definition hostAccountShell :: "node_platform \<Rightarrow> environment \<Rightarrow> string option \<Rightarrow> account_shell" where
  "hostAccountShell platform env loginShell =
     (if platform = Win32
      then \<lparr>sh_program = (case env ''ComSpec'' of Some p \<Rightarrow> p | None \<Rightarrow> ''cmd.exe''),
            sh_flags = [''/d'', ''/s'', ''/c''], sh_windowsVerbatimArguments = True\<rparr>
      else \<lparr>sh_program = (case loginShell of Some p \<Rightarrow> if p = [] then ''/bin/sh'' else p | None \<Rightarrow> ''/bin/sh''),
            sh_flags = [''-l'', ''-c''], sh_windowsVerbatimArguments = False\<rparr>)"

definition hostPlatform :: "node_platform \<Rightarrow> exn + host_platform" where
  "hostPlatform platform = (case platform of
       Linux \<Rightarrow> Inr linux
     | Darwin \<Rightarrow> Inr macos
     | Win32 \<Rightarrow> Inr windows
     | Other_platform name \<Rightarrow> Inl (Exn (''Unsupported host platform: '' @ name)))"

text \<open>The branches for Linux and macOS.\<close>

definition clientConfigPathFor :: "node_platform \<Rightarrow> string \<Rightarrow> environment \<Rightarrow> string" where
  "clientConfigPathFor platform home env =
     (if platform = Darwin
      then posix_join [home, ''Library'', ''Application Support'', ''Odyshell'', ''client.json'']
      else posix_join [case env ''XDG_CONFIG_HOME'' of Some d \<Rightarrow> d | None \<Rightarrow> posix_join [home, ''.config''],
             ''odyshell'', ''client.json''])"

section \<open>Client Profiles\<close>

definition profile_unit :: "char \<Rightarrow> bool" where
  "profile_unit c \<longleftrightarrow> (let n = of_char c :: nat in (97 \<le> n \<and> n \<le> 122) \<or> (48 \<le> n \<and> n \<le> 57))"

text \<open>\<open>^[a-z0-9](?:[a-z0-9-]{0,38}[a-z0-9])?$\<close>\<close>

definition profile_pattern :: "string \<Rightarrow> bool" where
  "profile_pattern s \<longleftrightarrow>
     s \<noteq> [] \<and> length s \<le> 40 \<and> profile_unit (hd s) \<and> profile_unit (last s)
     \<and> list_all (\<lambda>c. profile_unit c \<or> c = CHR ''-'') s"

text \<open>
  \<open>toLowerCase\<close> turns a unit above 127 into one above 127, which the pattern refuses either way;
  on the letters it is \<open>lower_unit\<close>.
\<close>

definition normalizeClientProfileName :: "string \<Rightarrow> exn + string" where
  "normalizeClientProfileName profileName =
     (let normalized = map lower_unit (js_trim profileName) in
      if profile_pattern normalized then Inr normalized
      else Inl (Exn ''Client Profile name must contain 1-40 lowercase letters, numbers, or hyphens''))"

definition clientConfigPathForProfile ::
  "string \<Rightarrow> node_platform \<Rightarrow> string \<Rightarrow> environment \<Rightarrow> exn + string" where
  "clientConfigPathForProfile profileName platform home env =
     (case normalizeClientProfileName profileName of
        Inl e \<Rightarrow> Inl e
      | Inr normalized \<Rightarrow>
          Inr (posix_join [posix_dirname (clientConfigPathFor platform home env), ''clients'', normalized, ''client.json'']))"

section \<open>Facts about paths\<close>

lemma split_slash_plain [simp]: "CHR ''/'' \<notin> set s \<Longrightarrow> split_slash s = [s]"
  by (induction s) auto

lemma split_slash_append: "CHR ''/'' \<notin> set s \<Longrightarrow> split_slash (s @ CHR ''/'' # r) = s # split_slash r"
  by (induction s) auto

lemma split_slashed: "ss \<noteq> [] \<Longrightarrow> \<forall>s \<in> set ss. CHR ''/'' \<notin> set s \<Longrightarrow> split_slash (slashed ss) = ss"
  by (induction ss rule: slashed.induct) (auto simp: split_slash_append)

lemma split_slash_free: "s \<in> set (split_slash p) \<Longrightarrow> CHR ''/'' \<notin> set s"
proof (induction p arbitrary: s rule: split_slash.induct)
  case (2 c cs)
  then show ?case by (cases "split_slash cs") (auto split: if_splits)
qed simp

fun stack_ok :: "bool \<Rightarrow> string list \<Rightarrow> bool" where
  "stack_ok climb [] = True"
| "stack_ok climb (s # ss) \<longleftrightarrow> add_segment climb s ss = s # ss \<and> CHR ''/'' \<notin> set s \<and> stack_ok climb ss"

lemma add_segment_ok: "stack_ok climb kept \<Longrightarrow> CHR ''/'' \<notin> set s \<Longrightarrow> stack_ok climb (add_segment climb s kept)"
proof -
  assume kept: "stack_ok climb kept" and free: "CHR ''/'' \<notin> set s"
  show ?thesis
  proof (cases "s = [] \<or> s = ''.'' \<or> s \<noteq> ''..''")
    case True
    then show ?thesis using kept free by (auto simp: add_segment_def)
  next
    case False
    then have s: "s = ''..''" by blast
    show ?thesis
    proof (cases kept)
      case Nil
      then show ?thesis by (cases climb) (simp_all add: add_segment_def s)
    next
      case (Cons t ts)
      show ?thesis
      proof (cases "t = ''..''")
        case True
        then show ?thesis using kept Cons by (cases climb) (simp_all add: add_segment_def s)
      next
        case False
        then show ?thesis using kept Cons by (simp add: add_segment_def s)
      qed
    qed
  qed
qed

lemma fold_segment_ok:
  "stack_ok climb kept \<Longrightarrow> \<forall>s \<in> set ss. CHR ''/'' \<notin> set s \<Longrightarrow> stack_ok climb (fold (add_segment climb) ss kept)"
  by (induction ss arbitrary: kept) (auto simp: add_segment_ok)

lemma fold_rev_stack: "stack_ok climb kept \<Longrightarrow> fold (add_segment climb) (rev kept) [] = kept"
  by (induction kept) auto

text \<open>A segment that is kept as it is.\<close>

definition plain_segment :: "string \<Rightarrow> bool" where
  "plain_segment s \<longleftrightarrow> s \<noteq> [] \<and> s \<noteq> ''.'' \<and> s \<noteq> ''..'' \<and> CHR ''/'' \<notin> set s"

lemma fold_plain: "\<forall>s \<in> set ss. plain_segment s \<Longrightarrow> fold (add_segment climb) ss kept = rev ss @ kept"
  by (induction ss arbitrary: kept) (auto simp: add_segment_def plain_segment_def)

lemma slashed_append: "a \<noteq> [] \<Longrightarrow> b \<noteq> [] \<Longrightarrow> slashed (a @ b) = slashed a @ CHR ''/'' # slashed b"
  by (induction a rule: slashed.induct) (auto simp: neq_Nil_conv)

lemma slashed_eq_Nil: "\<forall>s \<in> set ss. s \<noteq> [] \<Longrightarrow> slashed ss = [] \<longleftrightarrow> ss = []"
  by (cases ss rule: slashed.cases) auto

text \<open>A directory as \<open>posix.join\<close> leaves one: its root and the segments it keeps.\<close>

definition place :: "bool \<Rightarrow> string list \<Rightarrow> string" where
  "place absolute ss = (if absolute then ''/'' else []) @ slashed ss"

definition directory :: "bool \<Rightarrow> string list \<Rightarrow> bool" where
  "directory absolute ss \<longleftrightarrow> ss \<noteq> [] \<and> stack_ok (\<not> absolute) (rev ss)"

lemma stack_segments: "stack_ok climb ss \<Longrightarrow> \<forall>s \<in> set ss. s \<noteq> [] \<and> CHR ''/'' \<notin> set s"
proof (induction ss)
  case (Cons s ss)
  have "add_segment climb [] ss = ss" by (simp add: add_segment_def)
  then have "s \<noteq> []" using Cons.prems by auto
  with Cons show ?case by auto
qed simp

lemma directory_segments: "directory absolute ss \<Longrightarrow> \<forall>s \<in> set ss. s \<noteq> [] \<and> CHR ''/'' \<notin> set s"
  using stack_segments by (fastforce simp: directory_def)

lemma slashed_last: "ss \<noteq> [] \<Longrightarrow> \<forall>s \<in> set ss. s \<noteq> [] \<and> CHR ''/'' \<notin> set s \<Longrightarrow>
    slashed ss \<noteq> [] \<and> hd (slashed ss) \<noteq> CHR ''/'' \<and> last (slashed ss) \<noteq> CHR ''/''"
proof (induction ss rule: slashed.induct)
  case (2 s)
  then have "s \<noteq> []" "CHR ''/'' \<notin> set s" by auto
  moreover from this have "hd s \<in> set s" "last s \<in> set s" by simp_all
  ultimately show ?case by (metis slashed.simps(2))
next
  case (3 s t ss)
  then have "s \<noteq> []" "CHR ''/'' \<notin> set s" "hd s \<in> set s" by auto
  then have "hd s \<noteq> CHR ''/''" by metis
  with 3 show ?case by auto
qed simp

lemma place_normalize:
  assumes "directory absolute ss" "\<forall>s \<in> set rest. plain_segment s"
  shows "posix_normalize (place absolute ss @ concat (map (Cons (CHR ''/'')) rest)) = place absolute (ss @ rest)"
    and "directory absolute (ss @ rest)"
proof -
  have step: "slashed (xs @ ys) = slashed xs @ concat (map (Cons (CHR ''/'')) ys)" if "xs \<noteq> []" for xs ys
    using that by (induction ys arbitrary: xs) (simp, metis append.assoc append_Cons append_Nil concat.simps(2)
        list.distinct(1) list.simps(9) slashed.simps(2) slashed_append)
  have ss: "ss \<noteq> []" "stack_ok (\<not> absolute) (rev ss)" using assms(1) by (simp_all add: directory_def)
  have f: "fold (add_segment (\<not> absolute)) (ss @ rest) [] = rev (ss @ rest)"
    using fold_rev_stack[OF ss(2)] fold_plain[OF assms(2)] by simp
  have free: "\<forall>s \<in> set (ss @ rest). s \<noteq> [] \<and> CHR ''/'' \<notin> set s"
    using directory_segments[OF assms(1)] assms(2) by (auto simp: plain_segment_def)
  have "stack_ok (\<not> absolute) (fold (add_segment (\<not> absolute)) (ss @ rest) [])"
    using free by (intro fold_segment_ok) auto
  with f ss(1) show "directory absolute (ss @ rest)" by (simp add: directory_def)
  have p: "place absolute ss @ concat (map (Cons (CHR ''/'')) rest) = place absolute (ss @ rest)"
    using step[OF ss(1)] by (simp add: place_def)
  note ends = slashed_last[of "ss @ rest", OF _ free]
  have "split_slash (slashed (ss @ rest)) = ss @ rest" using ss(1) free by (intro split_slashed) auto
  then have "resolve_segments (\<not> absolute) (split_slash (place absolute (ss @ rest))) = ss @ rest"
    using f by (cases absolute) (simp_all add: place_def resolve_segments_def add_segment_def)
  moreover have "is_rooted (place absolute (ss @ rest)) = absolute" "place absolute (ss @ rest) \<noteq> []"
    "last (place absolute (ss @ rest)) \<noteq> CHR ''/''"
    using ends ss(1) by (auto simp: place_def is_rooted_def)
  ultimately show "posix_normalize (place absolute ss @ concat (map (Cons (CHR ''/'')) rest)) = place absolute (ss @ rest)"
    using ends ss(1) by (simp add: p posix_normalize_def Let_def) (simp add: place_def)
qed

lemma split_slash_nonempty [simp]: "split_slash p \<noteq> []"
  by (cases p) (auto split: list.splits)

lemma split_slash_join: "split_slash (x @ CHR ''/'' # r) = split_slash x @ split_slash r"
proof (induction x rule: split_slash.induct)
  case (2 c cs)
  then show ?case by (cases "split_slash cs") auto
qed simp

lemma slashed_Cons: "slashed (x # ts) = x @ concat (map (Cons (CHR ''/'')) ts)"
  by (induction ts arbitrary: x) auto

text \<open>What \<open>posix.join\<close> makes of any first part and at least one plain segment.\<close>

lemma join_place:
  assumes "ts \<noteq> []" "\<forall>t \<in> set ts. plain_segment t"
  shows "\<exists>a ss. directory a (ss @ ts) \<and> posix_join (x # ts) = place a (ss @ ts)"
proof -
  obtain t ts' where t: "ts = t # ts'" using assms(1) by (cases ts) auto
  have plain: "plain_segment t" "\<forall>t \<in> set ts'. plain_segment t" using assms(2) t by auto
  have given: "filter (\<lambda>s. s \<noteq> []) ts = ts" using assms(2) by (induction ts) (auto simp: plain_segment_def)
  show ?thesis
  proof (cases "x = []")
    case True
    have "directory False [t]" using plain(1) by (simp add: directory_def add_segment_def plain_segment_def)
    note n = place_normalize[OF this plain(2)]
    have "place False [t] @ concat (map (Cons (CHR ''/'')) ts') = slashed ts"
      by (simp add: place_def t slashed_Cons)
    with n True given show ?thesis
      by (intro exI[of _ False] exI[of _ "[]"]) (simp add: posix_join_def t)
  next
    case False
    define a where "a = is_rooted x"
    define kept where "kept = fold (add_segment (\<not> a)) (split_slash x) []"
    have k: "stack_ok (\<not> a) kept"
      unfolding kept_def by (rule fold_segment_ok) (auto dest: split_slash_free)
    have free: "\<forall>s \<in> set ts. CHR ''/'' \<notin> set s" using assms(2) by (auto simp: plain_segment_def)
    have f: "fold (add_segment (\<not> a)) (split_slash x @ ts) [] = rev ts @ kept"
      using fold_plain[OF assms(2)] by (simp add: kept_def)
    have ok: "stack_ok (\<not> a) (rev ts @ kept)"
      using f fold_segment_ok[OF k free] fold_plain[OF assms(2), of "\<not> a" kept] by simp
    then have dir: "directory a (rev kept @ ts)" using assms(1) by (simp add: directory_def)
    have p: "slashed (x # ts) = x @ CHR ''/'' # slashed ts" by (simp add: t)
    have "split_slash (slashed (x # ts)) = split_slash x @ ts"
      using split_slashed[OF assms(1) free] by (simp add: p split_slash_join)
    then have segs: "resolve_segments (\<not> a) (split_slash (slashed (x # ts))) = rev kept @ ts"
      using f by (simp add: resolve_segments_def)
    have ends: "slashed ts \<noteq> []" "last (slashed ts) \<noteq> CHR ''/''" "slashed (rev kept @ ts) \<noteq> []"
      using slashed_last[of ts] slashed_last[of "rev kept @ ts"] directory_segments[OF dir] assms by auto
    have "is_rooted (slashed (x # ts)) = a" "last (slashed (x # ts)) \<noteq> CHR ''/''"
      using False ends by (auto simp: p a_def is_rooted_def)
    then have "posix_join (x # ts) = place a (rev kept @ ts)"
      using segs ends(3) False given by (simp add: posix_join_def posix_normalize_def Let_def place_def p)
    with dir show ?thesis by blast
  qed
qed

lemma dirname_append:
  assumes "x \<noteq> []" "CHR ''/'' \<notin> set x" "q \<noteq> []" "q \<noteq> ''/''"
  shows "posix_dirname (q @ CHR ''/'' # x) = q"
proof -
  obtain c q' where q: "q = c # q'" using assms(3) by (cases q) auto
  have x: "rev x \<noteq> []" "CHR ''/'' \<notin> set (rev x)" using assms(1,2) by simp_all
  have plain: "dropWhile (\<lambda>c. c = CHR ''/'') (rev x @ r) = rev x @ r" for r
    using x by (cases "rev x") auto
  have "dropWhile (\<lambda>c. c \<noteq> CHR ''/'') (rev x @ CHR ''/'' # r) = CHR ''/'' # r" for r
  proof -
    have "d \<noteq> CHR ''/''" if "d \<in> set (rev x)" for d using that x(2) by blast
    then show ?thesis by (subst dropWhile_append2) simp_all
  qed
  with plain have body: "rev (dropWhile (\<lambda>c. c \<noteq> CHR ''/'') (dropWhile (\<lambda>c. c = CHR ''/'') (rev (tl (q @ CHR ''/'' # x))))) = q' @ ''/''"
    by (simp add: q)
  have "\<not> (is_rooted (q @ CHR ''/'' # x) \<and> length (q' @ ''/'') = 1)"
    using assms(4) by (auto simp: q is_rooted_def)
  then show ?thesis by (simp only: posix_dirname_def body Let_def if_False) (simp add: q)
qed

lemma dirname_place:
  assumes "directory a (ss @ [t])" "plain_segment t" "ss \<noteq> []"
  shows "posix_dirname (place a (ss @ [t])) = place a ss" "directory a ss"
proof -
  have free: "\<forall>s \<in> set ss. s \<noteq> [] \<and> CHR ''/'' \<notin> set s" using directory_segments[OF assms(1)] by simp
  then have "place a ss \<noteq> []" "place a ss \<noteq> ''/''"
    using slashed_last[OF assms(3) free] by (auto simp: place_def)
  moreover have "place a (ss @ [t]) = place a ss @ CHR ''/'' # t"
    using assms(3) by (simp add: place_def slashed_append)
  ultimately show "posix_dirname (place a (ss @ [t])) = place a ss"
    using assms(2) by (simp add: dirname_append plain_segment_def)
  show "directory a ss" using assms(1,3) by (simp add: directory_def)
qed

lemma profile_pattern_plain: "profile_pattern n \<Longrightarrow> plain_segment n"
proof -
  assume p: "profile_pattern n"
  have no: "\<not> profile_unit (CHR ''/'')" "\<not> profile_unit (CHR ''.'')" by (simp_all add: profile_unit_def)
  with p have "hd n \<noteq> CHR ''.''" by (auto simp: profile_pattern_def)
  moreover from no p have "CHR ''/'' \<notin> set n" by (auto simp: profile_pattern_def list_all_iff)
  ultimately show ?thesis using p by (auto simp: plain_segment_def profile_pattern_def)
qed

lemma normalize_pattern: "normalizeClientProfileName p = Inr n \<Longrightarrow> profile_pattern n"
  by (auto simp: normalizeClientProfileName_def Let_def split: if_splits)

lemma fixed_segments [simp]:
  "plain_segment ''clients''" "plain_segment ''client.json''" "plain_segment ''odyshell''" "plain_segment ''Odyshell''"
  "plain_segment ''Library''" "plain_segment ''Application Support''"
  by (simp_all add: plain_segment_def)

text \<open>The directory of the application, below which every configuration lies.\<close>

lemma config_paths:
  "\<exists>a ss. directory a ss
    \<and> clientConfigPathFor platform home env = place a (ss @ [''client.json''])
    \<and> posix_dirname (clientConfigPathFor platform home env) = place a ss
    \<and> (\<forall>ts. ts \<noteq> [] \<longrightarrow> (\<forall>t \<in> set ts. plain_segment t) \<longrightarrow> posix_join (place a ss # ts) = place a (ss @ ts))"
proof -
  obtain x ts where p: "clientConfigPathFor platform home env = posix_join (x # ts @ [''client.json''])"
    and ts: "ts \<noteq> []" "\<forall>t \<in> set ts. plain_segment t"
  proof (cases "platform = Darwin")
    case True
    then show thesis
      by (intro that[of home "[''Library'', ''Application Support'', ''Odyshell'']"]) (simp_all add: clientConfigPathFor_def)
  next
    case False
    then show thesis
      by (intro that[of "case env ''XDG_CONFIG_HOME'' of Some d \<Rightarrow> d | None \<Rightarrow> posix_join [home, ''.config'']" "[''odyshell'']"])
        (simp_all add: clientConfigPathFor_def)
  qed
  obtain a rs where a: "directory a (rs @ ts @ [''client.json''])" "posix_join (x # ts @ [''client.json'']) = place a (rs @ ts @ [''client.json''])"
    using join_place[of "ts @ [''client.json'']" x] ts by auto
  define ss where "ss = rs @ ts"
  have ss: "directory a (ss @ [''client.json''])" "ss \<noteq> []" using a(1) ts(1) by (simp_all add: ss_def)
  note d = dirname_place[OF ss(1) _ ss(2), simplified]
  have "posix_join (place a ss # us) = place a (ss @ us)" if us: "\<forall>t \<in> set us. plain_segment t" "us \<noteq> []" for us
  proof -
    have "filter (\<lambda>s. s \<noteq> []) (place a ss # us) = place a ss # us"
      using us slashed_last[OF ss(2)] directory_segments[OF d(2)] by (auto simp: place_def plain_segment_def filter_id_conv)
    then show ?thesis using place_normalize(1)[OF d(2) us(1)] by (simp add: posix_join_def slashed_Cons)
  qed
  with d a(2) p show ?thesis by (intro exI[of _ a] exI[of _ ss]) (simp add: ss_def)
qed

end
