(* ===== verification/Shell_Executor.thy ===== *)
theory Shell_Executor
  imports Platform Json
begin

text \<open>
  apps/client/src/shell-executor.ts: the start of a Command's shell, and the termination of its
  process tree.  What the operating system answers is a parameter of the model, \<open>process_host\<close>: every
  answer is a function of the calls made so far, the present one included, so that no two calls need agree.
\<close>

section \<open>Starting the shell\<close>

definition assertCommandCanStart :: "bool \<Rightarrow> exn + unit" where
  "assertCommandCanStart aborted =
     (if aborted then Inl (Exn ''Command was cancelled before process start'') else Inr ())"

definition allowed_variables :: "string list" where
  "allowed_variables =
     [''PATH'', ''HOME'', ''USER'', ''LOGNAME'', ''SHELL'', ''LANG'', ''LC_ALL'', ''TMPDIR'', ''XDG_CACHE_HOME'',
      ''XDG_CONFIG_HOME'', ''SystemRoot'', ''ComSpec'', ''PATHEXT'', ''TEMP'', ''TMP'', ''USERPROFILE'', ''APPDATA'',
      ''LOCALAPPDATA'']"

definition commandEnvironment :: "environment \<Rightarrow> (string \<times> string) list" where
  "commandEnvironment source =
     List.map_filter (\<lambda>key. map_option (Pair key) (source key)) allowed_variables"

record shell_executor =
  se_homeDirectory :: string
  se_environment :: "(string \<times> string) list"
  se_shell :: account_shell

text \<open>The constructor, with the defaults of its options filled in by the caller.\<close>

definition new_ShellExecutor :: "string \<Rightarrow> environment \<Rightarrow> account_shell \<Rightarrow> exn + shell_executor" where
  "new_ShellExecutor homeDirectory environment shell =
     (if homeDirectory = [] then Inl (Exn ''Unable to determine the Client account Home directory'')
      else Inr \<lparr>se_homeDirectory = homeDirectory, se_environment = commandEnvironment environment, se_shell = shell\<rparr>)"

text \<open>The arguments of \<open>spawn\<close>.\<close>

record spawn_call =
  sp_program :: string
  sp_args :: "string list"
  sp_cwd :: string
  sp_environment :: "(string \<times> string) list"
  sp_detached :: bool
  sp_verbatim :: bool

definition spawnCommand :: "node_platform \<Rightarrow> account_shell \<Rightarrow> string \<Rightarrow> string \<Rightarrow> (string \<times> string) list \<Rightarrow> spawn_call" where
  "spawnCommand platform shell command cwd environment =
     \<lparr>sp_program = sh_program shell, sp_args = argsForCommand shell command, sp_cwd = cwd,
      sp_environment = environment, sp_detached = (platform \<noteq> Win32),
      sp_verbatim = (platform = Win32 \<and> sh_windowsVerbatimArguments shell)\<rparr>"

text \<open>
  \<open>execute\<close>: the abort signal is read before and after \<open>realpath\<close> resolves the directory.
\<close>

definition execute ::
  "node_platform \<Rightarrow> (string \<Rightarrow> exn + string) \<Rightarrow> shell_executor \<Rightarrow> string \<Rightarrow> string option \<Rightarrow> bool \<Rightarrow> bool
     \<Rightarrow> exn + spawn_call" where
  "execute platform realpath se command cwd abortedBefore abortedAfter =
     (case assertCommandCanStart abortedBefore of
        Inl e \<Rightarrow> Inl e
      | Inr _ \<Rightarrow>
          (case realpath (case cwd of Some d \<Rightarrow> d | None \<Rightarrow> se_homeDirectory se) of
             Inl e \<Rightarrow> Inl e
           | Inr workingDirectory \<Rightarrow>
               (case assertCommandCanStart abortedAfter of
                  Inl e \<Rightarrow> Inl e
                | Inr _ \<Rightarrow> Inr (spawnCommand platform (se_shell se) command workingDirectory (se_environment se)))))"

lemma commandEnvironment_allowed:
  "(k, v) \<in> set (commandEnvironment source) \<longleftrightarrow> k \<in> set allowed_variables \<and> source k = Some v"
  by (force simp: commandEnvironment_def map_filter_def)

lemma execute_spawns:
  assumes "execute platform realpath se command cwd a b = Inr call"
  shows "\<not> a \<and> \<not> b \<and> sp_environment call = se_environment se
    \<and> realpath (case cwd of Some d \<Rightarrow> d | None \<Rightarrow> se_homeDirectory se) = Inr (sp_cwd call)
    \<and> sp_args call = sh_flags (se_shell se) @ [command]"
  using assms by (auto simp: execute_def assertCommandCanStart_def spawnCommand_def argsForCommand_def
      split: sum.splits if_splits)

section \<open>The operating system\<close>

datatype process_signal = SIGTERM | SIGKILL

datatype host_call =
    Probe
  | Send_signal process_signal
  | Clock
  | Sleep nat
  | Taskkill string
  | Await_exit nat

type_synonym calls = "host_call list"

text \<open>\<open>process.kill\<close> succeeds or throws an error with a code.\<close>

datatype kill_answer = Delivered | Errno string

datatype taskkill_answer = Taskkill_closed "int option" | Taskkill_error string | Taskkill_silent

record process_host =
  ho_platform :: node_platform
  ho_systemRoot :: "string option"
  ho_taskkillPath :: "string \<Rightarrow> string"
  ho_isAbsolute :: "string \<Rightarrow> bool"
  ho_kill :: "calls \<Rightarrow> kill_answer"
  ho_now :: "calls \<Rightarrow> instant"
  ho_taskkill :: "calls \<Rightarrow> taskkill_answer"
  ho_exits :: "calls \<Rightarrow> bool"

text \<open>A step gives a result or throws, and extends the calls.\<close>

type_synonym 'a step = "(exn + 'a) \<times> calls"

definition processGroupExists :: "process_host \<Rightarrow> calls \<Rightarrow> bool step" where
  "processGroupExists host cs =
     (let cs = cs @ [Probe] in
      (case ho_kill host cs of
         Delivered \<Rightarrow> Inr True
       | Errno code \<Rightarrow>
           if code = ''ESRCH'' then Inr False else if code = ''EPERM'' then Inr True else Inl (Exn code), cs))"

definition signalProcessGroup :: "process_host \<Rightarrow> process_signal \<Rightarrow> calls \<Rightarrow> unit step" where
  "signalProcessGroup host s cs =
     (let cs = cs @ [Send_signal s] in
      (case ho_kill host cs of
         Delivered \<Rightarrow> Inr ()
       | Errno code \<Rightarrow> if code \<noteq> ''ESRCH'' then Inl (Exn code) else Inr (), cs))"

text \<open>The loop of \<open>processGroupExited\<close>, from one probe to the next.\<close>

partial_function (option) poll_group :: "process_host \<Rightarrow> instant \<Rightarrow> calls \<Rightarrow> bool step option" where
  "poll_group host deadline cs =
     (case processGroupExists host cs of
        (Inl e, cs) \<Rightarrow> Some (Inl e, cs)
      | (Inr running, cs) \<Rightarrow>
          if \<not> running then Some (Inr True, cs)
          else if ho_now host (cs @ [Clock]) \<ge> deadline then Some (Inr False, cs @ [Clock])
          else poll_group host deadline (cs @ [Clock, Sleep 25]))"

definition processGroupExited :: "process_host \<Rightarrow> nat \<Rightarrow> calls \<Rightarrow> bool step option" where
  "processGroupExited host timeoutMilliseconds cs =
     poll_group host (ho_now host (cs @ [Clock]) + int timeoutMilliseconds) (cs @ [Clock])"

definition processExited :: "process_host \<Rightarrow> nat \<Rightarrow> calls \<Rightarrow> bool \<times> calls" where
  "processExited host timeoutMilliseconds cs =
     (let cs = cs @ [Await_exit timeoutMilliseconds] in (ho_exits host cs, cs))"

definition windowsTaskkillPath :: "process_host \<Rightarrow> exn + string" where
  "windowsTaskkillPath host = (case ho_systemRoot host of
       None \<Rightarrow> Inl (Exn ''Unable to locate the Windows system directory safely'')
     | Some windowsDirectory \<Rightarrow>
         if windowsDirectory = [] \<or> \<not> ho_isAbsolute host windowsDirectory
         then Inl (Exn ''Unable to locate the Windows system directory safely'')
         else Inr (ho_taskkillPath host windowsDirectory))"

definition confirm_exit :: "process_host \<Rightarrow> nat \<Rightarrow> string \<Rightarrow> calls \<Rightarrow> unit step option" where
  "confirm_exit host ms failure cs =
     (let (exited, cs) = processExited host ms cs in Some (if exited then Inr () else Inl (Exn failure), cs))"

definition taskkill_tree :: "process_host \<Rightarrow> calls \<Rightarrow> unit step option" where
  "taskkill_tree host cs = (case windowsTaskkillPath host of
       Inl e \<Rightarrow> Some (Inl e, cs)
     | Inr path \<Rightarrow>
         let cs = cs @ [Taskkill path] in
         (case ho_taskkill host cs of
            Taskkill_silent \<Rightarrow> Some (Inl (Exn ''taskkill timed out while terminating the process tree''), cs)
          | Taskkill_error e \<Rightarrow> Some (Inl (Exn e), cs)
          | Taskkill_closed code \<Rightarrow>
              if code = Some 0
              then confirm_exit host 4000 ''Unable to confirm Windows process-tree termination'' cs
              else Some (Inl (Exn (''taskkill exited with status ''
                     @ (case code of Some n \<Rightarrow> json_int n | None \<Rightarrow> ''unknown''))), cs)))"

text \<open>The two rounds on the other platforms: ask, then force.\<close>

definition kill_round ::
  "process_host \<Rightarrow> process_signal \<Rightarrow> (calls \<Rightarrow> unit step option) \<Rightarrow> (calls \<Rightarrow> unit step option) \<Rightarrow> calls
     \<Rightarrow> unit step option" where
  "kill_round host s gone remains cs = (case signalProcessGroup host s cs of
       (Inl e, cs) \<Rightarrow> Some (Inl e, cs)
     | (Inr _, cs) \<Rightarrow>
         (case processGroupExited host 2000 cs of
            None \<Rightarrow> None
          | Some (Inl e, cs) \<Rightarrow> Some (Inl e, cs)
          | Some (Inr exited, cs) \<Rightarrow> if exited then gone cs else remains cs))"

definition terminateProcessTree :: "process_host \<Rightarrow> calls \<Rightarrow> unit step option" where
  "terminateProcessTree host cs =
     (if ho_platform host = Win32 then taskkill_tree host cs
      else
        (case processGroupExists host cs of
           (Inl e, cs) \<Rightarrow> Some (Inl e, cs)
         | (Inr found, cs) \<Rightarrow>
             if \<not> found then confirm_exit host 500 ''Unable to locate the process group before termination'' cs
             else
               let confirm = confirm_exit host 500 ''Unable to confirm process exit after process-group termination'' in
               kill_round host SIGTERM confirm
                 (kill_round host SIGKILL confirm
                    (\<lambda>cs. Some (Inl (Exn ''Unable to confirm process-group termination''), cs)))
                 cs))"

text \<open>\<open>cancel\<close> of a running Command: the termination is run once, its outcome is kept.\<close>

record running_command =
  rc_pid :: nat
  rc_closed :: bool
  rc_cancellation :: "(exn + unit) option"

definition cancel_running :: "process_host \<Rightarrow> running_command \<Rightarrow> calls \<Rightarrow> ((exn + unit) \<times> running_command \<times> calls) option" where
  "cancel_running host rc cs =
     (if rc_pid rc = 0 \<or> rc_closed rc then Some (Inr (), rc, cs)
      else (case rc_cancellation rc of
              Some outcome \<Rightarrow> Some (outcome, rc, cs)
            | None \<Rightarrow>
                (case terminateProcessTree host cs of
                   None \<Rightarrow> None
                 | Some (outcome, cs) \<Rightarrow> Some (outcome, rc\<lparr>rc_cancellation := Some outcome\<rparr>, cs))))"

section \<open>The termination ends, and says what it saw\<close>

text \<open>The clock is not turned back, and a sleep lets it advance.\<close>

definition clock_ticks :: "process_host \<Rightarrow> bool" where
  "clock_ticks host \<longleftrightarrow>
     (\<forall>cs ds. ho_now host cs \<le> ho_now host (cs @ ds))
     \<and> (\<forall>cs ds es. ho_now host cs < ho_now host (cs @ ds @ Sleep 25 # es))"

definition group_gone :: "process_host \<Rightarrow> calls \<Rightarrow> bool" where
  "group_gone host cs \<longleftrightarrow> (\<exists>qs. cs = qs @ [Probe]) \<and> ho_kill host cs = Errno ''ESRCH''"

definition sent_signals :: "calls \<Rightarrow> process_signal list" where
  "sent_signals cs = List.map_filter (\<lambda>c. case c of Send_signal s \<Rightarrow> Some s | _ \<Rightarrow> None) cs"

lemma sent_signals_append [simp]: "sent_signals (a @ b) = sent_signals a @ sent_signals b"
  by (simp add: sent_signals_def map_filter_def)

lemma sent_signals_simps [simp]:
  "sent_signals [] = []" "sent_signals (Send_signal s # cs) = s # sent_signals cs"
  "sent_signals (Probe # cs) = sent_signals cs" "sent_signals (Clock # cs) = sent_signals cs"
  "sent_signals (Sleep n # cs) = sent_signals cs" "sent_signals (Await_exit n # cs) = sent_signals cs"
  "sent_signals (Taskkill t # cs) = sent_signals cs"
  by (simp_all add: sent_signals_def map_filter_def)

lemma group_exists_cases:
  "processGroupExists host cs = (r, ds) \<Longrightarrow> ds = cs @ [Probe] \<and> (r = Inr False \<longleftrightarrow> group_gone host ds)"
  by (auto simp: processGroupExists_def group_gone_def Let_def split: kill_answer.splits if_splits)

lemma poll_group_returns:
  assumes "clock_ticks host"
  shows "\<exists>r ds. poll_group host deadline cs = Some (r, cs @ ds) \<and> sent_signals ds = []
    \<and> count_list ds (Sleep 25) \<le> nat (deadline - ho_now host (cs @ [Probe, Clock]))
    \<and> (r = Inr True \<longrightarrow> group_gone host (cs @ ds))"
proof (induction "nat (deadline - ho_now host (cs @ [Probe, Clock]))" arbitrary: cs rule: less_induct)
  case less
  obtain r ds where e: "processGroupExists host cs = (r, ds)" by force
  note ds = group_exists_cases[OF e]
  consider (fails) x where "r = Inl x" | (gone) "r = Inr False" | (late) "r = Inr True" "deadline \<le> ho_now host (cs @ [Probe, Clock])"
    | (again) "r = Inr True" "ho_now host (cs @ [Probe, Clock]) < deadline"
    by (cases r) (auto, fastforce)
  then show ?case
  proof cases
    case again
    define cs' where "cs' = cs @ [Probe, Clock, Sleep 25]"
    have "\<forall>a ds es. ho_now host a < ho_now host (a @ ds @ Sleep 25 # es)" using assms by (simp add: clock_ticks_def)
    from spec[OF spec[OF spec[OF this, of "cs @ [Probe, Clock]"], of "[]"], of "[Probe, Clock]"]
    have tick: "ho_now host (cs @ [Probe, Clock]) < ho_now host (cs' @ [Probe, Clock])" by (simp add: cs'_def)
    then have "nat (deadline - ho_now host (cs' @ [Probe, Clock])) < nat (deadline - ho_now host (cs @ [Probe, Clock]))"
      using again(2) by linarith
    from less[OF this] obtain q es where q: "poll_group host deadline cs' = Some (q, cs' @ es)" "sent_signals es = []"
      "count_list es (Sleep 25) \<le> nat (deadline - ho_now host (cs' @ [Probe, Clock]))"
      "q = Inr True \<longrightarrow> group_gone host (cs' @ es)" by blast
    have "poll_group host deadline cs = poll_group host deadline cs'"
      using e ds again by (subst poll_group.simps) (simp add: cs'_def)
    moreover have "count_list ([Probe, Clock, Sleep 25] @ es) (Sleep 25) \<le> nat (deadline - ho_now host (cs @ [Probe, Clock]))"
      using q(3) tick again(2) by (simp; linarith)
    ultimately show ?thesis
      using q by (intro exI[of _ q] exI[of _ "[Probe, Clock, Sleep 25] @ es"]) (simp add: cs'_def)
  next
    case fails
    then show ?thesis using e ds by (subst poll_group.simps) (auto intro!: exI[of _ "[Probe]"])
  next
    case gone
    then show ?thesis using e ds by (subst poll_group.simps) (auto intro!: exI[of _ "[Probe]"])
  next
    case late
    then show ?thesis using e ds by (subst poll_group.simps) (auto intro!: exI[of _ "[Probe, Clock]"])
  qed
qed

lemma processGroupExited_returns:
  assumes "clock_ticks host"
  shows "\<exists>r ds. processGroupExited host ms cs = Some (r, cs @ ds) \<and> sent_signals ds = []
    \<and> count_list ds (Sleep 25) \<le> ms \<and> (r = Inr True \<longrightarrow> group_gone host (cs @ ds))"
proof -
  define d where "d = ho_now host (cs @ [Clock]) + int ms"
  obtain r ds where p: "poll_group host d (cs @ [Clock]) = Some (r, (cs @ [Clock]) @ ds)" "sent_signals ds = []"
    "count_list ds (Sleep 25) \<le> nat (d - ho_now host ((cs @ [Clock]) @ [Probe, Clock]))"
    "r = Inr True \<longrightarrow> group_gone host ((cs @ [Clock]) @ ds)"
    using poll_group_returns[OF assms] by blast
  have "ho_now host (cs @ [Clock]) \<le> ho_now host ((cs @ [Clock]) @ [Probe, Clock])" using assms by (simp only: clock_ticks_def)
  then have "nat (d - ho_now host ((cs @ [Clock]) @ [Probe, Clock])) \<le> ms" by (simp add: d_def)
  with p show ?thesis
    by (intro exI[of _ r] exI[of _ "Clock # ds"]) (simp add: processGroupExited_def d_def)
qed

text \<open>
  The calls since \<open>cs\<close>: how often they slept, which signals they sent, and, when the
  termination succeeded, that the group was seen gone and then the shell's exit was seen.
\<close>

definition confirmed :: "process_host \<Rightarrow> calls \<Rightarrow> bool" where
  "confirmed host cs \<longleftrightarrow> ho_exits host cs
     \<and> (\<exists>qs ms. cs = qs @ [Await_exit ms] \<and> (ho_platform host = Win32 \<or> group_gone host qs))"

definition ended :: "process_host \<Rightarrow> calls \<Rightarrow> nat \<Rightarrow> process_signal list set \<Rightarrow> unit step option \<Rightarrow> bool" where
  "ended host cs n sigs res \<longleftrightarrow> (\<exists>r ds. res = Some (r, cs @ ds) \<and> count_list ds (Sleep 25) \<le> n
     \<and> sent_signals ds \<in> sigs \<and> (r = Inr () \<longrightarrow> confirmed host (cs @ ds)))"

lemma confirm_ended:
  "ho_platform host = Win32 \<or> group_gone host cs \<Longrightarrow> ended host cs 0 {[]} (confirm_exit host ms failure cs)"
  by (auto simp: ended_def confirm_exit_def processExited_def confirmed_def Let_def)

lemma endedI:
  "res = Some (r, cs @ ds) \<Longrightarrow> count_list ds (Sleep 25) \<le> n \<Longrightarrow> sent_signals ds \<in> sigs
    \<Longrightarrow> (r = Inr () \<Longrightarrow> confirmed host (cs @ ds)) \<Longrightarrow> ended host cs n sigs res"
  unfolding ended_def by blast

lemma endedE:
  assumes "ended host cs n sigs res"
  obtains r ds where "res = Some (r, cs @ ds)" "count_list ds (Sleep 25) \<le> n" "sent_signals ds \<in> sigs"
    "r = Inr () \<Longrightarrow> confirmed host (cs @ ds)"
  using assms unfolding ended_def by blast

lemma ended_shift:
  assumes "ended host (cs @ ds) n sigs res" "sent_signals ds = []" "count_list ds (Sleep 25) = 0"
  shows "ended host cs n sigs res"
  using assms(1) by (rule endedE) (rule endedI[where ds = "ds @ _"], simp_all add: assms(2,3))

lemma ended_weaken:
  assumes "ended host cs n sigs res" "n \<le> m" "sigs \<subseteq> sigs'"
  shows "ended host cs m sigs' res"
  using assms(1) by (rule endedE) (rule endedI, use assms(2,3) in auto)

lemma failed_ended:
  "sent_signals ds = [] \<Longrightarrow> count_list ds (Sleep 25) = 0 \<Longrightarrow> ended host cs 0 {[]} (Some (Inl e, cs @ ds))"
  by (auto simp: ended_def)

lemma taskkill_ended:
  assumes "ho_platform host = Win32"
  shows "ended host cs 0 {[]} (taskkill_tree host cs)"
proof (cases "windowsTaskkillPath host")
  case (Inl e)
  then show ?thesis using failed_ended[of "[]" host cs e] by (simp add: taskkill_tree_def)
next
  case (Inr p)
  have "ended host cs 0 {[]} (Some (Inl e, cs @ [Taskkill p]))" for e by (rule failed_ended) simp_all
  moreover have "ended host cs 0 {[]} (confirm_exit host ms e (cs @ [Taskkill p]))" for ms e
    by (rule ended_shift[OF confirm_ended]) (simp_all add: assms)
  ultimately show ?thesis by (simp add: taskkill_tree_def Inr Let_def split: taskkill_answer.split)
qed

lemma kill_round_ended:
  assumes "clock_ticks host" "\<And>es. group_gone host (cs @ es) \<Longrightarrow> ended host (cs @ es) 0 {[]} (gone (cs @ es))"
    "\<And>es. ended host (cs @ es) n sigs (remains (cs @ es))"
  shows "ended host cs (2000 + n) (insert [s] ((#) s ` sigs)) (kill_round host s gone remains cs)"
proof -
  obtain x ds where sg: "signalProcessGroup host s cs = (x, ds)" by force
  then have ds: "ds = cs @ [Send_signal s]" by (auto simp: signalProcessGroup_def Let_def)
  show ?thesis
  proof (cases x)
    case (Inl e)
    then show ?thesis by (auto simp: ended_def kill_round_def sg ds)
  next
    case (Inr u)
    obtain r es where p: "processGroupExited host 2000 ds = Some (r, ds @ es)" "sent_signals es = []"
      "count_list es (Sleep 25) \<le> 2000" "r = Inr True \<longrightarrow> group_gone host (ds @ es)"
      using processGroupExited_returns[OF assms(1)] by blast
    define fs where "fs = Send_signal s # es"
    have fs: "ds @ es = cs @ fs" "sent_signals fs = [s]" "count_list fs (Sleep 25) \<le> 2000"
      using p(2,3) by (simp_all add: fs_def ds)
    consider (fails) e where "r = Inl e" | (gone) "r = Inr True" | (remains) "r = Inr False"
      by (cases r) auto
    then show ?thesis
    proof cases
      case fails
      then show ?thesis using fs by (auto simp: ended_def kill_round_def sg Inr p(1))
    next
      case gone
      have "ended host (cs @ fs) 0 {[]} (gone (cs @ fs))" using assms(2) p(4) gone fs(1) by simp
      moreover have "kill_round host s gone remains cs = gone (cs @ fs)"
        by (simp add: kill_round_def sg Inr p(1) gone fs(1))
      ultimately obtain q gs where "kill_round host s gone remains cs = Some (q, cs @ (fs @ gs))"
        "count_list gs (Sleep 25) = 0" "sent_signals gs = []" "q = Inr () \<longrightarrow> confirmed host (cs @ (fs @ gs))"
        by (auto simp: ended_def)
      with fs show ?thesis unfolding ended_def by (intro exI[of _ q] exI[of _ "fs @ gs"]) simp
    next
      case remains
      have "kill_round host s gone remains cs = remains (cs @ fs)"
        by (simp add: kill_round_def sg Inr p(1) remains fs(1))
      with assms(3)[of fs] obtain q gs where "kill_round host s gone remains cs = Some (q, cs @ (fs @ gs))"
        "count_list gs (Sleep 25) \<le> n" "sent_signals gs \<in> sigs" "q = Inr () \<longrightarrow> confirmed host (cs @ (fs @ gs))"
        by (auto simp: ended_def)
      with fs show ?thesis unfolding ended_def by (intro exI[of _ q] exI[of _ "fs @ gs"]) auto
    qed
  qed
qed

text \<open>
  C22: The termination of a process tree always ends, whatever the operating system answers, as
  long as time passes: after at most 4000 sleeps, having sent no signal, SIGTERM, or SIGTERM
  and then SIGKILL.  It reports success only after it saw the shell exit and, outside Windows,
  only after the last probe found the whole process group gone; every other end is an error.
\<close>

theorem terminateProcessTree_returns:
  assumes "clock_ticks host"
  shows "\<exists>r ds. terminateProcessTree host cs = Some (r, cs @ ds)
    \<and> count_list ds (Sleep 25) \<le> 4000 \<and> sent_signals ds \<in> {[], [SIGTERM], [SIGTERM, SIGKILL]}
    \<and> (r = Inr () \<longrightarrow> confirmed host (cs @ ds))"
proof -
  obtain x ds where e: "processGroupExists host cs = (x, ds)" by force
  note ds = group_exists_cases[OF e]
  define confirm where "confirm = confirm_exit host 500 ''Unable to confirm process exit after process-group termination''"
  define force where "force = kill_round host SIGKILL confirm (\<lambda>cs. Some (Inl (Exn ''Unable to confirm process-group termination''), cs))"
  have "ended host es 2000 {[SIGKILL]} (force es)" for es
    using kill_round_ended[OF assms, of es confirm 0 "{[]}" "\<lambda>cs. Some (Inl _, cs)" SIGKILL] confirm_ended failed_ended[of "[]"]
    by (simp add: confirm_def force_def)
  then have rounds: "ended host es 4000 {[SIGTERM], [SIGTERM, SIGKILL]} (kill_round host SIGTERM confirm force es)" for es
    using kill_round_ended[OF assms, of es confirm 2000 "{[SIGKILL]}" force SIGTERM] confirm_ended by (simp add: confirm_def)
  have "ended host cs 4000 {[], [SIGTERM], [SIGTERM, SIGKILL]} (terminateProcessTree host cs)"
  proof (cases "ho_platform host = Win32")
    case True
    then have "ended host cs 0 {[]} (terminateProcessTree host cs)"
      using taskkill_ended by (simp add: terminateProcessTree_def)
    then show ?thesis by (rule ended_weaken) simp_all
  next
    case False
    consider (fails) m where "x = Inl m" | (gone) "x = Inr False" | (found) "x = Inr True"
      by (cases x) auto
    then show ?thesis
    proof cases
      case fails
      have "terminateProcessTree host cs = Some (Inl m, cs @ [Probe])"
        using False e ds by (simp add: terminateProcessTree_def fails)
      with failed_ended[of "[Probe]" host cs m] have "ended host cs 0 {[]} (terminateProcessTree host cs)" by simp
      then show ?thesis by (rule ended_weaken) simp_all
    next
      case gone
      have "terminateProcessTree host cs
          = confirm_exit host 500 ''Unable to locate the process group before termination'' (cs @ [Probe])"
        using False e ds by (simp add: terminateProcessTree_def gone)
      moreover have "group_gone host (cs @ [Probe])" using ds gone by blast
      ultimately have "ended host (cs @ [Probe]) 0 {[]} (terminateProcessTree host cs)" by (simp add: confirm_ended)
      from ended_shift[OF this] have "ended host cs 0 {[]} (terminateProcessTree host cs)" by simp
      then show ?thesis by (rule ended_weaken) simp_all
    next
      case found
      have "terminateProcessTree host cs = kill_round host SIGTERM confirm force (cs @ [Probe])"
        using False e ds by (simp add: terminateProcessTree_def found confirm_def force_def Let_def)
      with rounds[of "cs @ [Probe]"] have "ended host (cs @ [Probe]) 4000 {[SIGTERM], [SIGTERM, SIGKILL]} (terminateProcessTree host cs)"
        by simp
      from ended_shift[OF this] have "ended host cs 4000 {[SIGTERM], [SIGTERM, SIGKILL]} (terminateProcessTree host cs)" by simp
      then show ?thesis by (rule ended_weaken) simp_all
    qed
  qed
  then show ?thesis by (simp add: ended_def)
qed

text \<open>A group that survives SIGTERM until it has been asked a hundred times, on a clock of 25 ms per sleep.\<close>

definition demo_host :: process_host where
  "demo_host = \<lparr>ho_platform = Linux, ho_systemRoot = None, ho_taskkillPath = (\<lambda>d. d), ho_isAbsolute = (\<lambda>_. True),
     ho_kill = (\<lambda>cs. if Send_signal SIGKILL \<in> set cs then Errno ''ESRCH'' else Delivered),
     ho_now = (\<lambda>cs. 25 * int (count_list cs (Sleep 25))), ho_taskkill = (\<lambda>_. Taskkill_silent), ho_exits = (\<lambda>_. True)\<rparr>"

theorem terminateProcessTree_returns_witness:
  "\<exists>r ds. terminateProcessTree demo_host [] = Some (r, ds) \<and> count_list ds (Sleep 25) \<le> 4000"
proof -
  have "clock_ticks demo_host" by (simp add: clock_ticks_def demo_host_def)
  from terminateProcessTree_returns[OF this, of "[]"] show ?thesis by auto
qed

lemma cancel_running_once:
  assumes "cancel_running host rc cs = Some (r, rc', cs')"
  shows "cancel_running host rc' ds = Some (r, rc', ds) \<or> (rc_pid rc = 0 \<or> rc_closed rc)"
  using assms by (auto simp: cancel_running_def split: if_splits option.splits)

end
