(* ===== verification/Effects.thy ===== *)
theory Effects
  imports Prelude
begin

text \<open>
  Sequencing of steps that change a world and may throw, for the programs that run outside the
  server: the installation of the Client, its Profiles and the command line interface.
\<close>

type_synonym ('a, 'w) act = "'w \<Rightarrow> (exn + 'a) \<times> 'w"

definition return_do :: "'a \<Rightarrow> ('a, 'w) act" where
  "return_do x w = (Inr x, w)"

definition throw_do :: "string \<Rightarrow> ('a, 'w) act" where
  "throw_do e w = (Inl (Exn e), w)"

definition then_do :: "('a, 'w) act \<Rightarrow> ('a \<Rightarrow> ('b, 'w) act) \<Rightarrow> ('b, 'w) act" where
  "then_do m f w = (case m w of (Inl e, w') \<Rightarrow> (Inl e, w') | (Inr x, w') \<Rightarrow> f x w')"

definition catch_do :: "('a, 'w) act \<Rightarrow> (exn \<Rightarrow> ('a, 'w) act) \<Rightarrow> ('a, 'w) act" where
  "catch_do m h w = (case m w of (Inl e, w') \<Rightarrow> h e w' | (Inr x, w') \<Rightarrow> (Inr x, w'))"

text \<open>\<open>.catch(() => undefined)\<close>\<close>

definition ignore_do :: "('a, 'w) act \<Rightarrow> (unit, 'w) act" where
  "ignore_do m w = (Inr (), snd (m w))"

text \<open>\<open>.then(() => true, () => false)\<close>\<close>

definition succeeds_do :: "('a, 'w) act \<Rightarrow> (bool, 'w) act" where
  "succeeds_do m w = (case m w of (Inl _, w') \<Rightarrow> (Inr False, w') | (Inr _, w') \<Rightarrow> (Inr True, w'))"

definition get_do :: "('w \<Rightarrow> 'a) \<Rightarrow> ('a, 'w) act" where
  "get_do f w = (Inr (f w), w)"

definition update_do :: "('w \<Rightarrow> 'w) \<Rightarrow> (unit, 'w) act" where
  "update_do f w = (Inr (), f w)"

primrec each_do :: "('a \<Rightarrow> ('b, 'w) act) \<Rightarrow> 'a list \<Rightarrow> ('b list, 'w) act" where
  "each_do f [] = return_do []"
| "each_do f (x # xs) = then_do (f x) (\<lambda>y. then_do (each_do f xs) (\<lambda>ys. return_do (y # ys)))"

text \<open>A sum that is known before the world is touched.\<close>

definition lift_do :: "exn + 'a \<Rightarrow> ('a, 'w) act" where
  "lift_do r w = (r, w)"

lemmas do_defs = return_do_def throw_do_def then_do_def catch_do_def ignore_do_def succeeds_do_def get_do_def
  update_do_def lift_do_def

lemma then_do_Inr:
  "then_do m f w = (Inr y, w'') \<longleftrightarrow> (\<exists>x w'. m w = (Inr x, w') \<and> f x w' = (Inr y, w''))"
  by (auto simp: then_do_def split: prod.splits sum.splits)

lemma then_do_step: "m w = (Inr x, w') \<Longrightarrow> then_do m f w = f x w'"
  by (simp add: then_do_def)

lemma then_do_fail: "m w = (Inl e, w') \<Longrightarrow> then_do m f w = (Inl e, w')"
  by (simp add: then_do_def)

end
