(* ===== verification/Client_Service.thy ===== *)
theory Client_Service
  imports Platform Json Effects
begin

text \<open>
  apps/client/src/service.ts: the background service of the Client under systemd, launchd and the
  Task Scheduler.  The world is the files and the list of the commands run so far; what a command answers is a
  parameter, a function of that list.  Parsing a configuration, SHA-256 and the Windows paths are parameters too.
\<close>

record service_world =
  sw_files :: "string \<Rightarrow> string option"
  sw_runs :: "string list list"

record service_env =
  sx_platform :: node_platform
  sx_home :: string
  sx_environment :: environment
  sx_cwd :: string
  sx_uid :: "int option"
  sx_sha256 :: "string \<Rightarrow> string"
  sx_windowsResolve :: "string \<Rightarrow> string"
  sx_windowsLauncherPath :: "string \<Rightarrow> string"
  sx_validConfig :: "string \<Rightarrow> exn + bool"
  sx_run :: "string list list \<Rightarrow> exn + string"

type_synonym 'a service_act = "('a, service_world) act"

record install_options =
  io_nodePath :: string
  io_cliPath :: string
  io_configPath :: string

record client_service_status =
  cv_supported :: bool
  cv_installed :: bool
  cv_active :: bool
  cv_enabled :: bool
  cv_current :: "bool option"
  cv_servicePath :: "string option"

section \<open>Texts\<close>

definition newline :: char where
  "newline = char_of (10 :: nat)"

definition carriage :: char where
  "carriage = char_of (13 :: nat)"

text \<open>\<open>replaceAll\<close> of one unit.\<close>

definition replace_unit :: "char \<Rightarrow> string \<Rightarrow> string \<Rightarrow> string" where
  "replace_unit c t s = concat (map (\<lambda>d. if d = c then t else [d]) s)"

definition has_control :: "string \<Rightarrow> bool" where
  "has_control s \<longleftrightarrow> carriage \<in> set s \<or> newline \<in> set s \<or> nul \<in> set s"

definition quoteSystemd :: "string \<Rightarrow> exn + string" where
  "quoteSystemd s =
     (if has_control s then Inl (Exn ''Systemd arguments cannot contain control characters'')
      else Inr ([quote] @ replace_unit quote [backslash, quote] (replace_unit backslash [backslash, backslash] s) @ [quote]))"

definition escapeXmlArgument :: "string \<Rightarrow> exn + string" where
  "escapeXmlArgument s =
     (if has_control s then Inl (Exn ''Service arguments cannot contain control characters'')
      else Inr (replace_unit (CHR 0x27) ''&apos;'' (replace_unit quote ''&quot;'' (replace_unit (CHR ''>'') ''&gt;''
             (replace_unit (CHR ''<'') ''&lt;'' (replace_unit (CHR ''&'') ''&amp;'' s))))))"

definition quoteWindowsBatch :: "string \<Rightarrow> exn + string" where
  "quoteWindowsBatch s =
     (if has_control s \<or> quote \<in> set s then Inl (Exn ''Windows service arguments contain invalid characters'')
      else Inr ([quote] @ replace_unit (CHR ''%'') ''%%'' s @ [quote]))"

definition text_lines :: "string list \<Rightarrow> string" where
  "text_lines ls = concat (map (\<lambda>l. l @ [newline]) ls)"

definition exec_line :: "string \<Rightarrow> string \<Rightarrow> string \<Rightarrow> string" where
  "exec_line node cli config = node @ '' '' @ cli @ '' client start --config '' @ config"

definition renderLinuxUserService :: "install_options \<Rightarrow> exn + string" where
  "renderLinuxUserService o' =
     (case (quoteSystemd (io_nodePath o'), quoteSystemd (io_cliPath o'), quoteSystemd (io_configPath o')) of
        (Inr node, Inr cli, Inr config) \<Rightarrow>
          Inr (text_lines
            [''[Unit]'', ''Description=Odyshell outbound machine client'', ''After=network-online.target'',
             ''Wants=network-online.target'', [], ''[Service]'', ''Type=simple'',
             ''ExecStart='' @ exec_line node cli config,
             ''Restart=always'', ''RestartSec=3'', ''KillMode=control-group'', ''NoNewPrivileges=true'', [],
             ''[Install]'', ''WantedBy=default.target''])
      | (Inl e, _, _) \<Rightarrow> Inl e
      | (Inr _, Inl e, _) \<Rightarrow> Inl e
      | (Inr _, Inr _, Inl e) \<Rightarrow> Inl e)"

fun sum_map :: "('a \<Rightarrow> exn + 'b) \<Rightarrow> 'a list \<Rightarrow> exn + 'b list" where
  "sum_map f [] = Inr []"
| "sum_map f (x # xs) = (case f x of
     Inl e \<Rightarrow> Inl e
   | Inr y \<Rightarrow> (case sum_map f xs of Inl e \<Rightarrow> Inl e | Inr ys \<Rightarrow> Inr (y # ys)))"

section \<open>Names\<close>

text \<open>\<open>path.resolve\<close> of one path, against the absolute working directory.\<close>

definition posix_resolve :: "string \<Rightarrow> string \<Rightarrow> string" where
  "posix_resolve cwd p =
     (let full = (if is_rooted p then p else if p = [] then cwd else cwd @ CHR ''/'' # p)
      in CHR ''/'' # slashed (resolve_segments False (split_slash full)))"

definition resolve_path :: "service_env \<Rightarrow> string \<Rightarrow> string" where
  "resolve_path env p = (if sx_platform env = Win32 then sx_windowsResolve env p else posix_resolve (sx_cwd env) p)"

definition linuxServiceName :: string where
  "linuxServiceName = ''odyshell-client.service''"

definition macosServiceLabel :: string where
  "macosServiceLabel = ''com.odyshell.client''"

definition defaultClientConfigPath :: "service_env \<Rightarrow> string" where
  "defaultClientConfigPath env = clientConfigPathFor (sx_platform env) (sx_home env) (sx_environment env)"

definition serviceDigest :: "service_env \<Rightarrow> string \<Rightarrow> string" where
  "serviceDigest env configPath = take 12 (sx_sha256 env (resolve_path env configPath))"

definition linuxServiceNameForConfig :: "service_env \<Rightarrow> string \<Rightarrow> string" where
  "linuxServiceNameForConfig env configPath =
     (let normalizedConfigPath = resolve_path env configPath in
      if normalizedConfigPath = resolve_path env (defaultClientConfigPath env) then linuxServiceName
      else ''odyshell-client-'' @ take 12 (sx_sha256 env normalizedConfigPath) @ ''.service'')"

definition linuxUserServicePath :: "service_env \<Rightarrow> string \<Rightarrow> string" where
  "linuxUserServicePath env serviceName =
     (let configHome = (case sx_environment env ''XDG_CONFIG_HOME'' of
            Some d \<Rightarrow> d | None \<Rightarrow> posix_join [sx_home env, ''.config''])
      in posix_join [configHome, ''systemd'', ''user'', serviceName])"

definition macosServiceNameForConfig :: "service_env \<Rightarrow> string \<Rightarrow> string" where
  "macosServiceNameForConfig env configPath = macosServiceLabel @ ''.'' @ serviceDigest env configPath"

definition macosUserServicePath :: "service_env \<Rightarrow> string \<Rightarrow> string" where
  "macosUserServicePath env configPath =
     posix_join [sx_home env, ''Library'', ''LaunchAgents'', macosServiceNameForConfig env configPath @ ''.plist'']"

definition windowsTaskNameForConfig :: "service_env \<Rightarrow> string \<Rightarrow> string" where
  "windowsTaskNameForConfig env configPath = ''Odyshell'' @ [backslash] @ ''Client-'' @ serviceDigest env configPath"

definition quoted_text :: "string \<Rightarrow> string" where
  "quoted_text s = [quote] @ s @ [quote]"

definition renderMacosUserService :: "service_env \<Rightarrow> install_options \<Rightarrow> exn + string" where
  "renderMacosUserService env o' =
     (let configPath = resolve_path env (io_configPath o') in
      case sum_map escapeXmlArgument [io_nodePath o', io_cliPath o', ''client'', ''start'', ''--config'', configPath] of
        Inl e \<Rightarrow> Inl e
      | Inr escaped \<Rightarrow>
          Inr (text_lines
            ([''<?xml version='' @ quoted_text ''1.0'' @ '' encoding='' @ quoted_text ''UTF-8'' @ ''?>'',
              ''<!DOCTYPE plist PUBLIC '' @ quoted_text ''-//Apple//DTD PLIST 1.0//EN'' @ '' ''
                @ quoted_text ''http://www.apple.com/DTDs/PropertyList-1.0.dtd'' @ ''>'',
              ''<plist version='' @ quoted_text ''1.0'' @ ''>'', ''<dict>'',
              ''  <key>Label</key><string>'' @ macosServiceNameForConfig env configPath @ ''</string>'',
              ''  <key>ProgramArguments</key>'', ''  <array>'']
             @ map (\<lambda>v. ''    <string>'' @ v @ ''</string>'') escaped
             @ [''  </array>'', ''  <key>RunAtLoad</key><true/>'', ''  <key>KeepAlive</key><true/>'',
                ''  <key>ProcessType</key><string>Background</string>'', ''</dict>'', ''</plist>''])))"

definition renderWindowsLauncher :: "service_env \<Rightarrow> install_options \<Rightarrow> exn + string" where
  "renderWindowsLauncher env o' =
     (case sum_map quoteWindowsBatch [io_nodePath o', io_cliPath o', resolve_path env (io_configPath o')] of
        Inl e \<Rightarrow> Inl e
      | Inr qs \<Rightarrow> Inr (''@echo off'' @ [carriage, newline] @ exec_line (qs ! 0) (qs ! 1) (qs ! 2) @ [carriage, newline]))"

section \<open>Files and commands\<close>

definition run_do :: "service_env \<Rightarrow> string list \<Rightarrow> string service_act" where
  "run_do env args w = (let w = w\<lparr>sw_runs := sw_runs w @ [args]\<rparr> in (sx_run env (sw_runs w), w))"

definition unit_do :: "'a service_act \<Rightarrow> unit service_act" where
  "unit_do m = then_do m (\<lambda>_. return_do ())"

definition systemctl :: "service_env \<Rightarrow> string list \<Rightarrow> unit service_act" where
  "systemctl env args = unit_do (run_do env ([''systemctl'', ''--user''] @ args))"

definition launchctl :: "service_env \<Rightarrow> string list \<Rightarrow> unit service_act" where
  "launchctl env args = unit_do (run_do env (''launchctl'' # args))"

definition schtasks :: "service_env \<Rightarrow> string list \<Rightarrow> unit service_act" where
  "schtasks env args = unit_do (run_do env (''schtasks.exe'' # args))"

definition readFile_do :: "string \<Rightarrow> string service_act" where
  "readFile_do p w = (case sw_files w p of None \<Rightarrow> Inl (Exn ''ENOENT'') | Some t \<Rightarrow> Inr t, w)"

definition writeFile_do :: "string \<Rightarrow> string \<Rightarrow> unit service_act" where
  "writeFile_do p t = update_do (\<lambda>w. w\<lparr>sw_files := (sw_files w)(p \<mapsto> t)\<rparr>)"

definition removeFile_do :: "string \<Rightarrow> unit service_act" where
  "removeFile_do p = update_do (\<lambda>w. w\<lparr>sw_files := (sw_files w)(p := None)\<rparr>)"

definition fileExists_do :: "string \<Rightarrow> bool service_act" where
  "fileExists_do p = succeeds_do (readFile_do p)"

definition assertPlatform :: "service_env \<Rightarrow> node_platform \<Rightarrow> string \<Rightarrow> string \<Rightarrow> unit service_act" where
  "assertPlatform env expected name manager =
     (if sx_platform env \<noteq> expected then throw_do (manager @ '' service management requires '' @ name) else return_do ())"

definition assertLinuxSystemd :: "service_env \<Rightarrow> unit service_act" where
  "assertLinuxSystemd env =
     (if sx_platform env \<noteq> Linux then throw_do ''Background service management requires Linux with systemd''
      else return_do ())"

definition validatedConfigPath :: "service_env \<Rightarrow> string \<Rightarrow> string service_act" where
  "validatedConfigPath env configPath =
     (let resolvedPath = resolve_path env configPath in
      then_do (readFile_do resolvedPath) (\<lambda>t. then_do (lift_do (sx_validConfig env t)) (\<lambda>ok.
        if \<not> ok then throw_do (''Invalid Client configuration at '' @ resolvedPath) else return_do resolvedPath)))"

definition userLingering :: "service_env \<Rightarrow> bool option service_act" where
  "userLingering env =
     (case sx_environment env ''USER'' of
        None \<Rightarrow> return_do None
      | Some user \<Rightarrow>
          if user = [] then return_do None
          else catch_do
            (then_do (run_do env [''loginctl'', ''show-user'', user, ''--property=Linger'', ''--value''])
               (\<lambda>out. return_do (Some (js_trim out = ''yes''))))
            (\<lambda>_. return_do None))"

section \<open>systemd\<close>

definition activateLinuxUserService :: "service_env \<Rightarrow> string \<Rightarrow> unit service_act" where
  "activateLinuxUserService env serviceName =
     then_do (systemctl env [''daemon-reload'']) (\<lambda>_.
     then_do (systemctl env [''enable'', serviceName]) (\<lambda>_.
     then_do (systemctl env [''restart'', serviceName]) (\<lambda>_.
     systemctl env [''is-active'', ''--quiet'', serviceName])))"

definition installLinuxUserService :: "service_env \<Rightarrow> install_options \<Rightarrow> (string \<times> bool option) service_act" where
  "installLinuxUserService env o' =
     then_do (assertLinuxSystemd env) (\<lambda>_.
     then_do (validatedConfigPath env (io_configPath o')) (\<lambda>configPath.
     let serviceName = linuxServiceNameForConfig env configPath;
         servicePath = linuxUserServicePath env serviceName
     in then_do (lift_do (renderLinuxUserService (o'\<lparr>io_configPath := configPath\<rparr>))) (\<lambda>text.
        then_do (writeFile_do servicePath text) (\<lambda>_.
        then_do (activateLinuxUserService env serviceName) (\<lambda>_.
        then_do (userLingering env) (\<lambda>lingering. return_do (servicePath, lingering)))))))"

definition stopLinuxUserService :: "service_env \<Rightarrow> string \<Rightarrow> unit service_act" where
  "stopLinuxUserService env configPath =
     then_do (assertLinuxSystemd env) (\<lambda>_.
       systemctl env [''disable'', ''--now'', linuxServiceNameForConfig env configPath])"

definition removeLinuxUserService :: "service_env \<Rightarrow> string \<Rightarrow> unit service_act" where
  "removeLinuxUserService env configPath =
     then_do (assertLinuxSystemd env) (\<lambda>_.
     let serviceName = linuxServiceNameForConfig env configPath in
     then_do (ignore_do (systemctl env [''disable'', ''--now'', serviceName])) (\<lambda>_.
     then_do (removeFile_do (linuxUserServicePath env serviceName)) (\<lambda>_.
     systemctl env [''daemon-reload''])))"

definition absent_status :: "bool \<Rightarrow> string option \<Rightarrow> client_service_status" where
  "absent_status supported path =
     \<lparr>cv_supported = supported, cv_installed = False, cv_active = False, cv_enabled = False, cv_current = None,
      cv_servicePath = path\<rparr>"

definition present_status :: "bool \<Rightarrow> bool \<Rightarrow> string \<Rightarrow> client_service_status" where
  "present_status active enabled path =
     \<lparr>cv_supported = True, cv_installed = True, cv_active = active, cv_enabled = enabled, cv_current = Some True,
      cv_servicePath = Some path\<rparr>"

definition linuxUserServiceStatus :: "service_env \<Rightarrow> string \<Rightarrow> client_service_status service_act" where
  "linuxUserServiceStatus env configPath =
     (let serviceName = linuxServiceNameForConfig env configPath;
          servicePath = linuxUserServicePath env serviceName
      in then_do (fileExists_do servicePath) (\<lambda>installed.
         if \<not> installed then return_do (absent_status True (Some servicePath))
         else
           then_do (succeeds_do (systemctl env [''is-active'', ''--quiet'', serviceName])) (\<lambda>active.
           then_do (succeeds_do (systemctl env [''is-enabled'', ''--quiet'', serviceName])) (\<lambda>enabled.
           return_do (present_status active enabled servicePath)))))"

section \<open>launchd\<close>

definition launchdDomain :: "service_env \<Rightarrow> exn + string" where
  "launchdDomain env = (case sx_uid env of
       None \<Rightarrow> Inl (Exn ''launchd user domain is unavailable'') | Some u \<Rightarrow> Inr (''gui/'' @ json_int u))"

definition launchctl_domain :: "service_env \<Rightarrow> (string \<Rightarrow> string list) \<Rightarrow> unit service_act" where
  "launchctl_domain env args = then_do (lift_do (launchdDomain env)) (\<lambda>d. launchctl env (args d))"

definition launchd_target :: "service_env \<Rightarrow> string \<Rightarrow> string \<Rightarrow> string" where
  "launchd_target env configPath domain = domain @ ''/'' @ macosServiceNameForConfig env configPath"

text \<open>Reading the domain is outside the promise that the first \<open>bootout\<close> ignores.\<close>

definition ignore_launchctl :: "service_env \<Rightarrow> (string \<Rightarrow> string list) \<Rightarrow> unit service_act" where
  "ignore_launchctl env args = then_do (lift_do (launchdDomain env)) (\<lambda>d. ignore_do (launchctl env (args d)))"

definition installMacosUserService :: "service_env \<Rightarrow> install_options \<Rightarrow> (string \<times> bool option) service_act" where
  "installMacosUserService env o' =
     then_do (assertPlatform env Darwin ''darwin'' ''launchd'') (\<lambda>_.
     then_do (validatedConfigPath env (io_configPath o')) (\<lambda>configPath.
     let servicePath = macosUserServicePath env configPath
     in then_do (lift_do (renderMacosUserService env (o'\<lparr>io_configPath := configPath\<rparr>))) (\<lambda>text.
        then_do (writeFile_do servicePath text) (\<lambda>_.
        then_do (ignore_launchctl env (\<lambda>d. [''bootout'', d, servicePath])) (\<lambda>_.
        then_do (launchctl_domain env (\<lambda>d. [''bootstrap'', d, servicePath])) (\<lambda>_.
        then_do (launchctl_domain env (\<lambda>d. [''kickstart'', ''-k'', launchd_target env configPath d])) (\<lambda>_.
        return_do (servicePath, None))))))))"

definition stopMacosUserService :: "service_env \<Rightarrow> string \<Rightarrow> unit service_act" where
  "stopMacosUserService env configPath =
     then_do (assertPlatform env Darwin ''darwin'' ''launchd'') (\<lambda>_.
       launchctl_domain env (\<lambda>d. [''bootout'', d, macosUserServicePath env configPath]))"

definition restartMacosUserService :: "service_env \<Rightarrow> string \<Rightarrow> unit service_act" where
  "restartMacosUserService env configPath =
     then_do (assertPlatform env Darwin ''darwin'' ''launchd'') (\<lambda>_.
       launchctl_domain env (\<lambda>d. [''kickstart'', ''-k'', launchd_target env configPath d]))"

definition removeMacosUserService :: "service_env \<Rightarrow> string \<Rightarrow> unit service_act" where
  "removeMacosUserService env configPath =
     then_do (assertPlatform env Darwin ''darwin'' ''launchd'') (\<lambda>_.
     let servicePath = macosUserServicePath env configPath in
     then_do (ignore_launchctl env (\<lambda>d. [''bootout'', d, servicePath])) (\<lambda>_. removeFile_do servicePath))"

definition macosUserServiceStatus :: "service_env \<Rightarrow> string \<Rightarrow> client_service_status service_act" where
  "macosUserServiceStatus env configPath =
     (let servicePath = macosUserServicePath env configPath in
      then_do (fileExists_do servicePath) (\<lambda>installed.
        if \<not> installed then return_do (absent_status True (Some servicePath))
        else then_do (lift_do (launchdDomain env)) (\<lambda>d.
          then_do (succeeds_do (launchctl env [''print'', launchd_target env configPath d])) (\<lambda>active.
          return_do (present_status active True servicePath)))))"

section \<open>The Task Scheduler\<close>

definition installWindowsUserService :: "service_env \<Rightarrow> install_options \<Rightarrow> (string \<times> bool option) service_act" where
  "installWindowsUserService env o' =
     then_do (assertPlatform env Win32 ''win32'' ''Task Scheduler'') (\<lambda>_.
     then_do (validatedConfigPath env (io_configPath o')) (\<lambda>configPath.
     let servicePath = sx_windowsLauncherPath env configPath;
         taskName = windowsTaskNameForConfig env configPath
     in then_do (lift_do (renderWindowsLauncher env (o'\<lparr>io_configPath := configPath\<rparr>))) (\<lambda>text.
        then_do (writeFile_do servicePath text) (\<lambda>_.
        then_do (schtasks env [''/Create'', ''/TN'', taskName, ''/SC'', ''ONLOGON'', ''/TR'', servicePath, ''/F'', ''/RL'', ''LIMITED'']) (\<lambda>_.
        then_do (schtasks env [''/Run'', ''/TN'', taskName]) (\<lambda>_.
        return_do (servicePath, None)))))))"

definition stopWindowsUserService :: "service_env \<Rightarrow> string \<Rightarrow> unit service_act" where
  "stopWindowsUserService env configPath =
     then_do (assertPlatform env Win32 ''win32'' ''Task Scheduler'') (\<lambda>_.
       schtasks env [''/End'', ''/TN'', windowsTaskNameForConfig env configPath])"

definition restartWindowsUserService :: "service_env \<Rightarrow> string \<Rightarrow> unit service_act" where
  "restartWindowsUserService env configPath =
     then_do (assertPlatform env Win32 ''win32'' ''Task Scheduler'') (\<lambda>_.
     then_do (ignore_do (schtasks env [''/End'', ''/TN'', windowsTaskNameForConfig env configPath])) (\<lambda>_.
     schtasks env [''/Run'', ''/TN'', windowsTaskNameForConfig env configPath]))"

definition removeWindowsUserService :: "service_env \<Rightarrow> string \<Rightarrow> unit service_act" where
  "removeWindowsUserService env configPath =
     then_do (assertPlatform env Win32 ''win32'' ''Task Scheduler'') (\<lambda>_.
     let taskName = windowsTaskNameForConfig env configPath in
     then_do (ignore_do (schtasks env [''/End'', ''/TN'', taskName])) (\<lambda>_.
     then_do (ignore_do (schtasks env [''/Delete'', ''/TN'', taskName, ''/F''])) (\<lambda>_.
     removeFile_do (sx_windowsLauncherPath env configPath))))"

text \<open>The last element stands for the variable \<open>ODYSHELL_TASK_NAME\<close> of the environment of the call.\<close>

definition windowsScheduledTaskState :: "service_env \<Rightarrow> string \<Rightarrow> string service_act" where
  "windowsScheduledTaskState env configPath =
     then_do (run_do env
       [''powershell.exe'', ''-NoLogo'', ''-NoProfile'', ''-NonInteractive'', ''-Command'',
        ''$task = Get-ScheduledTask -TaskPath '' @ [CHR 0x27, backslash] @ ''Odyshell'' @ [backslash, CHR 0x27]
          @ '' -TaskName $env:ODYSHELL_TASK_NAME -ErrorAction Stop; $task.State.ToString()'',
        ''ODYSHELL_TASK_NAME=Client-'' @ serviceDigest env configPath])
       (\<lambda>out. return_do (js_trim out))"

definition windowsUserServiceStatus :: "service_env \<Rightarrow> string \<Rightarrow> client_service_status service_act" where
  "windowsUserServiceStatus env configPath =
     (let servicePath = sx_windowsLauncherPath env configPath in
      then_do (fileExists_do servicePath) (\<lambda>found.
      then_do (if found then succeeds_do (schtasks env [''/Query'', ''/TN'', windowsTaskNameForConfig env configPath])
               else return_do False) (\<lambda>installed.
        if \<not> installed then return_do (absent_status True (Some servicePath))
        else
          then_do (catch_do
                     (then_do (windowsScheduledTaskState env configPath) (\<lambda>state. return_do (state = ''Running'')))
                     (\<lambda>_. return_do False)) (\<lambda>active.
          return_do (present_status active True servicePath)))))"

section \<open>The dispatch on the platform\<close>

definition unsupported :: "service_env \<Rightarrow> 'a service_act" where
  "unsupported env = throw_do (''Unsupported Client platform: ''
     @ (case sx_platform env of Linux \<Rightarrow> ''linux'' | Darwin \<Rightarrow> ''darwin'' | Win32 \<Rightarrow> ''win32'' | Other_platform p \<Rightarrow> p))"

definition installClientService :: "service_env \<Rightarrow> install_options \<Rightarrow> (string \<times> bool option) service_act" where
  "installClientService env o' = (case sx_platform env of
       Linux \<Rightarrow> installLinuxUserService env o' | Darwin \<Rightarrow> installMacosUserService env o'
     | Win32 \<Rightarrow> installWindowsUserService env o' | Other_platform _ \<Rightarrow> unsupported env)"

definition stopClientService :: "service_env \<Rightarrow> string \<Rightarrow> unit service_act" where
  "stopClientService env configPath = (case sx_platform env of
       Linux \<Rightarrow> stopLinuxUserService env configPath | Darwin \<Rightarrow> stopMacosUserService env configPath
     | Win32 \<Rightarrow> stopWindowsUserService env configPath | Other_platform _ \<Rightarrow> unsupported env)"

definition removeClientService :: "service_env \<Rightarrow> string \<Rightarrow> unit service_act" where
  "removeClientService env configPath = (case sx_platform env of
       Linux \<Rightarrow> removeLinuxUserService env configPath | Darwin \<Rightarrow> removeMacosUserService env configPath
     | Win32 \<Rightarrow> removeWindowsUserService env configPath | Other_platform _ \<Rightarrow> unsupported env)"

definition restartClientService :: "service_env \<Rightarrow> string \<Rightarrow> unit service_act" where
  "restartClientService env configPath = (case sx_platform env of
       Linux \<Rightarrow> then_do (assertLinuxSystemd env)
         (\<lambda>_. activateLinuxUserService env (linuxServiceNameForConfig env configPath))
     | Darwin \<Rightarrow> restartMacosUserService env configPath
     | Win32 \<Rightarrow> restartWindowsUserService env configPath | Other_platform _ \<Rightarrow> unsupported env)"

definition clientServiceStatus :: "service_env \<Rightarrow> string \<Rightarrow> client_service_status service_act" where
  "clientServiceStatus env configPath = (case sx_platform env of
       Darwin \<Rightarrow> macosUserServiceStatus env configPath
     | Win32 \<Rightarrow> windowsUserServiceStatus env configPath
     | Linux \<Rightarrow> linuxUserServiceStatus env configPath
     | Other_platform _ \<Rightarrow> return_do (absent_status False None))"

section \<open>The texts carry the arguments\<close>

text \<open>
  What systemd reads back: words separated by spaces; in double quotes a backslash escapes a
  backslash or a quote, and a percent sign with the next unit is a specifier, expanded by \<open>sp\<close>.
\<close>

fun quoted_word :: "(char \<Rightarrow> string) \<Rightarrow> string \<Rightarrow> (string \<times> string) option" where
  "quoted_word sp [] = None"
| "quoted_word sp (c # cs) =
     (if c = quote then Some ([], cs)
      else if c = backslash
      then (case cs of
              d # ds \<Rightarrow> if d = backslash \<or> d = quote then map_option (apfst (Cons d)) (quoted_word sp ds) else None
            | [] \<Rightarrow> None)
      else if c = CHR ''%''
      then (case cs of d # ds \<Rightarrow> map_option (apfst (append (sp d))) (quoted_word sp ds) | [] \<Rightarrow> None)
      else map_option (apfst (Cons c)) (quoted_word sp cs))"

lemma quoted_word_shorter: "quoted_word sp cs = Some (w, r) \<Longrightarrow> length r < length cs"
  by (induction sp cs arbitrary: w r rule: quoted_word.induct) (fastforce split: if_splits list.splits)+

function (sequential) exec_words :: "(char \<Rightarrow> string) \<Rightarrow> string \<Rightarrow> string list option" where
  "exec_words sp [] = Some []"
| "exec_words sp (c # cs) =
     (if c = CHR '' '' then exec_words sp cs
      else if c = quote
      then (case quoted_word sp cs of
              None \<Rightarrow> None
            | Some (w, r) \<Rightarrow> map_option (Cons w) (exec_words sp r))
      else map_option (Cons (takeWhile (\<lambda>d. d \<noteq> CHR '' '') (c # cs)))
             (exec_words sp (dropWhile (\<lambda>d. d \<noteq> CHR '' '') cs)))"
  by pat_completeness auto
termination
  by (relation "measure (\<lambda>(sp, s). length s)")
    (auto simp: le_imp_less_Suc length_dropWhile_le dest: quoted_word_shorter)


lemma unit_chars [simp]: "backslash \<noteq> quote" "quote \<noteq> backslash" "CHR ''%'' \<noteq> quote" "CHR ''%'' \<noteq> backslash"
    "CHR '' '' \<noteq> quote" "quote \<noteq> CHR '' ''" "quote \<noteq> CHR ''%''" "backslash \<noteq> CHR ''%''"
  by code_simp+

lemma replace_unit_simps [simp]:
  "replace_unit c t [] = []"
  "replace_unit c t (d # s) = (if d = c then t else [d]) @ replace_unit c t s"
  "replace_unit c t (a @ b) = replace_unit c t a @ replace_unit c t b"
  by (simp_all add: replace_unit_def)










lemma xml_chars [simp]: "quote \<noteq> CHR ''&''" "quote \<noteq> CHR ''<''" "quote \<noteq> CHR ''>''" "quote \<noteq> CHR 0x27"
    "CHR ''&'' \<noteq> quote" "CHR ''<'' \<noteq> quote" "CHR ''>'' \<noteq> quote" "CHR 0x27 \<noteq> quote"
    "CHR ''a'' \<noteq> quote" "CHR ''m'' \<noteq> quote" "CHR ''p'' \<noteq> quote" "CHR '';'' \<noteq> quote" "CHR ''l'' \<noteq> quote"
    "CHR ''t'' \<noteq> quote" "CHR ''g'' \<noteq> quote"
  by code_simp+







lemma text_lines_append: "text_lines (a @ b) = text_lines a @ text_lines b"
  by (simp add: text_lines_def)






text \<open>A percent sign is not escaped: systemd expands it with the unit after it.\<close>

lemma systemd_specifier:
  "quoteSystemd ''%u'' = Inr q \<Longrightarrow> exec_words sp q = Some [sp (CHR ''u'')]"
proof -
  assume "quoteSystemd ''%u'' = Inr q"
  moreover have "quoteSystemd ''%u'' = Inr [quote, CHR ''%'', CHR ''u'', quote]" by code_simp
  ultimately have "q = [quote, CHR ''%'', CHR ''u'', quote]" by simp
  then show ?thesis by simp
qed

end
