(* ===== verification/Client_Config.thy ===== *)
theory Client_Config
  imports Platform Json Effects
begin

text \<open>
  The configuration file of a Client and the enrollment that writes it: \<open>clientConfigSchema\<close> of
  packages/protocol/src/index.ts, \<open>normalizeServerUrl\<close> of apps/client/src/platform.ts and
  \<open>enrollClient\<close> and \<open>inspectClientRuntime\<close> of apps/client/src/index.ts.  A configuration file is kept as
  the value whose JSON text it holds.  The WHATWG URL parser, zod's checks of URLs and UUIDs, \<open>path.resolve\<close>, the key generation
  and the Server that answers the request are parameters; a value has the types of its record, as
  a value of other types is refused before the schema is applied.
\<close>

section \<open>The configuration\<close>

record client_config_file =
  cf_serverUrl :: string
  cf_profileName :: "string option"
  cf_machineId :: ident
  cf_machineName :: string
  cf_privateKeyPem :: string
  cf_stateDirectory :: string
  cf_profileId :: ident
  cf_localPolicy :: local_policy

definition clientConfigSchema ::
  "(string \<Rightarrow> bool) \<Rightarrow> (string \<Rightarrow> bool) \<Rightarrow> client_config_file \<Rightarrow> client_config_file option" where
  "clientConfigSchema url uuid c =
     (case (idSchema (cf_profileId c), localPolicySchema (cf_localPolicy c)) of
        (Some i, Some p) \<Rightarrow>
          if url (cf_serverUrl c)
             \<and> (case cf_profileName c of None \<Rightarrow> True | Some n \<Rightarrow> length_between 1 40 n)
             \<and> uuid (cf_machineId c) \<and> length_between 1 128 (cf_machineName c) \<and> cf_privateKeyPem c \<noteq> []
             \<and> length_between 1 4096 (cf_stateDirectory c)
          then Some (c\<lparr>cf_profileId := i, cf_localPolicy := p\<rparr>) else None
      | _ \<Rightarrow> None)"

section \<open>The URL of the Server\<close>

record parsed_url =
  pu_protocol :: string
  pu_username :: string
  pu_password :: string
  pu_origin :: string
  pu_pathname :: string

definition strip_slashes :: "string \<Rightarrow> string" where
  "strip_slashes s = rev (dropWhile (\<lambda>c. c = CHR ''/'') (rev s))"

text \<open>\<open>normalizeServerUrl\<close>: the text of a URL without credentials, query and fragment is its origin and path.\<close>

definition normalizeServerUrl :: "(string \<Rightarrow> parsed_url option) \<Rightarrow> string \<Rightarrow> exn + string" where
  "normalizeServerUrl parse serverUrl = (case parse serverUrl of
       None \<Rightarrow> Inl (Exn ''Server URL must be a valid HTTP or HTTPS URL'')
     | Some url \<Rightarrow>
         if pu_protocol url \<noteq> ''http:'' \<and> pu_protocol url \<noteq> ''https:'' then Inl (Exn ''Server URL must use HTTP or HTTPS'')
         else if pu_username url \<noteq> [] \<or> pu_password url \<noteq> [] then Inl (Exn ''Server URL must not contain credentials'')
         else
           let path = strip_slashes (pu_pathname url); whole = pu_origin url @ (if path = [] then ''/'' else path)
           in Inr (if last whole = CHR ''/'' then butlast whole else whole))"

section \<open>The enrollment of a Machine\<close>

record enroll_options =
  ec_serverUrl :: string
  ec_token :: string
  ec_machineName :: string
  ec_configPath :: string
  ec_profileName :: "string option"
  ec_previousMachineId :: "ident option"
  ec_replaceConfig :: bool

text \<open>The body of the request, and what the code reads of the response.\<close>

record enroll_body =
  eb_token :: string
  eb_name :: string
  eb_publicKey :: string
  eb_previousMachineId :: "ident option"

record enroll_answer =
  an_ok :: bool
  an_status :: int
  an_machineId :: "ident option"
  an_organizationId :: "ident option"
  an_error :: "string option"

text \<open>The configuration files of the host, and the state of the Server.\<close>

record 's enroll_world =
  nw_files :: "(string \<times> client_config_file) list"
  nw_server :: 's

record 's enroll_host =
  nh_parseUrl :: "string \<Rightarrow> parsed_url option"
  nh_url :: "string \<Rightarrow> bool"
  nh_uuid :: "string \<Rightarrow> bool"
  nh_resolve :: "string list \<Rightarrow> string"
  nh_publicKey :: string
  nh_privateKey :: string
  nh_post :: "string \<Rightarrow> enroll_body \<Rightarrow> 's \<Rightarrow> (exn + enroll_answer) \<times> 's"

definition truthy :: "string option \<Rightarrow> bool" where
  "truthy x \<longleftrightarrow> x \<noteq> None \<and> x \<noteq> Some []"

definition enroll_request :: "'s enroll_host \<Rightarrow> enroll_options \<Rightarrow> enroll_body" where
  "enroll_request host options =
     \<lparr>eb_token = ec_token options, eb_name = ec_machineName options, eb_publicKey = nh_publicKey host,
      eb_previousMachineId = (if truthy (ec_previousMachineId options) then ec_previousMachineId options else None)\<rparr>"

definition post_do :: "'s enroll_host \<Rightarrow> string \<Rightarrow> enroll_body \<Rightarrow> (enroll_answer, 's enroll_world) act" where
  "post_do host serverUrl body w =
     (case nh_post host serverUrl body (nw_server w) of (r, s) \<Rightarrow> (r, w\<lparr>nw_server := s\<rparr>))"

definition default_policy :: "ident \<Rightarrow> local_policy" where
  "default_policy organizationId =
     \<lparr>lp_organizationId = organizationId, lp_maxSessionDurationSeconds = 3600, lp_maxConcurrentSessions = 1,
      lp_maxConcurrentCommands = 1, lp_maxCommandTimeoutSeconds = 600, lp_maxCommandOutputBytes = 1024 * 1024,
      lp_allowRemoteApproval = True\<rparr>"

definition new_config ::
  "'s enroll_host \<Rightarrow> enroll_options \<Rightarrow> string \<Rightarrow> string \<Rightarrow> ident \<Rightarrow> ident \<Rightarrow> client_config_file" where
  "new_config host options serverUrl configPath machineId organizationId =
     \<lparr>cf_serverUrl = serverUrl,
      cf_profileName = (if truthy (ec_profileName options) then ec_profileName options else None),
      cf_machineId = machineId, cf_machineName = ec_machineName options, cf_privateKeyPem = nh_privateKey host,
      cf_stateDirectory = nh_resolve host [posix_dirname configPath, ''state''],
      cf_profileId = (case ec_profileName options of Some n \<Rightarrow> n | None \<Rightarrow> ''default''),
      cf_localPolicy = default_policy organizationId\<rparr>"

text \<open>\<open>writeFile\<close> with the flag \<open>w\<close>, or \<open>wx\<close>, which refuses a file that is there.\<close>

definition write_config_do ::
  "bool \<Rightarrow> string \<Rightarrow> client_config_file \<Rightarrow> (unit, 's enroll_world) act" where
  "write_config_do replace path c w =
     (if \<not> replace \<and> map_of (nw_files w) path \<noteq> None then (Inl (Exn ''EEXIST''), w)
      else (Inr (), w\<lparr>nw_files := (path, c) # filter (\<lambda>(q, _). q \<noteq> path) (nw_files w)\<rparr>))"

definition enrollClient ::
  "'s enroll_host \<Rightarrow> enroll_options \<Rightarrow> (ident \<times> string, 's enroll_world) act" where
  "enrollClient host options =
     then_do (lift_do (normalizeServerUrl (nh_parseUrl host) (ec_serverUrl options))) (\<lambda>serverUrl.
     let configPath = nh_resolve host [ec_configPath options] in
     then_do (post_do host serverUrl (enroll_request host options)) (\<lambda>body.
     if \<not> an_ok body \<or> \<not> truthy (an_machineId body) \<or> \<not> truthy (an_organizationId body)
     then throw_do (case an_error body of Some e \<Rightarrow> e | None \<Rightarrow> ''Enrollment failed: '' @ json_int (an_status body))
     else
       let machineId = the (an_machineId body) in
       (case clientConfigSchema (nh_url host) (nh_uuid host)
               (new_config host options serverUrl configPath machineId (the (an_organizationId body))) of
          None \<Rightarrow> throw_do ''ZodError''
        | Some config \<Rightarrow>
            then_do (write_config_do (ec_replaceConfig options) configPath config) (\<lambda>_.
            return_do (machineId, configPath)))))"

section \<open>The description of the host\<close>

definition CLIENT_VERSION :: string where
  "CLIENT_VERSION = ''0.20.0''"

definition inspectClientRuntime ::
  "node_platform \<Rightarrow> environment \<Rightarrow> string option \<Rightarrow> string \<Rightarrow> string \<Rightarrow> exn + runtime_info" where
  "inspectClientRuntime platform env loginShell arch nodeVersion =
     (case hostPlatform platform of
        Inl e \<Rightarrow> Inl e
      | Inr h \<Rightarrow> Inr
          \<lparr>ri_hostPlatform = h, ri_architecture = arch,
           ri_defaultShell = sh_program (hostAccountShell platform env loginShell),
           ri_privilegeEscalation = Some escalation_none, ri_nodeVersion = nodeVersion,
           ri_protocolVersion = Some PROTOCOL_VERSION, ri_clientVersion = Some CLIENT_VERSION\<rparr>)"

section \<open>What an enrollment leaves\<close>

lemma schema_keeps:
  assumes "clientConfigSchema url uuid c = Some c'"
  shows "cf_serverUrl c' = cf_serverUrl c \<and> cf_machineId c' = cf_machineId c \<and> cf_machineName c' = cf_machineName c
    \<and> cf_privateKeyPem c' = cf_privateKeyPem c \<and> length_between 1 128 (cf_machineName c)"
  using assms by (auto simp: clientConfigSchema_def split: option.splits if_splits)

lemma schema_policy:
  assumes "clientConfigSchema url uuid c = Some c'"
  shows "localPolicySchema (cf_localPolicy c) = Some (cf_localPolicy c')"
  using assms by (auto simp: clientConfigSchema_def split: option.splits if_splits)

lemma policy_organization:
  assumes "localPolicySchema p = Some p'"
  shows "idSchema (lp_organizationId p) = Some (lp_organizationId p')"
  using assms by (auto simp: localPolicySchema_def split: option.splits if_splits)

text \<open>What a run did: the answer it got, and the file it wrote, if it wrote one.\<close>

lemma enrollClient_run:
  assumes "enrollClient host options w = (r, w')"
  obtains (no_url) e where "normalizeServerUrl (nh_parseUrl host) (ec_serverUrl options) = Inl e" "r = Inl e" "w' = w"
  | (answered) url answer s where
      "normalizeServerUrl (nh_parseUrl host) (ec_serverUrl options) = Inr url"
      "nh_post host url (enroll_request host options) (nw_server w) = (answer, s)" "nw_server w' = s"
      "\<And>e. r = Inl e \<Longrightarrow> nw_files w' = nw_files w"
      "\<And>m path. r = Inr (m, path) \<Longrightarrow> \<exists>a c. answer = Inr a \<and> an_ok a \<and> an_machineId a = Some m \<and> truthy (an_machineId a)
         \<and> truthy (an_organizationId a) \<and> path = nh_resolve host [ec_configPath options]
         \<and> clientConfigSchema (nh_url host) (nh_uuid host)
              (new_config host options url path m (the (an_organizationId a))) = Some c
         \<and> nw_files w' = (path, c) # filter (\<lambda>(q, _). q \<noteq> path) (nw_files w)
         \<and> (ec_replaceConfig options \<or> map_of (nw_files w) path = None)"
proof (cases "normalizeServerUrl (nh_parseUrl host) (ec_serverUrl options)")
  case (Inl e)
  then show ?thesis using assms by (intro no_url) (auto simp: enrollClient_def do_defs)
next
  case (Inr url)
  obtain answer s where p: "nh_post host url (enroll_request host options) (nw_server w) = (answer, s)" by force
  show ?thesis
  proof (cases "\<exists>a. answer = Inr a \<and> an_ok a \<and> truthy (an_machineId a) \<and> truthy (an_organizationId a)")
    case False
    then show ?thesis using assms Inr p
      by (intro answered[OF Inr p]) (auto simp: enrollClient_def post_do_def do_defs Let_def split: sum.splits if_splits)
  next
    case True
    then obtain a where a: "answer = Inr a" "an_ok a" "truthy (an_machineId a)" "truthy (an_organizationId a)" by blast
    show ?thesis using assms Inr p a
      by (intro answered[OF Inr p])
        (auto simp: enrollClient_def post_do_def write_config_do_def do_defs Let_def truthy_def
           split: sum.splits if_splits option.splits)
  qed
qed

end
