(* ===== verification/Client_Profile.thy ===== *)
theory Client_Profile
  imports Client_Config Client_Service "HOL-Library.List_Lexorder"
begin

text \<open>
  apps/client/src/profile.ts on Linux and macOS: the list of Client Profiles, the removal of one and of
  all.  The world is the files, as a list of paths with contents, and the commands run so far; a
  directory exists when some file lies below it.  The parser of a configuration and the removal of a
  service are parameters, as they are arguments of the code's functions; the default removal, which
  asks the service manager and deletes the file of the service, is that of \<open>Client_Service\<close>.  A removal
  of files may fail half way: the environment then says which files are left.
\<close>

record profile_world =
  pf_files :: "(string \<times> string) list"
  pf_runs :: "string list list"

record profile_env =
  pe_platform :: node_platform
  pe_home :: string
  pe_environment :: environment
  pe_rmLeaves :: "string \<Rightarrow> (string \<Rightarrow> bool) option"

type_synonym 'a profile_act = "('a, profile_world) act"

record listed_profile =
  lp_profileName :: string
  lp_configPath :: string
  lp_valid :: bool
  lp_identity :: "(string \<times> string \<times> string) option"
  lp_service :: "bool \<times> bool"

section \<open>The files\<close>

definition below :: "string \<Rightarrow> string \<Rightarrow> bool" where
  "below dir p \<longleftrightarrow> take (length dir + 1) p = dir @ ''/''"

definition path_exists :: "string \<Rightarrow> profile_world \<Rightarrow> bool" where
  "path_exists p w \<longleftrightarrow> list_ex (\<lambda>(q, _). q = p \<or> below p q) (pf_files w)"

definition read_file :: "string \<Rightarrow> profile_world \<Rightarrow> string option" where
  "read_file p w = map_of (pf_files w) p"

text \<open>The entries of a directory, each with whether it is a directory.\<close>

definition read_directory :: "string \<Rightarrow> profile_world \<Rightarrow> (string \<times> bool) list" where
  "read_directory dir w = remdups (List.map_filter
     (\<lambda>(p, _). if below dir p
        then (let r = drop (length dir + 1) p; name = takeWhile (\<lambda>c. c \<noteq> CHR ''/'') r in Some (name, name \<noteq> r))
        else None)
     (pf_files w))"

text \<open>\<open>rm\<close>, of a file or of a directory with what is in it; a failure may leave any part of it.\<close>

definition rm_target :: "bool \<Rightarrow> string \<Rightarrow> string \<Rightarrow> bool" where
  "rm_target recursive p q \<longleftrightarrow> q = p \<or> (recursive \<and> below p q)"

definition rm_do :: "profile_env \<Rightarrow> bool \<Rightarrow> string \<Rightarrow> unit profile_act" where
  "rm_do env recursive p w =
     (case pe_rmLeaves env p of
        None \<Rightarrow> (Inr (), w\<lparr>pf_files := filter (\<lambda>(q, _). \<not> rm_target recursive p q) (pf_files w)\<rparr>)
      | Some left \<Rightarrow>
          (Inl (Exn ''rm''), w\<lparr>pf_files := filter (\<lambda>(q, _). rm_target recursive p q \<longrightarrow> left q) (pf_files w)\<rparr>))"




section \<open>The operations\<close>

definition profilesDirectory :: "profile_env \<Rightarrow> string" where
  "profilesDirectory env =
     posix_join [posix_dirname (clientConfigPathFor (pe_platform env) (pe_home env) (pe_environment env)), ''clients'']"

text \<open>
  The identity in a configuration file that \<open>JSON.parse\<close> and the schema accept; \<open>parse\<close> is \<open>None\<close>
  where \<open>JSON.parse\<close> throws or the value has not the types of a configuration.
\<close>

definition listed_identity ::
  "(string \<Rightarrow> client_config_file option) \<Rightarrow> (string \<Rightarrow> bool) \<Rightarrow> (string \<Rightarrow> bool) \<Rightarrow> string
     \<Rightarrow> (string \<times> string \<times> string) option" where
  "listed_identity parse url uuid text =
     map_option (\<lambda>c. (cf_machineId c, cf_machineName c, cf_serverUrl c))
       (Option.bind (parse text) (clientConfigSchema url uuid))"

text \<open>One entry of the directory: skipped, or a profile; \<open>identify\<close> is \<open>listed_identity\<close> of the schema.\<close>

definition list_entry ::
  "(string \<Rightarrow> (string \<times> string \<times> string) option) \<Rightarrow> (string \<Rightarrow> bool \<times> bool) \<Rightarrow> string \<Rightarrow> profile_world
     \<Rightarrow> string \<times> bool \<Rightarrow> listed_profile option" where
  "list_entry identify status dir w entry = (case entry of (name, isDirectory) \<Rightarrow>
     if \<not> isDirectory then None
     else (case normalizeClientProfileName name of
             Inl _ \<Rightarrow> None
           | Inr profileName \<Rightarrow>
               if profileName \<noteq> name then None
               else
                 let configPath = posix_join [dir, profileName, ''client.json'']
                 in (case read_file configPath w of
                       None \<Rightarrow> None
                     | Some text \<Rightarrow>
                         Some \<lparr>lp_profileName = profileName, lp_configPath = configPath, lp_valid = (identify text \<noteq> None),
                               lp_identity = identify text, lp_service = status configPath\<rparr>)))"

text \<open>
  \<open>localeCompare\<close> on names of lower-case letters, digits and hyphens is the order of their units in
  the root collation.
\<close>

definition listClientProfiles ::
  "(string \<Rightarrow> client_config_file option) \<Rightarrow> (string \<Rightarrow> bool) \<Rightarrow> (string \<Rightarrow> bool) \<Rightarrow> (string \<Rightarrow> bool \<times> bool)
     \<Rightarrow> profile_env \<Rightarrow> profile_world \<Rightarrow> listed_profile list" where
  "listClientProfiles parse url uuid status env w =
     sort_key (\<lambda>l. map (of_char :: char \<Rightarrow> nat) (lp_profileName l))
       (List.map_filter (list_entry (listed_identity parse url uuid) status (profilesDirectory env) w)
          (read_directory (profilesDirectory env) w))"


record removal =
  rv_profileName :: string
  rv_configPath :: string
  rv_removePath :: string

definition removal_candidates :: "profile_env \<Rightarrow> profile_world \<Rightarrow> removal list" where
  "removal_candidates env w =
     (let legacy = clientConfigPathFor (pe_platform env) (pe_home env) (pe_environment env);
          dir = profilesDirectory env
      in (if path_exists legacy w
          then [\<lparr>rv_profileName = ''legacy'', rv_configPath = legacy, rv_removePath = legacy\<rparr>] else [])
         @ List.map_filter
             (\<lambda>(name, isDirectory).
                if \<not> isDirectory then None
                else
                  let configPath = posix_join [dir, name, ''client.json'']
                  in if \<not> path_exists configPath w then None
                     else Some \<lparr>rv_profileName = name, rv_configPath = configPath, rv_removePath = posix_dirname configPath\<rparr>)
             (read_directory dir w))"

definition remove_candidate ::
  "(string \<Rightarrow> unit profile_act) \<Rightarrow> profile_env \<Rightarrow> removal \<Rightarrow> (string \<times> string) profile_act" where
  "remove_candidate removeService env c =
     then_do (removeService (rv_configPath c)) (\<lambda>_.
     then_do (rm_do env (rv_removePath c \<noteq> rv_configPath c) (rv_removePath c)) (\<lambda>_.
     return_do (rv_profileName c, rv_configPath c)))"

definition removeAllClientProfiles ::
  "(string \<Rightarrow> unit profile_act) \<Rightarrow> profile_env \<Rightarrow> (string \<times> string) list profile_act" where
  "removeAllClientProfiles removeService env =
     then_do (get_do (removal_candidates env)) (each_do (remove_candidate removeService env))"

text \<open>\<open>ods reset\<close> of apps/cli/src/reset.ts.\<close>

definition resetLocalOdyshell :: "(string \<Rightarrow> unit profile_act) \<Rightarrow> profile_env \<Rightarrow> string list profile_act" where
  "resetLocalOdyshell removeService env =
     then_do (removeAllClientProfiles removeService env) (\<lambda>removed. return_do (map fst removed))"

section \<open>Where a profile lives\<close>

text \<open>The directory of a profile, by its normalized name.\<close>

definition profile_directory :: "profile_env \<Rightarrow> string \<Rightarrow> string" where
  "profile_directory env name = profilesDirectory env @ CHR ''/'' # name"



lemma below_iff: "below dir p \<longleftrightarrow> (\<exists>r. p = dir @ CHR ''/'' # r)"
proof
  assume "below dir p"
  then have "p = (dir @ ''/'') @ drop (length dir + 1) p" unfolding below_def by (metis append_take_drop_id)
  then show "\<exists>r. p = dir @ CHR ''/'' # r" by auto
qed (auto simp: below_def)



lemma below_profiles: "below (profile_directory env n) q \<or> q = profile_directory env n \<Longrightarrow> below (profilesDirectory env) q"
  by (auto simp: below_iff profile_directory_def)


section \<open>What the removal of a service changes\<close>


lemmas service_act_defs = systemctl_def launchctl_def schtasks_def unit_do_def run_do_def readFile_do_def removeFile_do_def
  fileExists_do_def do_defs Let_def

lemma service_files [simp]:
  "sw_files (snd (systemctl senv a w)) = sw_files w"
  "sw_files (snd (launchctl senv a w)) = sw_files w"
  "sw_files (snd (schtasks senv a w)) = sw_files w"
  by (simp_all add: service_act_defs split: prod.split sum.split)











section \<open>The removal of a profile\<close>









end
