(* ===== verification/Cli_Update.thy ===== *)
theory Cli_Update
  imports Base64 Json Effects
begin

text \<open>
  apps/cli/src/update.ts: the self-update of the command line interface.  The registry, SHA-512, the
  parser of URLs and the programs that install and restart are parameters; what a program answers is a function of
  the calls made so far.  An \<open>ExpectedError\<close> is named by its code, another error by its message.
\<close>

record version =
  v_major :: nat
  v_minor :: nat
  v_patch :: nat

record registry_response =
  rr_ok :: bool
  rr_version :: "string option"
  rr_integrity :: "string option"
  rr_tarball :: "string option"

record package_release =
  pr_version :: string
  pr_integrity :: string
  pr_tarball :: string

record package_response =
  pk_ok :: bool
  pk_body :: "byte list list option"
  pk_declaredLength :: "int option"

datatype update_call = Install "byte list" | Installed_version | Service_installed | Restart | Clean_up

record update_world =
  uw_files :: "(string \<times> byte list) list"
  uw_calls :: "update_call list"

record update_env =
  ue_registry :: "string \<Rightarrow> exn + registry_response"
  ue_url :: "string \<Rightarrow> exn + string \<times> string"
  ue_download :: "string \<Rightarrow> exn + package_response"
  ue_sha512 :: "byte list \<Rightarrow> byte list"
  ue_install :: "update_call list \<Rightarrow> exn + unit"
  ue_installedVersion :: "update_call list \<Rightarrow> exn + string"
  ue_serviceInstalled :: "update_call list \<Rightarrow> exn + bool"
  ue_restart :: "update_call list \<Rightarrow> exn + unit"

type_synonym 'a update_act = "('a, update_world) act"

section \<open>Versions\<close>

definition digit_unit :: "char \<Rightarrow> bool" where
  "digit_unit c \<longleftrightarrow> (let n = of_char c :: nat in 48 \<le> n \<and> n \<le> 57)"

fun split_dots :: "string \<Rightarrow> string list" where
  "split_dots [] = [[]]"
| "split_dots (c # cs) =
     (if c = CHR ''.'' then [] # split_dots cs
      else (case split_dots cs of s # ss \<Rightarrow> (c # s) # ss | [] \<Rightarrow> [[c]]))"

text \<open>
  \<open>^(\d+)\.(\d+)\.(\d+)$\<close>; \<open>Number\<close> is exact for the components the registry admits, at most \<open>2 ^ 53 - 1\<close>.
\<close>

definition parseVersion :: "string \<Rightarrow> exn + version" where
  "parseVersion v = (case split_dots v of
       [a, b, c] \<Rightarrow>
         if list_all (\<lambda>s. s \<noteq> [] \<and> list_all digit_unit s) [a, b, c]
         then Inr \<lparr>v_major = digits_value a, v_minor = digits_value b, v_patch = digits_value c\<rparr>
         else Inl (Exn ''client_update_version_invalid'')
     | _ \<Rightarrow> Inl (Exn ''client_update_version_invalid''))"

definition version_difference :: "version \<Rightarrow> version \<Rightarrow> int" where
  "version_difference l r =
     (if v_major l \<noteq> v_major r then int (v_major l) - int (v_major r)
      else if v_minor l \<noteq> v_minor r then int (v_minor l) - int (v_minor r)
      else if v_patch l \<noteq> v_patch r then int (v_patch l) - int (v_patch r)
      else 0)"

definition compareVersions :: "string \<Rightarrow> string \<Rightarrow> exn + int" where
  "compareVersions left right = (case parseVersion left of
       Inl e \<Rightarrow> Inl e
     | Inr l \<Rightarrow> (case parseVersion right of Inl e \<Rightarrow> Inl e | Inr r \<Rightarrow> Inr (version_difference l r)))"

definition compatibleClientUpdate :: "string \<Rightarrow> string \<Rightarrow> exn + bool" where
  "compatibleClientUpdate currentVersion candidateVersion = (case parseVersion currentVersion of
       Inl e \<Rightarrow> Inl e
     | Inr current \<Rightarrow> (case parseVersion candidateVersion of
           Inl e \<Rightarrow> Inl e
         | Inr candidate \<Rightarrow> Inr (v_major current = v_major candidate \<and> v_minor current = v_minor candidate)))"

section \<open>Packages\<close>

text \<open>\<open>^sha512-([A-Za-z0-9+/]+={0,2})$\<close>, with the group it captures.\<close>

definition integrity_digest :: "string \<Rightarrow> string option" where
  "integrity_digest s =
     (if take 7 s = ''sha512-''
      then (let digest = drop 7 s; body = takeWhile b64_unit digest; pad = dropWhile b64_unit digest
            in if body \<noteq> [] \<and> length pad \<le> 2 \<and> list_all (\<lambda>c. c = CHR ''='') pad then Some digest else None)
      else None)"

text \<open>\<open>Buffer.from(value, "base64")\<close> on a text of that shape: an incomplete last group gives the bytes it holds.\<close>

definition base64_bytes :: "string \<Rightarrow> byte list" where
  "base64_bytes s =
     (let body = takeWhile b64_unit s; r = length body mod 4
      in if r = 0 then base64_decode body
         else if r = 1 then base64_decode (butlast body)
         else base64_decode (body @ replicate (4 - r) (CHR ''='')))"

definition verifyPackageIntegrity :: "(byte list \<Rightarrow> byte list) \<Rightarrow> byte list \<Rightarrow> string \<Rightarrow> bool" where
  "verifyPackageIntegrity sha512 bytes integrity = (case integrity_digest integrity of
       None \<Rightarrow> False
     | Some digest \<Rightarrow> base64_bytes digest = sha512 bytes)"

definition REGISTRY_ORIGIN :: string where
  "REGISTRY_ORIGIN = ''https://registry.npmjs.org''"

definition MAX_PACKAGE_BYTES :: nat where
  "MAX_PACKAGE_BYTES = 20 * 1024 * 1024"

definition packageRelease :: "update_env \<Rightarrow> string \<Rightarrow> exn + package_release" where
  "packageRelease env version = (case ue_registry env version of
       Inl e \<Rightarrow> Inl e
     | Inr r \<Rightarrow>
         if \<not> rr_ok r then Inl (Exn ''client_update_registry_failed'')
         else (case (rr_version r, rr_integrity r, rr_tarball r) of
                 (Some v, Some integrity, Some tarball) \<Rightarrow>
                   (case parseVersion v of
                      Inl e \<Rightarrow> Inl e
                    | Inr _ \<Rightarrow> (case ue_url env tarball of
                          Inl e \<Rightarrow> Inl e
                        | Inr (protocol, origin) \<Rightarrow>
                            if protocol \<noteq> ''https:'' \<or> origin \<noteq> REGISTRY_ORIGIN
                            then Inl (Exn ''client_update_artifact_untrusted'')
                            else if integrity_digest integrity = None
                            then Inl (Exn ''client_update_integrity_missing'')
                            else Inr \<lparr>pr_version = v, pr_integrity = integrity, pr_tarball = tarball\<rparr>))
               | _ \<Rightarrow> Inl (Exn ''client_update_metadata_invalid'')))"

text \<open>The loop over the reader: the bytes so far, and their number.\<close>

fun read_chunks :: "byte list list \<Rightarrow> byte list \<Rightarrow> exn + byte list" where
  "read_chunks [] received = Inr received"
| "read_chunks (value # rest) received =
     (if length received + length value > MAX_PACKAGE_BYTES then Inl (Exn ''Package exceeds the update size limit'')
      else read_chunks rest (received @ value))"

definition downloadVerifiedPackage :: "update_env \<Rightarrow> package_release \<Rightarrow> unit update_act" where
  "downloadVerifiedPackage env release w = (case ue_download env (pr_tarball release) of
       Inl e \<Rightarrow> (Inl e, w)
     | Inr response \<Rightarrow>
         (case (if pk_ok response then pk_body response else None) of
            None \<Rightarrow> (Inl (Exn ''Could not download the package''), w)
          | Some chunks \<Rightarrow>
              if (case pk_declaredLength response of Some n \<Rightarrow> n > int MAX_PACKAGE_BYTES | None \<Rightarrow> False)
              then (Inl (Exn ''Package exceeds the update size limit''), w)
              else (case read_chunks chunks [] of
                      Inl e \<Rightarrow> (Inl e, w)
                    | Inr bytes \<Rightarrow>
                        if \<not> verifyPackageIntegrity (ue_sha512 env) bytes (pr_integrity release)
                        then (Inl (Exn ''Package SHA-512 integrity verification failed''), w)
                        else if map_of (uw_files w) (pr_version release) \<noteq> None then (Inl (Exn ''EEXIST''), w)
                        else (Inr (), w\<lparr>uw_files := (pr_version release, bytes) # uw_files w\<rparr>))))"

section \<open>The update\<close>

definition call_do :: "update_call \<Rightarrow> (update_call list \<Rightarrow> exn + 'a) \<Rightarrow> 'a update_act" where
  "call_do c answer w = (let w = w\<lparr>uw_calls := uw_calls w @ [c]\<rparr> in (answer (uw_calls w), w))"

text \<open>\<open>dependencies.install\<close> of the file that holds a release.\<close>

definition install_do :: "update_env \<Rightarrow> package_release \<Rightarrow> unit update_act" where
  "install_do env release w = (case map_of (uw_files w) (pr_version release) of
       None \<Rightarrow> (Inl (Exn ''ENOENT''), w)
     | Some bytes \<Rightarrow> call_do (Install bytes) (ue_install env) w)"

definition restart_if_installed :: "update_env \<Rightarrow> bool update_act" where
  "restart_if_installed env =
     then_do (call_do Service_installed (ue_serviceInstalled env)) (\<lambda>shouldRestart.
       if shouldRestart then then_do (call_do Restart (ue_restart env)) (\<lambda>_. return_do True) else return_do False)"

record update_result =
  ur_latestVersion :: string
  ur_updated :: bool
  ur_restarted :: bool

definition both_do :: "unit update_act \<Rightarrow> unit update_act \<Rightarrow> unit update_act" where
  "both_do f g w = (let (r, w1) = f w; (s, w2) = g w1 in (case r of Inl e \<Rightarrow> Inl e | Inr _ \<Rightarrow> s, w2))"

definition install_latest :: "update_env \<Rightarrow> package_release \<Rightarrow> bool update_act" where
  "install_latest env latest =
     then_do (install_do env latest) (\<lambda>_.
     then_do (call_do Installed_version (ue_installedVersion env)) (\<lambda>installed.
       if installed \<noteq> pr_version latest then throw_do ''Installed version does not match verified version''
       else restart_if_installed env))"

definition roll_back :: "update_env \<Rightarrow> package_release \<Rightarrow> 'a update_act" where
  "roll_back env rollback =
     then_do
       (catch_do (then_do (install_do env rollback) (\<lambda>_. restart_if_installed env))
          (\<lambda>_. throw_do ''client_update_rollback_failed''))
       (\<lambda>_. throw_do ''client_update_failed'')"

definition clean_up :: "update_world \<Rightarrow> update_world" where
  "clean_up w = w\<lparr>uw_files := [], uw_calls := uw_calls w @ [Clean_up]\<rparr>"

text \<open>The \<open>finally\<close> of the update, whatever its outcome.\<close>

definition finally_clean :: "'a update_act \<Rightarrow> 'a update_act" where
  "finally_clean m w = (let (r, w) = m w in (r, clean_up w))"

definition install_release :: "update_env \<Rightarrow> package_release \<Rightarrow> package_release \<Rightarrow> bool update_act" where
  "install_release env latest rollback =
     finally_clean
       (then_do
          (catch_do (both_do (downloadVerifiedPackage env latest) (downloadVerifiedPackage env rollback))
             (\<lambda>_. throw_do ''client_update_failed''))
          (\<lambda>_. catch_do (install_latest env latest) (\<lambda>_. roll_back env rollback)))"

definition updateClientPackage :: "update_env \<Rightarrow> string \<Rightarrow> bool \<Rightarrow> update_result update_act" where
  "updateClientPackage env currentVersion checkOnly =
     then_do (lift_do (packageRelease env ''latest'')) (\<lambda>latest.
     then_do (lift_do (compareVersions (pr_version latest) currentVersion)) (\<lambda>order.
     let stay = return_do \<lparr>ur_latestVersion = pr_version latest, ur_updated = False, ur_restarted = False\<rparr> in
     if order \<le> 0 then stay
     else then_do (lift_do (compatibleClientUpdate currentVersion (pr_version latest))) (\<lambda>compatible.
       if \<not> compatible then throw_do ''client_update_incompatible''
       else if checkOnly then stay
       else then_do (lift_do (packageRelease env currentVersion)) (\<lambda>rollback.
            then_do (install_release env latest rollback) (\<lambda>restarted.
            return_do \<lparr>ur_latestVersion = pr_version latest, ur_updated = True, ur_restarted = restarted\<rparr>)))))"

text \<open>\<open>packageManagerForPath\<close>: the package manager that installed the program.\<close>

fun infix_of :: "string \<Rightarrow> string \<Rightarrow> bool" where
  "infix_of t [] \<longleftrightarrow> t = []"
| "infix_of t (c # cs) \<longleftrightarrow> take (length t) (c # cs) = t \<or> infix_of t cs"

datatype package_manager = Npm | Pnpm | Yarn | Bun

definition packageManagerForPath :: "string \<Rightarrow> package_manager" where
  "packageManagerForPath cliPath =
     (let normalized = map (\<lambda>c. lower_unit (if c = char_of (92 :: nat) then CHR ''/'' else c)) cliPath in
      if infix_of ''/pnpm/global/'' normalized \<or> infix_of ''/pnpm-global/'' normalized then Pnpm
      else if infix_of ''/.bun/install/global/'' normalized then Bun
      else if infix_of ''/yarn/data/global/'' normalized \<or> infix_of ''/yarn/global/'' normalized then Yarn
      else Npm)"

definition installGlobalPackage_args :: "package_manager \<Rightarrow> string \<Rightarrow> string list" where
  "installGlobalPackage_args manager tarballPath = (case manager of
       Npm \<Rightarrow> [''install'', ''--global'', ''--ignore-scripts'', tarballPath]
     | Pnpm \<Rightarrow> [''add'', ''--global'', ''--ignore-scripts'', tarballPath]
     | Yarn \<Rightarrow> [''global'', ''add'', ''--ignore-scripts'', tarballPath]
     | Bun \<Rightarrow> [''add'', ''--global'', ''--ignore-scripts'', tarballPath])"

section \<open>What the update installs\<close>

definition installs :: "update_call list \<Rightarrow> byte list list" where
  "installs cs = List.map_filter (\<lambda>c. case c of Install b \<Rightarrow> Some b | _ \<Rightarrow> None) cs"

lemma installs_append [simp]: "installs (a @ b) = installs a @ installs b"
  by (simp add: installs_def map_filter_def)

lemma installs_simps [simp]:
  "installs [] = []" "installs (Install b # cs) = b # installs cs" "installs (Installed_version # cs) = installs cs"
  "installs (Service_installed # cs) = installs cs" "installs (Restart # cs) = installs cs" "installs (Clean_up # cs) = installs cs"
  by (simp_all add: installs_def map_filter_def)

definition verified :: "update_env \<Rightarrow> package_release \<Rightarrow> byte list \<Rightarrow> bool" where
  "verified env release b \<longleftrightarrow> verifyPackageIntegrity (ue_sha512 env) b (pr_integrity release) \<and> length b \<le> MAX_PACKAGE_BYTES"

lemma read_chunks_bound: "read_chunks cs r = Inr b \<Longrightarrow> length r \<le> MAX_PACKAGE_BYTES \<Longrightarrow> length b \<le> MAX_PACKAGE_BYTES"
  by (induction cs r rule: read_chunks.induct) (auto split: if_splits)

lemma download_cases:
  assumes "downloadVerifiedPackage env release w = (r, w')"
  shows "(\<exists>e. r = Inl e \<and> w' = w)
    \<or> (\<exists>b. r = Inr () \<and> verified env release b \<and> map_of (uw_files w) (pr_version release) = None
         \<and> w' = w\<lparr>uw_files := (pr_version release, b) # uw_files w\<rparr>)"
  using assms read_chunks_bound[of _ "[]"]
  by (auto simp: downloadVerifiedPackage_def verified_def split: sum.splits if_splits option.splits)

lemma restart_calls:
  assumes "restart_if_installed env w = (r, w')"
  shows "installs (uw_calls w') = installs (uw_calls w) \<and> uw_files w' = uw_files w"
  using assms by (auto simp: restart_if_installed_def do_defs call_do_def Let_def split: sum.splits if_splits prod.splits)

lemma install_latest_calls:
  assumes "map_of (uw_files w) (pr_version latest) = Some b" "install_latest env latest w = (r, w')"
  shows "installs (uw_calls w') = installs (uw_calls w) @ [b] \<and> uw_files w' = uw_files w"
  using assms restart_calls
  by (fastforce simp: install_latest_def install_do_def do_defs call_do_def Let_def split: sum.splits if_splits prod.splits)

lemma roll_back_calls:
  assumes "map_of (uw_files w) (pr_version rollback) = Some b" "roll_back env rollback w = (r, w')"
  shows "installs (uw_calls w') = installs (uw_calls w) @ [b]
    \<and> r \<in> {Inl (Exn ''client_update_failed''), Inl (Exn ''client_update_rollback_failed'')}"
  using assms restart_calls
  by (fastforce simp: roll_back_def install_do_def do_defs call_do_def Let_def split: sum.splits if_splits prod.splits)

lemma both_downloads:
  assumes "both_do (downloadVerifiedPackage env latest) (downloadVerifiedPackage env rollback) w = (r, w')"
  shows "uw_calls w' = uw_calls w
    \<and> (r = Inr () \<longrightarrow> (\<exists>b b'. verified env latest b \<and> verified env rollback b' \<and> pr_version latest \<noteq> pr_version rollback
         \<and> map_of (uw_files w') (pr_version latest) = Some b \<and> map_of (uw_files w') (pr_version rollback) = Some b'))"
proof -
  obtain r1 w1 where d1: "downloadVerifiedPackage env latest w = (r1, w1)" by force
  obtain r2 w2 where d2: "downloadVerifiedPackage env rollback w1 = (r2, w2)" by force
  from download_cases[OF d1] download_cases[OF d2] assms show ?thesis
    by (auto simp: both_do_def Let_def d1 d2 split: if_splits)
qed

definition update_failures :: "exn set" where
  "update_failures = {Exn ''client_update_failed'', Exn ''client_update_rollback_failed''}"

lemma install_release_cases:
  assumes "install_release env latest rollback w = (r, w')"
  shows "(\<exists>e. r = Inl e \<and> e \<in> update_failures
      \<and> (installs (uw_calls w') = installs (uw_calls w)
         \<or> (\<exists>b b'. installs (uw_calls w') = installs (uw_calls w) @ [b, b'] \<and> verified env latest b \<and> verified env rollback b')))
    \<or> (\<exists>x b. r = Inr x \<and> installs (uw_calls w') = installs (uw_calls w) @ [b] \<and> verified env latest b)"
proof -
  obtain r1 w1 where d: "both_do (downloadVerifiedPackage env latest) (downloadVerifiedPackage env rollback) w = (r1, w1)" by force
  note d' = both_downloads[OF d]
  show ?thesis
  proof (cases r1)
    case (Inl e)
    then show ?thesis using assms d d'
      by (auto simp: install_release_def finally_clean_def Let_def do_defs clean_up_def update_failures_def)
  next
    case (Inr u)
    then obtain b b' where b: "verified env latest b" "verified env rollback b'"
      "map_of (uw_files w1) (pr_version latest) = Some b" "map_of (uw_files w1) (pr_version rollback) = Some b'"
      using d' by auto
    obtain r2 w2 where i: "install_latest env latest w1 = (r2, w2)" by force
    note i' = install_latest_calls[OF b(3) i]
    have run: "install_release env latest rollback w =
        (let (r, v) = (case r2 of Inl _ \<Rightarrow> roll_back env rollback w2 | Inr x \<Rightarrow> (Inr x, w2)) in (r, clean_up v))"
      using d Inr i by (simp add: install_release_def finally_clean_def do_defs split: sum.splits)
    show ?thesis
    proof (cases r2)
      case (Inl e)
      obtain r3 :: "exn + bool" and w3 where k: "roll_back env rollback w2 = (r3, w3)" by (metis surj_pair)
      have "map_of (uw_files w2) (pr_version rollback) = Some b'" using b(4) i' by simp
      note k' = roll_back_calls[OF this k]
      have "r = r3" "w' = clean_up w3" using assms run Inl k by (simp_all add: Let_def)
      then show ?thesis using k' i' d' b by (auto simp: clean_up_def update_failures_def)
    next
      case (Inr x)
      have "r = Inr x" "w' = clean_up w2" using assms run Inr by (simp_all add: Let_def)
      then show ?thesis using i' d' b by (auto simp: clean_up_def)
    qed
  qed
qed

definition newer_release :: "string \<Rightarrow> string \<Rightarrow> bool" where
  "newer_release v current \<longleftrightarrow> (\<exists>n. compareVersions v current = Inr n \<and> 0 < n) \<and> compatibleClientUpdate current v = Inr True"

text \<open>
  C21: Whatever the registry, the downloads and the package manager do, the update installs only
  bytes it has verified: nothing at all, when it only checks, when the release is not newer or
  not compatible, or when a download fails; else first the release, a newer one
  with the same major and minor version, and then, exactly when it reports a failure, the verified rollback
  package.  Every installed package passed the SHA-512 check of its release and is at most 20 MiB.
\<close>

theorem update_installs_verified:
  assumes "updateClientPackage env current checkOnly w = (r, w')"
  shows "(installs (uw_calls w') = installs (uw_calls w) \<and> (case r of Inr u \<Rightarrow> \<not> ur_updated u | Inl _ \<Rightarrow> True))
    \<or> (\<not> checkOnly \<and> (\<exists>latest rollback b. packageRelease env ''latest'' = Inr latest
        \<and> packageRelease env current = Inr rollback \<and> newer_release (pr_version latest) current \<and> verified env latest b
        \<and> (case r of
             Inr u \<Rightarrow> ur_updated u \<and> installs (uw_calls w') = installs (uw_calls w) @ [b]
           | Inl e \<Rightarrow> e \<in> update_failures
               \<and> (\<exists>b'. verified env rollback b' \<and> installs (uw_calls w') = installs (uw_calls w) @ [b, b']))))"
proof (cases "packageRelease env ''latest''")
  case (Inl e)
  with assms show ?thesis by (auto simp: updateClientPackage_def do_defs)
next
  case (Inr latest)
  note latest = Inr
  show ?thesis
  proof (cases "compareVersions (pr_version latest) current")
    case (Inl e)
    with latest assms show ?thesis by (auto simp: updateClientPackage_def do_defs)
  next
    case (Inr n)
    show ?thesis
    proof (cases "0 < n \<and> compatibleClientUpdate current (pr_version latest) = Inr True \<and> \<not> checkOnly
        \<and> (\<exists>rb. packageRelease env current = Inr rb)")
      case False
      then show ?thesis using assms latest Inr
        by (auto simp: updateClientPackage_def do_defs Let_def split: if_splits sum.splits)
    next
      case True
      then obtain rollback where rb: "packageRelease env current = Inr rollback" by blast
      obtain q v where i: "install_release env latest rollback w = (q, v)" by force
      have "(r, w') = (case q of Inl e \<Rightarrow> (Inl e, v)
          | Inr x \<Rightarrow> (Inr \<lparr>ur_latestVersion = pr_version latest, ur_updated = True, ur_restarted = x\<rparr>, v))"
        using assms latest Inr True rb i by (simp add: updateClientPackage_def do_defs Let_def split: sum.splits)
      then have r: "w' = v" "r = (case q of Inl e \<Rightarrow> Inl e
          | Inr x \<Rightarrow> Inr \<lparr>ur_latestVersion = pr_version latest, ur_updated = True, ur_restarted = x\<rparr>)"
        by (auto split: sum.splits)
      have newer: "newer_release (pr_version latest) current" using True Inr by (auto simp: newer_release_def)
      show ?thesis
        using install_release_cases[OF i]
      proof (elim disjE exE conjE)
        fix e assume "q = Inl e" "installs (uw_calls v) = installs (uw_calls w)"
        then show ?thesis by (simp add: r)
      next
        fix e b b' assume "q = Inl e" "e \<in> update_failures" "installs (uw_calls v) = installs (uw_calls w) @ [b, b']"
          "verified env latest b" "verified env rollback b'"
        then show ?thesis using newer latest rb True by (auto simp: r)
      next
        fix x b assume "q = Inr x" "installs (uw_calls v) = installs (uw_calls w) @ [b]" "verified env latest b"
        then show ?thesis using newer latest rb True by (auto simp: r)
      qed
    qed
  qed
qed

text \<open>A release whose installation fails, on a hash that gives back its bytes.\<close>

definition demo_registry :: "string \<Rightarrow> exn + registry_response" where
  "demo_registry v = Inr \<lparr>rr_ok = True, rr_version = Some (if v = ''latest'' then ''1.2.4'' else v),
     rr_integrity = Some (''sha512-'' @ base64_encode (if v = ''latest'' then [1] else [2])),
     rr_tarball = Some (if v = ''latest'' then ''new'' else ''old'')\<rparr>"

definition demo_update :: update_env where
  "demo_update = \<lparr>ue_registry = demo_registry, ue_url = (\<lambda>_. Inr (''https:'', REGISTRY_ORIGIN)),
     ue_download = (\<lambda>u. Inr \<lparr>pk_ok = True, pk_body = Some [if u = ''new'' then [1] else [2]], pk_declaredLength = None\<rparr>),
     ue_sha512 = (\<lambda>b. b), ue_install = (\<lambda>cs. if cs = [Install [1]] then Inl (Exn ''EACCES'') else Inr ()),
     ue_installedVersion = (\<lambda>_. Inr ''1.2.3''), ue_serviceInstalled = (\<lambda>_. Inr False), ue_restart = (\<lambda>_. Inr ())\<rparr>"

definition no_update :: update_world where
  "no_update = \<lparr>uw_files = [], uw_calls = []\<rparr>"

definition demo_latest :: package_release where
  "demo_latest = \<lparr>pr_version = ''1.2.4'', pr_integrity = ''sha512-AQ=='', pr_tarball = ''new''\<rparr>"

definition demo_rollback :: package_release where
  "demo_rollback = \<lparr>pr_version = ''1.2.3'', pr_integrity = ''sha512-Ag=='', pr_tarball = ''old''\<rparr>"

lemma demo_releases:
  "packageRelease demo_update ''latest'' = Inr demo_latest" "packageRelease demo_update ''1.2.3'' = Inr demo_rollback"
  "compareVersions ''1.2.4'' ''1.2.3'' = Inr 1" "compatibleClientUpdate ''1.2.3'' ''1.2.4'' = Inr True"
  "verifyPackageIntegrity (\<lambda>b. b) [1] ''sha512-AQ==''" "verifyPackageIntegrity (\<lambda>b. b) [2] ''sha512-Ag==''"
  by code_simp+

definition demo_files :: "(string \<times> byte list) list" where
  "demo_files = [(''1.2.3'', [2]), (''1.2.4'', [1])]"

lemma demo_downloads:
  "downloadVerifiedPackage demo_update demo_latest no_update = (Inr (), no_update\<lparr>uw_files := [(''1.2.4'', [1])]\<rparr>)"
  "downloadVerifiedPackage demo_update demo_rollback (no_update\<lparr>uw_files := [(''1.2.4'', [1])]\<rparr>)
     = (Inr (), no_update\<lparr>uw_files := demo_files\<rparr>)"
  by (simp_all add: downloadVerifiedPackage_def demo_update_def demo_latest_def demo_rollback_def demo_files_def
      MAX_PACKAGE_BYTES_def demo_releases(5,6)[unfolded One_nat_def] no_update_def)

lemma demo_installs:
  "install_latest demo_update demo_latest (no_update\<lparr>uw_files := demo_files\<rparr>)
     = (Inl (Exn ''EACCES''), \<lparr>uw_files = demo_files, uw_calls = [Install [1]]\<rparr>)"
  "roll_back demo_update demo_rollback \<lparr>uw_files = demo_files, uw_calls = [Install [1]]\<rparr>
     = ((Inl (Exn ''client_update_failed''), \<lparr>uw_files = demo_files, uw_calls = [Install [1], Install [2], Service_installed]\<rparr>)
       :: (exn + bool) \<times> update_world)"
  by code_simp+

lemma demo_latest_version: "pr_version demo_latest = ''1.2.4''"
  by (simp add: demo_latest_def)

lemma demo_update_run:
  "updateClientPackage demo_update ''1.2.3'' False no_update
    = (Inl (Exn ''client_update_failed''),
       \<lparr>uw_files = [], uw_calls = [Install [1], Install [2], Service_installed, Clean_up]\<rparr>)"
proof -
  have "install_release demo_update demo_latest demo_rollback no_update
      = (Inl (Exn ''client_update_failed''), \<lparr>uw_files = [], uw_calls = [Install [1], Install [2], Service_installed, Clean_up]\<rparr>)"
    by (simp add: install_release_def finally_clean_def both_do_def then_do_def catch_do_def Let_def demo_downloads demo_installs
        clean_up_def)
  then show ?thesis
    by (simp add: updateClientPackage_def do_defs Let_def demo_releases demo_latest_version)
qed

theorem update_installs_verified_witness:
  "verified demo_update demo_latest [1] \<and> verified demo_update demo_rollback [2] \<and> newer_release ''1.2.4'' ''1.2.3''"
  using update_installs_verified[OF demo_update_run] by (auto simp: no_update_def demo_releases demo_latest_version)

end
