(* ===== verification/Cli.thy ===== *)
theory Cli
  imports Client_Config "HOL-Library.Multiset"
begin

text \<open>
  The command line interface: apps/cli/src/errors.ts, apps/cli/src/up.ts and the commands of
  apps/cli/src/index.ts that decide about the identity of the Machine.  The parser of URLs and of
  configurations, the enrollment call and the service manager are parameters, whose answers are functions
  of the calls made so far.  An \<open>ExpectedError\<close> is named by its code.
\<close>

section \<open>Global options\<close>

definition server_option :: "string \<Rightarrow> bool" where
  "server_option a \<longleftrightarrow> a = ''--server'' \<or> take 9 a = ''--server=''"

definition json_option :: "string \<Rightarrow> bool" where
  "json_option a \<longleftrightarrow> a = ''--json'' \<or> a = ''-j''"

text \<open>The loop of \<open>normalizeGlobalOptions\<close>, after the program and the script: the global arguments and the others.\<close>

fun split_globals :: "string list \<Rightarrow> string list \<times> string list" where
  "split_globals [] = ([], [])"
| "split_globals (a # rest) =
     (if a = ''--'' then ([], a # rest)
      else if json_option a then apfst (Cons a) (split_globals rest)
      else if server_option a
      then (if a = ''--server''
            then (case rest of
                    v # rest' \<Rightarrow> apfst (\<lambda>gs. a # v # gs) (split_globals rest')
                  | [] \<Rightarrow> ([a], []))
            else apfst (Cons a) (split_globals rest))
      else apsnd (Cons a) (split_globals rest))"

definition normalizeGlobalOptions :: "string list \<Rightarrow> string list" where
  "normalizeGlobalOptions argv =
     take 2 argv @ (let (globals, others) = split_globals (drop 2 argv) in globals @ others)"

section \<open>Errors\<close>

text \<open>
  An error object is an address in a store; a cause is another error object or a text.
\<close>

datatype cause = Error_at nat | Text string

record error_object =
  eo_name :: string
  eo_message :: string
  eo_code :: "string option"
  eo_cause :: "cause option"

datatype error_report = Report (er_name: string) (er_message: string) (er_code: "string option") (er_cause: "error_report option")

text \<open>\<open>report\<close>, with \<open>left\<close> the levels until the depth of 8.\<close>

primrec error_report_at :: "(nat \<Rightarrow> error_object) \<Rightarrow> nat \<Rightarrow> nat list \<Rightarrow> cause \<Rightarrow> error_report" where
  "error_report_at store 0 seen c = Report ''Error'' ''Cause chain exceeded 8 levels'' None None"
| "error_report_at store (Suc left) seen c = (case c of
       Text t \<Rightarrow> Report ''Error'' t None None
     | Error_at a \<Rightarrow>
         let e = store a in
         if a \<in> set seen then Report (eo_name e) ''Circular error cause'' None None
         else Report (if eo_name e = [] then ''Error'' else eo_name e) (eo_message e) (eo_code e)
                (map_option (error_report_at store left (a # seen)) (eo_cause e)))"

definition errorReport :: "(nat \<Rightarrow> error_object) \<Rightarrow> cause \<Rightarrow> error_report" where
  "errorReport store = error_report_at store 8 []"

primrec report_codes :: "error_report \<Rightarrow> string set" where
  "report_codes (Report n m c cause) =
     set_option c \<union> (case map_option report_codes cause of None \<Rightarrow> {} | Some cs \<Rightarrow> cs)"

primrec report_depth :: "error_report \<Rightarrow> nat" where
  "report_depth (Report n m c cause) = (case map_option report_depth cause of None \<Rightarrow> 1 | Some d \<Rightarrow> d + 1)"

datatype connection_hint = Refused | Unresolved | Unroutable | Unreachable | Machine_offline | Ping_timeout | Upgrade_required

definition connectionHint :: "error_report \<Rightarrow> connection_hint option" where
  "connectionHint r =
     (let codes = report_codes r in
      if ''ECONNREFUSED'' \<in> codes then Some Refused
      else if ''ENOTFOUND'' \<in> codes \<or> ''EAI_AGAIN'' \<in> codes then Some Unresolved
      else if ''ETIMEDOUT'' \<in> codes \<or> ''UND_ERR_CONNECT_TIMEOUT'' \<in> codes \<or> ''ENETUNREACH'' \<in> codes
        \<or> ''EHOSTUNREACH'' \<in> codes then Some Unroutable
      else if er_code r = Some ''server_unreachable'' then Some Unreachable
      else if er_code r = Some ''machine_offline'' then Some Machine_offline
      else if er_code r = Some ''machine_ping_timeout'' then Some Ping_timeout
      else if er_code r = Some ''client_upgrade_required'' then Some Upgrade_required
      else None)"

section \<open>The configuration of a Machine\<close>

text \<open>What \<open>JSON.parse\<close> made of a configuration file: the two members that \<open>identityFromConfig\<close> reads.\<close>

datatype json_member = Missing | String_member string | Other_member

record json_config =
  jc_serverUrl :: json_member
  jc_profileName :: json_member
  jc_config :: "client_config_file option"

datatype cli_call =
    Read_config string
  | Enroll string string string string string "string option" bool
  | Reachable string
  | Service_status string
  | Install_service string
  | Stop_service string

record config_identity =
  ci_serverUrl :: string
  ci_profileName :: "string option"

record cli_env =
  cx_platform :: node_platform
  cx_parseUrl :: "string \<Rightarrow> parsed_url option"
  cx_resolve :: "string \<Rightarrow> string"
  cx_profileConfigPath :: "string \<Rightarrow> exn + string"
  cx_readConfig :: "cli_call list \<Rightarrow> exn + string option"
  cx_parseJson :: "string \<Rightarrow> exn + json_config"
  cx_url :: "string \<Rightarrow> bool"
  cx_uuid :: "string \<Rightarrow> bool"
  cx_enroll :: "cli_call list \<Rightarrow> exn + string"
  cx_reachable :: "cli_call list \<Rightarrow> exn + unit"
  cx_status :: "cli_call list \<Rightarrow> exn + bool \<times> bool option"
  cx_install :: "cli_call list \<Rightarrow> exn + unit"
  cx_stop :: "cli_call list \<Rightarrow> exn + unit"

type_synonym 'a cli_act = "('a, cli_call list) act"

definition ask_do :: "cli_call \<Rightarrow> (cli_call list \<Rightarrow> exn + 'a) \<Rightarrow> 'a cli_act" where
  "ask_do c answer cs = (let cs = cs @ [c] in (answer cs, cs))"

text \<open>An error replaced by an \<open>ExpectedError\<close> with a code.\<close>

definition expect_do :: "string \<Rightarrow> 'a cli_act \<Rightarrow> 'a cli_act" where
  "expect_do code m = catch_do m (\<lambda>_. throw_do code)"

definition parse_identity :: "cli_env \<Rightarrow> string \<Rightarrow> exn + config_identity" where
  "parse_identity env text = (case cx_parseJson env text of
       Inl e \<Rightarrow> Inl e
     | Inr j \<Rightarrow> (case jc_serverUrl j of
           String_member url \<Rightarrow>
             if url = [] then Inl (Exn ''serverUrl is missing'')
             else (case jc_profileName j of
                     Other_member \<Rightarrow> Inl (Exn ''profileName is invalid'')
                   | Missing \<Rightarrow> Inr \<lparr>ci_serverUrl = url, ci_profileName = None\<rparr>
                   | String_member p \<Rightarrow> Inr \<lparr>ci_serverUrl = url, ci_profileName = (if p = [] then None else Some p)\<rparr>)
         | _ \<Rightarrow> Inl (Exn ''serverUrl is missing'')))"

text \<open>The \<open>machineId\<close> of a configuration that the schema accepts.\<close>

definition config_machine :: "cli_env \<Rightarrow> string \<Rightarrow> exn + ident option" where
  "config_machine env text = (case cx_parseJson env text of
       Inl e \<Rightarrow> Inl e
     | Inr j \<Rightarrow> Inr (map_option cf_machineId (Option.bind (jc_config j) (clientConfigSchema (cx_url env) (cx_uuid env)))))"

definition identityFromConfig :: "cli_env \<Rightarrow> string \<Rightarrow> config_identity option cli_act" where
  "identityFromConfig env configPath =
     then_do (ask_do (Read_config configPath) (cx_readConfig env)) (\<lambda>source.
       (case source of
          None \<Rightarrow> return_do None
        | Some text \<Rightarrow> then_do (expect_do ''client_config_invalid'' (lift_do (parse_identity env text))) (\<lambda>i. return_do (Some i))))"

definition assertSameServer :: "cli_env \<Rightarrow> string \<Rightarrow> string \<Rightarrow> unit cli_act" where
  "assertSameServer env existingServerUrl requestedServerUrl =
     then_do (expect_do ''client_config_invalid'' (lift_do (normalizeServerUrl (cx_parseUrl env) existingServerUrl))) (\<lambda>existing.
       if existing = requestedServerUrl then return_do () else throw_do ''client_config_server_mismatch'')"

text \<open>The path of the configuration, and whether it exists.\<close>

definition resolveClientUpConfiguration ::
  "cli_env \<Rightarrow> string \<Rightarrow> string option \<Rightarrow> string \<Rightarrow> string \<Rightarrow> (string \<times> bool) cli_act" where
  "resolveClientUpConfiguration env serverUrl explicitConfigPath profileName profileConfigPath =
     then_do (expect_do ''invalid_server_url'' (lift_do (normalizeServerUrl (cx_parseUrl env) serverUrl))) (\<lambda>requested.
     then_do (if profile_pattern profileName then return_do () else throw_do ''invalid_client_profile'') (\<lambda>_.
     case (case explicitConfigPath of Some p \<Rightarrow> if p = [] then None else Some p | None \<Rightarrow> None) of
       Some explicit \<Rightarrow>
         let configPath = cx_resolve env explicit in
         then_do (identityFromConfig env configPath) (\<lambda>existing. case existing of
           None \<Rightarrow> return_do (configPath, False)
         | Some i \<Rightarrow> then_do (assertSameServer env (ci_serverUrl i) requested) (\<lambda>_. return_do (configPath, True)))
     | None \<Rightarrow>
         let configPath = cx_resolve env profileConfigPath in
         then_do (identityFromConfig env configPath) (\<lambda>existing. case existing of
           None \<Rightarrow> return_do (configPath, False)
         | Some i \<Rightarrow>
             if (case ci_profileName i of Some n \<Rightarrow> n \<noteq> [] \<and> n \<noteq> profileName | None \<Rightarrow> False)
             then throw_do ''client_config_profile_mismatch''
             else then_do (assertSameServer env (ci_serverUrl i) requested) (\<lambda>_. return_do (configPath, True)))))"

section \<open>The commands\<close>

definition assertSupportedClientHost :: "cli_env \<Rightarrow> unit cli_act" where
  "assertSupportedClientHost env =
     (case cx_platform env of Other_platform _ \<Rightarrow> throw_do ''client_platform_unsupported'' | _ \<Rightarrow> return_do ())"

definition given :: "string option \<Rightarrow> bool" where
  "given x \<longleftrightarrow> x \<noteq> None \<and> x \<noteq> Some []"

definition assertProfileSelection :: "string option \<Rightarrow> string option \<Rightarrow> unit cli_act" where
  "assertProfileSelection profileName configPath =
     (if given profileName \<and> given configPath then throw_do ''client_profile_config_conflict'' else return_do ())"

definition requiredValue :: "string option \<Rightarrow> string cli_act" where
  "requiredValue value = (case value of
       Some v \<Rightarrow> if v \<noteq> [] then return_do v else throw_do ''enrollment_option_required''
     | None \<Rightarrow> throw_do ''enrollment_option_required'')"

definition clientConfigurationFor :: "cli_env \<Rightarrow> string \<Rightarrow> string option \<Rightarrow> string \<Rightarrow> (string \<times> bool) cli_act" where
  "clientConfigurationFor env serverUrl explicitConfigPath profileName =
     then_do (lift_do (cx_profileConfigPath env profileName)) (\<lambda>profilePath.
       resolveClientUpConfiguration env serverUrl
         (if given explicitConfigPath then map_option (cx_resolve env) explicitConfigPath else None) profileName profilePath)"

record up_options =
  uo_token :: "string option"
  uo_name :: "string option"
  uo_profile :: "string option"
  uo_config :: "string option"

record up_result =
  up_machineId :: "string option"
  up_reenrolled :: bool
  up_alreadyRunning :: bool
  up_ignored :: bool

definition machineIdFromClientConfig :: "cli_env \<Rightarrow> string \<Rightarrow> string cli_act" where
  "machineIdFromClientConfig env configPath =
     then_do (ask_do (Read_config configPath) (cx_readConfig env)) (\<lambda>source. case source of
       None \<Rightarrow> throw_do ''ENOENT''
     | Some text \<Rightarrow> then_do (lift_do (config_machine env text)) (\<lambda>parsed. case parsed of
         None \<Rightarrow> throw_do ''client_config_invalid'' | Some i \<Rightarrow> return_do i))"

definition up_enrollment ::
  "cli_env \<Rightarrow> string \<Rightarrow> up_options \<Rightarrow> string \<Rightarrow> string \<Rightarrow> bool \<Rightarrow> string option cli_act" where
  "up_enrollment env serverUrl options profileName configPath configExists =
     (let replaceEnrollment = configExists \<and> uo_token options \<noteq> None in
      if \<not> configExists \<or> replaceEnrollment
      then
        then_do (if replaceEnrollment
                 then then_do (machineIdFromClientConfig env configPath) (\<lambda>i. return_do (Some i))
                 else return_do None) (\<lambda>previousMachineId.
        then_do (requiredValue (uo_token options)) (\<lambda>token.
        then_do (requiredValue (uo_name options)) (\<lambda>name.
        then_do (ask_do (Enroll serverUrl token name configPath profileName
                   (if given previousMachineId then previousMachineId else None) replaceEnrollment) (cx_enroll env)) (\<lambda>machineId.
        return_do (Some machineId)))))
      else return_do None)"

definition up_command :: "cli_env \<Rightarrow> string \<Rightarrow> up_options \<Rightarrow> up_result cli_act" where
  "up_command env serverUrl options =
     then_do (assertSupportedClientHost env) (\<lambda>_.
     then_do (assertProfileSelection (uo_profile options) (uo_config options)) (\<lambda>_.
     let profileName = (case uo_profile options of Some p \<Rightarrow> p | None \<Rightarrow> ''default'') in
     then_do (clientConfigurationFor env serverUrl (uo_config options) profileName) (\<lambda>(configPath, configExists).
     then_do (up_enrollment env serverUrl options profileName configPath configExists) (\<lambda>enrollment.
     then_do (ask_do (Reachable serverUrl) (cx_reachable env)) (\<lambda>_.
     then_do (if configExists
              then then_do (ask_do (Service_status configPath) (cx_status env)) (\<lambda>s. return_do (Some s))
              else return_do None) (\<lambda>previousStatus.
     let active = (case previousStatus of Some (a, _) \<Rightarrow> a | None \<Rightarrow> False);
         current = (case previousStatus of Some (_, c) \<Rightarrow> c | None \<Rightarrow> None) in
     then_do (if enrollment = None \<and> active \<and> current \<noteq> Some False then return_do ()
              else expect_do ''client_service_start_failed'' (ask_do (Install_service configPath) (cx_install env))) (\<lambda>_.
     return_do \<lparr>up_machineId = enrollment, up_reenrolled = (enrollment \<noteq> None \<and> configExists), up_alreadyRunning = active,
       up_ignored = (configExists \<and> enrollment = None \<and> (uo_token options \<noteq> None \<or> uo_name options \<noteq> None))\<rparr>)))))))"

definition down_command :: "cli_env \<Rightarrow> string \<Rightarrow> string option \<Rightarrow> string option \<Rightarrow> unit cli_act" where
  "down_command env serverUrl profile config =
     then_do (assertProfileSelection profile config) (\<lambda>_.
     let profileName = (case profile of Some p \<Rightarrow> p | None \<Rightarrow> ''default'') in
     then_do (clientConfigurationFor env serverUrl config profileName) (\<lambda>(configPath, configExists).
     then_do (if \<not> configExists then throw_do ''client_not_enrolled'' else return_do ()) (\<lambda>_.
     expect_do ''client_service_stop_failed'' (ask_do (Stop_service configPath) (cx_stop env)))))"

section \<open>The options are only moved\<close>

lemma split_globals_mset: "mset (fst (split_globals as)) + mset (snd (split_globals as)) = mset as"
proof (induction as rule: split_globals.induct)
  case (2 a rest)
  consider "a = ''--''" | "a \<noteq> ''--''" "json_option a" | "a \<noteq> ''--''" "\<not> json_option a" "server_option a"
    | "a \<noteq> ''--''" "\<not> json_option a" "\<not> server_option a" by blast
  then show ?case
  proof cases
    case 3
    then show ?thesis using 2 by (cases rest; cases "a = ''--server''") (simp_all add: split_globals.simps(2)[of a])
  qed (use 2 in \<open>simp_all add: split_globals.simps(2)[of a]\<close>)
qed simp

section \<open>Errors are reported in full, to a depth\<close>

lemma report_depth_bound: "report_depth (error_report_at store left seen c) \<le> left + 1"
proof (induction left arbitrary: seen c)
  case (Suc left)
  show ?case
  proof (cases c)
    case (Error_at a)
    then show ?thesis using Suc by (cases "eo_cause (store a)") (simp_all add: Let_def)
  qed simp
qed simp

section \<open>Which identity \<open>ods up\<close> leaves\<close>

definition enrollments :: "cli_call list \<Rightarrow> cli_call list" where
  "enrollments cs = filter (\<lambda>c. case c of Enroll _ _ _ _ _ _ _ \<Rightarrow> True | _ \<Rightarrow> False) cs"

lemma enrollments_simps [simp]:
  "enrollments [] = []" "enrollments (a @ b) = enrollments a @ enrollments b"
  "enrollments (Read_config p # cs) = enrollments cs" "enrollments (Reachable p # cs) = enrollments cs"
  "enrollments (Service_status p # cs) = enrollments cs" "enrollments (Install_service p # cs) = enrollments cs"
  "enrollments (Enroll a1 b1 c1 d1 e1 f1 g1 # cs) = Enroll a1 b1 c1 d1 e1 f1 g1 # enrollments cs"
  by (simp_all add: enrollments_def)

text \<open>The configuration that \<open>up\<close> found, or that there was none.\<close>

definition config_found :: "cli_env \<Rightarrow> string \<Rightarrow> string \<Rightarrow> bool \<Rightarrow> bool" where
  "config_found env serverUrl path found \<longleftrightarrow>
     (if found
      then (\<exists>text i u. cx_readConfig env [Read_config path] = Inr (Some text) \<and> parse_identity env text = Inr i
              \<and> normalizeServerUrl (cx_parseUrl env) (ci_serverUrl i) = Inr u
              \<and> normalizeServerUrl (cx_parseUrl env) serverUrl = Inr u)
      else cx_readConfig env [Read_config path] = Inr None)"

lemma identity_cases:
  assumes "identityFromConfig env path [] = (r, cs)"
  shows "cs = [Read_config path] \<and> (case r of
      Inl _ \<Rightarrow> True
    | Inr None \<Rightarrow> cx_readConfig env cs = Inr None
    | Inr (Some i) \<Rightarrow> (\<exists>text. cx_readConfig env cs = Inr (Some text) \<and> parse_identity env text = Inr i))"
  using assms by (auto simp: identityFromConfig_def ask_do_def expect_do_def do_defs Let_def split: sum.splits option.splits prod.splits)

lemma same_server_cases:
  assumes "assertSameServer env existing requested cs = (r, cs')"
  shows "cs' = cs \<and> (r = Inr () \<longrightarrow> normalizeServerUrl (cx_parseUrl env) existing = Inr requested)"
  using assms by (auto simp: assertSameServer_def expect_do_def do_defs split: sum.splits if_splits prod.splits)

lemma found_cases:
  assumes "then_do (identityFromConfig env path) (\<lambda>existing. case existing of
        None \<Rightarrow> return_do (path, False)
      | Some i \<Rightarrow> if bad i then throw_do e
                  else then_do (assertSameServer env (ci_serverUrl i) requested) (\<lambda>_. return_do (path, True))) [] = (r, cs)"
    "normalizeServerUrl (cx_parseUrl env) url = Inr requested"
  shows "enrollments cs = [] \<and> (case r of
      Inl _ \<Rightarrow> True | Inr (path, found) \<Rightarrow> cs = [Read_config path] \<and> config_found env url path found)"
proof -
  obtain x ds where i: "identityFromConfig env path [] = (x, ds)" by force
  note known = identity_cases[OF i]
  show ?thesis
  proof (cases "\<exists>j. x = Inr (Some j) \<and> \<not> bad j")
    case True
    then obtain j where j: "x = Inr (Some j)" "\<not> bad j" by blast
    have ds: "ds = [Read_config path]" using known by simp
    obtain y es where a: "assertSameServer env (ci_serverUrl j) requested [Read_config path] = (y, es)" by force
    have "then_do (assertSameServer env (ci_serverUrl j) requested) (\<lambda>_. return_do (path, True)) ds = (r, cs)"
      using assms(1) j by (simp add: then_do_def i)
    then show ?thesis
      using known same_server_cases[OF a] assms(2) j
      by (cases y) (auto simp: then_do_def a ds return_do_def config_found_def)
  next
    case False
    then show ?thesis
      using assms(1) known by (auto simp: then_do_def i return_do_def throw_do_def config_found_def split: sum.splits option.splits)
  qed
qed

lemma configuration_cases:
  assumes "clientConfigurationFor env url config profile [] = (r, cs)"
  shows "enrollments cs = [] \<and> (case r of
      Inl _ \<Rightarrow> True | Inr (path, found) \<Rightarrow> cs = [Read_config path] \<and> config_found env url path found)"
proof (cases "\<exists>p u. cx_profileConfigPath env profile = Inr p \<and> normalizeServerUrl (cx_parseUrl env) url = Inr u \<and> profile_pattern profile")
  case False
  then show ?thesis
    using assms by (auto simp: clientConfigurationFor_def resolveClientUpConfiguration_def expect_do_def do_defs split: sum.splits if_splits)
next
  case True
  then obtain p u where p: "cx_profileConfigPath env profile = Inr p" and u: "normalizeServerUrl (cx_parseUrl env) url = Inr u"
    and "profile_pattern profile" by blast
  then have run: "clientConfigurationFor env url config profile [] = resolveClientUpConfiguration env url
      (if given config then map_option (cx_resolve env) config else None) profile p []"
    by (simp add: clientConfigurationFor_def then_do_def lift_do_def)
  define explicit where "explicit = (case (if given config then map_option (cx_resolve env) config else None) of
      Some p \<Rightarrow> if p = [] then None else Some p | None \<Rightarrow> None)"
  note found = found_cases[where env = env, OF _ u]
  show ?thesis
  proof (cases explicit)
    case (Some x)
    then show ?thesis
      using assms found[where path = "cx_resolve env x" and bad = "\<lambda>_. False", unfolded if_False] run u \<open>profile_pattern profile\<close>
      by (simp add: resolveClientUpConfiguration_def expect_do_def then_do_def[of "catch_do m h" for m h] catch_do_def lift_do_def
          then_do_def[of "return_do ()"] return_do_def[of "()"] explicit_def[symmetric] Let_def)
  next
    case None
    then show ?thesis
      using assms found[where path = "cx_resolve env p" and
          bad = "\<lambda>i. case ci_profileName i of Some n \<Rightarrow> n \<noteq> [] \<and> n \<noteq> profile | None \<Rightarrow> False"] run u \<open>profile_pattern profile\<close>
      by (simp add: resolveClientUpConfiguration_def expect_do_def then_do_def[of "catch_do m h" for m h] catch_do_def lift_do_def
          then_do_def[of "return_do ()"] return_do_def[of "()"] explicit_def[symmetric] Let_def)
  qed
qed

text \<open>The enrollment that a run may make, and what it is allowed to replace.\<close>

definition enrollment_ok :: "cli_env \<Rightarrow> string \<Rightarrow> up_options \<Rightarrow> cli_call \<Rightarrow> bool" where
  "enrollment_ok env url options c = (case c of
       Enroll url' token name path profile previous replace \<Rightarrow>
         url' = url \<and> uo_token options = Some token \<and> token \<noteq> [] \<and> uo_name options = Some name \<and> name \<noteq> []
         \<and> config_found env url path replace
         \<and> (if replace
            then (\<exists>text i. cx_readConfig env [Read_config path, Read_config path] = Inr (Some text)
                    \<and> config_machine env text = Inr (Some i) \<and> previous = (if i = [] then None else Some i))
            else previous = None)
     | _ \<Rightarrow> False)"

lemma then_do_eq: "m w = (x, w') \<Longrightarrow> then_do m f w = (case x of Inl e \<Rightarrow> (Inl e, w') | Inr q \<Rightarrow> f q w')"
  by (simp add: then_do_def)

lemma up_enrollment_cases:
  assumes "up_enrollment env url options profile path found [Read_config path] = (r, cs)" "config_found env url path found"
  shows "(enrollments cs = [] \<and> (r = Inr None \<longrightarrow> found \<and> uo_token options = None) \<and> (\<forall>i. r \<noteq> Inr (Some i)))
    \<or> (\<exists>e. enrollments cs = [e] \<and> enrollment_ok env url options e \<and> (found \<longrightarrow> uo_token options \<noteq> None) \<and> r \<noteq> Inr None)"
proof (cases "found \<and> uo_token options = None")
  case True
  then show ?thesis using assms by (auto simp: up_enrollment_def do_defs)
next
  case False
  define previous where "previous = (if found then then_do (machineIdFromClientConfig env path) (\<lambda>i. return_do (Some i)) else return_do None)"
  obtain x ds where p: "previous [Read_config path] = (x, ds)" by force
  have ds: "enrollments ds = [] \<and> (\<forall>q. x = Inr q \<longrightarrow> (if found
      then (\<exists>text i. cx_readConfig env [Read_config path, Read_config path] = Inr (Some text) \<and> config_machine env text = Inr (Some i) \<and> q = Some i)
      else q = None))"
    using p by (auto simp: previous_def machineIdFromClientConfig_def ask_do_def do_defs Let_def split: sum.splits option.splits if_splits prod.splits)
  have run: "up_enrollment env url options profile path found [Read_config path] = (case (x, ds) of
      (Inl e, ds) \<Rightarrow> (Inl e, ds)
    | (Inr q, ds) \<Rightarrow> then_do (requiredValue (uo_token options)) (\<lambda>token. then_do (requiredValue (uo_name options)) (\<lambda>name.
        then_do (ask_do (Enroll url token name path profile (if given q then q else None) found) (cx_enroll env))
          (\<lambda>machineId. return_do (Some machineId)))) ds)"
  proof (cases found)
    case True
    then have "then_do (machineIdFromClientConfig env path) (\<lambda>i. return_do (Some i)) [Read_config path] = (x, ds)"
      using p by (simp add: previous_def)
    note eq = then_do_eq[where m = "then_do (machineIdFromClientConfig env path) (\<lambda>i. return_do (Some i))" and w = "[Read_config path]", OF this]
    from True False show ?thesis by (cases x) (simp_all add: up_enrollment_def eq)
  next
    case not: False
    then have "return_do None [Read_config path] = (x, ds)" using p by (simp add: previous_def)
    note eq = then_do_eq[where m = "return_do None" and w = "[Read_config path]", OF this]
    from not show ?thesis by (cases x) (simp_all add: up_enrollment_def eq)
  qed
  show ?thesis
  proof (cases "\<exists>q t n. x = Inr q \<and> uo_token options = Some t \<and> t \<noteq> [] \<and> uo_name options = Some n \<and> n \<noteq> []")
    case True
    then obtain q t n where t: "x = Inr q" "uo_token options = Some t" "t \<noteq> []" "uo_name options = Some n" "n \<noteq> []" by blast
    define e where "e = Enroll url t n path profile (if given q then q else None) found"
    have "enrollment_ok env url options e"
      using ds t assms(2) by (auto simp: enrollment_ok_def e_def given_def) blast
    moreover have "enrollments cs = [e] \<and> r \<noteq> Inr None"
      using assms(1) run t ds by (auto simp: requiredValue_def ask_do_def do_defs Let_def e_def split: sum.splits)
    ultimately show ?thesis using t by auto
  next
    case False
    then show ?thesis
      using assms(1) run ds \<open>\<not> (found \<and> uo_token options = None)\<close>
      by (cases x) (auto simp: requiredValue_def do_defs split: option.splits if_splits)
  qed
qed

text \<open>
  C23: \<open>ods up\<close> changes the identity of the Machine at most once, and only as asked: it enrolls
  with the token and the name it was given, over a configuration only when a
  token was given and the configuration belongs to the requested Server, naming the
  Machine that this configuration held; otherwise it creates a configuration where
  none was.  Without a token an existing identity is kept, and a run that succeeds reports an
  enrollment exactly when it made one.
\<close>

theorem up_identity:
  assumes "up_command env url options [] = (r, cs)"
  shows "(enrollments cs = [] \<and> (case r of Inr u \<Rightarrow> up_machineId u = None \<and> uo_token options = None | Inl _ \<Rightarrow> True))
    \<or> (\<exists>e. enrollments cs = [e] \<and> enrollment_ok env url options e
         \<and> (case r of Inr u \<Rightarrow> up_machineId u \<noteq> None | Inl _ \<Rightarrow> True))"
proof (cases "fst (assertSupportedClientHost env []) = Inr () \<and> fst (assertProfileSelection (uo_profile options) (uo_config options) []) = Inr ()")
  case False
  then show ?thesis
    using assms by (auto simp: up_command_def assertSupportedClientHost_def assertProfileSelection_def do_defs
        split: node_platform.splits if_splits)
next
  case True
  define profile where "profile = (case uo_profile options of Some p \<Rightarrow> p | None \<Rightarrow> ''default'')"
  have host: "assertSupportedClientHost env [] = (Inr (), [])"
    "assertProfileSelection (uo_profile options) (uo_config options) [] = (Inr (), [])"
    using True by (auto simp: assertSupportedClientHost_def assertProfileSelection_def do_defs split: node_platform.splits if_splits)
  obtain x ds where c: "clientConfigurationFor env url (uo_config options) profile [] = (x, ds)" by force
  note known = configuration_cases[OF c]
  show ?thesis
  proof (cases x)
    case (Inl e)
    then have "cs = ds" "r = Inl e"
      using assms by (simp_all add: up_command_def then_do_def host c profile_def[symmetric] Let_def)
    with known show ?thesis by simp
  next
    case (Inr pf)
    obtain path found where pf: "pf = (path, found)" by force
    have ds: "ds = [Read_config path]" "config_found env url path found" using known Inr pf by simp_all
    obtain y es where e: "up_enrollment env url options profile path found [Read_config path] = (y, es)" by force
    define tail where "tail = (\<lambda>enrollment. then_do (ask_do (Reachable url) (cx_reachable env)) (\<lambda>_.
      then_do (if found then then_do (ask_do (Service_status path) (cx_status env)) (\<lambda>s. return_do (Some s)) else return_do None)
        (\<lambda>previousStatus.
       let active = (case previousStatus of Some (a, _) \<Rightarrow> a | None \<Rightarrow> False);
           current = (case previousStatus of Some (_, c) \<Rightarrow> c | None \<Rightarrow> None) in
       then_do (if enrollment = None \<and> active \<and> current \<noteq> Some False then return_do ()
                else expect_do ''client_service_start_failed'' (ask_do (Install_service path) (cx_install env))) (\<lambda>_.
       return_do \<lparr>up_machineId = enrollment, up_reenrolled = (enrollment \<noteq> None \<and> found), up_alreadyRunning = active,
         up_ignored = (found \<and> enrollment = None \<and> (uo_token options \<noteq> None \<or> uo_name options \<noteq> None))\<rparr>))))"
    have run: "(r, cs) = (case y of Inl f \<Rightarrow> (Inl f, es) | Inr q \<Rightarrow> tail q es)"
      using assms by (cases y) (simp_all add: up_command_def profile_def[symmetric] Let_def
          then_do_eq[where m = "assertSupportedClientHost env" and w = "[]", OF host(1)]
          then_do_eq[where m = "assertProfileSelection (uo_profile options) (uo_config options)" and w = "[]", OF host(2)]
          then_do_eq[where m = "clientConfigurationFor env url (uo_config options) profile" and w = "[]", OF c]
          then_do_eq[where m = "up_enrollment env url options profile path found" and w = "[Read_config path]", OF e]
          Inr pf ds(1) tail_def)
    have tail: "enrollments vs = enrollments es \<and> (\<forall>u. v = Inr u \<longrightarrow> up_machineId u = q)"
      if "tail q es = (v, vs)" for q v vs
      using that by (auto simp: tail_def ask_do_def expect_do_def do_defs Let_def split: sum.splits if_splits prod.splits option.splits)
    show ?thesis
    proof (cases y)
      case (Inl f)
      with run up_enrollment_cases[OF e ds(2)] show ?thesis by auto
    next
      case (Inr q)
      then have "tail q es = (r, cs)" using run by simp
      from tail[OF this] up_enrollment_cases[OF e ds(2)] Inr show ?thesis
        by (cases q) (auto split: sum.splits)
    qed
  qed
qed

text \<open>An existing Machine is enrolled again.\<close>

definition demo_cli :: cli_env where
  "demo_cli = \<lparr>cx_platform = Linux,
     cx_parseUrl = (\<lambda>u. Some \<lparr>pu_protocol = ''https:'', pu_username = [], pu_password = [], pu_origin = u, pu_pathname = ''/''\<rparr>),
     cx_resolve = (\<lambda>p. p), cx_profileConfigPath = (\<lambda>p. Inr (''/c/'' @ p)), cx_readConfig = (\<lambda>_. Inr (Some ''{}'')),
     cx_parseJson = (\<lambda>_. Inr \<lparr>jc_serverUrl = String_member ''https://s'', jc_profileName = String_member ''default'',
       jc_config = Some \<lparr>cf_serverUrl = ''https://s'', cf_profileName = Some ''default'', cf_machineId = ''m1'',
         cf_machineName = ''old'', cf_privateKeyPem = ''pem'', cf_stateDirectory = ''/c/state'', cf_profileId = ''default'',
         cf_localPolicy = default_policy ''org''\<rparr>\<rparr>),
     cx_url = (\<lambda>_. True), cx_uuid = (\<lambda>_. True), cx_enroll = (\<lambda>_. Inr ''m2''), cx_reachable = (\<lambda>_. Inr ()),
     cx_status = (\<lambda>_. Inr (True, Some True)), cx_install = (\<lambda>_. Inr ()), cx_stop = (\<lambda>_. Inr ())\<rparr>"

definition demo_up :: up_options where
  "demo_up = \<lparr>uo_token = Some ''t'', uo_name = Some ''box'', uo_profile = None, uo_config = None\<rparr>"

lemma demo_up_run:
  "up_command demo_cli ''https://s'' demo_up []
    = (Inr \<lparr>up_machineId = Some ''m2'', up_reenrolled = True, up_alreadyRunning = True, up_ignored = False\<rparr>,
       [Read_config ''/c/default'', Read_config ''/c/default'',
        Enroll ''https://s'' ''t'' ''box'' ''/c/default'' ''default'' (Some ''m1'') True,
        Reachable ''https://s'', Service_status ''/c/default'', Install_service ''/c/default''])"
  by code_simp

theorem up_identity_witness:
  "enrollment_ok demo_cli ''https://s'' demo_up
     (Enroll ''https://s'' ''t'' ''box'' ''/c/default'' ''default'' (Some ''m1'') True)"
  using up_identity[OF demo_up_run] by simp

end
