(* ===== verification/Oauth.thy ===== *)
theory Oauth
  imports Control
begin

text \<open>
  apps/server/src/agent-oauth.ts and human-oauth.ts: the configuration of the identity provider, the
  bearer token of a request and the identity of an Agent or a human in the claims of a token.  The
  package that verifies a token is the parameter \<open>verify\<close>, \<open>None\<close> where it throws; a claim is read
  as a text, \<open>None\<close> where it is absent or no string.
\<close>

section \<open>Configuration\<close>

record oauth_environment =
  oe_ODYSHELL_IDENTITY_ISSUER :: "string option"
  oe_ODYSHELL_MCP_URL :: "string option"
  oe_ODYSHELL_IDENTITY_JWKS_URL :: "string option"
  oe_ODYSHELL_IDENTITY_JWKS_ALLOW_HTTP :: "string option"
  oe_NODE_ENV :: "string option"

record oauth_configuration =
  oc_issuer :: web_url
  oc_jwks :: web_url
  oc_audience :: web_url

text \<open>\<open>parse_url\<close> is the constructor of \<open>URL\<close> and \<open>resolve_url\<close> the one with a base, \<open>None\<close> where they throw.\<close>

definition agentOAuthConfiguration ::
  "(string \<Rightarrow> web_url option) \<Rightarrow> (string \<Rightarrow> web_url \<Rightarrow> web_url option) \<Rightarrow> oauth_environment
     \<Rightarrow> exn + oauth_configuration option" where
  "agentOAuthConfiguration parse_url resolve_url env =
     (if falsy (oe_ODYSHELL_IDENTITY_ISSUER env) \<or> falsy (oe_ODYSHELL_MCP_URL env) then Inr None
      else
        (case (parse_url (the (oe_ODYSHELL_IDENTITY_ISSUER env)), parse_url (the (oe_ODYSHELL_MCP_URL env))) of
           (Some issuerUrl, Some audienceUrl) \<Rightarrow>
             (case resolve_url (case oe_ODYSHELL_IDENTITY_JWKS_URL env of Some u \<Rightarrow> u | None \<Rightarrow> ''/api/auth/jwks'') issuerUrl of
                None \<Rightarrow> Inl (Exn ''Invalid URL'')
              | Some jwksUrl \<Rightarrow>
                  if oe_NODE_ENV env = Some ''production''
                     \<and> (list_ex (\<lambda>url. url_protocol url \<noteq> ''https:'' \<and> \<not> isLoopback url) [issuerUrl, audienceUrl]
                        \<or> (url_protocol jwksUrl \<noteq> ''https:'' \<and> \<not> isLoopback jwksUrl
                           \<and> oe_ODYSHELL_IDENTITY_JWKS_ALLOW_HTTP env \<noteq> Some ''true''))
                  then Inl (Exn ''Agent OAuth URLs must use HTTPS in production'')
                  else Inr (Some \<lparr>oc_issuer = issuerUrl, oc_jwks = jwksUrl, oc_audience = audienceUrl\<rparr>))
         | _ \<Rightarrow> Inl (Exn ''Invalid URL'')))"

section \<open>Identities in claims\<close>

record claims =
  ct_scope :: "string option"
  ct_organization_id :: "string option"
  ct_azp :: "string option"
  ct_sub :: "string option"
  ct_organization_role :: string

fun split_space :: "string \<Rightarrow> string list" where
  "split_space [] = [[]]"
| "split_space (c # cs) =
     (if c = CHR '' '' then [] # split_space cs
      else (case split_space cs of s # ss \<Rightarrow> (c # s) # ss | [] \<Rightarrow> [[c]]))"

text \<open>\<open>scope.split(" ").filter(Boolean)\<close>\<close>

definition scopes_of :: "claims \<Rightarrow> string list" where
  "scopes_of c = (case ct_scope c of Some s \<Rightarrow> filter (\<lambda>w. w \<noteq> []) (split_space s) | None \<Rightarrow> [])"

record agent_oauth_identity =
  ai_subject :: ident
  ai_clientId :: ident
  ai_organizationId :: ident
  ai_scopes :: "string list"

definition agentOAuthIdentityFromClaims :: "claims \<Rightarrow> agent_oauth_identity option" where
  "agentOAuthIdentityFromClaims c =
     (if ''odyshell:agent'' \<notin> set (scopes_of c) \<or> falsy (ct_organization_id c) \<or> falsy (ct_azp c) \<or> falsy (ct_sub c)
      then None
      else Some \<lparr>ai_subject = the (ct_sub c), ai_clientId = the (ct_azp c),
                 ai_organizationId = the (ct_organization_id c), ai_scopes = scopes_of c\<rparr>)"

record human_oauth_identity =
  hi_humanId :: ident
  hi_organizationId :: ident
  hi_role :: human_role
  hi_clientId :: ident

definition role_of_text :: "string \<Rightarrow> human_role option" where
  "role_of_text s =
     (if s = ''owner'' then Some role_owner else if s = ''admin'' then Some role_admin
      else if s = ''supervisor'' then Some role_supervisor else None)"

text \<open>\<open>ct_organization_role\<close> is \<open>String(claims.organization_role)\<close>.\<close>

definition humanOAuthIdentityFromClaims :: "claims \<Rightarrow> human_oauth_identity option" where
  "humanOAuthIdentityFromClaims c =
     (if ''odyshell:cli'' \<notin> set (scopes_of c) then None
      else (case (ct_sub c, ct_azp c, ct_organization_id c, role_of_text (ct_organization_role c)) of
              (Some sub, Some azp, Some org, Some role) \<Rightarrow>
                Some \<lparr>hi_humanId = sub, hi_organizationId = org, hi_role = role, hi_clientId = azp\<rparr>
            | _ \<Rightarrow> None))"

section \<open>The bearer token\<close>

text \<open>\<open>^Bearer\s+(.+)$\<close>, ignoring case, with the group it captures; \<open>.\<close> is no line terminator.\<close>

definition bearer_group :: "string \<Rightarrow> string option" where
  "bearer_group authorization =
     (let rest = drop 6 authorization; spaces = takeWhile js_space rest; body = dropWhile js_space rest;
          plain = list_all (\<lambda>c. c \<noteq> CHR 0x0A \<and> c \<noteq> CHR 0x0D) in
      if map lower_unit (take 6 authorization) \<noteq> ''bearer'' \<or> spaces = [] then None
      else if body \<noteq> [] then if plain body then Some body else None
      else if 2 \<le> length spaces \<and> plain [last spaces] then Some [last spaces] else None)"

definition bearerToken :: "string option \<Rightarrow> string option" where
  "bearerToken authorization = (if falsy authorization then None else bearer_group (the authorization))"

text \<open>The authenticators, with the scopes they ask the verification for.\<close>

definition agent_authenticator ::
  "(oauth_configuration \<Rightarrow> string list \<Rightarrow> string \<Rightarrow> claims option) \<Rightarrow> oauth_configuration option
     \<Rightarrow> string option \<Rightarrow> agent_oauth_identity option" where
  "agent_authenticator verify configuration authorization = (case configuration of
       None \<Rightarrow> None
     | Some config \<Rightarrow> (case bearerToken authorization of
           None \<Rightarrow> None
         | Some token \<Rightarrow> Option.bind (verify config [''odyshell:agent''] token) agentOAuthIdentityFromClaims))"

definition human_authenticator ::
  "(oauth_configuration \<Rightarrow> string list \<Rightarrow> string \<Rightarrow> claims option) \<Rightarrow> oauth_configuration option
     \<Rightarrow> string option \<Rightarrow> human_oauth_identity option" where
  "human_authenticator verify configuration authorization = (case configuration of
       None \<Rightarrow> None
     | Some config \<Rightarrow> (case bearerToken authorization of
           None \<Rightarrow> None
         | Some token \<Rightarrow> Option.bind (verify config [''odyshell:cli''] token) humanOAuthIdentityFromClaims))"

section \<open>What an identity proves\<close>

lemma production_urls:
  assumes "agentOAuthConfiguration parse_url resolve_url env = Inr (Some c)" "oe_NODE_ENV env = Some ''production''"
  shows "(url_protocol (oc_issuer c) = ''https:'' \<or> isLoopback (oc_issuer c))
    \<and> (url_protocol (oc_audience c) = ''https:'' \<or> isLoopback (oc_audience c))"
  using assms by (auto simp: agentOAuthConfiguration_def split: option.splits if_splits)

lemma agent_authenticated:
  assumes "agent_authenticator verify configuration authorization = Some i"
  obtains config token c where "configuration = Some config" "bearerToken authorization = Some token"
    "verify config [''odyshell:agent''] token = Some c" "''odyshell:agent'' \<in> set (scopes_of c)"
    "ct_sub c = Some (ai_subject i)" "ct_organization_id c = Some (ai_organizationId i)"
    "ai_subject i \<noteq> []" "ai_clientId i \<noteq> []" "ai_organizationId i \<noteq> []"
proof -
  obtain config token c where c: "configuration = Some config" "bearerToken authorization = Some token"
    "verify config [''odyshell:agent''] token = Some c" "agentOAuthIdentityFromClaims c = Some i"
    using assms by (auto simp: agent_authenticator_def bind_eq_Some_conv split: option.splits)
  then show thesis
    using that[of config token c] by (auto simp: agentOAuthIdentityFromClaims_def falsy_def split: if_splits)
qed

lemma human_authenticated:
  assumes "human_authenticator verify configuration authorization = Some i"
  obtains config token c where "configuration = Some config" "bearerToken authorization = Some token"
    "verify config [''odyshell:cli''] token = Some c" "''odyshell:cli'' \<in> set (scopes_of c)"
    "role_of_text (ct_organization_role c) = Some (hi_role i)" "ct_organization_id c = Some (hi_organizationId i)"
proof -
  obtain config token c where c: "configuration = Some config" "bearerToken authorization = Some token"
    "verify config [''odyshell:cli''] token = Some c" "humanOAuthIdentityFromClaims c = Some i"
    using assms by (auto simp: human_authenticator_def bind_eq_Some_conv split: option.splits)
  then show thesis
    using that[of config token c] by (auto simp: humanOAuthIdentityFromClaims_def split: if_splits option.splits)
qed

end
