(* ===== verification/Server_Process.thy ===== *)
theory Server_Process
  imports Gateway_Properties Session_Service_Properties Window_Limiters Client_Config Oauth
begin

text \<open>
  apps/server/src/index.ts, and what its routes share: the \<open>SessionClient\<close> that delivers through the
  gateway, the guard of the console's routes, the principal of an Agent, the enrollment of a Machine
  and the two sweeps; privacy.ts.  A request runs from its first statement to its reply; the
  \<open>n\<close>-th reading of the clock and the \<open>n\<close>-th random id of a request are arguments.
\<close>

section \<open>Replies\<close>

text \<open>A body with its status code, or a status code with the \<open>error\<close> of the body.\<close>

datatype 'a reply = Sent int 'a | Refused int string | Crashed exn

record request_env =
  rx_now :: "nat \<Rightarrow> instant"
  rx_fresh :: "nat \<Rightarrow> ident"

section \<open>Retention\<close>

text \<open>A variable of the environment: absent, a text of digits with the number it denotes, or another text.\<close>

datatype setting = Absent | Digits nat | Not_digits

definition integerSetting :: "setting \<Rightarrow> string \<Rightarrow> int \<Rightarrow> int \<Rightarrow> int \<Rightarrow> exn + int" where
  "integerSetting raw name defaultValue minimum maximum = (case raw of
       Absent \<Rightarrow> Inr defaultValue
     | Not_digits \<Rightarrow> Inl (Exn (name @ '' must be an integer between '' @ json_int minimum @ '' and '' @ json_int maximum))
     | Digits n \<Rightarrow>
         if 2 ^ 53 - 1 < int n \<or> int n < minimum \<or> maximum < int n
         then Inl (Exn (name @ '' must be an integer between '' @ json_int minimum @ '' and '' @ json_int maximum))
         else Inr (int n))"

record retention_policy =
  rt_commandOutputMilliseconds :: int
  rt_auditMilliseconds :: int

definition dataRetentionPolicy :: "setting \<Rightarrow> setting \<Rightarrow> exn + retention_policy" where
  "dataRetentionPolicy outputDays auditDays =
     (case integerSetting outputDays ''ODYSHELL_COMMAND_OUTPUT_RETENTION_DAYS'' 30 1 365 of
        Inl e \<Rightarrow> Inl e
      | Inr commandOutputDays \<Rightarrow>
          (case integerSetting auditDays ''ODYSHELL_AUDIT_RETENTION_DAYS'' 30 1 3650 of
             Inl e \<Rightarrow> Inl e
           | Inr auditDays \<Rightarrow>
               Inr \<lparr>rt_commandOutputMilliseconds = commandOutputDays * (24 * 60 * 60 * 1000),
                    rt_auditMilliseconds = auditDays * (24 * 60 * 60 * 1000)\<rparr>))"

section \<open>The databases and the gateway\<close>

definition on_control :: "(control_db \<Rightarrow> 'a \<times> control_db) \<Rightarrow> server \<Rightarrow> 'a \<times> server" where
  "on_control f sv = (case f (sv_control sv) of (r, c) \<Rightarrow> (r, sv\<lparr>sv_control := c\<rparr>))"

definition on_sessions :: "(session_db \<Rightarrow> 'a \<times> session_db) \<Rightarrow> server \<Rightarrow> 'a \<times> server" where
  "on_sessions f sv = (case f (sv_sessions sv) of (r, d) \<Rightarrow> (r, sv\<lparr>sv_sessions := d\<rparr>))"

text \<open>The \<open>SessionClient\<close> of the process: it sends through the gateway.\<close>

definition session_open_message :: "session \<Rightarrow> instant \<Rightarrow> server_message" where
  "session_open_message s now = SM_session_open
     \<lparr>so_sessionId = ses_id s, so_organizationId = ses_organizationId s, so_agentId = ses_agentId s,
      so_clientProfileId = ses_clientProfileId s, so_expiresAt = ses_expiresAt s,
      so_maxConcurrentCommands = ses_maxConcurrentCommands s, so_serverTime = now\<rparr>"

definition command_start_message :: "command \<Rightarrow> server_message" where
  "command_start_message c = SM_command_start
     \<lparr>cs_commandId = cmd_id c, cs_sessionId = cmd_sessionId c, cs_command = cmd_command c,
      cs_cwd = (if falsy (cmd_cwd c) then None else cmd_cwd c), cs_timeoutSeconds = cmd_timeoutSeconds c,
      cs_maxOutputBytes = DEFAULT_COMMAND_OUTPUT_BYTES\<rparr>"

definition gateway_client :: "instant \<Rightarrow> server session_client" where
  "gateway_client now =
     \<lparr>sc_openSession = (\<lambda>s sv. case gateway_send (ses_machineId s) (session_open_message s now) sv of
          (delivered, sv') \<Rightarrow> (if delivered then None else Some SessionClientUnavailableError, sv')),
      sc_startCommand = (\<lambda>c sv. case gateway_send (cmd_machineId c) (command_start_message c) sv of
          (delivered, sv') \<Rightarrow> (if delivered then None else Some (Exn ''Machine disconnected before Command delivery''), sv')),
      sc_closeSession = (\<lambda>s reason sv. (None, snd (gateway_send (ses_machineId s) (SM_session_close (ses_id s) reason) sv))),
      sc_cancelCommand = (\<lambda>c sv. (None, snd (gateway_send (cmd_machineId c) (SM_command_cancel (cmd_id c)) sv)))\<rparr>"

text \<open>A method of the service on the process: its repository is the session database.\<close>

definition with_service ::
  "(session_db \<Rightarrow> server \<Rightarrow> (exn + 'a) \<times> session_db \<times> server) \<Rightarrow> server \<Rightarrow> (exn + 'a) \<times> server" where
  "with_service f sv = (case f (sv_sessions sv) sv of (r, db, sv') \<Rightarrow> (r, sv'\<lparr>sv_sessions := db\<rparr>))"

section \<open>Guards\<close>

definition requireWeb :: "(string \<Rightarrow> byte list) \<Rightarrow> string option \<Rightarrow> string option \<Rightarrow> (int \<times> string) option" where
  "requireWeb digest webKey header = (case controlWebRequestDecision digest webKey header of
       Web_disabled \<Rightarrow> Some (503, ''control_authentication_disabled'')
     | Web_unauthorized \<Rightarrow> Some (401, ''invalid_web_key'')
     | Web_authorized \<Rightarrow> None)"

text \<open>
  \<open>principal\<close>: the Agent of an identity, installed at its first request.  The clock and the two
  random ids of \<open>ensureMcpInstallation\<close> are the first ones of the request.
\<close>

definition agent_principal_for ::
  "request_env \<Rightarrow> agent_oauth_identity \<Rightarrow> server \<Rightarrow> (exn + agent_principal option) \<times> server" where
  "agent_principal_for rx i sv =
     (case mcpOrganizations [ai_organizationId i] (sv_control sv) of
        [o'] \<Rightarrow>
          (case on_control (ensureMcpInstallation (mo_organizationId o') (ai_subject i) (ai_clientId i) ''Agent''
                  (rx_fresh rx 0) (rx_fresh rx 1) (rx_now rx 0)) sv of
             (Inl e, sv') \<Rightarrow> (Inl e, sv')
           | (Inr None, sv') \<Rightarrow> (Inr None, sv')
           | (Inr (Some installation), sv') \<Rightarrow>
               (Inr (Some \<lparr>ap_organizationId = ai_organizationId i, ap_agentId = mi_agentId installation,
                           ap_agentRole = mi_agentRole installation\<rparr>), sv'))
      | _ \<Rightarrow> (Inr None, sv))"

section \<open>Enrollment\<close>

definition enrollmentSchema :: "(string \<Rightarrow> bool) \<Rightarrow> enroll_body \<Rightarrow> enroll_body option" where
  "enrollmentSchema uuid b = (case parse_trimmed 1 128 (eb_name b) of
       None \<Rightarrow> None
     | Some name \<Rightarrow>
         if length_between 1 2048 (eb_token b) \<and> length_between 1 16384 (eb_publicKey b)
            \<and> (case eb_previousMachineId b of None \<Rightarrow> True | Some i \<Rightarrow> uuid i)
         then Some (b\<lparr>eb_name := name\<rparr>) else None)"

text \<open>
  \<open>POST /v1/clients/enroll\<close>; \<open>key_type\<close> is the type that \<open>createPublicKey\<close> finds, \<open>None\<close> where it throws,
  and \<open>hash\<close> the hexadecimal SHA-256.
\<close>

definition enroll_route ::
  "(string \<Rightarrow> bool) \<Rightarrow> (string \<Rightarrow> string option) \<Rightarrow> (string \<Rightarrow> string) \<Rightarrow> request_env \<Rightarrow> enroll_body option \<Rightarrow> server
     \<Rightarrow> (ident \<times> string \<times> ident) reply \<times> server" where
  "enroll_route uuid key_type hash rx body sv =
     (case Option.bind body (enrollmentSchema uuid) of
        None \<Rightarrow> (Refused 400 ''invalid_enrollment_request'', sv)
      | Some b \<Rightarrow>
          (case key_type (eb_publicKey b) of
             None \<Rightarrow> (Refused 400 ''invalid_client_public_key'', sv)
           | Some t \<Rightarrow>
               if t \<noteq> ''ed25519'' then (Refused 400 ''client_key_must_be_ed25519'', sv)
               else
                 let machineId = rx_fresh rx 0 in
                 (case on_control (enrollMachine
                         \<lparr>ei_tokenHash = hash (eb_token b), ei_machineId = machineId, ei_name = eb_name b,
                          ei_publicKey = eb_publicKey b, ei_previousMachineId = eb_previousMachineId b\<rparr> (rx_now rx 0)) sv of
                    (Inl e, sv') \<Rightarrow> (Crashed e, sv')
                  | (Inr Enroll_refused, sv') \<Rightarrow> (Refused 401 ''invalid_or_expired_enrollment_token'', sv')
                  | (Inr Previous_machine_active, sv') \<Rightarrow> (Refused 409 ''previous_machine_still_active'', sv')
                  | (Inr (Enrolled m), sv') \<Rightarrow>
                      let org = em_controlOrganizationId m;
                          c1 = control_audit org ''client-enrollment'' ''machine.enrolled'' ''machine'' machineId
                                 (Meta_name (eb_name b)) (rx_fresh rx 1) (rx_now rx 1) (sv_control sv');
                          c2 = (if falsy (em_createdByHumanId m) then c1
                                else createNotification org (the (em_createdByHumanId m)) notify_machine_enrolled
                                       ''Machine added'' None ''/dashboard/machines'' machineId (rx_fresh rx 2) (rx_now rx 2) c1)
                      in (Sent 201 (em_machineId m, em_name m, em_organizationId m),
                          notifyOrganization org (sv'\<lparr>sv_control := c2\<rparr>)))))"

section \<open>The sweeps\<close>

definition expired_messages :: "(session \<times> ident list) list \<Rightarrow> server \<Rightarrow> server" where
  "expired_messages expired sv =
     fold (\<lambda>(s, ids) v.
         snd (gateway_send (ses_machineId s) (SM_session_close (ses_id s) ''expired'')
           (fold (\<lambda>i v. snd (gateway_send (ses_machineId s) (SM_command_cancel i) v)) ids v)))
       expired sv"

definition expiry_timer :: "instant \<Rightarrow> server \<Rightarrow> server" where
  "expiry_timer now sv =
     (case on_sessions (expireSessions now) sv of (expired, sv') \<Rightarrow> expired_messages expired sv')"

definition retention_timer :: "retention_policy \<Rightarrow> request_env \<Rightarrow> server \<Rightarrow> server" where
  "retention_timer retention rx sv =
     sv\<lparr>sv_control := purgeExpiredData (rx_now rx 0 - rt_commandOutputMilliseconds retention)
          (rx_now rx 1 - rt_auditMilliseconds retention) (sv_control sv),
        sv_sessions := snd (purgeExpiredCommandOutput (rx_now rx 2) (sv_sessions sv))\<rparr>"

section \<open>What sending leaves alone\<close>

lemma gateway_send_frame [simp]:
  "sv_control (snd (gateway_send m x sv)) = sv_control sv" "sv_sessions (snd (gateway_send m x sv)) = sv_sessions sv"
  "sv_connections (snd (gateway_send m x sv)) = sv_connections sv"
  by (simp_all add: gateway_send_def sendSocket_def split: option.split)

lemma gateway_sends_frame [simp]:
  "sv_control (fold (\<lambda>i v. snd (gateway_send m (f i) v)) ids sv) = sv_control sv"
  "sv_sessions (fold (\<lambda>i v. snd (gateway_send m (f i) v)) ids sv) = sv_sessions sv"
  by (induction ids arbitrary: sv) simp_all

lemma closeRevokedSessions_frame [simp]:
  "sv_control (closeRevokedSessions revoked reason sv) = sv_control sv"
  "sv_sessions (closeRevokedSessions revoked reason sv) = sv_sessions sv"
proof -
  have "sv_control (closeRevokedSessions revoked reason sv) = sv_control sv
      \<and> sv_sessions (closeRevokedSessions revoked reason sv) = sv_sessions sv"
    unfolding closeRevokedSessions_def by (induction revoked arbitrary: sv) (auto simp: case_prod_unfold)
  then show "sv_control (closeRevokedSessions revoked reason sv) = sv_control sv"
    "sv_sessions (closeRevokedSessions revoked reason sv) = sv_sessions sv" by simp_all
qed

lemma notify_frame [simp]:
  "sv_control (notifyOrganization org sv) = sv_control sv" "sv_sessions (notifyOrganization org sv) = sv_sessions sv"
  by (simp_all add: notifyOrganization_def emit_def)

end
