(* ===== verification/Enrollment.thy ===== *)
theory Enrollment
  imports Server_Process
begin

text \<open>
  The enrollment of a Machine from both ends: \<open>enrollClient\<close> of the Client against the route of the
  Server.  The network between them may lose the answer, never the request's effect.
\<close>

section \<open>The route as the Server that answers\<close>

text \<open>An exception of a handler is answered by Fastify with status 500.\<close>

definition answer_of :: "(ident \<times> string \<times> ident) reply \<Rightarrow> enroll_answer" where
  "answer_of r = (case r of
       Sent code (machineId, _, organizationId) \<Rightarrow>
         \<lparr>an_ok = True, an_status = code, an_machineId = Some machineId, an_organizationId = Some organizationId, an_error = None\<rparr>
     | Refused code e \<Rightarrow>
         \<lparr>an_ok = False, an_status = code, an_machineId = None, an_organizationId = None, an_error = Some e\<rparr>
     | Crashed _ \<Rightarrow>
         \<lparr>an_ok = False, an_status = 500, an_machineId = None, an_organizationId = None, an_error = Some ''Internal Server Error''\<rparr>)"

definition enroll_via ::
  "(string \<Rightarrow> bool) \<Rightarrow> (string \<Rightarrow> string option) \<Rightarrow> (string \<Rightarrow> string) \<Rightarrow> request_env \<Rightarrow> bool
     \<Rightarrow> string \<Rightarrow> enroll_body \<Rightarrow> server \<Rightarrow> (exn + enroll_answer) \<times> server" where
  "enroll_via uuid key_type hash rx lost url body sv =
     (case enroll_route uuid key_type hash rx (Some body) sv of
        (r, sv') \<Rightarrow> (if lost then Inl (Exn ''fetch failed'') else Inr (answer_of r), sv'))"

section \<open>What the route does\<close>





section \<open>Both ends\<close>


definition online :: "(string \<Rightarrow> bool) \<Rightarrow> (string \<Rightarrow> string option) \<Rightarrow> (string \<Rightarrow> string) \<Rightarrow> request_env \<Rightarrow> bool
     \<Rightarrow> server enroll_host \<Rightarrow> server enroll_host" where
  "online uuid key_type hash rx lost host = host\<lparr>nh_post := enroll_via uuid key_type hash rx lost\<rparr>"

lemma online_sel [simp]:
  "nh_parseUrl (online uuid key_type hash rx lost host) = nh_parseUrl host"
  "nh_url (online uuid key_type hash rx lost host) = nh_url host"
  "nh_uuid (online uuid key_type hash rx lost host) = nh_uuid host"
  "nh_resolve (online uuid key_type hash rx lost host) = nh_resolve host"
  "nh_publicKey (online uuid key_type hash rx lost host) = nh_publicKey host"
  "enroll_request (online uuid key_type hash rx lost host) options = enroll_request host options"
  "new_config (online uuid key_type hash rx lost host) options url path m org = new_config host options url path m org"
  "nh_post (online uuid key_type hash rx lost host) = enroll_via uuid key_type hash rx lost"
  by (simp_all add: online_def enroll_request_def new_config_def)







end
