(* ===== verification/Session_Http.thy ===== *)
theory Session_Http
  imports Server_Process Command_Service
begin

text \<open>
  The routes of the session service: apps/server/src/session-http.ts for Agents and
  session-supervision-http.ts for the console.  A body or a header has the type of its schema, or is
  \<open>None\<close>; \<open>uuid\<close> is \<open>z.uuid\<close> and \<open>hash\<close> the hexadecimal SHA-256.
\<close>

section \<open>Codes\<close>

definition session_denial_code :: "request_denial \<Rightarrow> string" where
  "session_denial_code d = (case d of
       Request_machine_not_found \<Rightarrow> ''machine_not_found''
     | Request_machine_offline \<Rightarrow> ''machine_offline''
     | Request_organization_denied \<Rightarrow> ''organization_denied''
     | Request_supervision_denied \<Rightarrow> ''supervision_denied''
     | Request_duration_denied \<Rightarrow> ''duration_denied''
     | Request_session_concurrency_denied \<Rightarrow> ''session_concurrency_denied''
     | Request_command_concurrency_denied \<Rightarrow> ''command_concurrency_denied''
     | Request_idempotency_conflict \<Rightarrow> ''idempotency_conflict'')"

definition command_denial_code :: "command_creation_denial \<Rightarrow> string" where
  "command_denial_code d = (case d of
       Create_session_not_found \<Rightarrow> ''session_not_found''
     | Create_session_agent_denied \<Rightarrow> ''session_agent_denied''
     | Create_decision e \<Rightarrow> (case e of
           session_not_active \<Rightarrow> ''session_not_active'' | session_expired \<Rightarrow> ''session_expired''
         | timeout_exceeds_session \<Rightarrow> ''timeout_exceeds_session''
         | timeout_exceeds_local_policy \<Rightarrow> ''timeout_exceeds_local_policy'')
     | Create_command_concurrency_denied \<Rightarrow> ''command_concurrency_denied''
     | Create_idempotency_conflict \<Rightarrow> ''idempotency_conflict'')"

definition ends_with :: "string \<Rightarrow> string \<Rightarrow> bool" where
  "ends_with s suffix \<longleftrightarrow> drop (length s - length suffix) s = suffix"

definition sessionDenialStatus :: "string \<Rightarrow> int" where
  "sessionDenialStatus code =
     (if code = ''machine_not_found'' then 404
      else if code = ''idempotency_conflict'' then 409
      else if ends_with code ''_concurrency_denied'' \<or> code = ''machine_offline'' then 409
      else 403)"

definition commandDenialStatus :: "string \<Rightarrow> int" where
  "commandDenialStatus code =
     (if code = ''session_not_found'' then 404
      else if code = ''idempotency_conflict'' \<or> code = ''command_concurrency_denied'' then 409
      else if code = ''session_expired'' then 410
      else 403)"

section \<open>The requests of an Agent\<close>

datatype agent_request =
    Get_machines
  | Post_session "session_request option" "string option"
  | Get_session ident
  | Post_command ident "command_input option" "string option"
  | Get_command ident
  | Get_output ident number_setting
  | Post_finish ident Session_Store.outcome "string option"
  | Post_cancel ident "string option"

datatype agent_body =
    B_machines "(ident \<times> ident \<times> string \<times> bool) list"
  | B_session session
  | B_command command
  | B_output "output_item list" int

record http_env =
  hx_uuid :: "string \<Rightarrow> bool"
  hx_hash :: "string \<Rightarrow> string"

definition idempotencyKeySchema :: "string option \<Rightarrow> string option" where
  "idempotencyKeySchema header = Option.bind header (parse_trimmed 1 128)"

text \<open>\<open>z.coerce.number().int().min(-1).default(-1)\<close>\<close>

definition outputCursorSchema :: "number_setting \<Rightarrow> int option" where
  "outputCursorSchema after = (case after of
       Unset \<Rightarrow> Some (-1) | Not_integer \<Rightarrow> None | Integer n \<Rightarrow> if -1 \<le> n then Some n else None)"

definition post_session ::
  "http_env \<Rightarrow> request_env \<Rightarrow> agent_principal \<Rightarrow> session_request option \<Rightarrow> string option \<Rightarrow> server
     \<Rightarrow> agent_body reply \<times> server" where
  "post_session hx rx p body header sv = (case Option.bind body (sessionRequestSchema (hx_uuid hx)) of
       None \<Rightarrow> (Refused 400 ''invalid_session'', sv)
     | Some request \<Rightarrow> (case idempotencyKeySchema header of
           None \<Rightarrow> (Refused 400 ''idempotency_key_required'', sv)
         | Some key \<Rightarrow>
             (case with_service (requestSession (hx_hash hx) (gateway_client (rx_now rx 2)) p request key
                     (rx_fresh rx 2) (rx_now rx 1)) sv of
                (Inl e, sv') \<Rightarrow> (Crashed e, sv')
              | (Inr (Request_denied d), sv') \<Rightarrow>
                  (Refused (sessionDenialStatus (session_denial_code d)) (session_denial_code d), sv')
              | (Inr (Request_created s), sv') \<Rightarrow> (Sent 201 (B_session s), sv')
              | (Inr (Request_replayed s), sv') \<Rightarrow> (Sent 200 (B_session s), sv'))))"

definition get_session :: "http_env \<Rightarrow> agent_principal \<Rightarrow> ident \<Rightarrow> server \<Rightarrow> agent_body reply" where
  "get_session hx p sessionId sv =
     (if \<not> hx_uuid hx sessionId then Refused 400 ''invalid_session_id''
      else (case session_lookup (ap_organizationId p) sessionId (sv_sessions sv) of
              None \<Rightarrow> Refused 404 ''session_not_found''
            | Some session \<Rightarrow>
                if ses_agentId session \<noteq> ap_agentId p then Refused 404 ''session_not_found''
                else Sent 200 (B_session session)))"

definition post_command ::
  "http_env \<Rightarrow> request_env \<Rightarrow> agent_principal \<Rightarrow> ident \<Rightarrow> command_input option \<Rightarrow> string option \<Rightarrow> server
     \<Rightarrow> agent_body reply \<times> server" where
  "post_command hx rx p sessionId body header sv =
     (if \<not> hx_uuid hx sessionId then (Refused 400 ''invalid_session_id'', sv)
      else (case Option.bind body commandRequestSchema of
          None \<Rightarrow> (Refused 400 ''invalid_command'', sv)
        | Some request \<Rightarrow> (case idempotencyKeySchema header of
              None \<Rightarrow> (Refused 400 ''idempotency_key_required'', sv)
            | Some key \<Rightarrow>
                (case with_service (service_createCommand (hx_hash hx) (gateway_client (rx_now rx 3)) p sessionId request key
                        (rx_fresh rx 2) (rx_now rx 1) (rx_now rx 2)) sv of
                   (Inl e, sv') \<Rightarrow> (Crashed e, sv')
                 | (Inr (Command_denied d), sv') \<Rightarrow>
                     (Refused (commandDenialStatus (command_denial_code d)) (command_denial_code d), sv')
                 | (Inr (Command_created c), sv') \<Rightarrow> (Sent 202 (B_command c), sv')
                 | (Inr (Command_replayed c), sv') \<Rightarrow> (Sent 200 (B_command c), sv')))))"

text \<open>The Command of the Agent, which three routes look up.\<close>

definition own_command :: "agent_principal \<Rightarrow> ident \<Rightarrow> server \<Rightarrow> command option" where
  "own_command p commandId sv = (case command_lookup (ap_organizationId p) commandId (sv_sessions sv) of
       None \<Rightarrow> None
     | Some command \<Rightarrow> if cmd_agentId command \<noteq> ap_agentId p then None else Some command)"

definition get_command :: "http_env \<Rightarrow> agent_principal \<Rightarrow> ident \<Rightarrow> server \<Rightarrow> agent_body reply" where
  "get_command hx p commandId sv =
     (if \<not> hx_uuid hx commandId then Refused 400 ''invalid_command_id''
      else (case own_command p commandId sv of
              None \<Rightarrow> Refused 404 ''command_not_found'' | Some command \<Rightarrow> Sent 200 (B_command command)))"

definition get_output :: "http_env \<Rightarrow> request_env \<Rightarrow> agent_principal \<Rightarrow> ident \<Rightarrow> number_setting \<Rightarrow> server \<Rightarrow> agent_body reply" where
  "get_output hx rx p commandId after sv =
     (case (hx_uuid hx commandId, outputCursorSchema after) of
        (True, Some cursor) \<Rightarrow>
          (case own_command p commandId sv of
             None \<Rightarrow> Refused 404 ''command_not_found''
           | Some command \<Rightarrow>
               let chunks = commandOutput (ap_organizationId p) (cmd_id command) cursor (rx_now rx 1) (sv_sessions sv)
               in Sent 200 (B_output chunks (if chunks = [] then cursor else oi_sequence (last chunks))))
      | _ \<Rightarrow> Refused 400 ''invalid_output_cursor'')"

definition post_finish ::
  "http_env \<Rightarrow> request_env \<Rightarrow> agent_principal \<Rightarrow> ident \<Rightarrow> Session_Store.outcome \<Rightarrow> string option \<Rightarrow> server
     \<Rightarrow> agent_body reply \<times> server" where
  "post_finish hx rx p sessionId out header sv =
     (if \<not> hx_uuid hx sessionId then (Refused 400 ''invalid_session_id'', sv)
      else if idempotencyKeySchema header = None then (Refused 400 ''idempotency_key_required'', sv)
      else (case with_service (service_finishSession (gateway_client (rx_now rx 2)) p sessionId out (rx_now rx 1)) sv of
              (Inl e, sv') \<Rightarrow> (Crashed e, sv')
            | (Inr Service_session_not_found, sv') \<Rightarrow> (Refused 404 ''session_not_found'', sv')
            | (Inr Service_commands_active, sv') \<Rightarrow> (Refused 409 ''commands_active'', sv')
            | (Inr (Service_completed s), sv') \<Rightarrow> (Sent (if out = cancel then 202 else 200) (B_session s), sv')
            | (Inr (Service_cancellation_requested s), sv') \<Rightarrow> (Sent (if out = cancel then 202 else 200) (B_session s), sv')))"

definition post_cancel ::
  "http_env \<Rightarrow> request_env \<Rightarrow> agent_principal \<Rightarrow> ident \<Rightarrow> string option \<Rightarrow> server \<Rightarrow> agent_body reply \<times> server" where
  "post_cancel hx rx p commandId header sv =
     (if \<not> hx_uuid hx commandId then (Refused 400 ''invalid_command_id'', sv)
      else if idempotencyKeySchema header = None then (Refused 400 ''idempotency_key_required'', sv)
      else (case with_service (service_cancelCommand (gateway_client (rx_now rx 1)) p commandId) sv of
              (Inl e, sv') \<Rightarrow> (Crashed e, sv')
            | (Inr None, sv') \<Rightarrow> (Refused 404 ''command_not_found'', sv')
            | (Inr (Some c), sv') \<Rightarrow> (Sent 202 (B_command c), sv')))"

definition get_machines :: "agent_principal \<Rightarrow> server \<Rightarrow> agent_body reply" where
  "get_machines p sv = Sent 200 (B_machines
     (map (\<lambda>m. (ma_machineId m, ma_clientProfileId m, ma_operatingSystemUser m, ma_online m))
        (listMachineAuthorities (ap_organizationId p) (sv_sessions sv))))"

definition agent_route ::
  "http_env \<Rightarrow> request_env \<Rightarrow> agent_principal \<Rightarrow> agent_request \<Rightarrow> server \<Rightarrow> agent_body reply \<times> server" where
  "agent_route hx rx p request sv = (case request of
       Get_machines \<Rightarrow> (get_machines p sv, sv)
     | Post_session body header \<Rightarrow> post_session hx rx p body header sv
     | Get_session i \<Rightarrow> (get_session hx p i sv, sv)
     | Post_command i body header \<Rightarrow> post_command hx rx p i body header sv
     | Get_command i \<Rightarrow> (get_command hx p i sv, sv)
     | Get_output i after \<Rightarrow> (get_output hx rx p i after sv, sv)
     | Post_finish i out header \<Rightarrow> post_finish hx rx p i out header sv
     | Post_cancel i header \<Rightarrow> post_cancel hx rx p i header sv)"

text \<open>\<open>requireAgent\<close> before every route.\<close>

definition session_http ::
  "(string option \<Rightarrow> agent_oauth_identity option) \<Rightarrow> http_env \<Rightarrow> request_env \<Rightarrow> string option \<Rightarrow> agent_request
     \<Rightarrow> server \<Rightarrow> agent_body reply \<times> server" where
  "session_http authenticate hx rx authorization request sv = (case authenticate authorization of
       None \<Rightarrow> (Refused 401 ''oauth_token_required'', sv)
     | Some identity \<Rightarrow> (case agent_principal_for rx identity sv of
           (Inl e, sv') \<Rightarrow> (Crashed e, sv')
         | (Inr None, sv') \<Rightarrow> (Refused 403 ''agent_registration_required'', sv')
         | (Inr (Some p), sv') \<Rightarrow> agent_route hx rx p request sv'))"

section \<open>The requests of the console\<close>

datatype supervision_request =
    Query_sessions "(control_identity \<times> int option) option"
  | Get_timeline ident "control_identity option"
  | Decide_session ident decision "control_identity option"

datatype supervision_body =
    B_sessions "session list"
  | B_timeline session "(command \<times> output_item list) list" "session_event_row list"
  | B_decided session "delivery option"

definition sessionQuerySchema :: "control_identity \<times> int option \<Rightarrow> (control_identity \<times> int) option" where
  "sessionQuerySchema b = (let limit = (case snd b of None \<Rightarrow> 100 | Some n \<Rightarrow> n) in
     case controlIdentitySchema (fst b) of
       None \<Rightarrow> None | Some i \<Rightarrow> if 1 \<le> limit \<and> limit \<le> 200 then Some (i, limit) else None)"

definition supervision_route ::
  "http_env \<Rightarrow> request_env \<Rightarrow> supervision_request \<Rightarrow> server \<Rightarrow> supervision_body reply \<times> server" where
  "supervision_route hx rx request sv = (case request of
       Query_sessions body \<Rightarrow> (case Option.bind body sessionQuerySchema of
           None \<Rightarrow> (Refused 400 ''invalid_session_query'', sv)
         | Some (i, limit) \<Rightarrow> (Sent 200 (B_sessions (listSessions (cid_externalId i) limit (sv_sessions sv))), sv))
     | Get_timeline sessionId body \<Rightarrow>
         (case (hx_uuid hx sessionId, Option.bind body controlIdentitySchema) of
            (True, Some i) \<Rightarrow> (case sessionTimeline (cid_externalId i) sessionId (rx_now rx 0) (sv_sessions sv) of
                None \<Rightarrow> (Refused 404 ''session_not_found'', sv)
              | Some (s, cs, es) \<Rightarrow> (Sent 200 (B_timeline s cs es), sv))
          | _ \<Rightarrow> (Refused 400 ''invalid_session_timeline'', sv))
     | Decide_session sessionId decision body \<Rightarrow>
         (case (hx_uuid hx sessionId, Option.bind body controlIdentitySchema) of
            (True, Some i) \<Rightarrow>
              (case with_service (superviseSession (gateway_client (rx_now rx 1))
                      \<lparr>sp_organizationId = cid_externalId i, sp_humanId = cid_userId i, sp_role = cid_role i\<rparr>
                      sessionId decision (rx_now rx 0)) sv of
                 (Inl e, sv') \<Rightarrow> (Crashed e, sv')
               | (Inr Supervision_session_not_found, sv') \<Rightarrow> (Refused 404 ''session_not_found'', sv')
               | (Inr Supervision_already_decided, sv') \<Rightarrow> (Refused 409 ''session_already_decided'', sv')
               | (Inr (Supervised_approved s d), sv') \<Rightarrow> (Sent 202 (B_decided s (Some d)), sv')
               | (Inr (Supervised_denied s), sv') \<Rightarrow> (Sent 200 (B_decided s None), sv'))
          | _ \<Rightarrow> (Refused 400 ''invalid_session_decision'', sv)))"

definition supervision_http ::
  "(string \<Rightarrow> byte list) \<Rightarrow> string option \<Rightarrow> string option \<Rightarrow> http_env \<Rightarrow> request_env \<Rightarrow> supervision_request
     \<Rightarrow> server \<Rightarrow> supervision_body reply \<times> server" where
  "supervision_http digest webKey header hx rx request sv = (case requireWeb digest webKey header of
       Some (code, e) \<Rightarrow> (Refused code e, sv)
     | None \<Rightarrow> supervision_route hx rx request sv)"

section \<open>What a service call leaves alone\<close>

text \<open>The rows of the session database that belong to other Agents, and what no service call writes.\<close>

definition others :: "ident \<Rightarrow> ident \<Rightarrow> session_db \<Rightarrow> _" where
  "others org agent db =
     (sql_where (\<lambda>r. \<not> (ses_organizationId r = org \<and> ses_agentId r = agent)) (db_sessions db),
      sql_where (\<lambda>r. \<not> (cmd_organizationId r = org \<and> cmd_agentId r = agent)) (db_commands db),
      sql_where (\<lambda>e. \<not> (sev_organizationId e = org \<and> sev_agentId e = agent)) (db_auditEvents db),
      db_outputChunks db, db_machineAuthorities db)"

lemma append_event_others:
  "sev_organizationId e = org \<Longrightarrow> sev_agentId e = agent \<Longrightarrow> others org agent (append_event e now db) = others org agent db"
  by (simp add: others_def append_event_def where_append_other session_event.defs session_event_row.defs)

lemma createSession_others:
  "ses_organizationId s = org \<Longrightarrow> ses_agentId s = agent \<Longrightarrow> others org agent (snd (createSession s k f db)) = others org agent db"
  by (auto simp: createSession_def Let_def others_def where_append_other split: option.split if_splits)

lemma createCommand_others:
  "cmd_organizationId c = org \<Longrightarrow> cmd_agentId c = agent \<Longrightarrow> others org agent (snd (createCommand c k f db)) = others org agent db"
  by (auto simp: createCommand_def Let_def others_def where_append_other split: option.split if_splits)

text \<open>\<open>finishSession\<close> touches one Session of the Agent and its Commands, which belong to the same Agent.\<close>

lemma finishSession_others:
  assumes "db_wf db"
  shows "others org agent (snd (finishSession org agent sessionId out now db)) = others org agent db"
proof (cases "sql_first (\<lambda>r. session_key org sessionId r \<and> ses_agentId r = agent) (db_sessions db)")
  case None
  then show ?thesis by (simp add: finishSession_def)
next
  case (Some current)
  note cur = sql_first_SomeD[OF Some]
  have ses: "ses_agentId r = agent" if "r \<in> set (db_sessions db)" "session_key org sessionId r" for r
    using that cur session_by_id[OF assms, of r current] by (auto simp: session_key_def)
  have cmd: "cmd_agentId c = agent" if c: "c \<in> set (db_commands db)" "cmd_organizationId c = org" "cmd_sessionId c = sessionId" for c
  proof -
    have all: "\<forall>c \<in> set (db_commands db). \<exists>s \<in> set (db_sessions db). command_in c s" using assms by (simp add: db_wf_def)
    obtain s where s: "s \<in> set (db_sessions db)" "command_in c s" using bspec[OF all c(1)] by (elim bexE)
    with c ses[of s] show ?thesis by (auto simp: command_in_def session_key_def)
  qed
  have cancelled: "cmd_agentId r = agent" if "r \<in> set (db_commands db)" "cmd_organizationId r = org"
      "cmd_id r \<in> cmd_id ` {c \<in> set (db_commands db). cmd_organizationId c = org \<and> cmd_sessionId c = sessionId \<and> command_active c}" for r
    using that cmd command_by_id[OF assms] by blast
  let ?active = "\<lambda>r. cmd_organizationId r = org \<and> cmd_sessionId r = sessionId \<and> command_active r"
  let ?Q = "\<lambda>r :: session_row. \<not> (ses_organizationId r = org \<and> ses_agentId r = agent)"
  let ?R = "\<lambda>r :: command_row. \<not> (cmd_organizationId r = org \<and> cmd_agentId r = agent)"
  have S: "sql_where ?Q (sql_update (session_key org sessionId) f (db_sessions db)) = sql_where ?Q (db_sessions db)"
    if "\<And>r. ses_organizationId (f r) = ses_organizationId r \<and> ses_agentId (f r) = ses_agentId r" for f
    by (rule where_update_other_in) (use ses that in \<open>auto simp: session_key_def\<close>)
  have C: "sql_where ?R (sql_update (\<lambda>r. cmd_organizationId r = org \<and> cmd_id r \<in> set (map cmd_id (sql_where ?active (db_commands db))))
        (\<lambda>r. r\<lparr>cmd_status := C_cancellation_requested\<rparr>) (db_commands db)) = sql_where ?R (db_commands db)"
    by (rule where_update_other_in) (use cancelled in auto)
  show ?thesis
  proof (cases "session_terminal (ses_status current) \<or> (out = complete \<and> sql_where ?active (db_commands db) \<noteq> [])")
    case True
    then show ?thesis by (cases out) (auto simp: finishSession_def Some Let_def)
  next
    case False
    then show ?thesis
      using S[of "\<lambda>r. r\<lparr>ses_status := S_completed, ses_finishedAt := Some now\<rparr>"]
        S[of "\<lambda>r. r\<lparr>ses_status := S_cancellation_requested\<rparr>"] C
      by (cases out) (simp_all add: finishSession_def Some Let_def others_def)
  qed
qed

lemma requestCommandCancellation_others:
  assumes "db_wf db"
  shows "others org agent (snd (requestCommandCancellation org agent commandId db)) = others org agent db"
proof (cases "sql_first (\<lambda>r. command_key org commandId r \<and> cmd_agentId r = agent) (db_commands db)")
  case None
  then show ?thesis by (simp add: requestCommandCancellation_def)
next
  case (Some current)
  note cur = sql_first_SomeD[OF Some]
  have "cmd_agentId r = agent" if "r \<in> set (db_commands db)" "command_key org commandId r" for r
    using that cur command_by_id[OF assms, of r current] by (auto simp: command_key_def)
  then show ?thesis
    using Some by (auto simp: requestCommandCancellation_def Let_def others_def command_key_def intro!: where_update_other_in)
qed

lemma requestSession_others:
  "others (ap_organizationId p) (ap_agentId p) (fst (snd (requestSession hash client p r k i now db c)))
     = others (ap_organizationId p) (ap_agentId p) db"
proof -
  obtain res db1 c1 where run: "requestSession hash client p r k i now db c = (res, db1, c1)" by (metis prod_cases3)
  show ?thesis
  proof (cases rule: requestSession_cases[OF run])
    case (2 m db0)
    then show ?thesis
      using createSession_others[of "requested_session p r m i now" "ap_organizationId p" "ap_agentId p" "hash k"
          "session_fingerprint hash p r" db]
      by (simp add: run append_event_others requested_event_def)
  qed (simp add: run)
qed

lemma createCommand_others':
  "others (ap_organizationId p) (ap_agentId p) (fst (snd (service_createCommand hash client p sid r k i at now db c)))
     = others (ap_organizationId p) (ap_agentId p) db"
proof -
  obtain res db1 c1 where run: "service_createCommand hash client p sid r k i at now db c = (res, db1, c1)" by (metis prod_cases3)
  show ?thesis
  proof (cases rule: createCommand_cases[OF run])
    case (2 s timeout db0)
    have s: "ses_organizationId s = ap_organizationId p" "ses_agentId s = ap_agentId p"
      using command_admission_session[OF 2(2)] session_lookup_row by blast+
    then show ?thesis
      using 2 createCommand_others[of "requested_command s r timeout i now" "ap_organizationId p" "ap_agentId p" "hash k"
          "command_fingerprint hash p sid r" db]
      by (simp add: run append_event_others created_event_def requested_command_def)
  qed (simp add: run)
qed

section \<open>What a reply may show\<close>

text \<open>
  A Session of the Agent, a Command of the Agent or one whose creation had the fingerprint of a request
  of this Agent, the output of a Command of the Agent, the Machines of the Organization.
\<close>

definition own_body :: "(string \<Rightarrow> string) \<Rightarrow> agent_principal \<Rightarrow> session_db \<Rightarrow> agent_body \<Rightarrow> bool" where
  "own_body hash p db b \<longleftrightarrow> (case b of
       B_session s \<Rightarrow> ses_organizationId s = ap_organizationId p \<and> ses_agentId s = ap_agentId p
     | B_command c \<Rightarrow> cmd_organizationId c = ap_organizationId p
         \<and> (cmd_agentId c = ap_agentId p
            \<or> (\<exists>row \<in> set (db_commands db). \<exists>sid r. commandRecord row = c
                 \<and> crow_requestFingerprint row = command_fingerprint hash p sid r))
     | B_output items next \<Rightarrow> (\<exists>c cursor now. command_lookup (ap_organizationId p) (cmd_id c) db = Some c
         \<and> cmd_agentId c = ap_agentId p \<and> items = commandOutput (ap_organizationId p) (cmd_id c) cursor now db)
     | B_machines ms \<Rightarrow> (\<forall>m \<in> set ms. \<exists>a \<in> set (db_machineAuthorities db).
         ma_organizationId a = ap_organizationId p \<and> ma_machineId a = fst m))"

definition own_reply :: "(string \<Rightarrow> string) \<Rightarrow> agent_principal \<Rightarrow> session_db \<Rightarrow> agent_body reply \<Rightarrow> bool" where
  "own_reply hash p db r \<longleftrightarrow> (case r of Sent _ b \<Rightarrow> own_body hash p db b | _ \<Rightarrow> True)"

lemma own_reply_refused [simp]: "own_reply hash p db (Refused c e)" "own_reply hash p db (Crashed x)"
  by (simp_all add: own_reply_def)

lemma command_lookup_row:
  "command_lookup org cid db = Some c \<Longrightarrow> cmd_organizationId c = org \<and> cmd_id c = cid"
  by (auto simp: command_lookup_def command_key_def row_simps dest!: sql_first_SomeD)

lemma requestSession_reply:
  assumes "requestSession hash client p r k i now db c = (Inr res, db1, c1)"
  shows "(\<forall>s. res = Request_created s \<or> res = Request_replayed s \<longrightarrow>
    ses_organizationId s = ap_organizationId p \<and> ses_agentId s = ap_agentId p)"
proof -
  have "sessionByIdempotency (ap_organizationId p) (ap_agentId p) (hash k) db = Some (s, f) \<Longrightarrow>
      ses_organizationId s = ap_organizationId p \<and> ses_agentId s = ap_agentId p" for s f
    by (auto simp: sessionByIdempotency_def session_idempotency_def row_simps dest!: sql_first_SomeD)
  then show ?thesis
    using assms
    by (auto simp: requestSession_def createSession_def Let_def split: option.splits sum.splits if_splits prod.splits create_result.splits)
qed

lemma createCommand_reply:
  assumes "service_createCommand hash client p sid r k i at now db c = (Inr res, db1, c1)"
  shows "(\<forall>x. res = Command_created x \<or> res = Command_replayed x \<longrightarrow> own_body hash p db (B_command x))"
proof (cases rule: createCommand_cases[OF assms])
  case 1
  have stored: "own_body hash p db (B_command x)"
    if "commandByIdempotency (ap_organizationId p) sid' (hash k) db = Some (x, command_fingerprint hash p sid r)" for x sid'
    using that by (fastforce simp: own_body_def commandByIdempotency_def command_idempotency_def row_simps dest!: sql_first_SomeD)
  have "own_body hash p db (B_command x)" if replayed: "res = Command_replayed x" for x
  proof (cases "commandByIdempotency (ap_organizationId p) sid (hash k) db")
    case None
    then obtain s timeout db0 where adm: "command_admission p sid r at db = Inr (s, timeout)"
      and create: "createCommand (requested_command s r timeout i now) (hash k) (command_fingerprint hash p sid r) db = (Replayed x, db0)"
      using assms replayed
      by (auto simp: service_createCommand_def Let_def split: sum.splits prod.splits create_result.splits option.splits)
    have "ses_organizationId s = ap_organizationId p"
      using command_admission_session(1)[OF adm] session_lookup_row by blast
    then show ?thesis
      using create stored by (auto simp: createCommand_def requested_command_def Let_def split: if_splits option.splits)
  next
    case (Some y)
    with assms replayed stored show ?thesis by (cases y) (auto simp: service_createCommand_def Let_def split: if_splits)
  qed
  with 1 show ?thesis by auto
next
  case (2 s timeout db0)
  have "ses_organizationId s = ap_organizationId p" "ses_agentId s = ap_agentId p"
    using command_admission_session[OF 2(2)] session_lookup_row by blast+
  with 2(5) show ?thesis
    by (auto simp: own_body_def requested_command_def split: option.splits)
qed

lemma finishSession_reply:
  assumes "service_finishSession client p sid out now db c = (Inr res, db1, c1)"
  shows "(\<forall>s. res = Service_completed s \<or> res = Service_cancellation_requested s \<longrightarrow> own_body hash p db (B_session s))"
proof -
  have "own_body hash p db (B_session s)"
    if "finishSession (ap_organizationId p) (ap_agentId p) sid out now db = (Finished s ids, db')" for s ids db'
    using that
    by (auto simp: own_body_def finishSession_def Let_def session_key_def row_simps dest!: sql_first_SomeD split: option.splits if_splits)
  with assms show ?thesis
    by (auto simp: service_finishSession_def Let_def split: prod.splits finish_result.splits option.splits if_splits)
qed

lemma cancelCommand_reply:
  assumes "service_cancelCommand client p cid db c = (Inr (Some x), db1, c1)"
  shows "own_body hash p db (B_command x)"
proof -
  have "own_body hash p db (B_command x)"
    if "requestCommandCancellation (ap_organizationId p) (ap_agentId p) cid db = (Some x, db')" for db'
    using that
    by (auto simp: own_body_def requestCommandCancellation_def Let_def command_key_def row_simps dest!: sql_first_SomeD
        split: option.splits if_splits)
  with assms show ?thesis by (auto simp: service_cancelCommand_def split: prod.splits option.splits)
qed

text \<open>A route run by an Agent: the reply, and what it did to the process.\<close>

definition confined :: "(string \<Rightarrow> string) \<Rightarrow> agent_principal \<Rightarrow> server \<Rightarrow> agent_body reply \<times> server \<Rightarrow> bool" where
  "confined hash p sv res \<longleftrightarrow>
     own_reply hash p (sv_sessions sv) (fst res)
     \<and> others (ap_organizationId p) (ap_agentId p) (sv_sessions (snd res))
         = others (ap_organizationId p) (ap_agentId p) (sv_sessions sv)
     \<and> db_history (sv_sessions sv) (sv_sessions (snd res)) \<and> sv_control (snd res) = sv_control sv"

lemma confined_read: "own_reply hash p (sv_sessions sv) r \<Longrightarrow> confined hash p sv (r, sv)"
  by (simp add: confined_def history_refl)

text \<open>The client of the service sends and does nothing else.\<close>

lemma gateway_client_control [simp]:
  "sv_control (snd (sc_openSession (gateway_client t) s sv)) = sv_control sv"
  "sv_control (snd (sc_startCommand (gateway_client t) c sv)) = sv_control sv"
  "sv_control (snd (sc_closeSession (gateway_client t) s reason sv)) = sv_control sv"
  "sv_control (snd (sc_cancelCommand (gateway_client t) c sv)) = sv_control sv"
  by (simp_all add: gateway_client_def case_prod_unfold)

lemma cancel_each_control [simp]: "sv_control (snd (cancel_each (gateway_client t) org db ids sv)) = sv_control sv"
proof (induction ids arbitrary: sv)
  case (Cons i ids)
  show ?case
  proof (cases "command_lookup org i db")
    case None
    then show ?thesis using Cons by simp
  next
    case (Some c)
    obtain e sv' where s: "sc_cancelCommand (gateway_client t) c sv = (e, sv')" by force
    have "sv_control sv' = sv_control sv" using gateway_client_control(4)[of t c sv] s by simp
    then show ?thesis using Cons Some s by (cases e) simp_all
  qed
qed simp

lemma service_control [simp]:
  "sv_control (snd (snd (requestSession hash (gateway_client t) p r k i now db sv))) = sv_control sv"
  "sv_control (snd (snd (service_createCommand hash (gateway_client t) p sid q k i at now db sv))) = sv_control sv"
  "sv_control (snd (snd (service_finishSession (gateway_client t) p sid out now db sv))) = sv_control sv"
  "sv_control (snd (snd (service_cancelCommand (gateway_client t) p cid db sv))) = sv_control sv"
proof -
  obtain x y z where run: "requestSession hash (gateway_client t) p r k i now db sv = (x, y, z)" by (metis prod_cases3)
  show "sv_control (snd (snd (requestSession hash (gateway_client t) p r k i now db sv))) = sv_control sv"
    by (cases rule: requestSession_cases[OF run]) (simp_all add: run)
  obtain x y z where run: "service_createCommand hash (gateway_client t) p sid q k i at now db sv = (x, y, z)" by (metis prod_cases3)
  show "sv_control (snd (snd (service_createCommand hash (gateway_client t) p sid q k i at now db sv))) = sv_control sv"
    by (cases rule: createCommand_cases[OF run]) (simp_all add: run)
  show "sv_control (snd (snd (service_finishSession (gateway_client t) p sid out now db sv))) = sv_control sv"
  proof (cases "finishSession (ap_organizationId p) (ap_agentId p) sid out now db")
    case (Pair f db1)
    define ended where "ended = (\<lambda>ids. if out = cancel then cancel_each (gateway_client t) (ap_organizationId p) db1 ids sv else (None, sv))"
    have control: "sv_control (snd (ended ids)) = sv_control sv" for ids by (simp add: ended_def)
    show ?thesis
    proof (cases f)
      case (Finished s ids)
      obtain e c1 where e: "ended ids = (e, c1)" by force
      have "sv_control c1 = sv_control sv" using control[of ids] e by simp
      moreover obtain e' c2 where s: "sc_closeSession (gateway_client t) s (if out = complete then ''completed'' else ''cancelled'') c1 = (e', c2)"
        by force
      moreover have "sv_control c2 = sv_control c1"
        using gateway_client_control(3)[of t s "if out = complete then ''completed'' else ''cancelled''" c1] s by simp
      moreover have "service_finishSession (gateway_client t) p sid out now db sv = (case ended ids of
           (Some e, c1) \<Rightarrow> (Inl e, db1, c1)
         | (None, c1) \<Rightarrow>
             (case sc_closeSession (gateway_client t) s (if out = complete then ''completed'' else ''cancelled'') c1 of
                (Some e, c2) \<Rightarrow> (Inl e, db1, c2)
              | (None, c2) \<Rightarrow> (Inr (if out = complete then Service_completed s else Service_cancellation_requested s), db1, c2)))"
        unfolding service_finishSession_def Pair Finished ended_def by simp
      ultimately show ?thesis using e by (cases e; cases e') simp_all
    qed (simp_all add: service_finishSession_def Pair)
  qed
  show "sv_control (snd (snd (service_cancelCommand (gateway_client t) p cid db sv))) = sv_control sv"
    by (auto simp: service_cancelCommand_def gateway_client_def case_prod_unfold split: prod.split option.split)
qed

section \<open>An Agent reaches its own Sessions and Commands only\<close>

lemma with_service_run:
  assumes "with_service f sv = (r, sv')"
  shows "r = fst (f (sv_sessions sv) sv)" "sv_sessions sv' = fst (snd (f (sv_sessions sv) sv))"
    "sv_control sv' = sv_control (snd (snd (f (sv_sessions sv) sv)))"
  using assms by (auto simp: with_service_def split: prod.splits)

lemma post_session_confined: "confined (hx_hash hx) p sv (post_session hx rx p body header sv)"
proof (cases "\<exists>request key. Option.bind body (sessionRequestSchema (hx_uuid hx)) = Some request \<and> idempotencyKeySchema header = Some key")
  case False
  then show ?thesis by (auto simp: post_session_def confined_read split: option.split)
next
  case True
  then obtain request key where q: "Option.bind body (sessionRequestSchema (hx_uuid hx)) = Some request" "idempotencyKeySchema header = Some key" by blast
  let ?f = "requestSession (hx_hash hx) (gateway_client (rx_now rx 2)) p request key (rx_fresh rx 2) (rx_now rx 1)"
  obtain r sv' where run: "with_service ?f sv = (r, sv')" by force
  note w = with_service_run[OF run]
  have state: "others (ap_organizationId p) (ap_agentId p) (sv_sessions sv') = others (ap_organizationId p) (ap_agentId p) (sv_sessions sv)"
    "db_history (sv_sessions sv) (sv_sessions sv')" "sv_control sv' = sv_control sv"
    by (simp_all add: w requestSession_others requestSession_history)
  show ?thesis
  proof (cases r)
    case (Inl e)
    then show ?thesis using state by (simp add: post_session_def q run confined_def del: One_nat_def)
  next
    case (Inr x)
    obtain db1 c1 where "?f (sv_sessions sv) sv = (Inr x, db1, c1)" using w(1) Inr by (metis prod.collapse)
    note reply = requestSession_reply[OF this]
    show ?thesis using state reply Inr
      by (cases x) (simp_all add: post_session_def q run confined_def own_reply_def own_body_def del: One_nat_def)
  qed
qed

lemma post_command_confined: "confined (hx_hash hx) p sv (post_command hx rx p sid body header sv)"
proof (cases "hx_uuid hx sid \<and> (\<exists>request key. Option.bind body commandRequestSchema = Some request \<and> idempotencyKeySchema header = Some key)")
  case False
  then show ?thesis by (auto simp: post_command_def confined_read split: option.split)
next
  case True
  then obtain request key where q: "hx_uuid hx sid" "Option.bind body commandRequestSchema = Some request" "idempotencyKeySchema header = Some key" by blast
  let ?f = "service_createCommand (hx_hash hx) (gateway_client (rx_now rx 3)) p sid request key (rx_fresh rx 2) (rx_now rx 1) (rx_now rx 2)"
  obtain r sv' where run: "with_service ?f sv = (r, sv')" by force
  note w = with_service_run[OF run]
  have state: "others (ap_organizationId p) (ap_agentId p) (sv_sessions sv') = others (ap_organizationId p) (ap_agentId p) (sv_sessions sv)"
    "db_history (sv_sessions sv) (sv_sessions sv')" "sv_control sv' = sv_control sv"
    by (simp_all add: w createCommand_others' createCommand_history)
  show ?thesis
  proof (cases r)
    case (Inl e)
    then show ?thesis using state by (simp add: post_command_def q run confined_def del: One_nat_def)
  next
    case (Inr x)
    obtain db1 c1 where "?f (sv_sessions sv) sv = (Inr x, db1, c1)" using w(1) Inr by (metis prod.collapse)
    note reply = createCommand_reply[OF this]
    show ?thesis using state reply Inr
      by (cases x) (simp_all add: post_command_def q run confined_def own_reply_def history_refl del: One_nat_def)
  qed
qed

lemma post_finish_confined:
  assumes "db_wf (sv_sessions sv)"
  shows "confined (hx_hash hx) p sv (post_finish hx rx p sid out header sv)"
proof (cases "hx_uuid hx sid \<and> idempotencyKeySchema header \<noteq> None")
  case False
  then show ?thesis by (auto simp: post_finish_def confined_read)
next
  case True
  let ?f = "service_finishSession (gateway_client (rx_now rx 2)) p sid out (rx_now rx 1)"
  obtain r sv' where run: "with_service ?f sv = (r, sv')" by force
  note w = with_service_run[OF run]
  have state: "others (ap_organizationId p) (ap_agentId p) (sv_sessions sv') = others (ap_organizationId p) (ap_agentId p) (sv_sessions sv)"
    "db_history (sv_sessions sv) (sv_sessions sv')" "sv_control sv' = sv_control sv"
    using finishSession_others[OF assms] finishSession_history by (simp_all add: w finishSession_db)
  show ?thesis
  proof (cases r)
    case (Inl e)
    then show ?thesis using True state by (simp add: post_finish_def run confined_def history_refl del: One_nat_def)
  next
    case (Inr x)
    obtain db1 c1 where "?f (sv_sessions sv) sv = (Inr x, db1, c1)" using w(1) Inr by (metis prod.collapse)
    note reply = finishSession_reply[OF this, of "hx_hash hx"]
    show ?thesis using True state reply Inr
      by (cases x) (simp_all add: post_finish_def run confined_def own_reply_def history_refl del: One_nat_def)
  qed
qed

lemma post_cancel_confined:
  assumes "db_wf (sv_sessions sv)"
  shows "confined (hx_hash hx) p sv (post_cancel hx rx p cid header sv)"
proof (cases "hx_uuid hx cid \<and> idempotencyKeySchema header \<noteq> None")
  case False
  then show ?thesis by (auto simp: post_cancel_def confined_read)
next
  case True
  let ?f = "service_cancelCommand (gateway_client (rx_now rx 1)) p cid"
  obtain r sv' where run: "with_service ?f sv = (r, sv')" by force
  note w = with_service_run[OF run]
  have "fst (snd (service_cancelCommand client p cid db c)) = snd (requestCommandCancellation (ap_organizationId p) (ap_agentId p) cid db)"
    for client :: "server session_client" and db c
    by (auto simp: service_cancelCommand_def split: prod.split option.split)
  then have state: "others (ap_organizationId p) (ap_agentId p) (sv_sessions sv') = others (ap_organizationId p) (ap_agentId p) (sv_sessions sv)"
    "db_history (sv_sessions sv) (sv_sessions sv')" "sv_control sv' = sv_control sv"
    using requestCommandCancellation_others[OF assms] cancelCommand_history[of "sv_sessions sv" "gateway_client (rx_now rx 1)" p cid sv]
    by (simp_all add: w)
  show ?thesis
  proof (cases r)
    case (Inl e)
    then show ?thesis using True state by (simp add: post_cancel_def run confined_def history_refl del: One_nat_def)
  next
    case (Inr x)
    obtain db1 c1 where run': "?f (sv_sessions sv) sv = (Inr x, db1, c1)" using w(1) Inr by (metis prod.collapse)
    show ?thesis
    proof (cases x)
      case (Some y)
      from cancelCommand_reply[OF run'[unfolded Some], of "hx_hash hx"] show ?thesis
        using True state Inr Some by (simp add: post_cancel_def run confined_def own_reply_def history_refl del: One_nat_def)
    qed (use True state Inr in \<open>simp add: post_cancel_def run confined_def history_refl del: One_nat_def\<close>)
  qed
qed

lemma reads_own:
  "own_reply hash p (sv_sessions sv) (get_machines p sv)"
  "own_reply hash p (sv_sessions sv) (get_session hx p i sv)"
  "own_reply hash p (sv_sessions sv) (get_command hx p i sv)"
  "own_reply hash p (sv_sessions sv) (get_output hx rx p i after sv)"
proof -
  show "own_reply hash p (sv_sessions sv) (get_machines p sv)"
    by (fastforce simp: get_machines_def own_reply_def own_body_def listMachineAuthorities_def)
  show "own_reply hash p (sv_sessions sv) (get_session hx p i sv)"
    by (auto simp: get_session_def own_reply_def own_body_def dest!: session_lookup_row split: option.split)
  show "own_reply hash p (sv_sessions sv) (get_command hx p i sv)"
    by (auto simp: get_command_def own_command_def own_reply_def own_body_def dest!: command_lookup_row split: option.split)
  have own: "\<exists>d at cursor' now. command_lookup (ap_organizationId p) (cmd_id d) (sv_sessions sv) = Some d \<and> cmd_agentId d = ap_agentId p
      \<and> commandOutput (ap_organizationId p) (cmd_id c) cursor (rx_now rx 1) (sv_sessions sv)
          = commandOutput (ap_organizationId p) (cmd_id d) cursor' now (sv_sessions sv)"
    if "own_command p i sv = Some c" for c cursor
    using that command_lookup_row[of "ap_organizationId p" i "sv_sessions sv" c]
    by (intro exI[of _ c] exI[of _ cursor] exI[of _ "rx_now rx 1"]) (auto simp: own_command_def split: option.splits if_splits)
  show "own_reply hash p (sv_sessions sv) (get_output hx rx p i after sv)"
    using own by (auto simp: get_output_def Let_def own_reply_def own_body_def split: option.splits bool.split)
qed

lemma agent_route_confined:
  assumes "db_wf (sv_sessions sv)"
  shows "confined (hx_hash hx) p sv (agent_route hx rx p request sv)"
  using post_session_confined post_command_confined post_finish_confined[OF assms] post_cancel_confined[OF assms]
  by (cases request) (simp_all add: agent_route_def confined_read reads_own)

text \<open>The principal of a request, when it has one: a usable Agent of the identity's Organization.\<close>

definition request_principal ::
  "(string option \<Rightarrow> agent_oauth_identity option) \<Rightarrow> request_env \<Rightarrow> string option \<Rightarrow> server \<Rightarrow> agent_principal option" where
  "request_principal authenticate rx authorization sv = (case authenticate authorization of
       None \<Rightarrow> None
     | Some i \<Rightarrow> (case fst (agent_principal_for rx i sv) of Inr x \<Rightarrow> x | Inl _ \<Rightarrow> None))"

lemma installation_agent:
  assumes "ensureMcpInstallation org user client name agent fresh now db = (Inr (Some r), db')"
  shows "\<exists>a \<in> set (cdb_agents db'). agent_key org (mi_agentId r) a \<and> agent_usable a \<and> ag_role a = mi_agentRole r"
proof (cases "active_join org user client db")
  case None
  then show ?thesis using assms
    by (auto simp: ensureMcpInstallation_def activeInstallation_def Let_def agent_key_def agent_usable_def installationRecord_def
        mcp_installation.defs mcp_installation_record.defs split: if_splits)
next
  case (Some ia)
  obtain i a where ia: "ia = (i, a)" by force
  note join = active_join_SomeD[OF Some[unfolded ia]]
  define name' where "name' = (if generic_agent_name (ag_name a) then name else ag_name a)"
  have run: "r = installationRecord i name' (ag_role a)"
    "cdb_agents db' = (if name' \<noteq> ag_name a then sql_update (agent_key org (mi_agentId i)) (\<lambda>a. a\<lparr>ag_name := name', ag_updatedAt := now\<rparr>) (cdb_agents db)
       else cdb_agents db)"
    using assms by (auto simp: ensureMcpInstallation_def activeInstallation_def Some ia Let_def name'_def)
  have r: "mi_agentId r = mi_agentId i" "mi_agentRole r = ag_role a"
    by (simp_all add: run(1) installationRecord_def mcp_installation.defs mcp_installation_record.defs)
  show ?thesis
  proof (cases "name' = ag_name a")
    case True
    then show ?thesis using join run(2) r by auto
  next
    case False
    then have "a\<lparr>ag_name := name', ag_updatedAt := now\<rparr> \<in> set (cdb_agents db')"
      using join run(2) by (force simp: image_iff)
    then show ?thesis using join r by (intro bexI[of _ "a\<lparr>ag_name := name', ag_updatedAt := now\<rparr>"]) (auto simp: agent_key_def agent_usable_def)
  qed
qed

lemma principal_agent:
  assumes "agent_principal_for rx i sv = (Inr (Some p), sv')"
  shows "ap_organizationId p = ai_organizationId i \<and> sv_sessions sv' = sv_sessions sv
    \<and> (\<exists>a \<in> set (cdb_agents (sv_control sv')). ag_id a = ap_agentId p \<and> agent_usable a \<and> ag_role a = ap_agentRole p)"
  using assms installation_agent
  by (fastforce simp: agent_principal_for_def on_control_def agent_key_def split: list.splits prod.splits sum.splits option.splits)

lemma principal_frame: "sv_sessions (snd (agent_principal_for rx i sv)) = sv_sessions sv"
  by (auto simp: agent_principal_for_def on_control_def split: list.split prod.split sum.split option.split)

text \<open>
  C3: Whatever an Agent asks for over HTTP, it reads and changes only what is its own.  A request without an
  accepted token, or whose Agent is not installed or was removed, gets no data and leaves the session
  database as it was.  Otherwise the principal is an Agent that is active and not
  deleted, in the Organization of the token; the reply shows a Session or Command of this Agent, output
  of such a Command, or the Machines of the Organization, where a Command that is
  replayed was created by a request with the same fingerprint, which covers the Agent; the Sessions, Commands
  and events of every other Agent, every stored output and every Machine authority are as before;
  and what changed is a sequence of operations of the session store, so that its invariant is kept.
\<close>

theorem agent_http_confined:
  assumes "db_wf (sv_sessions sv)" "session_http authenticate hx rx authorization request sv = (reply, sv')"
  shows "case request_principal authenticate rx authorization sv of
      None \<Rightarrow> sv_sessions sv' = sv_sessions sv \<and> (\<forall>c b. reply \<noteq> Sent c b)
    | Some p \<Rightarrow>
        (\<exists>i. authenticate authorization = Some i \<and> ap_organizationId p = ai_organizationId i)
        \<and> (\<exists>a \<in> set (cdb_agents (sv_control sv')). ag_id a = ap_agentId p \<and> agent_usable a \<and> ag_role a = ap_agentRole p)
        \<and> own_reply (hx_hash hx) p (sv_sessions sv) reply
        \<and> others (ap_organizationId p) (ap_agentId p) (sv_sessions sv') = others (ap_organizationId p) (ap_agentId p) (sv_sessions sv)
        \<and> db_history (sv_sessions sv) (sv_sessions sv')"
proof (cases "authenticate authorization")
  case None
  with assms(2) show ?thesis by (auto simp: session_http_def request_principal_def)
next
  case (Some i)
  obtain x sv1 where x: "agent_principal_for rx i sv = (x, sv1)" by force
  have frame: "sv_sessions sv1 = sv_sessions sv" using principal_frame[of rx i sv] x by simp
  show ?thesis
  proof (cases "\<exists>p. x = Inr (Some p)")
    case False
    then show ?thesis using assms(2) Some x frame
      by (auto simp: session_http_def request_principal_def split: sum.splits option.splits)
  next
    case True
    then obtain p where p: "x = Inr (Some p)" by blast
    have run: "agent_route hx rx p request sv1 = (reply, sv')" using assms(2) Some x p by (simp add: session_http_def)
    have "confined (hx_hash hx) p sv1 (reply, sv')"
      using agent_route_confined[of sv1 hx p rx request] assms(1) frame run by simp
    with Some x p principal_agent[OF x[unfolded p]] show ?thesis
      by (simp add: request_principal_def confined_def)
  qed
qed

text \<open>A process with one Organization and one Machine, and the first request of an Agent.\<close>

definition demo_organization :: organization where
  "demo_organization = \<lparr>org_id = ''o1'', org_slug = ''acme'', org_name = ''Acme'', org_externalId = ''org'',
     org_avatarSeed = ''default'', org_loggingLevel = privacy_minimal, org_createdAt = 0\<rparr>"

definition demo_http_server :: server where
  "demo_http_server = start_server (empty_control_db\<lparr>cdb_organizations := [demo_organization]\<rparr>) demo_db"

definition demo_rx :: request_env where
  "demo_rx = \<lparr>rx_now = (\<lambda>_. 7000), rx_fresh = (\<lambda>n. if n = 0 then ''a1'' else if n = 1 then ''i1'' else ''s1'')\<rparr>"

definition demo_agent_call :: "agent_request \<Rightarrow> agent_body reply \<times> server" where
  "demo_agent_call request = session_http
     (\<lambda>_. Some \<lparr>ai_subject = ''human'', ai_clientId = ''client'', ai_organizationId = ''org'', ai_scopes = [''odyshell:agent'']\<rparr>)
     \<lparr>hx_uuid = (\<lambda>_. True), hx_hash = id\<rparr> demo_rx (Some ''Bearer t'') request demo_http_server"

theorem agent_http_confined_witness:
  "\<exists>s sv'. demo_agent_call (Post_session (Some demo_request) (Some ''key'')) = (Sent 201 (B_session s), sv')
     \<and> ses_organizationId s = ''org'' \<and> ses_agentId s = ''a1''
     \<and> others ''org'' ''a1'' (sv_sessions sv') = others ''org'' ''a1'' demo_db"
proof -
  let ?call = "demo_agent_call (Post_session (Some demo_request) (Some ''key''))"
  obtain r sv' where run: "?call = (r, sv')" by force
  have "(case fst ?call of Sent c (B_session s) \<Rightarrow> c = 201 | _ \<Rightarrow> False)" by code_simp
  then obtain s where s: "r = Sent 201 (B_session s)" using run by (auto split: reply.splits agent_body.splits)
  let ?auth = "\<lambda>_ :: string option. Some \<lparr>ai_subject = ''human'', ai_clientId = ''client'', ai_organizationId = ''org'',
     ai_scopes = [''odyshell:agent'']\<rparr>"
  have "(case request_principal ?auth demo_rx (Some ''Bearer t'') demo_http_server of
      Some p \<Rightarrow> ap_organizationId p = ''org'' \<and> ap_agentId p = ''a1'' | None \<Rightarrow> False)" by code_simp
  then obtain p where p: "request_principal ?auth demo_rx (Some ''Bearer t'') demo_http_server = Some p"
    "ap_organizationId p = ''org''" "ap_agentId p = ''a1''" by (auto split: option.splits)
  have db: "sv_sessions demo_http_server = demo_db" by (simp add: demo_http_server_def start_server_def)
  then have "db_wf (sv_sessions demo_http_server)" using demo_db_wf by simp
  from agent_http_confined[OF this run[unfolded demo_agent_call_def]] p s run db show ?thesis
    by (auto simp: own_reply_def own_body_def)
qed

text \<open>The same process with an installed Agent.\<close>

definition demo_installed_server :: server where
  "demo_installed_server = start_server (empty_control_db\<lparr>cdb_organizations := [demo_organization],
     cdb_agents := [\<lparr>ag_organizationId = ''o1'', ag_id = ''a1'', ag_name = ''Agent'', ag_role = standard,
       ag_createdByHumanId = Some ''human'', ag_status = agent_active, ag_deletedAt = None, ag_createdAt = 1, ag_updatedAt = 1\<rparr>],
     cdb_installations := [\<lparr>mi_organizationId = ''o1'', mi_id = ''i1'', mi_provider = MCP_PROVIDER, mi_userId = ''human'',
       mi_oauthClientId = ''client'', mi_agentId = ''a1'', mi_status = installation_active, mi_createdAt = 1, mi_updatedAt = 1\<rparr>]\<rparr>)
     demo_db"

lemma demo_installed_ok: "control_wf (sv_control demo_installed_server)" "sv_sessions demo_installed_server = demo_db"
proof -
  show "control_wf (sv_control demo_installed_server)" by code_simp
qed (simp add: demo_installed_server_def start_server_def)

end
