(* ===== verification/Control_Http.thy ===== *)
theory Control_Http
  imports Session_Http
begin

text \<open>
  The routes of the console and of the command line interface: apps/server/src/control-http.ts,
  cli-http.ts and access.ts.  A handler runs from its first statement to its reply, except that other
  requests may run while a deletion of an Agent waits between its two databases.  Bodies have the types of their schemas or are
  \<open>None\<close>.  Timestamps stay instants.
\<close>

section \<open>The state of the routes\<close>

record console =
  cn_server :: server
  cn_enrollmentLimiter :: scoped_rate_limiter
  cn_liveTokenLimiter :: scoped_rate_limiter
  cn_liveReplayGuard :: replay_guard
  cn_liveStreams :: concurrency_limiter
  cn_pingLimiter :: scoped_rate_limiter
  cn_pingConcurrency :: concurrency_limiter

definition new_console :: "server \<Rightarrow> exn + console" where
  "new_console sv =
     (case (ScopedRateLimiter 60 20 (60 * 60000), ScopedRateLimiter 300 30 60000, ScopedRateLimiter 120 30 60000) of
        (Inr enrollment, Inr tokens, Inr pings) \<Rightarrow>
          Inr \<lparr>cn_server = sv, cn_enrollmentLimiter = enrollment, cn_liveTokenLimiter = tokens,
               cn_liveReplayGuard = \<lparr>rg_usedUntil = []\<rparr>, cn_liveStreams = ScopedConcurrencyLimiter 100 4,
               cn_pingLimiter = pings, cn_pingConcurrency = ScopedConcurrencyLimiter 20 3\<rparr>
      | (Inl e, _, _) \<Rightarrow> Inl e
      | (_, Inl e, _) \<Rightarrow> Inl e
      | (_, _, Inl e) \<Rightarrow> Inl e)"

text \<open>
  What the routes take from their dependencies and from the runtime: the random bytes of a token, the
  monotonic clock of the limiters, and whether a ping is answered in time, with its latency.
\<close>

record console_env =
  ke_uuid :: "string \<Rightarrow> bool"
  ke_known_time_zone :: "string \<Rightarrow> bool"
  ke_hash :: "string \<Rightarrow> string"
  ke_webKey :: "string option"
  ke_webUrl :: "string option"
  ke_auditRetentionMilliseconds :: int
  ke_hmac :: "string \<Rightarrow> string \<Rightarrow> byte list"
  ke_json :: "live_claims \<Rightarrow> byte list"
  ke_parse_json :: "byte list \<Rightarrow> live_claims option"
  ke_digest :: "string \<Rightarrow> string"
  ke_random :: "byte list"
  ke_monotonic :: int
  ke_pong :: "int option"

section \<open>Bodies\<close>

record control_event =
  ce_id :: string
  ce_principalId :: ident
  ce_action :: string
  ce_targetType :: string
  ce_targetId :: ident
  ce_metadata :: "audit_metadata + (string \<times> string) list"
  ce_createdAt :: instant

record console_context =
  cc_organization :: organization
  cc_timeZone :: string
  cc_auditRetentionDays :: int
  cc_usage :: "nat \<times> nat"
  cc_activeConnections :: nat
  cc_connectedAgents :: nat
  cc_machines :: "(machine \<times> bool) list"
  cc_agents :: "(agent_identity \<times> bool) list"
  cc_sessions :: "session list"
  cc_notifications :: "notification list"
  cc_controlEvents :: "control_event list"

datatype console_body =
    K_context console_context
  | K_timeZone string
  | K_organization organization
  | K_read bool
  | K_read_all nat
  | K_token string instant
  | K_machine ident string "string option"
  | K_revoked ident string instant nat bool
  | K_role agent_identity nat
  | K_deleted nat nat
  | K_pong ident int
  | K_live_token string instant
  | K_stream

section \<open>Context\<close>

definition ensureContext :: "request_env \<Rightarrow> control_identity \<Rightarrow> server \<Rightarrow> (exn + organization) \<times> server" where
  "ensureContext rx i =
     on_control (ensureControlContext (cid_externalId i) (cid_slug i) (cid_name i) (rx_fresh rx 0) (rx_now rx 0))"

text \<open>A handler that goes on with the Organization of the request.\<close>

definition in_context ::
  "request_env \<Rightarrow> control_identity \<Rightarrow> (organization \<Rightarrow> server \<Rightarrow> 'a reply \<times> server) \<Rightarrow> server \<Rightarrow> 'a reply \<times> server" where
  "in_context rx i handler sv = (case ensureContext rx i sv of
       (Inl e, sv') \<Rightarrow> (Crashed e, sv') | (Inr context, sv') \<Rightarrow> handler context sv')"

definition event_type_text :: "session_event_type \<Rightarrow> string" where
  "event_type_text t = (case t of
       session_requested \<Rightarrow> ''session.requested'' | session_opened \<Rightarrow> ''session.opened''
     | session_open_failed \<Rightarrow> ''session.open_failed'' | session_approved \<Rightarrow> ''session.approved''
     | session_denied \<Rightarrow> ''session.denied'' | session_closed \<Rightarrow> ''session.closed''
     | command_created \<Rightarrow> ''command.created'' | command_completed \<Rightarrow> ''command.completed'')"

definition session_event_view :: "session_event_row \<Rightarrow> control_event" where
  "session_event_view e =
     \<lparr>ce_id = ''session:'' @ json_int (int (sev_id e)),
      ce_principalId = (case sev_metadata e of Meta_decided humanId _ \<Rightarrow> humanId | _ \<Rightarrow> sev_agentId e),
      ce_action = event_type_text (sev_type e),
      ce_targetType = (if falsy (sev_commandId e) then ''session'' else ''command''),
      ce_targetId = (case sev_commandId e of Some c \<Rightarrow> c | None \<Rightarrow> sev_sessionId e),
      ce_metadata = Inl (sev_metadata e), ce_createdAt = sev_createdAt e\<rparr>"

definition metadata_map :: "control_metadata \<Rightarrow> string \<rightharpoonup> metadata_value" where
  "metadata_map m = (case m of
       Meta_none \<Rightarrow> Map.empty
     | Meta_name n \<Rightarrow> [''name'' \<mapsto> M_text n]
     | Meta_agents _ \<Rightarrow> [''agentIds'' \<mapsto> M_other]
     | Meta_values vs \<Rightarrow> map_of vs)"

definition controlEventView :: "control_audit_event \<Rightarrow> control_event" where
  "controlEventView e =
     \<lparr>ce_id = ae_id e, ce_principalId = ae_principalId e, ce_action = ae_action e,
      ce_targetType = ae_targetType e, ce_targetId = ae_targetId e,
      ce_metadata = Inr (privacySafeControlMetadata (metadata_map (ae_metadata e))), ce_createdAt = ae_createdAt e\<rparr>"

text \<open>\<open>Math.round\<close> of milliseconds in days.  ISO texts of one length are ordered as their instants.\<close>

definition round_days :: "int \<Rightarrow> int" where
  "round_days ms = (2 * ms + 86400000) div (2 * 86400000)"

definition control_context :: "console_env \<Rightarrow> request_env \<Rightarrow> control_identity \<Rightarrow> server \<Rightarrow> console_body reply \<times> server" where
  "control_context ke rx i = in_context rx i (\<lambda>context sv.
     let org = org_id context; ext = cid_externalId i;
         machines = listMachines org (sv_control sv); usage = organizationUsage org (sv_control sv);
         agents = listOrganizationAgents org (sv_control sv); runnable = listRunnableAgentIds org (sv_control sv);
         sessions = listSessions ext 100 (sv_sessions sv); sessionEvents = listAuditEvents ext 100 (sv_sessions sv);
         controlEvents = control_listAudit org 50 (sv_control sv);
         preferences = userPreferences (cid_userId i) (sv_control sv);
         (notifications, control) = listNotifications org (cid_userId i) 50 (rx_now rx 1) (sv_control sv)
     in (Sent 200 (K_context
           \<lparr>cc_organization = context, cc_timeZone = up_timeZone preferences,
            cc_auditRetentionDays = round_days (ke_auditRetentionMilliseconds ke),
            cc_usage = (case usage of Some (m, a) \<Rightarrow> (m, a) | None \<Rightarrow> (length machines, 0)),
            cc_activeConnections = length (filter (\<lambda>m. isOnline (mc_id m) sv) machines),
            cc_connectedAgents = length (remdups (map ses_agentId (filter (\<lambda>s. ses_status s = S_active) sessions))),
            cc_machines = map (\<lambda>m. (m, isOnline (mc_id m) sv)) machines,
            cc_agents = map (\<lambda>a. (a, ag_id a \<in> set runnable)) agents,
            cc_sessions = sessions, cc_notifications = notifications,
            cc_controlEvents = sort_desc ce_createdAt (map session_event_view sessionEvents @ map controlEventView controlEvents)\<rparr>),
         sv\<lparr>sv_control := control\<rparr>))"

section \<open>Settings and notifications\<close>

definition update_user_settings ::
  "console_env \<Rightarrow> request_env \<Rightarrow> (control_identity \<times> string) option \<Rightarrow> server \<Rightarrow> console_body reply \<times> server" where
  "update_user_settings ke rx body sv =
     (case Option.bind body (\<lambda>(i, z). controlUserSettingsSchema (ke_known_time_zone ke) i z) of
        None \<Rightarrow> (Refused 400 ''invalid_request'', sv)
      | Some (i, timeZone) \<Rightarrow> in_context rx i (\<lambda>_ sv.
          case on_control (upsertUserPreferences (cid_userId i) timeZone (rx_now rx 1)) sv of
            (row, sv') \<Rightarrow> (Sent 200 (K_timeZone (up_timeZone row)), sv')) sv)"

definition update_organization_settings ::
  "request_env \<Rightarrow> (control_identity \<times> organization_settings) option \<Rightarrow> server \<Rightarrow> console_body reply \<times> server" where
  "update_organization_settings rx body sv =
     (case Option.bind body (\<lambda>(i, st). controlOrganizationSettingsSchema i st) of
        None \<Rightarrow> (Refused 400 ''invalid_request'', sv)
      | Some (i, settings) \<Rightarrow> in_context rx i (\<lambda>context sv.
          case on_control (updateOrganizationSettings (org_id context) settings) sv of
            (None, sv') \<Rightarrow> (Refused 404 ''organization_not_found'', sv')
          | (Some org, sv') \<Rightarrow> (Sent 200 (K_organization org), notifyOrganization (org_id org) sv')) sv)"

definition read_notification ::
  "console_env \<Rightarrow> request_env \<Rightarrow> (control_identity \<times> ident \<times> bool option) option \<Rightarrow> server \<Rightarrow> console_body reply \<times> server" where
  "read_notification ke rx body sv =
     (case Option.bind body (\<lambda>(i, n, r). case controlIdentitySchema i of
             Some i' \<Rightarrow> if ke_uuid ke n then Some (i', n, case r of None \<Rightarrow> True | Some b \<Rightarrow> b) else None
           | None \<Rightarrow> None) of
        None \<Rightarrow> (Refused 400 ''invalid_request'', sv)
      | Some (i, n, read) \<Rightarrow> in_context rx i (\<lambda>context sv.
          case on_control (markNotificationRead (org_id context) (cid_userId i) n read (rx_now rx 1)) sv of
            (False, sv') \<Rightarrow> (Refused 404 ''notification_not_found'', sv')
          | (True, sv') \<Rightarrow> (Sent 200 (K_read read), notifyOrganization (org_id context) sv')) sv)"

definition read_all_notifications ::
  "request_env \<Rightarrow> control_identity option \<Rightarrow> server \<Rightarrow> console_body reply \<times> server" where
  "read_all_notifications rx body sv = (case Option.bind body controlIdentitySchema of
       None \<Rightarrow> (Refused 400 ''invalid_request'', sv)
     | Some i \<Rightarrow> in_context rx i (\<lambda>context sv.
         case on_control (markAllNotificationsRead (org_id context) (cid_userId i) (rx_now rx 1)) sv of
           (marked, sv') \<Rightarrow> (Sent 200 (K_read_all marked), notifyOrganization (org_id context) sv')) sv)"

section \<open>Enrollment tokens and Machines\<close>

text \<open>access.ts\<close>

definition new_enrollment_token :: "byte list \<Rightarrow> string" where
  "new_enrollment_token random = ''ods_enroll_'' @ base64url_encode random"

definition enrollment_token_route ::
  "console_env \<Rightarrow> request_env \<Rightarrow> control_identity option \<Rightarrow> console \<Rightarrow> console_body reply \<times> console" where
  "enrollment_token_route ke rx body k = (case Option.bind body controlIdentitySchema of
       None \<Rightarrow> (Refused 400 ''invalid_request'', k)
     | Some i \<Rightarrow> (case ensureContext rx i (cn_server k) of
         (Inl e, sv) \<Rightarrow> (Crashed e, k\<lparr>cn_server := sv\<rparr>)
       | (Inr context, sv) \<Rightarrow>
           let org = org_id context;
               (allowed, limiter) = scoped_allow org (cid_userId i) (ke_monotonic ke) (cn_enrollmentLimiter k);
               k = k\<lparr>cn_server := sv, cn_enrollmentLimiter := limiter\<rparr> in
           if \<not> allowed then (Refused 429 ''enrollment_issuance_rate_limited'', k)
           else
             let token = new_enrollment_token (ke_random ke); expiresAt = rx_now rx 1 + 10 * 60000 in
             (case on_control (createEnrollmentToken org (ke_hash ke token) expiresAt (Some (cid_userId i))) sv of
                (Some e, sv) \<Rightarrow> (Crashed e, k\<lparr>cn_server := sv\<rparr>)
              | (None, sv) \<Rightarrow>
                  (Sent 201 (K_token token expiresAt),
                   k\<lparr>cn_server := notifyOrganization org (sv\<lparr>sv_control :=
                       control_audit org (cid_userId i) ''enrollment_token.created'' ''enrollment_token'' (ke_hash ke token)
                         Meta_none (rx_fresh rx 1) (rx_now rx 2) (sv_control sv)\<rparr>)\<rparr>))))"

definition update_machine_route ::
  "console_env \<Rightarrow> request_env \<Rightarrow> (control_identity \<times> ident \<times> string \<times> string) option \<Rightarrow> server
     \<Rightarrow> console_body reply \<times> server" where
  "update_machine_route ke rx body sv =
     (case Option.bind body (\<lambda>(i, m, n, d). updateControlMachineSchema (ke_uuid ke) i m n d) of
        None \<Rightarrow> (Refused 400 ''invalid_request'', sv)
      | Some (i, machineId, name, description) \<Rightarrow> in_context rx i (\<lambda>context sv.
          case on_control (updateMachineDetails (org_id context) machineId name description) sv of
            (None, sv') \<Rightarrow> (Refused 404 ''active_machine_not_found'', sv')
          | (Some m, sv') \<Rightarrow>
              (Sent 200 (K_machine (mc_id m) (mc_name m) (mc_description m)),
               notifyOrganization (org_id context) (sv'\<lparr>sv_control :=
                 control_audit (org_id context) (cid_userId i) ''machine.updated'' ''machine'' (mc_id m) Meta_none
                   (rx_fresh rx 1) (rx_now rx 1) (sv_control sv')\<rparr>))) sv)"

definition revoke_machine_route ::
  "console_env \<Rightarrow> request_env \<Rightarrow> (control_identity \<times> ident) option \<Rightarrow> server \<Rightarrow> console_body reply \<times> server" where
  "revoke_machine_route ke rx body sv =
     (case Option.bind body (\<lambda>(i, m). revokeControlMachineSchema (ke_uuid ke) i m) of
        None \<Rightarrow> (Refused 400 ''invalid_request'', sv)
      | Some (i, machineId) \<Rightarrow> in_context rx i (\<lambda>context sv.
          if \<not> list_ex (\<lambda>m. mc_id m = machineId) (listMachines (org_id context) (sv_control sv))
          then (Refused 404 ''active_machine_not_found'', sv)
          else
            (case on_sessions (revokeSessions (cid_externalId i) None (Some machineId) (rx_now rx 1)) sv of
               (Inl e, sv) \<Rightarrow> (Crashed e, sv)
             | (Inr sessions, sv) \<Rightarrow>
                 let (disconnected, sv) = gateway_disconnect machineId ''Machine access revoked''
                       (closeRevokedSessions sessions ''machine_revoked'' sv) in
                 (case on_control (revokeMachine (org_id context) machineId (rx_now rx 2)) sv of
                    (None, sv) \<Rightarrow> (Refused 404 ''active_machine_not_found'', sv)
                  | (Some (mid, name, revokedAt), sv) \<Rightarrow>
                      (Sent 200 (K_revoked mid name revokedAt (length sessions) disconnected),
                       notifyOrganization (org_id context) (sv\<lparr>sv_control :=
                         control_audit (org_id context) (cid_userId i) ''machine.revoked'' ''machine'' machineId
                           (Meta_values [(''revokedSessions'', M_int (int (length sessions))), (''disconnected'', M_bool disconnected)])
                           (rx_fresh rx 1) (rx_now rx 3) (sv_control sv)\<rparr>))))) sv)"

section \<open>Agents\<close>

definition agent_role_text :: "agent_role \<Rightarrow> string" where
  "agent_role_text r = (case r of standard \<Rightarrow> ''standard'' | operator \<Rightarrow> ''operator'')"

text \<open>
  The change of a role: the same calls in both interfaces, which differ in who is recorded and in the
  metadata of the event.  The result is the Agent and the number of Sessions revoked.
\<close>

definition change_role ::
  "request_env \<Rightarrow> ident \<Rightarrow> ident \<Rightarrow> ident \<Rightarrow> (string \<times> metadata_value) list \<Rightarrow> ident \<Rightarrow> agent_role \<Rightarrow> server
     \<Rightarrow> console_body reply \<times> server" where
  "change_role rx org ext humanId source agentId role sv =
     (case find (\<lambda>a. ag_id a = agentId) (listOrganizationAgents org (sv_control sv)) of
        None \<Rightarrow> (Refused 404 ''agent_not_found'', sv)
      | Some existing \<Rightarrow>
          (case on_control (updateOrganizationAgentRole org agentId role (rx_now rx 1)) sv of
             (None, sv) \<Rightarrow> (Refused 404 ''agent_not_found'', sv)
           | (Some updated, sv) \<Rightarrow>
               (case (if ag_role existing = operator \<and> ag_role updated = standard
                      then on_sessions (revokeSessions ext (Some agentId) None (rx_now rx 2)) sv
                      else (Inr [], sv)) of
                  (Inl e, sv) \<Rightarrow> (Crashed e, sv)
                | (Inr sessions, sv) \<Rightarrow>
                    let sv = closeRevokedSessions sessions ''operator_role_revoked'' sv in
                    (Sent 200 (K_role updated (length sessions)),
                     notifyOrganization org (sv\<lparr>sv_control :=
                       control_audit org humanId ''agent.role_changed'' ''agent'' agentId
                         (Meta_values ([(''from'', M_text (agent_role_text (ag_role existing))),
                                        (''to'', M_text (agent_role_text (ag_role updated))),
                                        (''revokedSessions'', M_int (int (length sessions)))] @ source))
                         (rx_fresh rx 1) (rx_now rx 3) (sv_control sv)\<rparr>)))))"

definition agent_role_route ::
  "console_env \<Rightarrow> request_env \<Rightarrow> (control_identity \<times> ident \<times> agent_role) option \<Rightarrow> server
     \<Rightarrow> console_body reply \<times> server" where
  "agent_role_route ke rx body sv =
     (case Option.bind body (\<lambda>(i, a, r). updateControlAgentRoleSchema (ke_uuid ke) i a r) of
        None \<Rightarrow> (Refused 400 ''invalid_request'', sv)
      | Some (i, agentId, role) \<Rightarrow> in_context rx i (\<lambda>context.
          change_role rx (org_id context) (cid_externalId i) (cid_userId i) [] agentId role) sv)"

text \<open>
  The deletion of an Agent by the console.  Between the revocation of its Sessions and the deletion of
  its identity the handler awaits the database; \<open>between\<close> is what other requests do to the process there.
\<close>

definition delete_agent_route ::
  "(server \<Rightarrow> server) \<Rightarrow> console_env \<Rightarrow> request_env \<Rightarrow> (control_identity \<times> ident) option \<Rightarrow> server
     \<Rightarrow> console_body reply \<times> server" where
  "delete_agent_route between ke rx body sv =
     (case Option.bind body (\<lambda>(i, a). deleteControlAgentSchema (ke_uuid ke) i a) of
        None \<Rightarrow> (Refused 400 ''invalid_request'', sv)
      | Some (i, agentId) \<Rightarrow> in_context rx i (\<lambda>context sv.
          let org = org_id context in
          if \<not> list_ex (\<lambda>a. ag_id a = agentId) (listOrganizationAgents org (sv_control sv))
          then (Refused 404 ''agent_not_found'', sv)
          else
            (case on_sessions (revokeSessions (cid_externalId i) (Some agentId) None (rx_now rx 1)) sv of
               (Inl e, sv) \<Rightarrow> (Crashed e, sv)
             | (Inr sessions, sv) \<Rightarrow>
                 (case on_control (deleteOrganizationAgent org agentId (rx_now rx 2))
                         (between (closeRevokedSessions sessions ''agent_revoked'' sv)) of
                    (None, sv) \<Rightarrow> (Refused 404 ''agent_not_found'', sv)
                  | (Some ids, sv) \<Rightarrow>
                      let c1 = control_audit org (cid_userId i) ''agent.deleted'' ''agent'' agentId
                            (Meta_values [(''deletedAgents'', M_int (int (length ids))), (''revokedSessions'', M_int (int (length sessions)))])
                            (rx_fresh rx 1) (rx_now rx 3) (sv_control sv);
                          c2 = createNotification org (cid_userId i) notify_agent_revoked ''Agent removed''
                            (Some ''Its OAuth installation and active Sessions were revoked'') ''/dashboard/agents'' agentId
                            (rx_fresh rx 2) (rx_now rx 4) c1
                      in (Sent 200 (K_deleted (length ids) (length sessions)), notifyOrganization org (sv\<lparr>sv_control := c2\<rparr>))))) sv)"

section \<open>Pings and live events\<close>

text \<open>\<open>gateway.ping\<close>: the Client's answer within the time is an input.\<close>

definition gateway_ping :: "ident \<Rightarrow> ident \<Rightarrow> int option \<Rightarrow> server \<Rightarrow> int option \<times> server" where
  "gateway_ping machineId pingId pong sv = (case gateway_send machineId (SM_ping pingId) sv of
       (delivered, sv') \<Rightarrow> (if delivered then map_option (max 0) pong else None, sv'))"

definition ping_machine_route ::
  "console_env \<Rightarrow> request_env \<Rightarrow> (control_identity \<times> ident) option \<Rightarrow> console \<Rightarrow> console_body reply \<times> console" where
  "ping_machine_route ke rx body k =
     (case Option.bind body (\<lambda>(i, m). revokeControlMachineSchema (ke_uuid ke) i m) of
        None \<Rightarrow> (Refused 400 ''invalid_request'', k)
      | Some (i, machineId) \<Rightarrow> (case ensureContext rx i (cn_server k) of
          (Inl e, sv) \<Rightarrow> (Crashed e, k\<lparr>cn_server := sv\<rparr>)
        | (Inr context, sv) \<Rightarrow>
            let org = org_id context; user = cid_userId i;
                (allowed, limiter) = scoped_allow org user (ke_monotonic ke) (cn_pingLimiter k);
                k = k\<lparr>cn_server := sv, cn_pingLimiter := limiter\<rparr> in
            if \<not> allowed then (Refused 429 ''machine_ping_rate_limited'', k)
            else if \<not> activeMachinesExist org [machineId] (sv_control sv) then (Refused 404 ''active_machine_not_found'', k)
            else if \<not> isOnline machineId sv then (Refused 409 ''machine_offline'', k)
            else
              let (acquired, slots) = acquire org user (cn_pingConcurrency k) in
              if \<not> acquired then (Refused 429 ''machine_ping_limit_reached'', k)
              else
                let (latency, sv) = gateway_ping machineId (rx_fresh rx 1) (ke_pong ke) sv;
                    k = k\<lparr>cn_server := sv, cn_pingConcurrency := release org user slots\<rparr> in
                (case latency of
                   Some ms \<Rightarrow> (Sent 200 (K_pong machineId ms), k)
                 | None \<Rightarrow> (Refused 504 ''machine_ping_timeout'', k))))"

definition live_token_route ::
  "console_env \<Rightarrow> request_env \<Rightarrow> control_identity option \<Rightarrow> console \<Rightarrow> console_body reply \<times> console" where
  "live_token_route ke rx body k = (case Option.bind body controlIdentitySchema of
       None \<Rightarrow> (Refused 400 ''invalid_request'', k)
     | Some i \<Rightarrow>
         if falsy (ke_webKey ke) \<or> falsy (ke_webUrl ke) then (Refused 503 ''control_authentication_disabled'', k)
         else (case ensureContext rx i (cn_server k) of
           (Inl e, sv) \<Rightarrow> (Crashed e, k\<lparr>cn_server := sv\<rparr>)
         | (Inr context, sv) \<Rightarrow>
             let (allowed, limiter) = scoped_allow (org_id context) (cid_userId i) (ke_monotonic ke) (cn_liveTokenLimiter k);
                 k = k\<lparr>cn_server := sv, cn_liveTokenLimiter := limiter\<rparr> in
             if \<not> allowed then (Refused 429 ''live_token_rate_limited'', k)
             else
               (Sent 200 (K_live_token
                  (createControlLiveToken (ke_hmac ke) (ke_json ke) (ke_random ke) (the (ke_webKey ke)) (org_id context)
                     (cid_userId i) (rx_now rx 1) 60000)
                  (rx_now rx 1 + 60000)), k)))"

text \<open>
  The opening of an event stream, up to the hijacked reply, and the cleanup that gives its slot back;
  \<open>rx_now\<close> is read for the token and for the replay guard.
\<close>

definition live_events_route ::
  "console_env \<Rightarrow> request_env \<Rightarrow> string option \<Rightarrow> string option \<Rightarrow> console \<Rightarrow> (live_claims reply) \<times> console" where
  "live_events_route ke rx origin body k =
     (let decision = controlLiveOriginDecision (ke_webUrl ke) origin in
      if decision = Origin_disabled \<or> falsy (ke_webKey ke) \<or> falsy (ke_webUrl ke)
      then (Refused 503 ''control_authentication_disabled'', k)
      else if decision = Origin_denied then (Refused 403 ''origin_not_allowed'', k)
      else (case Option.bind body (\<lambda>token. verifyControlLiveToken (ke_hmac ke) (ke_parse_json ke) (the (ke_webKey ke)) token (rx_now rx 0)) of
          None \<Rightarrow> (Refused 401 ''invalid_or_expired_live_token'', k)
        | Some claim \<Rightarrow>
            let (fresh, guard) = replay_consume (ke_digest ke) (the body) (lc_expiresAt claim) (rx_now rx 1) (cn_liveReplayGuard k);
                k = k\<lparr>cn_liveReplayGuard := guard\<rparr> in
            if \<not> fresh then (Refused 401 ''live_token_replayed'', k)
            else
              let (acquired, slots) = acquire (lc_organizationId claim) (lc_userId claim) (cn_liveStreams k) in
              if \<not> acquired then (Refused 429 ''live_stream_limit_reached'', k)
              else (Sent 200 claim, k\<lparr>cn_liveStreams := slots\<rparr>)))"

definition live_events_cleanup :: "live_claims \<Rightarrow> console \<Rightarrow> console" where
  "live_events_cleanup claim k =
     k\<lparr>cn_liveStreams := release (lc_organizationId claim) (lc_userId claim) (cn_liveStreams k)\<rparr>"

section \<open>The console's requests\<close>

datatype console_request =
    Post_context "control_identity option"
  | Post_user_settings "(control_identity \<times> string) option"
  | Post_organization_settings "(control_identity \<times> organization_settings) option"
  | Post_read "(control_identity \<times> ident \<times> bool option) option"
  | Post_read_all "control_identity option"
  | Post_enrollment_token "control_identity option"
  | Post_update_machine "(control_identity \<times> ident \<times> string \<times> string) option"
  | Post_revoke_machine "(control_identity \<times> ident) option"
  | Post_agent_role "(control_identity \<times> ident \<times> agent_role) option"
  | Post_delete_agent "(control_identity \<times> ident) option"
  | Post_ping "(control_identity \<times> ident) option"
  | Post_live_token "control_identity option"

definition on_server :: "(server \<Rightarrow> 'a \<times> server) \<Rightarrow> console \<Rightarrow> 'a \<times> console" where
  "on_server f k = (case f (cn_server k) of (r, sv) \<Rightarrow> (r, k\<lparr>cn_server := sv\<rparr>))"

definition console_route ::
  "console_env \<Rightarrow> request_env \<Rightarrow> console_request \<Rightarrow> console \<Rightarrow> console_body reply \<times> console" where
  "console_route ke rx request = (case request of
       Post_context body \<Rightarrow> on_server (\<lambda>sv. case Option.bind body controlIdentitySchema of
           None \<Rightarrow> (Refused 400 ''invalid_request'', sv) | Some i \<Rightarrow> control_context ke rx i sv)
     | Post_user_settings body \<Rightarrow> on_server (update_user_settings ke rx body)
     | Post_organization_settings body \<Rightarrow> on_server (update_organization_settings rx body)
     | Post_read body \<Rightarrow> on_server (read_notification ke rx body)
     | Post_read_all body \<Rightarrow> on_server (read_all_notifications rx body)
     | Post_enrollment_token body \<Rightarrow> enrollment_token_route ke rx body
     | Post_update_machine body \<Rightarrow> on_server (update_machine_route ke rx body)
     | Post_revoke_machine body \<Rightarrow> on_server (revoke_machine_route ke rx body)
     | Post_agent_role body \<Rightarrow> on_server (agent_role_route ke rx body)
     | Post_delete_agent body \<Rightarrow> on_server (delete_agent_route id ke rx body)
     | Post_ping body \<Rightarrow> ping_machine_route ke rx body
     | Post_live_token body \<Rightarrow> live_token_route ke rx body)"

definition console_http ::
  "(string \<Rightarrow> byte list) \<Rightarrow> string option \<Rightarrow> console_env \<Rightarrow> request_env \<Rightarrow> console_request \<Rightarrow> console
     \<Rightarrow> console_body reply \<times> console" where
  "console_http digest header ke rx request k = (case requireWeb digest (ke_webKey ke) header of
       Some (code, e) \<Rightarrow> (Refused code e, k)
     | None \<Rightarrow> console_route ke rx request k)"

section \<open>The command line interface's requests\<close>

text \<open>\<open>authorize\<close>: the identity of the token with an allowed role, and its Organization.\<close>

definition cli_authorize ::
  "(string option \<Rightarrow> human_oauth_identity option) \<Rightarrow> human_role list \<Rightarrow> string option \<Rightarrow> server
     \<Rightarrow> int \<times> string + human_oauth_identity \<times> organization" where
  "cli_authorize authenticate allowedRoles authorization sv = (case authenticate authorization of
       None \<Rightarrow> Inl (401, ''invalid_cli_token'')
     | Some identity \<Rightarrow>
         if hi_role identity \<notin> set allowedRoles then Inl (403, ''insufficient_organization_role'')
         else (case organizationByExternalId (hi_organizationId identity) (sv_control sv) of
                 None \<Rightarrow> Inl (404, ''organization_not_found'')
               | Some organization \<Rightarrow> Inr (identity, organization)))"

definition cli_role_change ::
  "console_env \<Rightarrow> request_env \<Rightarrow> human_oauth_identity \<Rightarrow> organization \<Rightarrow> ident \<Rightarrow> agent_role option \<Rightarrow> server
     \<Rightarrow> console_body reply \<times> server" where
  "cli_role_change ke rx identity organization agentId body sv =
     (case body of
        None \<Rightarrow> (Refused 400 ''invalid_agent_role'', sv)
      | Some role \<Rightarrow>
          if \<not> ke_uuid ke agentId then (Refused 400 ''invalid_agent_role'', sv)
          else change_role rx (org_id organization) (hi_organizationId identity) (hi_humanId identity)
                 [(''source'', M_text ''cli'')] agentId role sv)"

text \<open>The deletion by the command line interface; here the Machines are told after the deletion.\<close>

definition cli_delete_agent ::
  "(server \<Rightarrow> server) \<Rightarrow> console_env \<Rightarrow> request_env \<Rightarrow> human_oauth_identity \<Rightarrow> organization \<Rightarrow> ident \<Rightarrow> server
     \<Rightarrow> console_body reply \<times> server" where
  "cli_delete_agent between ke rx identity organization agentId sv =
     (let org = org_id organization in
      if \<not> ke_uuid ke agentId then (Refused 400 ''invalid_agent_id'', sv)
      else if \<not> list_ex (\<lambda>a. ag_id a = agentId) (listOrganizationAgents org (sv_control sv))
      then (Refused 404 ''agent_not_found'', sv)
      else
        (case on_sessions (revokeSessions (hi_organizationId identity) (Some agentId) None (rx_now rx 1)) sv of
           (Inl e, sv) \<Rightarrow> (Crashed e, sv)
         | (Inr revoked, sv) \<Rightarrow>
             (case on_control (deleteOrganizationAgent org agentId (rx_now rx 2)) (between sv) of
                (None, sv) \<Rightarrow> (Refused 404 ''agent_not_found'', sv)
              | (Some ids, sv) \<Rightarrow>
                  let sv = closeRevokedSessions revoked ''agent_revoked'' sv in
                  (Sent 200 (K_deleted (length ids) (length revoked)),
                   notifyOrganization org (sv\<lparr>sv_control :=
                     control_audit org (hi_humanId identity) ''agent.deleted'' ''agent'' agentId
                       (Meta_values [(''revokedSessions'', M_int (int (length revoked))), (''source'', M_text ''cli'')])
                       (rx_fresh rx 1) (rx_now rx 3) (sv_control sv)\<rparr>)))))"

definition cli_ping ::
  "console_env \<Rightarrow> request_env \<Rightarrow> organization \<Rightarrow> ident \<Rightarrow> server \<Rightarrow> console_body reply \<times> server" where
  "cli_ping ke rx organization machineId sv =
     (if \<not> ke_uuid ke machineId then (Refused 400 ''invalid_machine_id'', sv)
      else if \<not> activeMachinesExist (org_id organization) [machineId] (sv_control sv)
      then (Refused 404 ''active_machine_not_found'', sv)
      else if \<not> isOnline machineId sv then (Refused 409 ''machine_offline'', sv)
      else (case gateway_ping machineId (rx_fresh rx 0) (ke_pong ke) sv of
              (Some ms, sv') \<Rightarrow> (Sent 200 (K_pong machineId ms), sv')
            | (None, sv') \<Rightarrow> (Refused 504 ''machine_ping_timeout'', sv')))"

definition cli_decide ::
  "console_env \<Rightarrow> request_env \<Rightarrow> human_oauth_identity \<Rightarrow> ident \<Rightarrow> decision \<Rightarrow> server
     \<Rightarrow> supervision_body reply \<times> server" where
  "cli_decide ke rx identity sessionId decision sv =
     (if \<not> ke_uuid ke sessionId then (Refused 400 ''invalid_session_id'', sv)
      else (case with_service (superviseSession (gateway_client (rx_now rx 1))
                    \<lparr>sp_organizationId = hi_organizationId identity, sp_humanId = hi_humanId identity, sp_role = hi_role identity\<rparr>
                    sessionId decision (rx_now rx 0)) sv of
              (Inl e, sv') \<Rightarrow> (Crashed e, sv')
            | (Inr Supervision_session_not_found, sv') \<Rightarrow> (Refused 404 ''session_not_found'', sv')
            | (Inr Supervision_already_decided, sv') \<Rightarrow> (Refused 409 ''session_already_decided'', sv')
            | (Inr (Supervised_approved s d), sv') \<Rightarrow> (Sent 202 (B_decided s (Some d)), sv')
            | (Inr (Supervised_denied s), sv') \<Rightarrow> (Sent 200 (B_decided s None), sv')))"

definition cli_timeline ::
  "console_env \<Rightarrow> request_env \<Rightarrow> human_oauth_identity \<Rightarrow> ident \<Rightarrow> server \<Rightarrow> supervision_body reply" where
  "cli_timeline ke rx identity sessionId sv =
     (if \<not> ke_uuid ke sessionId then Refused 400 ''invalid_session_id''
      else (case sessionTimeline (hi_organizationId identity) sessionId (rx_now rx 0) (sv_sessions sv) of
              None \<Rightarrow> Refused 404 ''session_not_found''
            | Some (s, cs, es) \<Rightarrow> Sent 200 (B_timeline s cs es)))"

record cli_context =
  cl_organization :: organization
  cl_usage :: "(nat \<times> nat) option"
  cl_machines :: "(machine \<times> bool) list"
  cl_agents :: "agent_identity list"
  cl_sessions :: "session list"

definition cli_context_of :: "human_oauth_identity \<Rightarrow> organization \<Rightarrow> server \<Rightarrow> cli_context" where
  "cli_context_of identity organization sv = (let org = org_id organization in
     \<lparr>cl_organization = organization, cl_usage = organizationUsage org (sv_control sv),
      cl_machines = map (\<lambda>m. (m, isOnline (mc_id m) sv)) (listMachines org (sv_control sv)),
      cl_agents = listOrganizationAgents org (sv_control sv),
      cl_sessions = listSessions (hi_organizationId identity) 200 (sv_sessions sv)\<rparr>)"

datatype cli_request =
    Cli_context
  | Cli_timeline ident
  | Cli_decide ident decision
  | Cli_role ident "agent_role option"
  | Cli_delete ident
  | Cli_ping ident

datatype cli_body = C_context cli_context | C_supervision supervision_body | C_console console_body

definition cli_allowed :: "cli_request \<Rightarrow> human_role list" where
  "cli_allowed r = (case r of
       Cli_role _ _ \<Rightarrow> [role_owner, role_admin] | Cli_delete _ \<Rightarrow> [role_owner, role_admin]
     | _ \<Rightarrow> [role_owner, role_admin, role_supervisor])"

definition cli_http ::
  "(server \<Rightarrow> server) \<Rightarrow> (string option \<Rightarrow> human_oauth_identity option) \<Rightarrow> console_env \<Rightarrow> request_env \<Rightarrow> string option
     \<Rightarrow> cli_request \<Rightarrow> server \<Rightarrow> cli_body reply \<times> server" where
  "cli_http between authenticate ke rx authorization request sv =
     (case cli_authorize authenticate (cli_allowed request) authorization sv of
        Inl (code, e) \<Rightarrow> (Refused code e, sv)
      | Inr (identity, organization) \<Rightarrow> (case request of
            Cli_context \<Rightarrow> (Sent 200 (C_context (cli_context_of identity organization sv)), sv)
          | Cli_timeline i \<Rightarrow> (map_reply C_supervision (cli_timeline ke rx identity i sv), sv)
          | Cli_decide i d \<Rightarrow> map_prod (map_reply C_supervision) id (cli_decide ke rx identity i d sv)
          | Cli_role i body \<Rightarrow> map_prod (map_reply C_console) id (cli_role_change ke rx identity organization i body sv)
          | Cli_delete i \<Rightarrow> map_prod (map_reply C_console) id (cli_delete_agent between ke rx identity organization i sv)
          | Cli_ping i \<Rightarrow> map_prod (map_reply C_console) id (cli_ping ke rx organization i sv)))"

end
