(* ===== verification/Http_Properties.thy ===== *)
theory Http_Properties
  imports Control_Http
begin

text \<open>
  What the removal of an Agent guarantees, through the session database, the control database, the gateway and
  the HTTP routes, and where requests that run during it escape.
\<close>

section \<open>Messages that were sent\<close>

definition told :: "server \<Rightarrow> nat \<Rightarrow> server_message \<Rightarrow> bool" where
  "told sv i m \<longleftrightarrow> (\<exists>s. sv_sockets sv i = Some s \<and> m \<in> set (sk_sent s))"

definition reachable_at :: "server \<Rightarrow> ident \<Rightarrow> nat \<Rightarrow> bool" where
  "reachable_at sv mid i \<longleftrightarrow> sv_connections sv mid = Some i \<and> socketReadyForAuthentication i sv"

lemma send_keeps:
  "told sv i m \<Longrightarrow> told (snd (gateway_send mid m' sv)) i m"
  "reachable_at (snd (gateway_send mid m' sv)) k i = reachable_at sv k i"
  by (auto simp: told_def reachable_at_def gateway_send_def sendSocket_def upd_socket_def socketReadyForAuthentication_def
      split: option.split)

lemma send_reaches: "reachable_at sv mid i \<Longrightarrow> told (snd (gateway_send mid m sv)) i m"
  by (auto simp: told_def reachable_at_def gateway_send_def sendSocket_def upd_socket_def socketReadyForAuthentication_def
      split: option.splits)

lemma sends_keep:
  "told sv i m \<Longrightarrow> told (fold (\<lambda>c v. snd (gateway_send mid (f c) v)) cs sv) i m"
  "reachable_at (fold (\<lambda>c v. snd (gateway_send mid (f c) v)) cs sv) k i = reachable_at sv k i"
  by (induction cs arbitrary: sv) (simp_all add: send_keeps)

lemma sends_reach:
  "reachable_at sv mid i \<Longrightarrow> c \<in> set cs \<Longrightarrow> told (fold (\<lambda>c v. snd (gateway_send mid (f c) v)) cs sv) i (f c)"
  by (induction cs arbitrary: sv) (auto simp: send_keeps send_reaches sends_keep(1))

definition close_one :: "string \<Rightarrow> session \<times> ident list \<Rightarrow> server \<Rightarrow> server" where
  "close_one reason x v = snd (gateway_send (ses_machineId (fst x)) (SM_session_close (ses_id (fst x)) reason)
     (fold (\<lambda>i v. snd (gateway_send (ses_machineId (fst x)) (SM_command_cancel i) v)) (snd x) v))"

lemma closeRevokedSessions_fold: "closeRevokedSessions revoked reason sv = fold (close_one reason) revoked sv"
  unfolding closeRevokedSessions_def close_one_def by (simp add: case_prod_unfold)

lemma close_one_keeps:
  "told sv i m \<Longrightarrow> told (close_one reason x sv) i m"
  "reachable_at (close_one reason x sv) k i = reachable_at sv k i"
  by (simp_all add: close_one_def send_keeps sends_keep)

lemma close_one_reaches:
  assumes "reachable_at sv (ses_machineId s) i"
  shows "told (close_one reason (s, cs) sv) i (SM_session_close (ses_id s) reason)"
    and "c \<in> set cs \<Longrightarrow> told (close_one reason (s, cs) sv) i (SM_command_cancel c)"
  using assms by (simp_all add: close_one_def send_reaches send_keeps sends_keep sends_reach)

lemma closes_keep: "told sv i m \<Longrightarrow> told (fold (close_one reason) xs sv) i m"
  by (induction xs arbitrary: sv) (simp_all add: close_one_keeps)

text \<open>Every connected Machine is told of the Sessions it lost, and of their Commands.\<close>

lemma closeRevokedSessions_told:
  assumes "(s, cs) \<in> set revoked" "reachable_at sv (ses_machineId s) i"
  shows "told (closeRevokedSessions revoked reason sv) i (SM_session_close (ses_id s) reason)
    \<and> (\<forall>c \<in> set cs. told (closeRevokedSessions revoked reason sv) i (SM_command_cancel c))"
  using assms unfolding closeRevokedSessions_fold
proof (induction revoked arbitrary: sv)
  case (Cons x xs)
  show ?case
  proof (cases "x = (s, cs)")
    case True
    then show ?thesis using close_one_reaches[OF Cons.prems(2)] closes_keep by simp
  next
    case False
    then show ?thesis using Cons by (simp add: close_one_keeps)
  qed
qed simp

section \<open>The removal of an Agent\<close>

text \<open>The process where the handler waits: the Sessions are revoked and the Machines told.\<close>

definition at_the_wait :: "request_env \<Rightarrow> control_identity \<Rightarrow> ident \<Rightarrow> server \<Rightarrow> server" where
  "at_the_wait rx i a sv =
     (let sv0 = snd (ensureContext rx i sv) in
      case on_sessions (revokeSessions (cid_externalId i) (Some a) None (rx_now rx 1)) sv0 of
        (Inr sessions, sv1) \<Rightarrow> closeRevokedSessions sessions ''agent_revoked'' sv1
      | (Inl _, sv1) \<Rightarrow> sv1)"

lemma ensureContext_frame:
  assumes "ensureContext rx i sv = (r, sv0)"
  shows "sv_sessions sv0 = sv_sessions sv" "reachable_at sv0 mid j = reachable_at sv mid j"
  using assms by (auto simp: ensureContext_def on_control_def reachable_at_def socketReadyForAuthentication_def split: prod.splits)

lemma delete_agent_ok:
  assumes "delete_agent_route between ke rx (Some (i, a)) sv = (Sent code b, sv')"
  shows "\<exists>i' ctx ids c1. deleteControlAgentSchema (ke_uuid ke) i a = Some (i', a)
    \<and> fst (ensureContext rx i' sv) = Inr ctx
    \<and> deleteOrganizationAgent (org_id ctx) a (rx_now rx 2) (sv_control (between (at_the_wait rx i' a sv))) = (Some ids, c1)
    \<and> sv_sessions sv' = sv_sessions (between (at_the_wait rx i' a sv))
    \<and> control_history c1 (sv_control sv') \<and> cdb_installations (sv_control sv') = cdb_installations c1"
proof -
  obtain i' where i': "deleteControlAgentSchema (ke_uuid ke) i a = Some (i', a)"
    using assms by (auto simp: delete_agent_route_def deleteControlAgentSchema_def split: option.splits if_splits)
  obtain r sv0 where c0: "ensureContext rx i' sv = (r, sv0)" by force
  then obtain ctx where r: "r = Inr ctx"
    using assms by (auto simp: delete_agent_route_def i' in_context_def split: sum.splits)
  obtain x sv1 where x: "on_sessions (revokeSessions (cid_externalId i') (Some a) None (rx_now rx 1)) sv0 = (x, sv1)" by force
  then obtain sessions where ss: "x = Inr sessions"
    using assms by (auto simp: delete_agent_route_def i' in_context_def c0 r Let_def simp del: One_nat_def split: sum.splits if_splits)
  have w: "at_the_wait rx i' a sv = closeRevokedSessions sessions ''agent_revoked'' sv1"
    by (simp add: at_the_wait_def Let_def c0 x ss del: One_nat_def)
  obtain d c1 where d: "deleteOrganizationAgent (org_id ctx) a (rx_now rx 2) (sv_control (between (at_the_wait rx i' a sv))) = (d, c1)"
    by force
  from assms obtain ids where ids: "d = Some ids"
    by (auto simp: delete_agent_route_def i' in_context_def c0 r Let_def x ss w[symmetric] on_control_def d
        simp del: One_nat_def split: option.splits if_splits)
  have hist: "control_history c1 (createNotification o1 u1 k1 t1 b1 h1 r1 n1 m1 (control_audit p2 q2 r2 s2 t2 u2 v2 w2 c1))"
    for o1 u1 k1 t1 b1 h1 r1 n1 m1 p2 q2 r2 s2 t2 u2 v2 w2
    using control_history_step[OF control_history_step[OF control_history_refl],
        of c1 "Cop_createNotification o1 u1 k1 t1 b1 h1 r1 n1 m1" "Cop_audit p2 q2 r2 s2 t2 u2 v2 w2"] by simp
  have installs: "cdb_installations (createNotification o1 u1 k1 t1 b1 h1 r1 n1 m1 (control_audit p2 q2 r2 s2 t2 u2 v2 w2 c1))
      = cdb_installations c1" for o1 u1 k1 t1 b1 h1 r1 n1 m1 p2 q2 r2 s2 t2 u2 v2 w2
    by (simp add: createNotification_def control_audit_def)
  have sv': "sv_sessions sv' = sv_sessions (between (at_the_wait rx i' a sv))" "control_history c1 (sv_control sv')"
    "cdb_installations (sv_control sv') = cdb_installations c1"
    using assms hist installs
    by (auto simp: delete_agent_route_def i' in_context_def c0 r Let_def x ss w[symmetric] on_control_def d ids
        simp del: One_nat_def split: option.splits if_splits)
  then show ?thesis using i' c0 r d ids by (metis fst_conv)
qed

lemma at_the_wait_revoked:
  assumes "db_wf (sv_sessions sv)"
  shows "\<forall>r \<in> set (db_sessions (sv_sessions (at_the_wait rx i a sv))). \<not> revocable (cid_externalId i) (Some a) None r"
    and "s \<in> set (db_sessions (sv_sessions sv)) \<Longrightarrow> revocable (cid_externalId i) (Some a) None s \<Longrightarrow>
      reachable_at sv (ses_machineId s) j \<Longrightarrow>
      told (at_the_wait rx i a sv) j (SM_session_close (ses_id s) ''agent_revoked'')
      \<and> (\<forall>c \<in> set (db_commands (sv_sessions sv)). command_of (cid_externalId i) (ses_id s) c \<longrightarrow>
           told (at_the_wait rx i a sv) j (SM_command_cancel (cmd_id c)))"
proof -
  obtain r sv0 where c0: "ensureContext rx i sv = (r, sv0)" by force
  note frame = ensureContext_frame[OF c0]
  let ?rev = "revokeSessions (cid_externalId i) (Some a) None (rx_now rx 1) (sv_sessions sv0)"
  obtain x d1 where x: "?rev = (x, d1)" by force
  have wf: "db_wf (sv_sessions sv0)" using assms frame by simp
  note rev = revocation[OF wf _ x, simplified]
  obtain sessions where ss: "x = Inr sessions" using rev by blast
  have w: "at_the_wait rx i a sv = closeRevokedSessions sessions ''agent_revoked'' (sv0\<lparr>sv_sessions := d1\<rparr>)"
    by (simp add: at_the_wait_def Let_def c0 on_sessions_def x ss del: One_nat_def)
  show "\<forall>r \<in> set (db_sessions (sv_sessions (at_the_wait rx i a sv))). \<not> revocable (cid_externalId i) (Some a) None r"
    using rev by (simp add: w)
  assume s: "s \<in> set (db_sessions (sv_sessions sv))" "revocable (cid_externalId i) (Some a) None s" "reachable_at sv (ses_machineId s) j"
  let ?t = "sessionRecord (s\<lparr>ses_status := S_revoked, ses_finishedAt := Some (rx_now rx 1)\<rparr>)"
  let ?cs = "map cmd_id (sql_where (command_of (cid_externalId i) (ses_id s)) (db_commands (sv_sessions sv0)))"
  have mem: "(?t, ?cs) \<in> set sessions"
    using rev s(1,2) ss frame(1) by (auto simp: image_iff)
  have reach: "reachable_at (sv0\<lparr>sv_sessions := d1\<rparr>) (ses_machineId ?t) j"
    using s(3) frame(2) by (simp add: reachable_at_def sessionRecord_def session.defs socketReadyForAuthentication_def)
  show "told (at_the_wait rx i a sv) j (SM_session_close (ses_id s) ''agent_revoked'')
      \<and> (\<forall>c \<in> set (db_commands (sv_sessions sv)). command_of (cid_externalId i) (ses_id s) c \<longrightarrow>
           told (at_the_wait rx i a sv) j (SM_command_cancel (cmd_id c)))"
    using closeRevokedSessions_told[OF mem reach, of "''agent_revoked''"] frame(1)
    by (auto simp: w sessionRecord_def session.defs)
qed

lemma on_control_dbs_ok: "dbs_ok sv \<Longrightarrow> control_wf (snd (f (sv_control sv))) \<Longrightarrow> dbs_ok (snd (on_control f sv))"
  by (auto simp: dbs_ok_def on_control_def split: prod.split)

lemma on_sessions_dbs_ok: "dbs_ok sv \<Longrightarrow> db_wf (snd (f (sv_sessions sv))) \<Longrightarrow> dbs_ok (snd (on_sessions f sv))"
  by (auto simp: dbs_ok_def on_sessions_def split: prod.split)

lemma ensureContext_dbs_ok: "dbs_ok sv \<Longrightarrow> dbs_ok (snd (ensureContext rx i sv))"
  unfolding ensureContext_def by (rule on_control_dbs_ok) (auto simp: dbs_ok_def ensureControlContext_keeps)

lemma at_the_wait_dbs_ok:
  assumes "dbs_ok sv"
  shows "dbs_ok (at_the_wait rx i a sv)"
proof -
  let ?sv0 = "snd (ensureContext rx i sv)"
  have ok: "dbs_ok ?sv0" by (rule ensureContext_dbs_ok[OF assms])
  then have "dbs_ok (snd (on_sessions (revokeSessions (cid_externalId i) (Some a) None (rx_now rx 1)) ?sv0))"
    by (rule on_sessions_dbs_ok) (use ok revokeSessions_wf in \<open>auto simp: dbs_ok_def\<close>)
  then show ?thesis by (auto simp: at_the_wait_def Let_def dbs_ok_def split: prod.splits sum.split)
qed

lemma principal_dbs_ok:
  assumes "dbs_ok sv"
  shows "dbs_ok (snd (agent_principal_for rx i sv))"
proof (cases "\<exists>o'. mcpOrganizations [ai_organizationId i] (sv_control sv) = [o']")
  case False
  with assms show ?thesis by (auto simp: agent_principal_for_def split: list.split)
next
  case True
  then obtain o' where o': "mcpOrganizations [ai_organizationId i] (sv_control sv) = [o']" by blast
  let ?f = "ensureMcpInstallation (mo_organizationId o') (ai_subject i) (ai_clientId i) ''Agent''
        (rx_fresh rx 0) (rx_fresh rx 1) (rx_now rx 0)"
  have "dbs_ok (snd (on_control ?f sv))"
    by (rule on_control_dbs_ok[OF assms]) (use assms ensureMcpInstallation_keeps in \<open>auto simp: dbs_ok_def\<close>)
  then show ?thesis by (auto simp: agent_principal_for_def o' split: prod.split sum.split option.split)
qed

lemma session_http_dbs_ok:
  assumes "dbs_ok sv"
  shows "dbs_ok (snd (session_http authenticate hx rx authorization request sv))"
proof (cases "authenticate authorization")
  case None
  with assms show ?thesis by (simp add: session_http_def)
next
  case (Some i)
  obtain x sv1 where x: "agent_principal_for rx i sv = (x, sv1)" by force
  have sv1: "dbs_ok sv1" using principal_dbs_ok[OF assms, of rx i] x by simp
  have "dbs_ok (snd (agent_route hx rx p request sv1))" for p
    using agent_route_confined[of sv1 hx p rx request] sv1 history_wf
    by (auto simp: confined_def dbs_ok_def)
  then show ?thesis using sv1 by (simp add: session_http_def Some x split: sum.split option.split)
qed

lemma deleted_installations:
  assumes "deleteOrganizationAgent org a now db = (Some ids, db1)" "x \<in> set (cdb_installations db1)"
  shows "\<exists>y \<in> set (cdb_installations db). mi_organizationId y = mi_organizationId x \<and> mi_agentId y = mi_agentId x
    \<and> mi_provider y = mi_provider x \<and> mi_userId y = mi_userId x \<and> mi_oauthClientId y = mi_oauthClientId x"
proof -
  have "\<exists>y \<in> set (cdb_installations db). x = y \<or> x = y\<lparr>mi_status := installation_revoked, mi_updatedAt := now\<rparr>"
    using assms by (fastforce simp: deleteOrganizationAgent_def Let_def split: if_splits)
  then show ?thesis by (elim bexE disjE, blast) force
qed

text \<open>
  C14: What the console's removal of an Agent achieves, whatever other requests run while the handler waits
  between its two databases.  Before the wait no Session of the Agent is pending, opening or active any more,
  and every connected Machine has been sent the close of each of its Sessions and the cancellation of each of
  their active Commands.  From the reply on, whatever the control database goes through, the Agent is not runnable, its role cannot be
  changed and none of the OAuth clients it was installed for gets an Agent again.  But the handler does not
  look at the Sessions a second time: the session database is what the wait left, with every Session the Agent
  obtained in it.
\<close>

theorem agent_removal:
  assumes dbs: "dbs_ok sv" and "delete_agent_route between ke rx (Some (i, a)) sv = (Sent code b, sv')"
    and between: "\<forall>v. dbs_ok v \<longrightarrow> dbs_ok (between v)"
    and "deleteControlAgentSchema (ke_uuid ke) i a = Some (i', a)" and ext: "ext = cid_externalId i'"
    and v: "v = at_the_wait rx i' a sv"
  shows "(\<forall>s \<in> set (db_sessions (sv_sessions v)). \<not> revocable ext (Some a) None s)
    \<and> (\<forall>s \<in> set (db_sessions (sv_sessions sv)). \<forall>j. revocable ext (Some a) None s \<longrightarrow> reachable_at sv (ses_machineId s) j \<longrightarrow>
         told v j (SM_session_close (ses_id s) ''agent_revoked'')
         \<and> (\<forall>c \<in> set (db_commands (sv_sessions sv)). command_of ext (ses_id s) c \<longrightarrow> told v j (SM_command_cancel (cmd_id c))))
    \<and> (\<exists>ctx. fst (ensureContext rx i' sv) = Inr ctx \<and> (\<forall>db'. control_history (sv_control sv') db' \<longrightarrow>
         (\<forall>x \<in> set (cdb_installations (sv_control sv')).
            mi_organizationId x = org_id ctx \<and> mi_agentId x = a \<and> mi_provider x = MCP_PROVIDER \<longrightarrow>
            a \<notin> set (listRunnableAgentIds (org_id ctx) db')
            \<and> (\<forall>role later. updateOrganizationAgentRole (org_id ctx) a role later db' = (None, db'))
            \<and> (\<forall>n fresh fresh' later. ensureMcpInstallation (org_id ctx) (mi_userId x) (mi_oauthClientId x) n fresh fresh' later db'
                 = (Inr None, db')))))
    \<and> sv_sessions sv' = sv_sessions (between v)"
proof -
  obtain i2 ctx ids c1 where ok: "deleteControlAgentSchema (ke_uuid ke) i a = Some (i2, a)"
    "fst (ensureContext rx i2 sv) = Inr ctx"
    "deleteOrganizationAgent (org_id ctx) a (rx_now rx 2) (sv_control (between (at_the_wait rx i2 a sv))) = (Some ids, c1)"
    "sv_sessions sv' = sv_sessions (between (at_the_wait rx i2 a sv))" "control_history c1 (sv_control sv')"
    "cdb_installations (sv_control sv') = cdb_installations c1"
    using delete_agent_ok[OF assms(2)] by blast
  have [simp]: "i2 = i'" using ok(1) assms(4) by simp
  have wf: "control_wf (sv_control (between v))"
    using between at_the_wait_dbs_ok[OF dbs] by (simp add: v dbs_ok_def)
  have out: "a \<notin> set (listRunnableAgentIds (org_id ctx) db')
      \<and> (\<forall>role later. updateOrganizationAgentRole (org_id ctx) a role later db' = (None, db'))
      \<and> (\<forall>n fresh fresh' later. ensureMcpInstallation (org_id ctx) (mi_userId x) (mi_oauthClientId x) n fresh fresh' later db'
           = (Inr None, db'))"
    if later: "control_history (sv_control sv') db'" and x: "x \<in> set (cdb_installations (sv_control sv'))"
      "mi_organizationId x = org_id ctx \<and> mi_agentId x = a \<and> mi_provider x = MCP_PROVIDER" for db' x
  proof -
    have "x \<in> set (cdb_installations c1)" using x(1) ok(6) by simp
    then obtain y where "y \<in> set (cdb_installations (sv_control (between v)))" "mi_organizationId y = mi_organizationId x"
      "mi_agentId y = mi_agentId x" "mi_provider y = mi_provider x" "mi_userId y = mi_userId x" "mi_oauthClientId y = mi_oauthClientId x"
      using deleted_installations[OF ok(3)] v by force
    then show ?thesis
      using deleted_agent_stays_out[OF wf _ control_history_trans[OF later ok(5)], of "org_id ctx" a "rx_now rx 2" ids y] ok(3) x(2) v
      by simp
  qed
  show ?thesis
    using dbs at_the_wait_revoked[of sv] ok(2,4) out by (auto simp: v ext dbs_ok_def)
qed

text \<open>An installed Agent asks for a Session while the console removes it.\<close>

definition demo_race :: "server \<Rightarrow> server" where
  "demo_race sv = snd (session_http
     (\<lambda>_. Some \<lparr>ai_subject = ''human'', ai_clientId = ''client'', ai_organizationId = ''org'', ai_scopes = [''odyshell:agent'']\<rparr>)
     \<lparr>hx_uuid = (\<lambda>_. True), hx_hash = id\<rparr> demo_rx (Some ''Bearer t'') (Post_session (Some demo_request) (Some ''key'')) sv)"

definition demo_console :: console_env where
  "demo_console = \<lparr>ke_uuid = (\<lambda>_. True), ke_known_time_zone = (\<lambda>_. True), ke_hash = id, ke_webKey = None, ke_webUrl = None,
     ke_auditRetentionMilliseconds = 1000, ke_hmac = (\<lambda>_ _. []), ke_json = (\<lambda>_. []), ke_parse_json = (\<lambda>_. None),
     ke_digest = id, ke_random = [], ke_monotonic = 0, ke_pong = None\<rparr>"

definition demo_owner :: control_identity where
  "demo_owner = \<lparr>cid_userId = ''owner'', cid_role = role_admin, cid_externalId = ''org'', cid_slug = ''acme'', cid_name = ''Acme''\<rparr>"

definition demo_removal :: "console_body reply \<times> server" where
  "demo_removal = delete_agent_route demo_race demo_console demo_rx (Some (demo_owner, ''a1'')) demo_installed_server"

lemma demo_installed_dbs_ok: "dbs_ok demo_installed_server"
  using demo_installed_ok demo_db_wf by (simp add: dbs_ok_def)

text \<open>The removal succeeds, and the Session asked for in between awaits the approval of the console.\<close>

theorem agent_removal_witness:
  "\<exists>b sv'. demo_removal = (Sent 200 b, sv')
     \<and> fst (ensureMcpInstallation ''o1'' ''human'' ''client'' ''Agent'' ''a3'' ''i3'' 9000 (sv_control sv')) = Inr None
     \<and> (\<exists>s \<in> set (db_sessions (sv_sessions (demo_race (at_the_wait demo_rx demo_owner ''a1'' demo_installed_server)))).
          s \<in> set (db_sessions (sv_sessions sv')) \<and> revocable ''org'' (Some ''a1'') None s)"
proof -
  obtain r sv' where run: "demo_removal = (r, sv')" by force
  have "(case demo_removal of (r, sv') \<Rightarrow> (case r of Sent c _ \<Rightarrow> c = 200 | _ \<Rightarrow> False)
      \<and> list_ex (revocable ''org'' (Some ''a1'') None) (db_sessions (sv_sessions sv'))
      \<and> list_ex (\<lambda>x. mi_organizationId x = ''o1'' \<and> mi_agentId x = ''a1'' \<and> mi_provider x = MCP_PROVIDER
          \<and> mi_userId x = ''human'' \<and> mi_oauthClientId x = ''client'') (cdb_installations (sv_control sv')))" by code_simp
  then obtain b s x where r: "r = Sent 200 b"
    and s: "s \<in> set (db_sessions (sv_sessions sv'))" "revocable ''org'' (Some ''a1'') None s"
    and x: "x \<in> set (cdb_installations (sv_control sv'))" "mi_organizationId x = ''o1''" "mi_agentId x = ''a1''"
      "mi_provider x = MCP_PROVIDER" "mi_userId x = ''human''" "mi_oauthClientId x = ''client''"
    unfolding run by (auto simp: list_ex_iff split: reply.splits)
  have schema: "deleteControlAgentSchema (ke_uuid demo_console) demo_owner ''a1'' = Some (demo_owner, ''a1'')" by code_simp
  have between: "\<forall>v. dbs_ok v \<longrightarrow> dbs_ok (demo_race v)" unfolding demo_race_def by (blast intro: session_http_dbs_ok)
  note removal = agent_removal[OF demo_installed_dbs_ok run[unfolded demo_removal_def r] between schema refl refl]
  have c1: "(case fst (ensureContext demo_rx demo_owner demo_installed_server) of Inr c \<Rightarrow> org_id c = ''o1'' | Inl _ \<Rightarrow> False)"
    by code_simp
  from removal[THEN conjunct2, THEN conjunct2, THEN conjunct1] obtain c
    where c: "fst (ensureContext demo_rx demo_owner demo_installed_server) = Inr c"
    and later: "\<forall>db'. control_history (sv_control sv') db' \<longrightarrow> (\<forall>x \<in> set (cdb_installations (sv_control sv')).
      mi_organizationId x = org_id c \<and> mi_agentId x = ''a1'' \<and> mi_provider x = MCP_PROVIDER \<longrightarrow>
      ''a1'' \<notin> set (listRunnableAgentIds (org_id c) db')
      \<and> (\<forall>role later. updateOrganizationAgentRole (org_id c) ''a1'' role later db' = (None, db'))
      \<and> (\<forall>n fresh fresh' later. ensureMcpInstallation (org_id c) (mi_userId x) (mi_oauthClientId x) n fresh fresh' later db'
           = (Inr None, db')))" by (elim exE conjE)
  note out = later[rule_format, OF control_history_refl x(1), THEN conjunct2, THEN conjunct2, rule_format]
  have "org_id c = ''o1''" using c1 c by simp
  with out x
  have "fst (ensureMcpInstallation ''o1'' ''human'' ''client'' ''Agent'' ''a3'' ''i3'' 9000 (sv_control sv')) = Inr None" by simp
  moreover have "sv_sessions sv' = sv_sessions (demo_race (at_the_wait demo_rx demo_owner ''a1'' demo_installed_server))"
    using removal by blast
  ultimately show ?thesis using run r s by (intro exI[of _ b] exI[of _ sv']) auto
qed

section \<open>A deletion that loses its race\<close>

text \<open>
  C30: The command line interface tells the Machines of a deletion only after the identity is deleted.  When
  another deletion of the Agent runs in between, the reply is 404 although the Sessions of the Agent
  were revoked: all the handler did is that revocation.  No Machine is told to close a Session or to cancel a
  Command, no audit event is written and no console is notified.
\<close>

theorem cli_deletion_untold:
  assumes "db_wf (sv_sessions sv)"
    and run: "cli_http between authenticate ke rx authorization (Cli_delete a) sv = (Refused 404 ''agent_not_found'', sv')"
    and auth: "cli_authorize authenticate [role_owner, role_admin] authorization sv = Inr (identity, organization)"
    and listed: "list_ex (\<lambda>x. ag_id x = a) (listOrganizationAgents (org_id organization) (sv_control sv))"
    and ext: "ext = hi_organizationId identity"
    and w: "w = sv\<lparr>sv_sessions := snd (revokeSessions ext (Some a) None (rx_now rx 1) (sv_sessions sv))\<rparr>"
  shows "(\<forall>s \<in> set (db_sessions (sv_sessions w)). \<not> revocable ext (Some a) None s)
    \<and> (\<forall>i m. told w i m = told sv i m) \<and> sv' = between w"
proof -
  obtain x d1 where x: "revokeSessions ext (Some a) None (rx_now rx 1) (sv_sessions sv) = (x, d1)" by force
  note rev = revocation[OF assms(1) _ x, simplified]
  obtain revoked where revoked: "x = Inr revoked" using rev by blast
  have w': "w = sv\<lparr>sv_sessions := d1\<rparr>" by (simp add: w x del: One_nat_def)
  have uuid: "ke_uuid ke a"
    by (rule ccontr) (use run auth in \<open>simp add: cli_http_def cli_allowed_def cli_delete_agent_def Let_def\<close>)
  obtain d c1 where d: "deleteOrganizationAgent (org_id organization) a (rx_now rx 2) (sv_control (between w)) = (d, c1)" by force
  have "d = None"
    using run auth listed uuid x revoked d
    by (auto simp: cli_http_def cli_allowed_def cli_delete_agent_def Let_def on_sessions_def on_control_def ext w'
        simp del: One_nat_def split: option.splits)
  moreover from this have "c1 = sv_control (between w)"
    using d by (auto simp: deleteOrganizationAgent_def Let_def split: if_splits)
  ultimately have "sv' = between w"
    using run auth listed uuid x revoked d
    by (auto simp: cli_http_def cli_allowed_def cli_delete_agent_def Let_def on_sessions_def on_control_def ext w'
        simp del: One_nat_def)
  then show ?thesis using rev by (simp add: w' told_def)
qed

text \<open>Two deletions at once, of an Agent with a Session on a connected Machine.\<close>

definition demo_two_server :: server where
  "demo_two_server = (start_server (empty_control_db\<lparr>cdb_organizations := [demo_organization],
     cdb_agents := [\<lparr>ag_organizationId = ''o1'', ag_id = ''agent'', ag_name = ''Agent'', ag_role = standard,
       ag_createdByHumanId = Some ''human'', ag_status = agent_active, ag_deletedAt = None, ag_createdAt = 1, ag_updatedAt = 1\<rparr>]\<rparr>)
     example_db)\<lparr>sv_sockets := [0 \<mapsto> new_socket ''c'' ''nonce''], sv_connections := [''machine'' \<mapsto> 0]\<rparr>"

definition demo_human :: "string option \<Rightarrow> human_oauth_identity option" where
  "demo_human = (\<lambda>_. Some \<lparr>hi_humanId = ''owner'', hi_organizationId = ''org'', hi_role = role_admin, hi_clientId = ''cli''\<rparr>)"

definition demo_cli_delete :: "(server \<Rightarrow> server) \<Rightarrow> server \<Rightarrow> cli_body reply \<times> server" where
  "demo_cli_delete between sv = cli_http between demo_human demo_console demo_rx (Some ''Bearer t'') (Cli_delete ''agent'') sv"

theorem cli_deletion_untold_witness:
  "\<exists>sv'. demo_cli_delete (\<lambda>v. snd (demo_cli_delete id v)) demo_two_server = (Refused 404 ''agent_not_found'', sv')
     \<and> (\<exists>s \<in> set (db_sessions (sv_sessions demo_two_server)). revocable ''org'' (Some ''agent'') None s
          \<and> reachable_at demo_two_server (ses_machineId s) 0)
     \<and> \<not> told sv' 0 (SM_session_close ''s'' ''agent_revoked'')"
proof -
  let ?between = "\<lambda>v. snd (demo_cli_delete id v)"
  obtain r sv' where run: "demo_cli_delete ?between demo_two_server = (r, sv')" by force
  let ?w = "demo_two_server\<lparr>sv_sessions := snd (revokeSessions ''org'' (Some ''agent'') None (rx_now demo_rx 1) (sv_sessions demo_two_server))\<rparr>"
  have r: "r = Refused 404 ''agent_not_found''"
  proof -
    have "fst (demo_cli_delete ?between demo_two_server) = Refused 404 ''agent_not_found''" by code_simp
    then show ?thesis by (simp add: run)
  qed
  have auth: "cli_authorize demo_human [role_owner, role_admin] (Some ''Bearer t'') demo_two_server
      = Inr (\<lparr>hi_humanId = ''owner'', hi_organizationId = ''org'', hi_role = role_admin, hi_clientId = ''cli''\<rparr>, demo_organization)"
    by code_simp
  have listed: "list_ex (\<lambda>x. ag_id x = ''agent'') (listOrganizationAgents (org_id demo_organization) (sv_control demo_two_server))"
    by code_simp
  have wf: "db_wf (sv_sessions demo_two_server)" using example_wf by (simp add: demo_two_server_def start_server_def)
  have state: "sv' = ?between ?w"
    using cli_deletion_untold[OF wf run[unfolded r, unfolded demo_cli_delete_def[of ?between]] auth listed refl refl] by simp
  have silent: "\<not> told (?between ?w) 0 (SM_session_close ''s'' ''agent_revoked'')"
  proof -
    have "\<not> list_ex (\<lambda>m. m = SM_session_close ''s'' ''agent_revoked'') (sk_sent (the (sv_sockets (?between ?w) 0)))" by code_simp
    then show ?thesis by (auto simp: told_def list_ex_iff)
  qed
  have "list_ex (\<lambda>s. revocable ''org'' (Some ''agent'') None s \<and> ses_machineId s = ''machine'') (db_sessions (sv_sessions demo_two_server))"
    by code_simp
  moreover have "reachable_at demo_two_server ''machine'' 0"
    by (simp add: demo_two_server_def reachable_at_def socketReadyForAuthentication_def new_socket_def)
  ultimately show ?thesis using run r silent state by (auto simp: list_ex_iff)
qed

end
