(* ===== verification/Mcp.thy ===== *)
theory Mcp
  imports Session_Http
begin

text \<open>
  The MCP surface: apps/server/src/remote-mcp.ts, session-mcp-runtime.ts, packages/mcp/src/agentic.ts and the
  runtime that index.ts gives it.  The transport is the MCP SDK: what it makes of a request, one call of a
  registered tool or none, is an argument.  \<open>parse_url\<close> and \<open>resolve_url\<close> are the constructors of \<open>URL\<close>.
\<close>

section \<open>Configuration\<close>

record mcp_environment = oauth_environment +
  me_ODYSHELL_MCP_ALLOWED_ORIGINS :: "string option"

record mcp_configuration =
  mcf_resource :: web_url
  mcf_issuer :: web_url
  mcf_jwks :: web_url
  mcf_allowedOrigins :: "string list"

fun split_comma :: "string \<Rightarrow> string list" where
  "split_comma [] = [[]]"
| "split_comma (c # cs) =
     (if c = CHR '','' then [] # split_comma cs
      else (case split_comma cs of s # ss \<Rightarrow> (c # s) # ss | [] \<Rightarrow> [[c]]))"

text \<open>The origins of a list of URLs, where every one of them parses.\<close>

primrec origins_of :: "(string \<Rightarrow> web_url option) \<Rightarrow> string list \<Rightarrow> string list option" where
  "origins_of parse_url [] = Some []"
| "origins_of parse_url (s # ss) = (case (parse_url (js_trim s), origins_of parse_url ss) of
     (Some u, Some us) \<Rightarrow> Some (url_origin u # us) | _ \<Rightarrow> None)"

definition remoteMcpConfiguration ::
  "(string \<Rightarrow> web_url option) \<Rightarrow> (string \<Rightarrow> web_url \<Rightarrow> web_url option) \<Rightarrow> mcp_environment
     \<Rightarrow> exn + mcp_configuration option" where
  "remoteMcpConfiguration parse_url resolve_url env =
     (if falsy (oe_ODYSHELL_MCP_URL env) \<or> falsy (oe_ODYSHELL_IDENTITY_ISSUER env) then Inr None
      else
        (case (parse_url (the (oe_ODYSHELL_MCP_URL env)), parse_url (the (oe_ODYSHELL_IDENTITY_ISSUER env))) of
           (Some resourceUrl, Some issuerUrl) \<Rightarrow>
             (case resolve_url (case oe_ODYSHELL_IDENTITY_JWKS_URL env of Some u \<Rightarrow> u | None \<Rightarrow> ''/api/auth/jwks'') issuerUrl of
                None \<Rightarrow> Inl (Exn ''Invalid URL'')
              | Some jwksUrl \<Rightarrow>
                  if oe_NODE_ENV env = Some ''production''
                     \<and> (list_ex (\<lambda>url. url_protocol url \<noteq> ''https:'' \<and> \<not> isLoopback url) [resourceUrl, issuerUrl]
                        \<or> (url_protocol jwksUrl \<noteq> ''https:'' \<and> \<not> isLoopback jwksUrl
                           \<and> oe_ODYSHELL_IDENTITY_JWKS_ALLOW_HTTP env \<noteq> Some ''true''))
                  then Inl (Exn ''Remote MCP URLs must use HTTPS in production'')
                  else
                    (case origins_of parse_url (split_comma (case me_ODYSHELL_MCP_ALLOWED_ORIGINS env of
                            Some s \<Rightarrow> s | None \<Rightarrow> url_origin resourceUrl)) of
                       None \<Rightarrow> Inl (Exn ''Invalid URL'')
                     | Some origins \<Rightarrow>
                         Inr (Some \<lparr>mcf_resource = resourceUrl, mcf_issuer = issuerUrl, mcf_jwks = jwksUrl,
                                    mcf_allowedOrigins = origins\<rparr>)))
         | _ \<Rightarrow> Inl (Exn ''Invalid URL'')))"

section \<open>Identities, origins and names\<close>

record mcp_oauth_identity =
  ri_userId :: ident
  ri_clientId :: ident
  ri_scopes :: "string list"
  ri_organizationId :: ident

definition remoteMcpIdentityFromClaims :: "claims \<Rightarrow> mcp_oauth_identity option" where
  "remoteMcpIdentityFromClaims c =
     (if ''odyshell:agent'' \<notin> set (scopes_of c) \<or> falsy (ct_organization_id c) \<or> falsy (ct_azp c) then None
      else Some \<lparr>ri_userId = (case ct_sub c of Some sub \<Rightarrow> sub | None \<Rightarrow> ''agent:'' @ the (ct_azp c)),
                 ri_clientId = the (ct_azp c), ri_scopes = scopes_of c,
                 ri_organizationId = the (ct_organization_id c)\<rparr>)"




text \<open>\<open>bearerToken\<close> of this file; the scheme is compared exactly here.\<close>

definition mcpBearerToken :: "string option \<Rightarrow> string option" where
  "mcpBearerToken authorization = (case authorization of
       None \<Rightarrow> None
     | Some a \<Rightarrow>
         if take 7 a \<noteq> ''Bearer '' then None
         else (let token = js_trim (drop 7 a) in if token = [] then None else Some token))"

definition mcp_authenticator ::
  "(mcp_configuration \<Rightarrow> string list \<Rightarrow> string \<Rightarrow> claims option) \<Rightarrow> mcp_configuration \<Rightarrow> string option
     \<Rightarrow> mcp_oauth_identity option" where
  "mcp_authenticator verify configuration authorization = (case mcpBearerToken authorization of
       None \<Rightarrow> None
     | Some token \<Rightarrow> Option.bind (verify configuration [''odyshell:agent''] token) remoteMcpIdentityFromClaims)"

text \<open>The scheme in lower case is a token for the HTTP routes and none for this one.\<close>

lemma bearer_scheme: "bearerToken (Some ''bearer t'') = Some ''t''" "mcpBearerToken (Some ''bearer t'') = None"
  by code_simp+

section \<open>Tools\<close>









section \<open>The route\<close>





section \<open>The same Agent over HTTP\<close>












end
