(* ===== verification/Spec2Isabelle.thy ===== *)
theory Spec2Isabelle
  imports Session_Properties Session_Reads Window_Limiters Control Command_Service Control_Properties
    Reconciliation Gateway_Properties Client_Properties
    Client_Output Client_Failures Shell_Executor Client_Service Client_Profile Cli_Update Cli
    Enrollment Http_Properties Mcp
begin

text \<open>
  A verification development of Odyshell: a server through which AI Agents run shell Commands on
  enrolled Machines, under Sessions that humans supervise.

  The program.  The server (src/apps/server) keeps two databases, one of Sessions and Commands and one
  of Organizations, Machines and Agents; it answers the HTTP routes of Agents, of the web console and of the command line interface, and
  holds one WebSocket per connected Machine.  The client (src/apps/client) is the process on a Machine: it
  authenticates with its key, opens Sessions within its local policy, runs Commands, journals their
  results and reports them until they are acknowledged.  Both share the wire contract
  (src/packages/protocol).  The command line interface (src/apps/cli) enrolls, installs and updates a client.

  Theories and the code they model.

    Prelude, Tables, Effects: shared vocabulary.  A table is a list of rows in insertion order and a statement a list function;
      an exception is the left side of a sum; \<open>act\<close> sequences steps that change a world and may throw.  The locales
      \<open>row_lifecycle\<close> and \<open>idempotent_table\<close> state what every table with a life cycle and every insert
      under an idempotency key promises; the tables of both databases interpret them.
    Protocol, Base64, Json: packages/protocol/src/index.ts and session.ts, and the two encodings the program relies on.
    Session_Store: session-database.ts, one operation per method of \<open>PostgresSessionDatabase\<close>.  Session_Lifecycle,
      Session_Invariants: its rows only move forward and its invariant \<open>db_wf\<close> is kept.
      Session_Properties, Session_Reads: what holds along every history \<open>db_history\<close> of operations, and what callers read.
    Session_Service, Session_Service_Properties, Command_Service: sessions.ts, the service over that database and an abstract
      \<open>session_client\<close>: admission, retries, supervision, and what a failing client cannot undo.
    Rate_Limits, Window_Limiters: the limiters and the replay guard of control.ts, against the contract of a window limiter.
    Control: the rest of control.ts (schemas, live tokens, origin and key decisions).
    Control_Store, Control_Invariants, Control_Properties: control-database.ts, with \<open>control_wf\<close> and the finality of
      revocations and deletions along every \<open>control_history\<close>.
    Reconciliation: session-reconciliation.ts, the messages for a Machine that reconnects.
    Gateway, Gateway_Invariants, Gateway_Properties: gateway.ts and the session hooks of index.ts as a state machine.  A task is
      cut at its awaits, so every interleaving of messages, closes and revocations is a sequence of \<open>gateway_step\<close>.
    Server_Process: the rest of index.ts, and privacy.ts.  Oauth: agent-oauth.ts and human-oauth.ts.
      Session_Http: session-http.ts and session-supervision-http.ts.  Control_Http: control-http.ts,
      cli-http.ts and access.ts.  Http_Properties: the removal of an Agent across both databases and the gateway.
      Mcp: remote-mcp.ts, session-mcp-runtime.ts and packages/mcp/src/agentic.ts, against the HTTP routes of Session_Http.
    Journal: client journal.ts, refined by a finite map of entries.  Client_Buffer: \<open>ClientMessageBuffer\<close>.
      Command_Control: command-control.ts.  Client: the class \<open>Client\<close> of client index.ts as a step function over events
      (a message, a finished preparation, output, an exit, a timer, a crash with restart).  Client_Invariants, Client_Steps,
      Client_Properties: the invariant of every history and that no Command starts twice.
      Client_Output: the output loop against its specification.  Client_Failures: two error paths.  Client_Demo: a
      concrete history for the witnesses.
    Client_Config, Enrollment: the configuration file, \<open>enrollClient\<close>, and the enrollment from both ends.
    Platform, Shell_Executor, Client_Service, Client_Profile: platform.ts, shell-executor.ts, service.ts and profile.ts.
    Cli, Cli_Update: errors.ts, up.ts, the global options and \<open>up\<close> and \<open>down\<close> of cli index.ts, reset.ts; update.ts.

  What the groups of lemmas show.  The \<open>_wf\<close> lemmas of the stores: every operation keeps the
  invariant and is a forward step.  The invariant of the gateway (\<open>gateway_inv\<close>) and of the client
  (\<open>client_inv\<close>): every event keeps them.  The \<open>_run\<close> and \<open>_cases\<close> lemmas: an operation is one of
  its branches.  The \<open>_frame\<close> lemmas: what an operation leaves alone.  The \<open>demo\<close> and \<open>example\<close>
  definitions are concrete states on which the witnesses apply the properties.

  Parameters.  Code outside the repository is an argument of the definitions that use it: SHA-256,
  SHA-512 and HMAC, signatures and key parsing, \<open>URL\<close>, the serialiser of live claims, the verification
  of an OAuth token, zod's formats of uuid and url, the operating system's answers to signals, the service managers, the package registry,
  Windows paths.  An answer that may differ from call to call is a function of the calls made so
  far.  Where a property relies on such code its hypothesis says how: a parser inverts its serialiser,
  a hash is injective on the requests compared, a clock advances while a loop sleeps.

  Time and granularity.  A transaction, a synchronous stretch of a handler and an event of
  the client are atomic.  An HTTP handler runs from start to reply, except where a theorem speaks of
  what runs in between (\<open>between\<close>), and except for the handlers of the gateway, which are cut at every await.
  A reading of the clock inside an event of the client is the time of the event; a request reads
  the clock and draws ids from the functions of its \<open>request_env\<close>.  Instants are integers of milliseconds.

  Termination.  Every definition is a total function; the loops of the code that poll (\<open>processGroupExited\<close>,
  \<open>terminateProcessTree\<close>) are \<open>partial_function (option)\<close>, so that not returning is the value
  \<open>None\<close>, and their return is a theorem, with the number of rounds its deadline allows.  Nothing else needs a bound or fuel.

  Not modelled.  Connections, migrations and pools of the databases, their failures, and foreign
  keys as checks (the invariants show they hold).  The column \<open>updated_at\<close> of the journal, which nothing reads, and
  failures of SQLite and of the file system other than a missing or an existing file.  Error details of zod,
  headers of replies, logging and printing.  The transport of the MCP SDK: the tool call
  it makes of a request is an argument.  The OAuth login of the command line interface (auth.ts), a browser flow.  The web console (src/apps/web):
  pages and components of Next.js and the wiring of better-auth.
\<close>

end
